(* ===== verification/Prelude.thy ===== *)
theory Prelude
  imports "HOL-Library.Word" "HOL-Library.Monad_Syntax"
begin

text \<open>
  What the components share: the machine types of the RV64 target, undefined behaviour as the
  value \<open>None\<close>, array accesses, the C \<open>for\<close> loop with early return, the total-correctness
  rules of that loop, and facts on 64-bit words (alignment, small indices, masks).
\<close>

unbundle bit_operations_syntax

section \<open>Machine types\<close>

type_synonym u8 = "8 word"
type_synonym u32 = "32 word"
type_synonym u64 = "64 word"
type_synonym addr = u64

abbreviation (input) nullptr :: addr where
  "nullptr \<equiv> 0"

named_theorems word_nat \<open>equations that read 64-bit words as natural numbers\<close>

section \<open>Arrays\<close>

text \<open>
  An array access out of bounds is undefined behaviour in C++: both functions return
  \<open>None\<close> there. A theorem that an operation returns \<open>Some\<close> is therefore also a theorem that
  it stays inside its arrays.
\<close>

definition rd :: "'a list \<Rightarrow> u64 \<Rightarrow> 'a option" where
  "rd xs i = (if unat i < length xs then Some (xs ! unat i) else None)"

definition wr :: "'a list \<Rightarrow> u64 \<Rightarrow> 'a \<Rightarrow> 'a list option" where
  "wr xs i v = (if unat i < length xs then Some (xs[unat i := v]) else None)"

lemma rd_Some [simp]: "unat i < length xs \<Longrightarrow> rd xs i = Some (xs ! unat i)"
  by (simp add: rd_def)

lemma wr_Some [simp]: "unat i < length xs \<Longrightarrow> wr xs i v = Some (xs[unat i := v])"
  by (simp add: wr_def)

section \<open>The for loop\<close>

text \<open>
  \<open>for_loop step n body i s\<close> is the C loop \<open>for (; i < n; i += step) body\<close> over the 64-bit
  counter \<open>i\<close> and the state \<open>s\<close>. The body continues with a new state (\<open>Inl\<close>) or returns
  from the enclosing function (\<open>Inr\<close>). The counter wraps as in the code, so the loop may run
  forever: that is the value \<open>None\<close>, as is undefined behaviour in the body.
\<close>

partial_function (option) for_loop ::
  "u64 \<Rightarrow> u64 \<Rightarrow> (u64 \<Rightarrow> 's \<Rightarrow> ('s + 'r) option) \<Rightarrow> u64 \<Rightarrow> 's \<Rightarrow> ('s + 'r) option" where
  "for_loop step n body i s =
     (if i < n
      then (case body i s of
              None \<Rightarrow> None
            | Some x \<Rightarrow> (case x of
                Inl s' \<Rightarrow> for_loop step n body (i + step) s'
              | Inr r \<Rightarrow> Some (Inr r)))
      else Some (Inl s))"

lemma for_loop_done: "\<not> i < n \<Longrightarrow> for_loop step n body i s = Some (Inl s)"
  by (subst for_loop.simps) simp

lemma for_loop_continue:
  "i < n \<Longrightarrow> body i s = Some (Inl s') \<Longrightarrow>
   for_loop step n body i s = for_loop step n body (i + step) s'"
  by (subst for_loop.simps) simp

lemma for_loop_return:
  "i < n \<Longrightarrow> body i s = Some (Inr r) \<Longrightarrow> for_loop step n body i s = Some (Inr r)"
  by (subst for_loop.simps) simp

text \<open>
  Total correctness with an early return: \<open>N\<close> is the number of iterations, \<open>I k\<close> holds
  before iteration \<open>k\<close>, and \<open>Q\<close> holds of every value the body returns with.
\<close>

lemma for_loop_rule_from:
  assumes run: "\<And>k. k < N \<Longrightarrow> a + of_nat k * step < n"
    and stop: "\<not> a + of_nat N * step < n"
    and body: "\<And>k s. k < N \<Longrightarrow> I k s \<Longrightarrow>
      (\<exists>s'. body (a + of_nat k * step) s = Some (Inl s') \<and> I (Suc k) s') \<or>
      (\<exists>r. body (a + of_nat k * step) s = Some (Inr r) \<and> Q r)"
    and j: "j \<le> N" "I j s"
  shows "(\<exists>s'. for_loop step n body (a + of_nat j * step) s = Some (Inl s') \<and> I N s') \<or>
         (\<exists>r. for_loop step n body (a + of_nat j * step) s = Some (Inr r) \<and> Q r)"
  using j
proof (induction j arbitrary: s rule: inc_induct)
  case base
  then show ?case by (simp add: for_loop_done [OF stop])
next
  case (step j)
  note lt = run [OF \<open>j < N\<close>]
  from body [OF \<open>j < N\<close> \<open>I j s\<close>] show ?case
  proof
    assume "\<exists>s'. body (a + of_nat j * step) s = Some (Inl s') \<and> I (Suc j) s'"
    then obtain s' where b: "body (a + of_nat j * step) s = Some (Inl s')" and I: "I (Suc j) s'"
      by blast
    have eq: "a + of_nat j * step + step = a + of_nat (Suc j) * step"
      by (simp add: algebra_simps)
    from step.IH [OF I] show ?thesis
      by (simp only: for_loop_continue [where body = body, OF lt b] eq)
  next
    assume "\<exists>r. body (a + of_nat j * step) s = Some (Inr r) \<and> Q r"
    then obtain r where b: "body (a + of_nat j * step) s = Some (Inr r)" and Q: "Q r"
      by blast
    from for_loop_return [where body = body, OF lt b] Q show ?thesis by simp
  qed
qed

lemmas for_loop_rule = for_loop_rule_from [where j = 0, simplified]

text \<open>The common shape \<open>for (size_t i = 0; i < n; ++i)\<close>.\<close>

lemma unat_less_2p64 [simp]: "unat (x :: u64) < 18446744073709551616"
  using unsigned_less [of x] by simp

lemma unat_of_nat64 [word_nat]: "k < 18446744073709551616 \<Longrightarrow> unat (of_nat k :: u64) = k"
  by (simp add: unat_of_nat take_bit_nat_eq_self)

lemma of_nat_less_iff_unat: "k \<le> unat n \<Longrightarrow> (of_nat k :: u64) < n \<longleftrightarrow> k < unat n"
  using unat_less_2p64 [of n] by (simp add: word_less_nat_alt unat_of_nat64 del: unat_less_2p64)

lemma for_upto_rule:
  fixes n :: u64
  assumes body: "\<And>k s. k < unat n \<Longrightarrow> I k s \<Longrightarrow>
      (\<exists>s'. body (of_nat k) s = Some (Inl s') \<and> I (Suc k) s') \<or>
      (\<exists>r. body (of_nat k) s = Some (Inr r) \<and> Q r)"
    and init: "I 0 s"
  shows "(\<exists>s'. for_loop 1 n body 0 s = Some (Inl s') \<and> I (unat n) s') \<or>
         (\<exists>r. for_loop 1 n body 0 s = Some (Inr r) \<and> Q r)"
proof -
  have run: "k < unat n \<Longrightarrow> 0 + of_nat k * 1 < n" for k
    by (simp add: of_nat_less_iff_unat)
  have stop: "\<not> 0 + of_nat (unat n) * 1 < n"
    by simp
  show ?thesis
    by (rule for_loop_rule [where a = 0 and I = I and Q = Q and N = "unat n", simplified])
      (use body init run stop in \<open>simp_all\<close>)
qed

text \<open>A body that never returns early.\<close>

lemma for_upto_inv:
  fixes n :: u64
  assumes "\<And>k s. k < unat n \<Longrightarrow> I k s \<Longrightarrow> \<exists>s'. body (of_nat k) s = Some (Inl s') \<and> I (Suc k) s'"
    and "I 0 s"
  obtains s' where "for_loop 1 n body 0 s = Some (Inl s')" and "I (unat n) s'"
proof -
  have "(\<exists>s'. for_loop 1 n body 0 s = Some (Inl s') \<and> I (unat n) s') \<or>
        (\<exists>r. for_loop 1 n body 0 s = Some (Inr r) \<and> False)"
    by (rule for_upto_rule [where I = I]) (use assms in blast)+
  then show thesis using that by blast
qed

lemma for_upto_ex:
  fixes n :: u64
  assumes "I 0 s"
    and "\<And>k s. k < unat n \<Longrightarrow> I k s \<Longrightarrow> \<exists>s'. body (of_nat k) s = Some (Inl s') \<and> I (Suc k) s'"
  shows "\<exists>s'. for_loop 1 n body 0 s = Some (Inl s') \<and> I (unat n) s'"
  by (rule for_upto_inv [where I = I and body = body and s = s and n = n]) (use assms in blast)+

text \<open>A search loop: no state, the body returns from the first counter value that satisfies \<open>P\<close>.\<close>

lemma for_upto_search:
  fixes n :: u64
  assumes body: "\<And>k. k < unat n \<Longrightarrow> body (of_nat k) s = Some (if P k then Inr (r k) else Inl s)"
  shows "for_loop 1 n body 0 s =
    Some (if \<exists>k < unat n. P k then Inr (r (LEAST k. k < unat n \<and> P k)) else Inl s)"
proof -
  let ?none = "\<lambda>k. \<forall>j < k. \<not> P j"
  have "(\<exists>s'. for_loop 1 n body 0 s = Some (Inl s') \<and> s' = s \<and> ?none (unat n)) \<or>
        (\<exists>x. for_loop 1 n body 0 s = Some (Inr x) \<and>
           (\<exists>k < unat n. P k \<and> ?none k \<and> x = r k))"
  proof (rule for_upto_rule)
    fix k s'
    assume "k < unat n" and "s' = s \<and> ?none k"
    then show "(\<exists>s''. body (of_nat k) s' = Some (Inl s'') \<and> s'' = s \<and> ?none (Suc k)) \<or>
        (\<exists>x. body (of_nat k) s' = Some (Inr x) \<and> (\<exists>k < unat n. P k \<and> ?none k \<and> x = r k))"
      using body [of k] by (cases "P k") (auto simp: less_Suc_eq)
  qed simp
  moreover have "(LEAST k. k < unat n \<and> P k) = m" if "m < unat n" "P m" "?none m" for m
    using that by (intro Least_equality) (auto simp: not_less [symmetric])
  ultimately show ?thesis by auto
qed

text \<open>Clearing the low bits.\<close>

lemma and_not_mask: "(x :: u64) AND NOT (mask n) = push_bit n (drop_bit n x)"
  by (rule bit_word_eqI) (auto simp: bit_simps)

end
