(* ===== verification/Intrusive_List.thy ===== *)
theory Intrusive_List
  imports Prelude
begin

text \<open>
  \<^verbatim>\<open>kernel/lib/ds/list.h\<close>, \<^verbatim>\<open>list.cpp\<close> and \<^verbatim>\<open>intrusive.h\<close>: the circular doubly linked list with a
  sentinel head that the run queue is built on. The nodes live in an explicit store, so
  aliasing is the code's; a list object is the address \<open>h\<close> of its \<^verbatim>\<open>m_head\<close>. Every pointer
  access goes through \<open>deref\<close>, which is \<open>None\<close> for the null pointer and for an address
  that holds no node. The abstraction relation \<open>dll s h xs\<close> says that the store holds, at
  \<open>h\<close>, a well-formed list of the node addresses \<open>xs\<close>; each operation is proved to compute
  the matching operation on \<open>xs\<close>, without an invalid access, and to leave all other nodes
  alone.
\<close>

section \<open>The node store\<close>

record ListNode =
  prev_ptr :: addr
  next_ptr :: addr

type_synonym node_store = "addr \<Rightarrow> ListNode option"

definition deref :: "node_store \<Rightarrow> addr \<Rightarrow> ListNode option" where
  "deref s p = (if p = nullptr then None else s p)"

definition get_next :: "node_store \<Rightarrow> addr \<Rightarrow> addr option" where
  "get_next s p = map_option next_ptr (deref s p)"

definition get_prev :: "node_store \<Rightarrow> addr \<Rightarrow> addr option" where
  "get_prev s p = map_option prev_ptr (deref s p)"

definition set_next :: "addr \<Rightarrow> addr \<Rightarrow> node_store \<Rightarrow> node_store option" where
  "set_next p v s = do { n \<leftarrow> deref s p; Some (s(p \<mapsto> n\<lparr>next_ptr := v\<rparr>)) }"

definition set_prev :: "addr \<Rightarrow> addr \<Rightarrow> node_store \<Rightarrow> node_store option" where
  "set_prev p v s = do { n \<leftarrow> deref s p; Some (s(p \<mapsto> n\<lparr>prev_ptr := v\<rparr>)) }"

section \<open>The operations of List\<close>

definition list_init :: "addr \<Rightarrow> node_store \<Rightarrow> node_store option" where
  "list_init h s = do {
     s \<leftarrow> set_next h h s;
     set_prev h h s
   }"

definition list_empty :: "addr \<Rightarrow> node_store \<Rightarrow> bool option" where
  "list_empty h s = do {
     n \<leftarrow> get_next s h;
     (if n = h then Some True else Some False)
   }"

definition push_front :: "addr \<Rightarrow> addr \<Rightarrow> node_store \<Rightarrow> node_store option" where
  "push_front h node s =
     (if node = nullptr then Some s
      else do {
        s \<leftarrow> set_prev node h s;
        hn \<leftarrow> get_next s h;
        s \<leftarrow> set_next node hn s;
        hn \<leftarrow> get_next s h;
        s \<leftarrow> set_prev hn node s;
        set_next h node s
      })"

definition push_back :: "addr \<Rightarrow> addr \<Rightarrow> node_store \<Rightarrow> node_store option" where
  "push_back h node s =
     (if node = nullptr then Some s
      else do {
        s \<leftarrow> set_next node h s;
        hp \<leftarrow> get_prev s h;
        s \<leftarrow> set_prev node hp s;
        hp \<leftarrow> get_prev s h;
        s \<leftarrow> set_next hp node s;
        set_prev h node s
      })"

definition list_remove :: "addr \<Rightarrow> node_store \<Rightarrow> node_store option" where
  "list_remove node s = do {
     p \<leftarrow> get_prev s node;
     n \<leftarrow> get_next s node;
     s \<leftarrow> set_next p n s;
     n \<leftarrow> get_next s node;
     p \<leftarrow> get_prev s node;
     set_prev n p s
   }"

definition pop_front :: "addr \<Rightarrow> node_store \<Rightarrow> (addr \<times> node_store) option" where
  "pop_front h s = do {
     e \<leftarrow> list_empty h s;
     (if e then Some (nullptr, s)
      else do {
        node_tmp \<leftarrow> get_next s h;
        s \<leftarrow> list_remove node_tmp s;
        Some (node_tmp, s)
      })
   }"

definition pop_back :: "addr \<Rightarrow> node_store \<Rightarrow> (addr \<times> node_store) option" where
  "pop_back h s = do {
     e \<leftarrow> list_empty h s;
     (if e then Some (nullptr, s)
      else do {
        node_tmp \<leftarrow> get_prev s h;
        s \<leftarrow> list_remove node_tmp s;
        Some (node_tmp, s)
      })
   }"

text \<open>\<^verbatim>\<open>KERNEL_CONTAINER_OF\<close> subtracts the member's offset from the member's address.\<close>

definition container_of :: "addr \<Rightarrow> u64 \<Rightarrow> addr" where
  "container_of p offset = p - offset"

lemma container_of_member [simp]: "container_of (obj + off) off = obj"
  by (simp add: container_of_def)

section \<open>Pointer updates on valid nodes\<close>

definition valid :: "node_store \<Rightarrow> addr \<Rightarrow> bool" where
  "valid s p \<longleftrightarrow> p \<noteq> nullptr \<and> s p \<noteq> None"

definition upd_next :: "addr \<Rightarrow> addr \<Rightarrow> node_store \<Rightarrow> node_store" where
  "upd_next p v s = s(p \<mapsto> (the (s p))\<lparr>next_ptr := v\<rparr>)"

definition upd_prev :: "addr \<Rightarrow> addr \<Rightarrow> node_store \<Rightarrow> node_store" where
  "upd_prev p v s = s(p \<mapsto> (the (s p))\<lparr>prev_ptr := v\<rparr>)"

named_theorems store_simps \<open>pointer reads and writes on valid nodes\<close>

lemma set_next_valid [store_simps]: "valid s p \<Longrightarrow> set_next p v s = Some (upd_next p v s)"
  by (auto simp: set_next_def deref_def valid_def upd_next_def)

lemma set_prev_valid [store_simps]: "valid s p \<Longrightarrow> set_prev p v s = Some (upd_prev p v s)"
  by (auto simp: set_prev_def deref_def valid_def upd_prev_def)

lemma valid_upd [store_simps]:
  "valid s p \<Longrightarrow> valid (upd_next p v s) q = valid s q"
  "valid s p \<Longrightarrow> valid (upd_prev p v s) q = valid s q"
  by (auto simp: valid_def upd_next_def upd_prev_def)

lemma get_upd [store_simps]:
  "valid s p \<Longrightarrow> get_next (upd_next p v s) = (get_next s)(p \<mapsto> v)"
  "valid s p \<Longrightarrow> get_prev (upd_next p v s) = get_prev s"
  "valid s p \<Longrightarrow> get_next (upd_prev p v s) = get_next s"
  "valid s p \<Longrightarrow> get_prev (upd_prev p v s) = (get_prev s)(p \<mapsto> v)"
  by (auto simp: fun_eq_iff valid_def upd_next_def upd_prev_def get_next_def get_prev_def deref_def)

lemma upd_other [store_simps]:
  "q \<noteq> p \<Longrightarrow> upd_next p v s q = s q"
  "q \<noteq> p \<Longrightarrow> upd_prev p v s q = s q"
  by (simp_all add: upd_next_def upd_prev_def)

lemma get_next_SomeD: "get_next s p = Some q \<Longrightarrow> valid s p"
  and get_prev_SomeD: "get_prev s p = Some q \<Longrightarrow> valid s p"
  by (auto simp: get_next_def get_prev_def deref_def valid_def split: if_splits)

section \<open>List segments and the abstraction relation\<close>

text \<open>
  \<open>seg N P a xs b\<close>: following \<open>N\<close> from \<open>a\<close> visits the nodes \<open>xs\<close> and arrives at \<open>b\<close>, and
  \<open>P\<close> leads back the same way.
\<close>

fun seg :: "(addr \<Rightarrow> addr option) \<Rightarrow> (addr \<Rightarrow> addr option) \<Rightarrow> addr \<Rightarrow> addr list \<Rightarrow> addr \<Rightarrow> bool" where
  "seg N P a [] b \<longleftrightarrow> N a = Some b \<and> P b = Some a"
| "seg N P a (x # xs) b \<longleftrightarrow> N a = Some x \<and> P x = Some a \<and> seg N P x xs b"

definition dll :: "node_store \<Rightarrow> addr \<Rightarrow> addr list \<Rightarrow> bool" where
  "dll s h xs \<longleftrightarrow> distinct (h # xs) \<and> seg (get_next s) (get_prev s) h xs h"

lemma seg_append: "seg N P a (xs @ y # ys) b \<longleftrightarrow> seg N P a xs y \<and> seg N P y ys b"
  by (induction xs arbitrary: a) auto

lemma seg_N_upd [simp]: "p \<notin> set (a # xs) \<Longrightarrow> seg (N(p := v)) P a xs b = seg N P a xs b"
  by (induction xs arbitrary: a) auto

lemma seg_P_upd [simp]: "p \<notin> set xs \<Longrightarrow> p \<noteq> b \<Longrightarrow> seg N (P(p := v)) a xs b = seg N P a xs b"
  by (induction xs arbitrary: a) auto

lemma seg_first: "seg N P a xs b \<Longrightarrow> N a = Some (hd (xs @ [b]))"
  by (cases xs) auto

lemma seg_last: "seg N P a xs b \<Longrightarrow> P b = Some (last (a # xs))"
  by (induction xs arbitrary: a) auto

lemma seg_defined: "seg N P a xs b \<Longrightarrow> x \<in> set (a # xs) \<Longrightarrow> N x \<noteq> None"
  by (induction xs arbitrary: a) auto

lemma seg_retarget:
  "seg N P a xs b \<Longrightarrow> distinct (a # xs) \<Longrightarrow> c \<notin> set xs \<Longrightarrow>
   seg (N(last (a # xs) \<mapsto> c)) (P(c \<mapsto> last (a # xs))) a xs c"
proof (induction xs arbitrary: a)
  case Nil
  then show ?case by simp
next
  case (Cons x xs)
  from Cons.prems have "seg (N(last (x # xs) \<mapsto> c)) (P(c \<mapsto> last (x # xs))) x xs c"
    by (intro Cons.IH) auto
  moreover have "a \<noteq> last (x # xs)"
    using Cons.prems(2) last_in_set [of "x # xs"] by (auto simp del: last.simps)
  ultimately show ?case using Cons.prems by (auto simp: fun_upd_def)
qed

lemma dll_valid: "dll s h xs \<Longrightarrow> x \<in> set (h # xs) \<Longrightarrow> valid s x"
  unfolding dll_def using seg_defined get_next_SomeD by fast

lemma dll_first: "dll s h xs \<Longrightarrow> get_next s h = Some (hd (xs @ [h]))"
  by (auto simp: dll_def dest: seg_first)

lemma dll_last: "dll s h xs \<Longrightarrow> get_prev s h = Some (last (h # xs))"
  unfolding dll_def by (blast dest: seg_last)

lemma dll_distinct: "dll s h xs \<Longrightarrow> distinct (h # xs)"
  by (simp add: dll_def)

section \<open>Correctness of the operations\<close>

text \<open>The nodes an operation on the list at \<open>h\<close> may write.\<close>

definition same_except :: "addr set \<Rightarrow> node_store \<Rightarrow> node_store \<Rightarrow> bool" where
  "same_except A s s' \<longleftrightarrow> (\<forall>q. q \<notin> A \<longrightarrow> s' q = s q)"

lemma same_except_refl [simp]: "same_except A s s"
  by (simp add: same_except_def)

lemma same_except_upd [store_simps]:
  "p \<in> A \<Longrightarrow> same_except A s (upd_next p v t) = same_except A s t"
  "p \<in> A \<Longrightarrow> same_except A s (upd_prev p v t) = same_except A s t"
  unfolding same_except_def by (metis store_simps(9), metis store_simps(10))

lemma list_init_correct:
  "valid s h \<Longrightarrow> \<exists>s'. list_init h s = Some s' \<and> dll s' h [] \<and> same_except {h} s s'"
  by (auto simp: list_init_def dll_def store_simps)

lemma list_empty_correct: "dll s h xs \<Longrightarrow> list_empty h s = Some (xs = [])"
  by (cases xs) (auto simp: list_empty_def dll_def)

lemma push_front_correct:
  assumes l: "dll s h xs" and node: "valid s node" "node \<notin> set (h # xs)"
  shows "\<exists>s'. push_front h node s = Some s' \<and> dll s' h (node # xs) \<and>
    same_except (set (h # node # xs)) s s'"
proof -
  let ?y = "hd (xs @ [h])"
  let ?s = "upd_next h node (upd_prev ?y node (upd_next node ?y (upd_prev node h s)))"
  have y: "?y \<in> set (h # xs)" by (cases xs) auto
  have v: "valid s h" "valid s ?y" using dll_valid [OF l] y by auto
  have nz: "node \<noteq> nullptr" "h \<noteq> node" "?y \<noteq> node" using node y by (auto simp: valid_def)
  have "push_front h node s = Some ?s"
    using v node nz dll_first [OF l] by (simp add: push_front_def store_simps)
  moreover have "dll ?s h (node # xs)"
    using l v node nz by (cases xs) (auto simp: dll_def store_simps)
  moreover have "same_except (set (h # node # xs)) s ?s"
    using y by (auto simp: store_simps)
  ultimately show ?thesis by blast
qed

lemma push_back_correct:
  assumes l: "dll s h xs" and node: "valid s node" "node \<notin> set (h # xs)"
  shows "\<exists>s'. push_back h node s = Some s' \<and> dll s' h (xs @ [node]) \<and>
    same_except (set (h # node # xs)) s s'"
proof -
  let ?l = "last (h # xs)"
  let ?s = "upd_prev h node (upd_next ?l node (upd_prev node ?l (upd_next node h s)))"
  have y: "?l \<in> set (h # xs)" by (rule last_in_set) simp
  have v: "valid s h" "valid s ?l" using dll_valid [OF l] y by simp_all
  have nz: "node \<noteq> nullptr" "h \<noteq> node" "?l \<noteq> node" using node y by (auto simp: valid_def simp del: last.simps)
  have "push_back h node s = Some ?s"
    using v node nz dll_last [OF l] by (simp add: push_back_def store_simps del: last.simps)
  moreover have "seg ((get_next s)(?l \<mapsto> node)) ((get_prev s)(node \<mapsto> ?l)) h xs node"
    using l node by (intro seg_retarget) (auto simp: dll_def)
  then have "dll ?s h (xs @ [node])"
    using dll_distinct [OF l] v node nz
    by (simp add: dll_def seg_append store_simps fun_upd_twist [of node ?l "get_next s"] del: last.simps)
  moreover have "same_except (set (h # node # xs)) s ?s"
    using y by (auto simp: store_simps simp del: last.simps)
  ultimately show ?thesis by blast
qed

lemma list_remove_correct:
  assumes l: "dll s h (ys @ node # zs)"
  shows "\<exists>s'. list_remove node s = Some s' \<and> dll s' h (ys @ zs) \<and>
    same_except (set (h # ys @ zs)) s s'"
proof -
  let ?p = "last (h # ys)" and ?n = "hd (zs @ [h])"
  let ?s = "upd_prev ?n ?p (upd_next ?p ?n s)"
  have d: "distinct (h # ys @ node # zs)" using l by (rule dll_distinct)
  have mem: "?p \<in> set (h # ys)" "?n \<in> set (h # zs)"
    by (rule last_in_set, simp) (cases zs, auto)
  have v: "valid s ?p" "valid s ?n" "valid s node"
    using mem dll_valid [OF l] by (auto simp del: last.simps)
  have ne: "?p \<noteq> node" "?p \<notin> set zs"
    using d mem(1) by (auto simp del: last.simps)
  have parts: "seg (get_next s) (get_prev s) h ys node" "seg (get_next s) (get_prev s) node zs h"
    using l by (simp_all add: dll_def seg_append)
  have nx: "get_next s node = Some ?n" "get_prev s node = Some ?p"
    using parts by (simp_all only: seg_first seg_last)
  have "list_remove node s = Some ?s"
    using v ne nx by (simp add: list_remove_def store_simps del: last.simps)
  moreover have front: "seg ((get_next s)(?p \<mapsto> c)) ((get_prev s)(c \<mapsto> ?p)) h ys c"
    if "c \<notin> set ys" for c
    using parts(1) d that by (intro seg_retarget) auto
  have "dll ?s h (ys @ zs)"
  proof (cases zs)
    case Nil
    then show ?thesis
      using front [of h] d v by (simp add: dll_def store_simps del: last.simps)
  next
    case (Cons z zs')
    then show ?thesis
      using front [of z] parts(2) d v ne
      by (auto simp: dll_def seg_append store_simps simp del: last.simps)
  qed
  moreover have "same_except (set (h # ys @ zs)) s ?s"
    using mem by (auto simp: store_simps simp del: last.simps)
  ultimately show ?thesis by blast
qed

lemma pop_front_empty: "dll s h [] \<Longrightarrow> pop_front h s = Some (nullptr, s)"
  by (simp add: pop_front_def list_empty_correct)

lemma pop_back_empty: "dll s h [] \<Longrightarrow> pop_back h s = Some (nullptr, s)"
  by (simp add: pop_back_def list_empty_correct)

lemma pop_front_correct:
  assumes l: "dll s h (x # xs)"
  shows "\<exists>s'. pop_front h s = Some (x, s') \<and> dll s' h xs \<and> same_except (set (h # xs)) s s'"
  using list_remove_correct [of s h "[]" x xs] l dll_first [OF l]
  by (auto simp: pop_front_def list_empty_correct [OF l])

lemma pop_back_correct:
  assumes l: "dll s h (xs @ [x])"
  shows "\<exists>s'. pop_back h s = Some (x, s') \<and> dll s' h xs \<and> same_except (set (h # xs)) s s'"
  using list_remove_correct [of s h xs x "[]"] l dll_last [OF l]
  by (auto simp: pop_back_def list_empty_correct [OF l])

lemma same_except_valid:
  "same_except A s s' \<Longrightarrow> q \<notin> A \<Longrightarrow> valid s' q = valid s q"
  by (simp add: same_except_def valid_def)

lemma same_except_mono: "same_except A s s' \<Longrightarrow> A \<subseteq> B \<Longrightarrow> same_except B s s'"
  by (auto simp: same_except_def)

section \<open>Sequences of operations refine a list\<close>

text \<open>
  The contract of the class as a whole: a client that only pushes nodes that are not in the
  list (or the null pointer, which the code ignores) and only removes nodes that are in it
  sees exactly a list of node addresses, whatever the order of its calls.
\<close>

datatype list_op = PushFront addr | PushBack addr | PopFront | PopBack | Remove addr

fun run_op :: "addr \<Rightarrow> list_op \<Rightarrow> node_store \<Rightarrow> (addr \<times> node_store) option" where
  "run_op h (PushFront n) s = map_option (Pair nullptr) (push_front h n s)"
| "run_op h (PushBack n) s = map_option (Pair nullptr) (push_back h n s)"
| "run_op h PopFront s = pop_front h s"
| "run_op h PopBack s = pop_back h s"
| "run_op h (Remove n) s = map_option (Pair nullptr) (list_remove n s)"

fun spec_op :: "list_op \<Rightarrow> addr list \<Rightarrow> addr \<times> addr list" where
  "spec_op (PushFront n) xs = (nullptr, if n = nullptr then xs else n # xs)"
| "spec_op (PushBack n) xs = (nullptr, if n = nullptr then xs else xs @ [n])"
| "spec_op PopFront xs = (case xs of [] \<Rightarrow> (nullptr, []) | x # ys \<Rightarrow> (x, ys))"
| "spec_op PopBack xs = (if xs = [] then (nullptr, []) else (last xs, butlast xs))"
| "spec_op (Remove n) xs = (nullptr, remove1 n xs)"

fun legal_op :: "(addr \<Rightarrow> bool) \<Rightarrow> list_op \<Rightarrow> addr list \<Rightarrow> bool" where
  "legal_op ok (PushFront n) xs \<longleftrightarrow> n = nullptr \<or> ok n \<and> n \<notin> set xs"
| "legal_op ok (PushBack n) xs \<longleftrightarrow> n = nullptr \<or> ok n \<and> n \<notin> set xs"
| "legal_op ok (Remove n) xs \<longleftrightarrow> n \<in> set xs"
| "legal_op ok _ xs \<longleftrightarrow> True"

fun run_ops :: "addr \<Rightarrow> list_op list \<Rightarrow> node_store \<Rightarrow> (addr list \<times> node_store) option" where
  "run_ops h [] s = Some ([], s)"
| "run_ops h (f # fs) s = do {
     (r, s) \<leftarrow> run_op h f s;
     (rs, s) \<leftarrow> run_ops h fs s;
     Some (r # rs, s)
   }"

fun spec_ops :: "list_op list \<Rightarrow> addr list \<Rightarrow> addr list \<times> addr list" where
  "spec_ops [] xs = ([], xs)"
| "spec_ops (f # fs) xs =
     (let (r, ys) = spec_op f xs; (rs, zs) = spec_ops fs ys in (r # rs, zs))"

fun legal_ops :: "(addr \<Rightarrow> bool) \<Rightarrow> list_op list \<Rightarrow> addr list \<Rightarrow> bool" where
  "legal_ops ok [] xs \<longleftrightarrow> True"
| "legal_ops ok (f # fs) xs \<longleftrightarrow> legal_op ok f xs \<and> legal_ops ok fs (snd (spec_op f xs))"

definition pushable :: "node_store \<Rightarrow> addr \<Rightarrow> addr \<Rightarrow> bool" where
  "pushable s h n \<longleftrightarrow> valid s n \<and> n \<noteq> h"

lemma set_next_keeps_valid: "set_next p v s = Some s' \<Longrightarrow> valid s' q = valid s q"
  and set_prev_keeps_valid: "set_prev p v s = Some s' \<Longrightarrow> valid s' q = valid s q"
  by (auto simp: set_next_def set_prev_def valid_def deref_def split: bind_splits if_splits)

lemmas keeps_valid = set_next_keeps_valid set_prev_keeps_valid

lemma push_front_keeps_valid: "push_front h n s = Some s' \<Longrightarrow> valid s' q = valid s q"
  by (auto simp: push_front_def keeps_valid split: bind_splits if_splits)

lemma push_back_keeps_valid: "push_back h n s = Some s' \<Longrightarrow> valid s' q = valid s q"
  by (auto simp: push_back_def keeps_valid split: bind_splits if_splits)

lemma list_remove_keeps_valid: "list_remove n s = Some s' \<Longrightarrow> valid s' q = valid s q"
  by (auto simp: list_remove_def keeps_valid split: bind_splits)

lemma pop_front_keeps_valid: "pop_front h s = Some (r, s') \<Longrightarrow> valid s' q = valid s q"
  by (auto simp: pop_front_def list_remove_keeps_valid split: bind_splits if_splits)

lemma pop_back_keeps_valid: "pop_back h s = Some (r, s') \<Longrightarrow> valid s' q = valid s q"
  by (auto simp: pop_back_def list_remove_keeps_valid split: bind_splits if_splits)

lemma run_op_keeps_valid: "run_op h f s = Some (r, s') \<Longrightarrow> valid s' q = valid s q"
  by (cases f) (auto simp: push_front_keeps_valid push_back_keeps_valid
      list_remove_keeps_valid pop_front_keeps_valid pop_back_keeps_valid)

lemma push_null [simp]: "push_front h nullptr s = Some s" "push_back h nullptr s = Some s"
  by (simp_all add: push_front_def push_back_def)

lemma run_op_correct:
  assumes l: "dll s h xs" and ok: "legal_op (pushable s h) f xs"
  shows "\<exists>s'. run_op h f s = Some (fst (spec_op f xs), s') \<and> dll s' h (snd (spec_op f xs))"
proof (cases f)
  case (PushFront n)
  then show ?thesis using l ok push_front_correct [OF l, of n]
    by (cases "n = nullptr") (auto simp: pushable_def)
next
  case (PushBack n)
  then show ?thesis using l ok push_back_correct [OF l, of n]
    by (cases "n = nullptr") (auto simp: pushable_def)
next
  case PopFront
  then show ?thesis using l pop_front_correct pop_front_empty
    by (cases xs) fastforce+
next
  case PopBack
  then show ?thesis using l pop_back_correct pop_back_empty
    by (cases xs rule: rev_cases) fastforce+
next
  case (Remove n)
  then obtain ys zs where xs: "xs = ys @ n # zs" "n \<notin> set ys"
    using ok split_list_first [of n xs] by auto
  then show ?thesis using Remove l list_remove_correct [of s h ys n zs]
    by (auto simp: remove1_append)
qed

lemma run_ops_correct:
  assumes "dll s h xs" and "legal_ops (pushable s h) fs xs"
  shows "\<exists>s'. run_ops h fs s = Some (fst (spec_ops fs xs), s') \<and> dll s' h (snd (spec_ops fs xs))"
  using assms
proof (induction fs arbitrary: s xs)
  case Nil
  then show ?case by simp
next
  case (Cons f fs)
  from Cons.prems run_op_correct [of s h xs f] obtain s1 where
    s1: "run_op h f s = Some (fst (spec_op f xs), s1)" "dll s1 h (snd (spec_op f xs))"
    by auto
  have "pushable s1 h = pushable s h"
    using run_op_keeps_valid [OF s1(1)] by (simp add: pushable_def fun_eq_iff)
  with Cons.IH [OF s1(2)] Cons.prems obtain s2 where
    "run_ops h fs s1 = Some (fst (spec_ops fs (snd (spec_op f xs))), s2)"
    "dll s2 h (snd (spec_ops fs (snd (spec_op f xs))))"
    by auto
  with s1 show ?case by (auto simp: split_beta)
qed

section \<open>Properties\<close>

text \<open>Property (C40): every history of calls on a list refines the abstract sequence. From
  \<^verbatim>\<open>init()\<close> on, any sequence of \<^verbatim>\<open>push_front\<close>, \<^verbatim>\<open>push_back\<close>, \<^verbatim>\<open>pop_front\<close>, \<^verbatim>\<open>pop_back\<close> and
  \<^verbatim>\<open>remove\<close> that pushes only live nodes not already linked and removes only linked ones runs
  without an invalid access, returns what the same operations return on a plain sequence,
  and leaves the links of a well-formed circular list of exactly that sequence.\<close>

theorem list_refines_sequence:
  assumes "valid s h" and "legal_ops (pushable s h) fs []"
  shows "\<exists>s0 s'. list_init h s = Some s0 \<and>
    run_ops h fs s0 = Some (fst (spec_ops fs []), s') \<and> dll s' h (snd (spec_ops fs []))"
proof -
  obtain s0 where s0: "list_init h s = Some s0" "dll s0 h []"
    using list_init_correct [OF assms(1)] by blast
  have "valid s0 q = valid s q" for q
    using s0(1) by (auto simp: list_init_def keeps_valid split: bind_splits)
  then have "pushable s0 h = pushable s h" by (simp add: pushable_def fun_eq_iff)
  with run_ops_correct [OF s0(2), of fs] assms(2) s0(1) show ?thesis by auto
qed

definition fresh_nodes :: "addr list \<Rightarrow> node_store" where
  "fresh_nodes ps = (\<lambda>p. if p \<in> set ps then Some \<lparr>prev_ptr = nullptr, next_ptr = nullptr\<rparr> else None)"

lemma fresh_nodes_valid [simp]: "valid (fresh_nodes ps) p \<longleftrightarrow> p \<noteq> nullptr \<and> p \<in> set ps"
  by (simp add: valid_def fresh_nodes_def)

lemma list_refines_sequence_witness:
  "\<exists>s0 s'. list_init 8 (fresh_nodes [8, 16, 24]) = Some s0 \<and>
    run_ops 8 [PushBack 16, PushFront 24, Remove 16, PushBack 16, PopFront, PopBack, PopBack] s0 =
      Some ([0, 0, 0, 0, 24, 16, 0], s') \<and> dll s' 8 []"
  using list_refines_sequence [of "fresh_nodes [8, 16, 24]" 8
      "[PushBack 16, PushFront 24, Remove 16, PushBack 16, PopFront, PopBack, PopBack]"]
  by (simp add: pushable_def)

text \<open>\<^verbatim>\<open>remove\<close> unlinks exactly the given node from any position of a list, without
  an invalid access, and changes no node outside the remaining list: in particular the
  removed node keeps its stale links, and nodes of other lists are untouched.\<close>

lemma list_remove_local:
  assumes "dll s h (ys @ node # zs)"
  shows "\<exists>s'. list_remove node s = Some s' \<and> dll s' h (ys @ zs) \<and>
    (\<forall>p. p \<notin> set (h # ys @ zs) \<longrightarrow> s' p = s p) \<and> s' node = s node"
proof -
  obtain s' where s': "list_remove node s = Some s'" "dll s' h (ys @ zs)"
    "same_except (set (h # ys @ zs)) s s'"
    using list_remove_correct [OF assms] by blast
  have "node \<notin> set (h # ys @ zs)" using dll_distinct [OF assms] by auto
  with s' show ?thesis unfolding same_except_def by blast
qed

text \<open>A list of two nodes, 16 and 24, with its head at 8.\<close>

definition two_nodes :: node_store where
  "two_nodes = [8 \<mapsto> \<lparr>prev_ptr = 24, next_ptr = 16\<rparr>, 16 \<mapsto> \<lparr>prev_ptr = 8, next_ptr = 24\<rparr>,
     24 \<mapsto> \<lparr>prev_ptr = 16, next_ptr = 8\<rparr>]"

lemma two_nodes_dll: "dll two_nodes 8 [16, 24]"
  by (simp add: dll_def two_nodes_def get_next_def get_prev_def deref_def)

lemma list_remove_local_witness:
  "\<exists>s'. list_remove 16 two_nodes = Some s' \<and> dll s' 8 [24] \<and>
    s' 16 = Some \<lparr>prev_ptr = 8, next_ptr = 24\<rparr>"
  using list_remove_local [of two_nodes 8 "[]" 16 "[24]"] two_nodes_dll
  by (auto simp: two_nodes_def)

end
