(* ===== verification/Intrusive_Queue.thy ===== *)
theory Intrusive_Queue
  imports Intrusive_List
begin

text \<open>
  \<^verbatim>\<open>kernel/lib/ds/queue.h\<close> and \<^verbatim>\<open>queue.cpp\<close>: the FIFO queue over the intrusive list. The locale
  \<open>fifo\<close> is the contract a queue promises its client (the run queue): what push and pop do to
  the abstract sequence of nodes, and that they keep every other node usable. Its lemmas say
  that nodes leave in the order in which they entered. It is interpreted on the model of
  \<^verbatim>\<open>Queue\<close>.
\<close>

section \<open>The operations of Queue\<close>

definition queue_init :: "addr \<Rightarrow> node_store \<Rightarrow> node_store option" where
  "queue_init h s = list_init h s"

definition queue_empty :: "addr \<Rightarrow> node_store \<Rightarrow> bool option" where
  "queue_empty h s = list_empty h s"

definition queue_push :: "addr \<Rightarrow> addr \<Rightarrow> node_store \<Rightarrow> node_store option" where
  "queue_push h node s = push_back h node s"

definition queue_pop :: "addr \<Rightarrow> node_store \<Rightarrow> (addr \<times> node_store) option" where
  "queue_pop h s = do {
     e \<leftarrow> list_empty h s;
     (if e then Some (nullptr, s) else pop_front h s)
   }"

section \<open>The contract of a FIFO queue\<close>

fun push_all :: "(addr \<Rightarrow> 's \<Rightarrow> 's option) \<Rightarrow> addr list \<Rightarrow> 's \<Rightarrow> 's option" where
  "push_all push [] s = Some s"
| "push_all push (n # ns) s = do { s \<leftarrow> push n s; push_all push ns s }"

fun pop_many :: "('s \<Rightarrow> (addr \<times> 's) option) \<Rightarrow> nat \<Rightarrow> 's \<Rightarrow> (addr list \<times> 's) option" where
  "pop_many pop 0 s = Some ([], s)"
| "pop_many pop (Suc k) s = do {
     (n, s) \<leftarrow> pop s;
     (ns, s) \<leftarrow> pop_many pop k s;
     Some (n # ns, s)
   }"

locale fifo =
  fixes push :: "addr \<Rightarrow> 's \<Rightarrow> 's option"
    and pop :: "'s \<Rightarrow> (addr \<times> 's) option"
    and is_empty :: "'s \<Rightarrow> bool option"
    and rep :: "'s \<Rightarrow> addr list \<Rightarrow> bool"
    and ok :: "'s \<Rightarrow> addr \<Rightarrow> bool"
  assumes push_law: "rep s xs \<Longrightarrow> ok s n \<Longrightarrow> n \<notin> set xs \<Longrightarrow>
      \<exists>s'. push n s = Some s' \<and> rep s' (xs @ [n]) \<and> ok s' = ok s"
    and pop_law: "rep s (x # xs) \<Longrightarrow>
      \<exists>s'. pop s = Some (x, s') \<and> rep s' xs \<and> ok s' = ok s"
    and pop_empty_law: "rep s [] \<Longrightarrow> pop s = Some (nullptr, s)"
    and is_empty_law: "rep s xs \<Longrightarrow> is_empty s = Some (xs = [])"
    and rep_law: "rep s xs \<Longrightarrow> distinct xs \<and> (\<forall>x \<in> set xs. ok s x) \<and> nullptr \<notin> set xs"
begin

lemma push_all_law:
  assumes "rep s xs" "distinct (xs @ ns)" "\<forall>n \<in> set ns. ok s n"
  shows "\<exists>s'. push_all push ns s = Some s' \<and> rep s' (xs @ ns) \<and> ok s' = ok s"
  using assms
proof (induction ns arbitrary: s xs)
  case Nil
  then show ?case by simp
next
  case (Cons n ns)
  with push_law [of s xs n] obtain s1 where
    s1: "push n s = Some s1" "rep s1 (xs @ [n])" "ok s1 = ok s"
    by auto
  with Cons.IH [OF s1(2)] Cons.prems show ?case by auto
qed

lemma pop_many_law:
  assumes "rep s (xs @ ys)"
  shows "\<exists>s'. pop_many pop (length xs) s = Some (xs, s') \<and> rep s' ys \<and> ok s' = ok s"
  using assms
proof (induction xs arbitrary: s)
  case Nil
  then show ?case by simp
next
  case (Cons x xs)
  then obtain s1 where s1: "pop s = Some (x, s1)" "rep s1 (xs @ ys)" "ok s1 = ok s"
    using pop_law [of s x "xs @ ys"] by auto
  with Cons.IH [OF s1(2)] show ?case by auto
qed

lemma fifo_order:
  assumes "rep s []" "distinct ns" "\<forall>n \<in> set ns. ok s n"
  shows "\<exists>s1 s2. push_all push ns s = Some s1 \<and> pop_many pop (length ns) s1 = Some (ns, s2) \<and> rep s2 []"
  using push_all_law [of s "[]" ns] pop_many_law [of _ ns "[]"] assms by fastforce

lemma pop_result:
  "rep s xs \<Longrightarrow> \<exists>s'. pop s = Some (case xs of [] \<Rightarrow> nullptr | x # _ \<Rightarrow> x, s') \<and>
     rep s' (tl xs) \<and> ok s' = ok s"
  using pop_law pop_empty_law by (cases xs) auto

lemma rotate_law:
  assumes "rep s (x # xs)" "ok s n" "n \<notin> set (x # xs)"
  shows "\<exists>s1 s2. pop s = Some (x, s1) \<and> push n s1 = Some s2 \<and> rep s2 (xs @ [n]) \<and> ok s2 = ok s"
proof -
  obtain s1 where s1: "pop s = Some (x, s1)" "rep s1 xs" "ok s1 = ok s"
    using pop_law [OF assms(1)] by blast
  with push_law [of s1 xs n] assms(2,3) show ?thesis by auto
qed

end

section \<open>Queue implements it\<close>

lemma queue_push_keeps_pushable: "queue_push h n s = Some s' \<Longrightarrow> pushable s' h = pushable s h"
  by (simp add: pushable_def fun_eq_iff queue_push_def push_back_keeps_valid)

lemma queue_pop_keeps_valid: "queue_pop h s = Some (n, s') \<Longrightarrow> valid s' q = valid s q"
  by (auto simp: queue_pop_def pop_front_keeps_valid split: bind_splits if_splits)

lemma queue_pop_keeps_pushable: "queue_pop h s = Some (n, s') \<Longrightarrow> pushable s' h = pushable s h"
  unfolding pushable_def fun_eq_iff by (simp add: queue_pop_keeps_valid)

lemma queue_pop_eq: "dll s h xs \<Longrightarrow> queue_pop h s = pop_front h s"
  by (auto simp: queue_pop_def list_empty_correct pop_front_empty)

interpretation ready: fifo "queue_push h" "queue_pop h" "queue_empty h" "\<lambda>s. dll s h" "\<lambda>s. pushable s h"
  for h
proof unfold_locales
  fix s xs n
  assume "dll s h xs" "pushable s h n" "n \<notin> set xs"
  then show "\<exists>s'. queue_push h n s = Some s' \<and> dll s' h (xs @ [n]) \<and> pushable s' h = pushable s h"
    using push_back_correct [of s h xs n] queue_push_keeps_pushable [of h n s]
    by (auto simp: pushable_def queue_push_def)
next
  fix s x xs
  assume l: "dll s h (x # xs)"
  then show "\<exists>s'. queue_pop h s = Some (x, s') \<and> dll s' h xs \<and> pushable s' h = pushable s h"
    using pop_front_correct [OF l] queue_pop_keeps_pushable [of h s x]
    by (auto simp: queue_pop_eq [OF l])
next
  fix s
  assume "dll s h []"
  then show "queue_pop h s = Some (nullptr, s)"
    by (simp add: queue_pop_def list_empty_correct)
next
  fix s xs
  assume "dll s h xs"
  then show "queue_empty h s = Some (xs = [])"
    by (simp add: queue_empty_def list_empty_correct)
next
  fix s xs
  assume l: "dll s h xs"
  then show "distinct xs \<and> (\<forall>x\<in>set xs. pushable s h x) \<and> nullptr \<notin> set xs"
    using dll_valid [OF l] dll_distinct [OF l] by (auto simp: pushable_def valid_def)
qed

section \<open>Properties\<close>

text \<open>A queue hands its nodes out in the order in which they were pushed. Pushing
  any distinct live nodes on an empty queue and popping as often runs without an invalid
  access, returns exactly those nodes in that order, leaves the queue empty, and one more
  \<^verbatim>\<open>pop\<close> returns the null pointer without changing anything.\<close>

lemma queue_is_fifo:
  assumes "dll s h []" and "distinct ns" and "\<forall>n \<in> set ns. valid s n \<and> n \<noteq> h"
  shows "\<exists>s1 s2. push_all (queue_push h) ns s = Some s1 \<and>
    pop_many (queue_pop h) (length ns) s1 = Some (ns, s2) \<and>
    queue_empty h s2 = Some True \<and> queue_pop h s2 = Some (nullptr, s2)"
proof -
  have "\<forall>n \<in> set ns. pushable s h n" using assms(3) by (simp add: pushable_def)
  with assms(1,2) obtain s1 s2 where "push_all (queue_push h) ns s = Some s1"
    "pop_many (queue_pop h) (length ns) s1 = Some (ns, s2)" "dll s2 h []"
    using ready.fifo_order [of s h ns] by blast
  then show ?thesis using ready.pop_empty_law ready.is_empty_law by auto
qed

definition one_head :: node_store where
  "one_head = (fresh_nodes [8, 16, 24, 32])(8 \<mapsto> \<lparr>prev_ptr = 8, next_ptr = 8\<rparr>)"

lemma queue_is_fifo_witness:
  "\<exists>s1 s2. push_all (queue_push 8) [24, 16, 32] one_head = Some s1 \<and>
    pop_many (queue_pop 8) 3 s1 = Some ([24, 16, 32], s2) \<and>
    queue_empty 8 s2 = Some True \<and> queue_pop 8 s2 = Some (nullptr, s2)"
  using queue_is_fifo [of one_head 8 "[24, 16, 32]"]
  by (simp add: one_head_def fresh_nodes_def dll_def valid_def get_next_def get_prev_def
      deref_def numeral_3_eq_3)

end
