(* ===== verification/Bit_Array.thy ===== *)
theory Bit_Array
  imports Prelude
begin

text \<open>
  Arrays of 64-bit words read as arrays of bits: what \<^verbatim>\<open>kernel/lib/ds/bitmap.cpp\<close> and the
  physical memory manager (\<^verbatim>\<open>kernel/mm/pmm.cpp\<close>) have in common. Only facts on the library's
  words stand here; the code of both is in the theories Bitmap and Pmm.
\<close>

text \<open>The mask \<^verbatim>\<open>1ULL << n\<close>; the code only shifts by less than 64.\<close>

definition shl1 :: "nat \<Rightarrow> u64" where
  "shl1 n = push_bit n 1"

definition bit_at :: "u64 list \<Rightarrow> nat \<Rightarrow> bool" where
  "bit_at ws i = bit (ws ! (i div 64)) (i mod 64)"

lemma and_mask_neq_0: "(w :: u64) AND shl1 n \<noteq> 0 \<longleftrightarrow> bit w n"
  by (simp add: shl1_def bit_iff_and_push_bit_not_eq_0)

lemma and_mask_eq_0: "(w :: u64) AND shl1 n = 0 \<longleftrightarrow> \<not> bit w n"
  by (simp add: shl1_def bit_iff_and_push_bit_not_eq_0)

lemma bit_or_mask: "n < 64 \<Longrightarrow> bit ((w :: u64) OR shl1 n) m \<longleftrightarrow> bit w m \<or> m = n"
  by (auto simp: shl1_def bit_simps)

lemma bit_and_not_mask: "bit ((w :: u64) AND NOT (shl1 n)) m \<longleftrightarrow> bit w m \<and> m \<noteq> n"
  by (auto simp: shl1_def bit_simps dest: bit_imp_le_length)

lemma bit_index_iff: "j < 64 \<Longrightarrow> i = 64 * k + j \<longleftrightarrow> i div 64 = k \<and> i mod 64 = j" for i :: nat
  using mult_div_mod_eq [of 64 i] by auto

lemma bit_at_or:
  assumes "j < 64" "k < length ws"
  shows "bit_at (ws[k := ws ! k OR shl1 j]) i \<longleftrightarrow> bit_at ws i \<or> i = 64 * k + j"
  using assms by (auto simp: bit_at_def bit_or_mask nth_list_update bit_index_iff)

lemma bit_at_and_not:
  assumes "j < 64" "k < length ws"
  shows "bit_at (ws[k := ws ! k AND NOT (shl1 j)]) i \<longleftrightarrow> bit_at ws i \<and> i \<noteq> 64 * k + j"
  using assms by (auto simp: bit_at_def bit_and_not_mask nth_list_update bit_index_iff)

text \<open>Word and bit position of a bit index, computed on 64-bit words as the code does.\<close>

lemma unat_div64 [word_nat]: "unat ((b :: u64) div 64) = unat b div 64"
  by (simp add: unat_div)

lemma unat_mod64 [word_nat]: "unat ((b :: u64) mod 64) = unat b mod 64"
  by (simp add: unat_mod)

lemma unat_mod64_less [simp]: "unat ((b :: u64) mod 64) < 64"
  by (simp add: unat_mod64)

lemma div_mod_64: "64 * (i div 64) + i mod 64 = (i :: nat)"
  by simp

lemma words_for_bits: "(c + 63) div 64 = (if c mod 64 = 0 then c div 64 else Suc (c div 64))" for c :: nat
proof -
  obtain q r where c: "c = r + q * 64" and r: "r < (64 :: nat)"
    using mod_less_divisor [of 64 c] by (metis div_mult_mod_eq add.commute zero_less_numeral)
  have "c + 63 = (r + 63) + q * 64" by (simp add: c)
  then have "(c + 63) div 64 = q + (r + 63) div 64" by (simp only: div_mult_self1)
  moreover have "(r + 63) div 64 = (if r = 0 then 0 else 1)"
    using r by (auto intro: div_nat_eqI)
  moreover have "c div 64 = q" "c mod 64 = r" using r by (simp_all add: c)
  ultimately show ?thesis by simp
qed

text \<open>The number of clear bits of an array, which the code's counters follow.\<close>

definition clear_bits :: "u64 list \<Rightarrow> nat set" where
  "clear_bits ws = {i. i < 64 * length ws \<and> \<not> bit_at ws i}"

lemma finite_clear_bits [simp]: "finite (clear_bits ws)"
  by (simp add: clear_bits_def)

lemma clear_bits_or:
  assumes "j < 64" "k < length ws"
  shows "clear_bits (ws[k := ws ! k OR shl1 j]) = clear_bits ws - {64 * k + j}"
  using assms by (auto simp: clear_bits_def bit_at_or)

lemma clear_bits_and_not:
  assumes "j < 64" "k < length ws"
  shows "clear_bits (ws[k := ws ! k AND NOT (shl1 j)]) = insert (64 * k + j) (clear_bits ws)"
  using assms by (auto simp: clear_bits_def bit_at_and_not)

text \<open>The low-bits mask \<^verbatim>\<open>(1ULL << n) - 1\<close>.\<close>

lemma bit_low_mask: "n < 64 \<Longrightarrow> j < 64 \<Longrightarrow> bit (shl1 n - 1) j \<longleftrightarrow> j < n"
  by (simp add: shl1_def flip: mask_eq_decr_exp) (simp add: bit_mask_iff)

lemma word_eq_ones_iff: "(w :: u64) = NOT 0 \<longleftrightarrow> (\<forall>j < 64. bit w j)"
  using bit_imp_le_length [of w] by (auto simp: bit_eq_iff bit_simps)

lemma least_clear_bit:
  fixes w :: u64
  assumes "j < 64" "\<not> bit w j"
  shows "\<not> bit w (LEAST j. \<not> bit w j)" and "(LEAST j. \<not> bit w j) < 64"
  using assms LeastI [of "\<lambda>j. \<not> bit w j" j] Least_le [of "\<lambda>j. \<not> bit w j" j] by auto

lemma least_index_split:
  fixes P :: "nat \<Rightarrow> bool"
  assumes "k < N" "j < 64" "P (64 * k + j)"
    and first: "\<And>k' j'. k' < k \<Longrightarrow> j' < 64 \<Longrightarrow> \<not> P (64 * k' + j')" "\<And>j'. j' < j \<Longrightarrow> \<not> P (64 * k + j')"
  shows "(LEAST i. P i) = 64 * k + j"
proof (rule Least_equality)
  fix i
  assume "P i"
  then have Pi: "P (64 * (i div 64) + i mod 64)" by simp
  then have "k \<le> i div 64" using first(1) [of "i div 64" "i mod 64"] by (auto simp: not_less [symmetric])
  moreover have "k = i div 64 \<Longrightarrow> j \<le> i mod 64"
    using Pi first(2) [of "i mod 64"] by (metis not_less)
  ultimately show "64 * k + j \<le> i" using \<open>j < 64\<close>
    by (cases "k = i div 64") (use div_mod_64 [of i] in linarith)+
qed fact

end
