(* ===== verification/Bitmap.thy ===== *)
theory Bitmap
  imports Bit_Array
begin

text \<open>
  \<^verbatim>\<open>kernel/lib/ds/bitmap.h\<close> and \<^verbatim>\<open>bitmap.cpp\<close>: a bitmap over a caller's array of 64-bit words.
  \<open>bits_of b\<close> is the set of bit numbers below \<open>m_bit_count\<close> that are set; \<open>bm_wf b\<close> says that
  the caller's array is as long as the constructor's argument requires.
\<close>

record Bitmap =
  m_words :: "u64 list"
  m_bit_count :: u64

definition kBitsPerWord :: u64 where
  "kBitsPerWord = 8 * 8"

definition word_count_for_bits :: "u64 \<Rightarrow> u64" where
  "word_count_for_bits bit_count = (bit_count + kBitsPerWord - 1) div kBitsPerWord"

definition word_index_for_bit :: "u64 \<Rightarrow> u64" where
  "word_index_for_bit b = b div kBitsPerWord"

definition bit_offset_for_bit :: "u64 \<Rightarrow> u64" where
  "bit_offset_for_bit b = b mod kBitsPerWord"

definition first_set_bit_offset :: "u64 \<Rightarrow> u64 option" where
  "first_set_bit_offset word = do {
     r \<leftarrow> for_loop 1 kBitsPerWord
       (\<lambda>b (_ :: unit). Some (if word AND shl1 (unat b) \<noteq> 0 then Inr b else Inl ())) 0 ();
     Some (case r of Inr b \<Rightarrow> b | Inl _ \<Rightarrow> kBitsPerWord)
   }"

definition bitmap_make :: "u64 list \<Rightarrow> u64 \<Rightarrow> Bitmap" where
  "bitmap_make words bit_count = \<lparr>m_words = words, m_bit_count = bit_count\<rparr>"

definition bitmap_clear_all :: "Bitmap \<Rightarrow> Bitmap option" where
  "bitmap_clear_all b = do {
     r \<leftarrow> for_loop 1 (word_count_for_bits (m_bit_count b))
       (\<lambda>i ws. do { ws \<leftarrow> wr ws i 0; Some (Inl ws) }) 0 (m_words b);
     (case r of Inl ws \<Rightarrow> Some (b\<lparr>m_words := ws\<rparr>) | Inr (_ :: unit) \<Rightarrow> None)
   }"

definition bitmap_set :: "u64 \<Rightarrow> Bitmap \<Rightarrow> Bitmap option" where
  "bitmap_set i b =
     (if i \<ge> m_bit_count b then Some b
      else do {
        let index = word_index_for_bit i;
        let offset = bit_offset_for_bit i;
        let mask = shl1 (unat offset);
        w \<leftarrow> rd (m_words b) index;
        ws \<leftarrow> wr (m_words b) index (w OR mask);
        Some (b\<lparr>m_words := ws\<rparr>)
      })"

definition bitmap_clear :: "u64 \<Rightarrow> Bitmap \<Rightarrow> Bitmap option" where
  "bitmap_clear i b =
     (if i \<ge> m_bit_count b then Some b
      else do {
        let index = word_index_for_bit i;
        let offset = bit_offset_for_bit i;
        let mask = shl1 (unat offset);
        w \<leftarrow> rd (m_words b) index;
        ws \<leftarrow> wr (m_words b) index (w AND NOT mask);
        Some (b\<lparr>m_words := ws\<rparr>)
      })"

definition bitmap_test :: "u64 \<Rightarrow> Bitmap \<Rightarrow> bool option" where
  "bitmap_test i b =
     (if i \<ge> m_bit_count b then Some False
      else do {
        let index = word_index_for_bit i;
        let offset = bit_offset_for_bit i;
        let mask = shl1 (unat offset);
        w \<leftarrow> rd (m_words b) index;
        Some (w AND mask \<noteq> 0)
      })"

definition find_first_zero :: "Bitmap \<Rightarrow> u64 option" where
  "find_first_zero b = do {
     let word_count = word_count_for_bits (m_bit_count b);
     r \<leftarrow> for_loop 1 word_count
       (\<lambda>index (_ :: unit). do {
          word \<leftarrow> rd (m_words b) index;
          let word =
            (if index = word_count - 1 \<and> m_bit_count b mod kBitsPerWord \<noteq> 0 then
               (let valid_bits = m_bit_count b mod kBitsPerWord;
                    valid_mask = shl1 (unat valid_bits) - 1
                in word OR NOT valid_mask)
             else word);
          (if word = NOT 0 then Some (Inl ())
           else do {
             let inverted = NOT word;
             bit_offset \<leftarrow> first_set_bit_offset inverted;
             (if bit_offset = kBitsPerWord then Some (Inl ())
              else
                let global_bit = index * kBitsPerWord + bit_offset
                in Some (if global_bit < m_bit_count b then Inr global_bit else Inl ()))
           })
        }) 0 ();
     Some (case r of Inr global_bit \<Rightarrow> global_bit | Inl _ \<Rightarrow> - 1)
   }"

section \<open>Well-formed bitmaps\<close>

definition bm_wf :: "Bitmap \<Rightarrow> bool" where
  "bm_wf b \<longleftrightarrow> unat (m_bit_count b) + 63 < 2 ^ 64 \<and>
     unat (m_bit_count b) \<le> 64 * length (m_words b)"

definition bits_of :: "Bitmap \<Rightarrow> nat set" where
  "bits_of b = {i. i < unat (m_bit_count b) \<and> bit_at (m_words b) i}"

lemma index_simps [word_nat]:
  "unat (word_index_for_bit i) = unat i div 64"
  "unat (bit_offset_for_bit i) = unat i mod 64"
  by (simp_all add: word_index_for_bit_def bit_offset_for_bit_def kBitsPerWord_def word_nat)

lemma bm_index_in_bounds:
  "bm_wf b \<Longrightarrow> i < m_bit_count b \<Longrightarrow> unat i div 64 < length (m_words b)"
  unfolding bm_wf_def word_less_nat_alt by linarith

lemma bitmap_test_correct:
  "bm_wf b \<Longrightarrow> bitmap_test i b = Some (unat i \<in> bits_of b)"
  using bm_index_in_bounds [of b i]
  by (auto simp: bitmap_test_def bits_of_def bit_at_def and_mask_neq_0 and_mask_eq_0 Let_def
      index_simps word_less_nat_alt word_le_nat_alt)

lemma bitmap_set_correct:
  assumes "bm_wf b"
  shows "\<exists>b'. bitmap_set i b = Some b' \<and> bm_wf b' \<and> m_bit_count b' = m_bit_count b \<and>
    bits_of b' = bits_of b \<union> {k. k = unat i \<and> i < m_bit_count b}"
proof (cases "i < m_bit_count b")
  case True
  note lt = bm_index_in_bounds [OF assms True]
  show ?thesis using True assms lt
    by (auto simp: bitmap_set_def bits_of_def Let_def index_simps bm_wf_def bit_at_or
        word_less_nat_alt word_le_nat_alt)
next
  case False
  then show ?thesis using assms by (auto simp: bitmap_set_def)
qed

lemma bitmap_clear_correct:
  assumes "bm_wf b"
  shows "\<exists>b'. bitmap_clear i b = Some b' \<and> bm_wf b' \<and> m_bit_count b' = m_bit_count b \<and>
    bits_of b' = bits_of b - {unat i}"
proof (cases "i < m_bit_count b")
  case True
  note lt = bm_index_in_bounds [OF assms True]
  show ?thesis using True assms lt
    by (auto simp: bitmap_clear_def bits_of_def Let_def index_simps bm_wf_def bit_at_and_not
        word_less_nat_alt word_le_nat_alt)
next
  case False
  then show ?thesis using assms
    by (auto simp: bitmap_clear_def bits_of_def word_less_nat_alt word_le_nat_alt)
qed

lemma word_count_nat:
  "unat c + 63 < 2 ^ 64 \<Longrightarrow> unat (word_count_for_bits c) = (unat c + 63) div 64"
  by (simp add: word_count_for_bits_def kBitsPerWord_def unat_div unat_word_ariths)

lemma bitmap_clear_all_correct:
  assumes wf: "bm_wf b"
  shows "\<exists>b'. bitmap_clear_all b = Some b' \<and> bm_wf b' \<and> m_bit_count b' = m_bit_count b \<and>
    bits_of b' = {}"
proof -
  let ?n = "word_count_for_bits (m_bit_count b)"
  let ?I = "\<lambda>k ws. length ws = length (m_words b) \<and> (\<forall>j < k. ws ! j = 0)"
  let ?body = "\<lambda>i ws. do { ws \<leftarrow> wr ws i 0; Some (Inl ws :: u64 list + unit) }"
  have n: "unat ?n = (unat (m_bit_count b) + 63) div 64"
    using wf by (simp add: word_count_nat bm_wf_def)
  have le: "unat ?n \<le> length (m_words b)"
    using wf unfolding n bm_wf_def by linarith
  obtain ws where "for_loop 1 ?n ?body 0 (m_words b) = Some (Inl ws)" and I: "?I (unat ?n) ws"
  proof (rule for_upto_inv [where I = ?I])
    fix k and ws :: "u64 list"
    assume k: "k < unat ?n" and "?I k ws"
    then show "\<exists>ws'. ?body (of_nat k) ws = Some (Inl ws') \<and> ?I (Suc k) ws'"
      using le unat_less_2p64 [of ?n]
      by (auto simp: nth_list_update less_Suc_eq unat_of_nat64 simp del: unat_less_2p64)
  qed simp_all
  then have "bitmap_clear_all b = Some (b\<lparr>m_words := ws\<rparr>)"
    by (simp add: bitmap_clear_all_def)
  moreover have "bits_of (b\<lparr>m_words := ws\<rparr>) = {}"
  proof -
    have "i div 64 < unat ?n" if "i < unat (m_bit_count b)" for i
      using that unfolding n by linarith
    then show ?thesis using I by (auto simp: bits_of_def bit_at_def)
  qed
  ultimately show ?thesis using I wf by (auto simp: bm_wf_def)
qed

section \<open>Finding the first clear bit\<close>

lemma first_set_bit_offset_correct:
  "first_set_bit_offset w = Some (if w = 0 then 64 else of_nat (LEAST n. bit w n))"
proof -
  have ex: "(\<exists>k < 64. bit w k) \<longleftrightarrow> w \<noteq> 0"
    using bit_imp_le_length [of w] by (auto intro: bit_eqI simp: bit_eq_iff)
  have "(LEAST k. k < 64 \<and> bit w k) = (LEAST n. bit w n)"
    by (rule arg_cong [where f = Least]) (use bit_imp_le_length [of w] in \<open>auto simp: fun_eq_iff\<close>)
  then show ?thesis
    unfolding first_set_bit_offset_def kBitsPerWord_def
    using ex
    by (subst for_upto_search [where P = "bit w" and r = of_nat])
      (auto simp: unat_of_nat64 and_mask_neq_0 and_mask_eq_0)
qed

text \<open>The word that is searched: the bits past the end of the bitmap read as set.\<close>

definition scan_word :: "Bitmap \<Rightarrow> u64 \<Rightarrow> u64 \<Rightarrow> u64" where
  "scan_word b index word =
     (if index = word_count_for_bits (m_bit_count b) - 1 \<and> m_bit_count b mod kBitsPerWord \<noteq> 0
      then word OR NOT (shl1 (unat (m_bit_count b mod kBitsPerWord)) - 1) else word)"

lemma bit_scan_word:
  assumes wf: "bm_wf b" and k: "k < unat (word_count_for_bits (m_bit_count b))" and j: "j < 64"
  shows "bit (scan_word b (of_nat k) w) j \<longleftrightarrow> bit w j \<or> \<not> 64 * k + j < unat (m_bit_count b)"
proof -
  let ?c = "m_bit_count b" and ?n = "word_count_for_bits (m_bit_count b)"
  have n: "unat ?n = (unat ?c + 63) div 64"
    using wf by (simp add: word_count_nat bm_wf_def)
  have "unat (?n - 1) = unat ?n - 1"
    using k by (intro unat_minus_one) auto
  then have last: "of_nat k = ?n - 1 \<longleftrightarrow> Suc k = unat ?n"
    using k unat_less_2p64 [of ?n] by (auto simp: word_unat_eq_iff unat_of_nat64 simp del: unat_less_2p64)
  have v: "unat (?c mod kBitsPerWord) = unat ?c mod 64" "?c mod kBitsPerWord = 0 \<longleftrightarrow> unat ?c mod 64 = 0"
    by (simp_all add: kBitsPerWord_def unat_mod word_unat_eq_iff)
  show ?thesis
  proof (cases "Suc k = unat ?n \<and> unat ?c mod 64 \<noteq> 0")
    case True
    then have "k = unat ?c div 64"
      using n words_for_bits [of "unat ?c"] by auto
    then have "64 * k + j < unat ?c \<longleftrightarrow> j < unat ?c mod 64"
      using div_mod_64 [of "unat ?c"] by linarith
    with True j show ?thesis
      by (simp add: scan_word_def last v bit_simps bit_low_mask)
  next
    case False
    then have "k < unat ?c div 64"
      using k unfolding n words_for_bits by (cases "unat ?c mod 64 = 0") simp_all
    then have "64 * k + j < unat ?c"
      using j div_mod_64 [of "unat ?c"] by linarith
    with False show ?thesis by (auto simp: scan_word_def last v)
  qed
qed

text \<open>The free bits, the words that hold one, and the lowest free position of a word.\<close>

definition free_bit :: "Bitmap \<Rightarrow> nat \<Rightarrow> bool" where
  "free_bit b i \<longleftrightarrow> i < unat (m_bit_count b) \<and> i \<notin> bits_of b"

definition free_in_word :: "Bitmap \<Rightarrow> nat \<Rightarrow> bool" where
  "free_in_word b k \<longleftrightarrow> (\<exists>j < 64. free_bit b (64 * k + j))"

definition lowest_in_word :: "Bitmap \<Rightarrow> nat \<Rightarrow> nat" where
  "lowest_in_word b k = (LEAST j. \<not> bit (scan_word b (of_nat k) (m_words b ! k)) j)"

lemma scan_word_free_bit:
  assumes "bm_wf b" "k < unat (word_count_for_bits (m_bit_count b))" "j < 64"
  shows "bit (scan_word b (of_nat k) (m_words b ! k)) j \<longleftrightarrow> \<not> free_bit b (64 * k + j)"
  using bit_scan_word [OF assms] assms(3) by (auto simp: free_bit_def bits_of_def bit_at_def)

lemma lowest_in_word:
  assumes "bm_wf b" "k < unat (word_count_for_bits (m_bit_count b))" "free_in_word b k"
  shows "lowest_in_word b k < 64" and "free_bit b (64 * k + lowest_in_word b k)"
    and "\<not> bit (scan_word b (of_nat k) (m_words b ! k)) (lowest_in_word b k)"
proof -
  from assms(3) obtain j where "j < 64" "free_bit b (64 * k + j)"
    unfolding free_in_word_def by blast
  then have "\<not> bit (scan_word b (of_nat k) (m_words b ! k)) j"
    using scan_word_free_bit [OF assms(1,2)] by blast
  note low = least_clear_bit [OF \<open>j < 64\<close> this, folded lowest_in_word_def]
  show "lowest_in_word b k < 64" "\<not> bit (scan_word b (of_nat k) (m_words b ! k)) (lowest_in_word b k)"
    by (rule low)+
  then show "free_bit b (64 * k + lowest_in_word b k)"
    using scan_word_free_bit [OF assms(1,2)] by blast
qed

lemma lowest_in_word_least:
  assumes "bm_wf b" "k < unat (word_count_for_bits (m_bit_count b))" "j < lowest_in_word b k" "j < 64"
  shows "\<not> free_bit b (64 * k + j)"
  using not_less_Least [OF assms(3) [unfolded lowest_in_word_def]]
    scan_word_free_bit [OF assms(1,2,4)] by blast

text \<open>One iteration of the scan.\<close>

definition scan_body :: "Bitmap \<Rightarrow> u64 \<Rightarrow> unit \<Rightarrow> (unit + u64) option" where
  "scan_body b index u = do {
     word \<leftarrow> rd (m_words b) index;
     (if scan_word b index word = NOT 0 then Some (Inl ())
      else do {
        bit_offset \<leftarrow> first_set_bit_offset (NOT (scan_word b index word));
        (if bit_offset = kBitsPerWord then Some (Inl ())
         else Some (if index * kBitsPerWord + bit_offset < m_bit_count b
                    then Inr (index * kBitsPerWord + bit_offset) else Inl ()))
      })
   }"

lemma find_first_zero_scan:
  "find_first_zero b = do {
     r \<leftarrow> for_loop 1 (word_count_for_bits (m_bit_count b)) (scan_body b) 0 ();
     Some (case r of Inr global_bit \<Rightarrow> global_bit | Inl _ \<Rightarrow> - 1) }"
  unfolding find_first_zero_def scan_body_def [abs_def] scan_word_def Let_def ..

lemma words_in_array:
  assumes "bm_wf b"
  shows "unat (word_count_for_bits (m_bit_count b)) \<le> length (m_words b)"
    and "unat (m_bit_count b) \<le> 64 * unat (word_count_for_bits (m_bit_count b))"
proof -
  have n: "unat (word_count_for_bits (m_bit_count b)) = (unat (m_bit_count b) + 63) div 64"
    using assms by (simp add: word_count_nat bm_wf_def)
  show "unat (word_count_for_bits (m_bit_count b)) \<le> length (m_words b)"
    and "unat (m_bit_count b) \<le> 64 * unat (word_count_for_bits (m_bit_count b))"
    using assms unfolding n bm_wf_def by linarith+
qed

lemma scan_step:
  assumes wf: "bm_wf b" and k: "k < unat (word_count_for_bits (m_bit_count b))"
  shows "scan_body b (of_nat k) () =
    Some (if free_in_word b k then Inr (of_nat (64 * k + lowest_in_word b k)) else Inl ())"
proof -
  let ?W = "scan_word b (of_nat k) (m_words b ! k)" and ?j = "lowest_in_word b k"
  have rd: "rd (m_words b) (of_nat k) = Some (m_words b ! k)"
    using k words_in_array [OF wf] unat_less_2p64 [of "word_count_for_bits (m_bit_count b)"]
    by (simp add: unat_of_nat64 del: unat_less_2p64)
  show ?thesis
  proof (cases "free_in_word b k")
    case False
    then have "?W = NOT 0" unfolding word_eq_ones_iff free_in_word_def
      using scan_word_free_bit [OF wf k] by blast
    with False show ?thesis by (simp add: scan_body_def rd)
  next
    case True
    note J = lowest_in_word [OF wf k True]
    have W: "?W \<noteq> NOT 0" unfolding word_eq_ones_iff using J by blast
    then have W': "NOT ?W \<noteq> 0" by (metis bit.double_compl)
    have "(LEAST n. bit (NOT ?W) n) = ?j"
      using J(1,3) by (intro Least_equality) (auto simp: bit_simps lowest_in_word_def intro: Least_le)
    then have f: "first_set_bit_offset (NOT ?W) = Some (of_nat ?j)"
      using W' by (simp add: first_set_bit_offset_correct)
    have lt: "64 * k + ?j < unat (m_bit_count b)" using J(2) by (simp add: free_bit_def)
    have g: "of_nat k * kBitsPerWord + of_nat ?j = (of_nat (64 * k + ?j) :: u64)"
      by (simp add: kBitsPerWord_def mult.commute)
    have "of_nat (64 * k + ?j) < m_bit_count b"
      using lt less_imp_le [OF lt] by (simp only: of_nat_less_iff_unat)
    moreover have "of_nat ?j \<noteq> kBitsPerWord"
      using J(1) by (simp add: kBitsPerWord_def word_unat_eq_iff unat_of_nat64)
    ultimately show ?thesis using True W
      by (simp add: scan_body_def rd f g del: of_nat_add of_nat_mult)
  qed
qed

lemma lowest_free_bit:
  assumes wf: "bm_wf b" and any: "\<exists>k < unat (word_count_for_bits (m_bit_count b)). free_in_word b k"
  defines "k \<equiv> LEAST k. k < unat (word_count_for_bits (m_bit_count b)) \<and> free_in_word b k"
  shows "64 * k + lowest_in_word b k = (LEAST i. free_bit b i)"
proof -
  from LeastI_ex [OF any] have k: "k < unat (word_count_for_bits (m_bit_count b))" "free_in_word b k"
    unfolding k_def by blast+
  have none: "\<not> free_in_word b k'" if "k' < k" for k'
    using not_less_Least [OF that [unfolded k_def]] k(1) that by auto
  note J = lowest_in_word [OF wf k]
  show ?thesis
    by (rule least_index_split [where P = "free_bit b", OF k(1) J(1,2), symmetric])
      (use none J(1) lowest_in_word_least [OF wf k(1)] in \<open>auto simp: free_in_word_def\<close>)
qed

lemma free_word_iff:
  assumes "bm_wf b"
  shows "(\<exists>k < unat (word_count_for_bits (m_bit_count b)). free_in_word b k) \<longleftrightarrow> (\<exists>i. free_bit b i)"
proof
  assume "\<exists>i. free_bit b i"
  then obtain i where i: "free_bit b i" by blast
  then have "free_bit b (64 * (i div 64) + i mod 64)" by simp
  moreover have "i div 64 < unat (word_count_for_bits (m_bit_count b))"
    using i words_in_array(2) [OF assms] unfolding free_bit_def by linarith
  ultimately show "\<exists>k < unat (word_count_for_bits (m_bit_count b)). free_in_word b k"
    unfolding free_in_word_def by (metis mod_less_divisor zero_less_numeral)
qed (auto simp: free_in_word_def)

lemma find_first_zero_correct:
  assumes wf: "bm_wf b"
  shows "find_first_zero b =
    Some (if \<exists>i. free_bit b i then of_nat (LEAST i. free_bit b i) else - 1)"
proof -
  let ?n = "word_count_for_bits (m_bit_count b)"
  have run: "for_loop 1 ?n (scan_body b) 0 () =
      Some (if \<exists>k < unat ?n. free_in_word b k
        then Inr (of_nat (64 * (LEAST k. k < unat ?n \<and> free_in_word b k) +
          lowest_in_word b (LEAST k. k < unat ?n \<and> free_in_word b k))) else Inl ())"
    by (rule for_upto_search) (rule scan_step [OF wf])
  show ?thesis
  proof (cases "\<exists>i. free_bit b i")
    case True
    then have any: "\<exists>k < unat ?n. free_in_word b k" by (simp only: free_word_iff [OF wf])
    show ?thesis using True by (simp only: find_first_zero_scan run any lowest_free_bit [OF wf any]) simp
  next
    case False
    then have "\<not> (\<exists>k < unat ?n. free_in_word b k)" by (simp only: free_word_iff [OF wf] not_False_eq_True)
    with False show ?thesis by (simp only: find_first_zero_scan run) simp
  qed
qed

section \<open>Properties\<close>

text \<open>\<^verbatim>\<open>find_first_zero\<close> terminates without an access outside the array and
  returns the lowest bit number below \<^verbatim>\<open>m_bit_count\<close> that is clear, and -1 exactly when every
  valid bit is set; the bits beyond \<^verbatim>\<open>m_bit_count\<close> in the last word are never returned.\<close>

lemma find_first_zero_lowest:
  assumes "bm_wf b"
  shows "\<exists>r. find_first_zero b = Some r \<and>
    (if bits_of b = {..<unat (m_bit_count b)} then r = - 1
     else r < m_bit_count b \<and> unat r \<notin> bits_of b \<and> (\<forall>i < unat r. i \<in> bits_of b))"
proof -
  have free: "free_bit b i \<longleftrightarrow> i < unat (m_bit_count b) \<and> i \<notin> bits_of b" for i
    by (auto simp: free_bit_def bits_of_def)
  have sub: "bits_of b \<subseteq> {..<unat (m_bit_count b)}" by (auto simp: bits_of_def)
  show ?thesis
  proof (cases "\<exists>i. free_bit b i")
    case False
    then have "bits_of b = {..<unat (m_bit_count b)}" using sub by (auto simp: free)
    then show ?thesis using False find_first_zero_correct [OF assms] by simp
  next
    case True
    define m where "m = (LEAST i. free_bit b i)"
    have m: "free_bit b m" "\<And>i. i < m \<Longrightarrow> \<not> free_bit b i"
      unfolding m_def using True by (auto intro: LeastI_ex dest: not_less_Least)
    have lt: "m < unat (m_bit_count b)" using m(1) by (simp add: free)
    moreover have "unat (of_nat m :: u64) = m"
      using lt unat_less_2p64 [of "m_bit_count b"] by (simp add: unat_of_nat64 del: unat_less_2p64)
    moreover have "i \<in> bits_of b" if "i < m" for i
      using m(2) [OF that] that lt by (auto simp: free)
    ultimately show ?thesis
      using m(1) True find_first_zero_correct [OF assms] lt
      by (auto simp: free word_less_nat_alt simp flip: m_def)
  qed
qed

definition demo_bitmap :: Bitmap where
  "demo_bitmap = \<lparr>m_words = [- 1, 0xFFFFFFFFFFFFFFF7], m_bit_count = 70\<rparr>"

lemma demo_bitmap_facts:
  "bm_wf demo_bitmap" "67 \<notin> bits_of demo_bitmap" "unat (m_bit_count demo_bitmap) = 70"
  by (simp_all add: demo_bitmap_def bm_wf_def bits_of_def bit_at_def)

lemma find_first_zero_lowest_witness:
  "\<exists>r. find_first_zero demo_bitmap = Some r \<and> r < m_bit_count demo_bitmap \<and>
    (\<forall>i < unat r. i \<in> bits_of demo_bitmap)"
proof -
  have "(67 :: nat) \<in> {..<unat (m_bit_count demo_bitmap)}" by (simp add: demo_bitmap_facts)
  then have "bits_of demo_bitmap \<noteq> {..<unat (m_bit_count demo_bitmap)}"
    using demo_bitmap_facts(2) by blast
  then show ?thesis using find_first_zero_lowest [OF demo_bitmap_facts(1)] by (simp, blast)
qed

text \<open>The bitmap is a finite set of bit numbers. \<^verbatim>\<open>set\<close>, \<^verbatim>\<open>clear\<close> and \<^verbatim>\<open>clear_all\<close>
  add one number, remove one and remove all, and \<^verbatim>\<open>test\<close> decides membership; a bit number
  beyond the end is ignored by all of them and never touches the array.\<close>

lemma bitmap_is_set:
  assumes wf: "bm_wf b"
  shows "\<exists>b1 b2 b3.
    bitmap_set i b = Some b1 \<and> bm_wf b1 \<and>
      bits_of b1 = bits_of b \<union> (if i < m_bit_count b then {unat i} else {}) \<and>
    bitmap_clear i b = Some b2 \<and> bm_wf b2 \<and> bits_of b2 = bits_of b - {unat i} \<and>
    bitmap_clear_all b = Some b3 \<and> bm_wf b3 \<and> bits_of b3 = {} \<and>
    bitmap_test i b = Some (unat i \<in> bits_of b) \<and>
    (m_bit_count b \<le> i \<longrightarrow> b1 = b \<and> b2 = b \<and> bitmap_test i b = Some False)"
proof -
  have far: "bitmap_set i b = Some b" "bitmap_clear i b = Some b" "bitmap_test i b = Some False"
    if "m_bit_count b \<le> i"
    using that by (simp_all add: bitmap_set_def bitmap_clear_def bitmap_test_def)
  obtain b1 where b1: "bitmap_set i b = Some b1" "bm_wf b1"
    "bits_of b1 = bits_of b \<union> {k. k = unat i \<and> i < m_bit_count b}"
    using bitmap_set_correct [OF wf] by blast
  obtain b2 where b2: "bitmap_clear i b = Some b2" "bm_wf b2" "bits_of b2 = bits_of b - {unat i}"
    using bitmap_clear_correct [OF wf] by blast
  obtain b3 where b3: "bitmap_clear_all b = Some b3" "bm_wf b3" "bits_of b3 = {}"
    using bitmap_clear_all_correct [OF wf] by blast
  have "{k. k = unat i \<and> i < m_bit_count b} = (if i < m_bit_count b then {unat i} else {})"
    by auto
  with b1 b2 b3 far bitmap_test_correct [OF wf, of i] show ?thesis by auto
qed

lemma bitmap_is_set_witness:
  "\<exists>b1. bitmap_set 69 \<lparr>m_words = [0, 1], m_bit_count = 70\<rparr> = Some b1 \<and>
    bits_of b1 = bits_of \<lparr>m_words = [0, 1], m_bit_count = 70\<rparr> \<union> {69}"
  using bitmap_is_set [of "\<lparr>m_words = [0, 1], m_bit_count = 70\<rparr>" 69]
  by (auto simp: bm_wf_def)

end
