(* ===== verification/Page.thy ===== *)
theory Page
  imports Prelude
begin

text \<open>
  \<^verbatim>\<open>kernel/mm/page.h\<close>: page size constants and page arithmetic on 64-bit addresses, with the
  facts that read it on natural numbers (rounding to multiples of 4096, and where
  \<^verbatim>\<open>align_up\<close> and \<^verbatim>\<open>bytes_to_pages\<close> wrap at the top of the address space).
\<close>

definition kPageShift :: nat where
  "kPageShift = 12"

definition kPageSize :: u64 where
  "kPageSize = push_bit kPageShift 1"

definition kPageMask :: u64 where
  "kPageMask = kPageSize - 1"

definition is_page_aligned :: "addr \<Rightarrow> bool" where
  "is_page_aligned a = (a AND kPageMask = 0)"

definition align_down :: "addr \<Rightarrow> addr" where
  "align_down a = a AND NOT kPageMask"

definition align_up :: "addr \<Rightarrow> addr" where
  "align_up a = (a + kPageMask) AND NOT kPageMask"

definition pa_to_pfn :: "addr \<Rightarrow> addr" where
  "pa_to_pfn pa = drop_bit kPageShift pa"

definition pfn_to_pa :: "addr \<Rightarrow> addr" where
  "pfn_to_pa pfn = push_bit kPageShift pfn"

definition bytes_to_pages :: "u64 \<Rightarrow> u64" where
  "bytes_to_pages bytes = drop_bit kPageShift (bytes + kPageMask)"

definition page_offset :: "addr \<Rightarrow> addr" where
  "page_offset a = a AND kPageMask"

section \<open>Page arithmetic on natural numbers\<close>

lemma page_consts [simp]: "kPageShift = 12" "kPageSize = 4096" "kPageMask = 4095"
  by (simp_all add: kPageShift_def kPageSize_def kPageMask_def)

lemma kPageMask_mask: "kPageMask = mask 12"
  by (simp add: mask_eq_exp_minus_1)

lemma drop_12_nat: "unat (drop_bit 12 (a :: u64)) = unat a div 4096"
  by (simp add: drop_bit_eq_div unat_div)

lemma push_12_nat: "unat a < 2 ^ 52 \<Longrightarrow> unat (push_bit 12 (a :: u64)) = unat a * 4096"
  by (simp add: push_bit_eq_mult unat_word_ariths)

lemma page_offset_nat [word_nat]: "unat (page_offset a) = unat a mod 4096"
  unfolding page_offset_def kPageMask_mask
  by (simp add: take_bit_eq_mod unat_mod flip: take_bit_eq_mask)

lemma is_page_aligned_nat [word_nat]: "is_page_aligned a \<longleftrightarrow> unat a mod 4096 = 0"
  using page_offset_nat [of a] unfolding page_offset_def is_page_aligned_def
  by (metis unsigned_0 unsigned_word_eqI)

lemma align_down_eq: "align_down a = push_bit 12 (drop_bit 12 a)"
  unfolding align_down_def kPageMask_mask by (rule and_not_mask)

lemma align_down_nat [word_nat]: "unat (align_down a) = unat a div 4096 * 4096"
proof -
  have "unat (drop_bit 12 a) < 2 ^ 52"
    using unat_less_2p64 [of a] unfolding drop_12_nat by (simp del: unat_less_2p64)
  then show ?thesis by (simp add: align_down_eq push_12_nat drop_12_nat)
qed

lemma align_up_nat [word_nat]:
  "unat a + 4095 < 2 ^ 64 \<Longrightarrow> unat (align_up a) = (unat a + 4095) div 4096 * 4096"
proof -
  assume "unat a + 4095 < 2 ^ 64"
  then have "unat (a + 4095) = unat a + 4095" by (simp add: unat_word_ariths)
  then show ?thesis
    using align_down_nat [of "a + 4095"] by (simp add: align_up_def align_down_def)
qed

lemma align_up_wraps:
  assumes "2 ^ 64 \<le> unat a + 4095"
  shows "align_up a = 0"
proof -
  have "unat (a + 4095) = unat a + 4095 - 2 ^ 64"
    using assms unat_less_2p64 [of a] by (simp add: unat_word_ariths mod_if del: unat_less_2p64)
  also have "\<dots> < 4096" using unat_less_2p64 [of a] by (simp del: unat_less_2p64)
  finally have "unat (align_down (a + 4095)) = 0" unfolding align_down_nat by simp
  then have "align_down (a + 4095) = 0" by (simp only: unat_eq_0)
  then show ?thesis by (simp add: align_up_def align_down_def)
qed

lemma align_down_aligned [simp]: "unat (align_down a) mod 4096 = 0"
  by (simp add: align_down_nat)

lemma align_up_aligned [simp]: "unat (align_up a) mod 4096 = 0"
  using align_down_aligned [of "a + 4095"] by (simp add: align_up_def align_down_def)

lemma bytes_to_pages_nat [word_nat]:
  "unat b + 4095 < 2 ^ 64 \<Longrightarrow> unat (bytes_to_pages b) = (unat b + 4095) div 4096"
  by (simp add: bytes_to_pages_def drop_12_nat unat_word_ariths)

lemma pa_to_pfn_nat [word_nat]: "unat (pa_to_pfn a) = unat a div 4096"
  by (simp add: pa_to_pfn_def drop_12_nat)

lemma pfn_to_pa_nat [word_nat]: "unat a < 2 ^ 52 \<Longrightarrow> unat (pfn_to_pa a) = unat a * 4096"
  by (simp add: pfn_to_pa_def push_12_nat)

lemma align_down_is_aligned: "is_page_aligned (align_down a)"
  by (simp add: is_page_aligned_nat)

lemma align_up_is_aligned: "is_page_aligned (align_up a)"
  by (simp add: is_page_aligned_nat)

lemma align_down_of_aligned: "is_page_aligned a \<Longrightarrow> align_down a = a"
  by (rule unsigned_word_eqI [where 'a = nat])
    (use div_mult_mod_eq [of "unat a" 4096] in \<open>simp add: is_page_aligned_nat align_down_nat\<close>)

lemma nat_round_up: "4096 dvd n \<Longrightarrow> (n + 4095) div 4096 * 4096 = n" for n :: nat
  by (auto elim!: dvdE)

lemma align_up_of_aligned: "is_page_aligned a \<Longrightarrow> align_up a = a"
proof -
  assume a: "is_page_aligned a"
  then obtain k where k: "unat a = 4096 * k"
    by (auto simp: is_page_aligned_nat mod_eq_0_iff_dvd elim!: dvdE)
  then have "unat a + 4095 < 2 ^ 64"
    using unat_less_2p64 [of a] by (simp del: unat_less_2p64)
  from align_up_nat [OF this] have "unat (align_up a) = unat a"
    by (simp add: nat_round_up k)
  then show ?thesis by (rule unsigned_word_eqI)
qed

end
