(* ===== verification/Sv39.thy ===== *)
theory Sv39
  imports Page
begin

text \<open>
  \<^verbatim>\<open>kernel/arch/riscv/mm/sv39.h\<close> and the satp encoding of \<^verbatim>\<open>mmu.cpp\<close>: the Sv39 page table entry,
  its flags and the three 9-bit indices of a virtual address. The lemmas give the bits of an
  entry, the round trip between a page address and an entry, and the fact that the three
  indices and the page offset determine the low 39 bits of an address.
\<close>

type_synonym Pte = u64

definition kSatpModeSv39 :: u64 where
  "kSatpModeSv39 = push_bit 60 8"

definition kSvPageShift :: nat where
  "kSvPageShift = 12"

definition kVpnBits :: nat where
  "kVpnBits = 9"

definition kVpnMask :: u64 where
  "kVpnMask = 0x1ff"

definition kPtePpnShift :: nat where
  "kPtePpnShift = 10"

definition PteV :: u64 where "PteV = push_bit 0 1"
definition PteR :: u64 where "PteR = push_bit 1 1"
definition PteW :: u64 where "PteW = push_bit 2 1"
definition PteX :: u64 where "PteX = push_bit 3 1"
definition PteU :: u64 where "PteU = push_bit 4 1"
definition PteG :: u64 where "PteG = push_bit 5 1"
definition PteA :: u64 where "PteA = push_bit 6 1"
definition PteD :: u64 where "PteD = push_bit 7 1"

definition vpn_index :: "addr \<Rightarrow> nat \<Rightarrow> u64" where
  "vpn_index va level = drop_bit (kSvPageShift + kVpnBits * level) va AND kVpnMask"

definition make_pte :: "addr \<Rightarrow> u64 \<Rightarrow> Pte" where
  "make_pte pa flags = push_bit kPtePpnShift (drop_bit kSvPageShift pa) OR flags"

definition pte_to_pa :: "Pte \<Rightarrow> addr" where
  "pte_to_pa pte = push_bit kSvPageShift (drop_bit kPtePpnShift pte)"

definition pte_valid :: "Pte \<Rightarrow> bool" where
  "pte_valid pte = (pte AND PteV \<noteq> 0)"

definition pte_leaf :: "Pte \<Rightarrow> bool" where
  "pte_leaf pte = (pte AND (PteR OR PteW OR PteX) \<noteq> 0)"

text \<open>\<^verbatim>\<open>make_satp\<close> of \<^verbatim>\<open>mmu.cpp\<close>: the mode, address space identifier zero, and the root page number.\<close>

definition make_satp :: "addr \<Rightarrow> u64" where
  "make_satp root = kSatpModeSv39 OR drop_bit 12 root"

section \<open>The bits of an entry\<close>

lemma sv39_consts [simp]: "kSvPageShift = 12" "kVpnBits = 9" "kPtePpnShift = 10"
  by (simp_all add: kSvPageShift_def kVpnBits_def kPtePpnShift_def)

lemma kVpnMask_mask: "kVpnMask = mask 9"
  by (simp add: kVpnMask_def mask_eq_exp_minus_1)

lemma pte_valid_bit: "pte_valid pte \<longleftrightarrow> bit pte 0"
  by (simp add: pte_valid_def PteV_def bit_iff_and_push_bit_not_eq_0 del: push_bit_of_1)

lemma and_or_neq_0: "(w :: u64) AND (a OR b) \<noteq> 0 \<longleftrightarrow> w AND a \<noteq> 0 \<or> w AND b \<noteq> 0"
  by (simp add: bit.conj_disj_distrib or_eq_0_iff)

lemma pte_leaf_bits: "pte_leaf pte \<longleftrightarrow> bit pte 1 \<or> bit pte 2 \<or> bit pte 3"
  unfolding pte_leaf_def and_or_neq_0 PteR_def PteW_def PteX_def bit_iff_and_push_bit_not_eq_0 by blast

lemma bit_make_pte:
  "bit (make_pte pa flags) n \<longleftrightarrow> (10 \<le> n \<and> bit pa (n + 2) \<and> n < 64) \<or> bit flags n"
  by (auto simp: make_pte_def bit_simps dest: bit_imp_le_length)

lemma pte_valid_make [simp]: "pte_valid (make_pte pa flags) \<longleftrightarrow> bit flags 0"
  by (simp add: pte_valid_bit bit_make_pte)

lemma pte_leaf_make [simp]: "pte_leaf (make_pte pa flags) \<longleftrightarrow> pte_leaf flags"
  by (simp add: pte_leaf_bits bit_make_pte)

lemma bit_PteV [simp]: "bit PteV n \<longleftrightarrow> n = 0"
  by (auto simp: PteV_def bit_simps)

lemma pte_leaf_PteV [simp]: "\<not> pte_leaf PteV" "pte_leaf (flags OR PteV) = pte_leaf flags"
  by (simp_all add: pte_leaf_bits bit_simps)

lemma pte_zero [simp]: "\<not> pte_valid 0" "\<not> pte_leaf 0"
  by (simp_all add: pte_valid_def pte_leaf_def)

text \<open>Flag values below 1024 do not reach the page number.\<close>

lemma small_flags_bit: "(flags :: u64) < 1024 \<Longrightarrow> 10 \<le> n \<Longrightarrow> \<not> bit flags n"
proof
  assume "flags < 1024" "10 \<le> n" "bit flags n"
  have "unat flags < 2 ^ n"
    using \<open>flags < 1024\<close> \<open>10 \<le> n\<close> power_increasing [of 10 n "2 :: nat"] by (simp add: word_less_nat_alt)
  then have "\<not> bit (unat flags) n" by (simp add: bit_iff_odd)
  with \<open>bit flags n\<close> show False by (simp add: bit_unsigned_iff)
qed

lemma pte_to_pa_make:
  assumes "flags < 1024"
  shows "pte_to_pa (make_pte pa flags) = align_down pa"
proof (rule bit_word_eqI)
  fix n
  assume "n < LENGTH(64)"
  show "bit (pte_to_pa (make_pte pa flags)) n \<longleftrightarrow> bit (align_down pa) n"
  proof (cases "12 \<le> n")
    case True
    then obtain k where "n = 12 + k" using le_Suc_ex by blast
    then show ?thesis
      using \<open>n < LENGTH(64)\<close> small_flags_bit [OF assms, of "10 + k"]
      by (simp add: pte_to_pa_def align_down_eq bit_push_bit_iff bit_drop_bit_eq bit_make_pte)
  next
    case False
    then show ?thesis by (simp add: pte_to_pa_def align_down_eq bit_push_bit_iff)
  qed
qed

lemma pte_to_pa_aligned [simp]: "is_page_aligned (pte_to_pa pte)"
proof -
  have "align_down (pte_to_pa pte) = pte_to_pa pte"
    unfolding align_down_eq pte_to_pa_def by (rule bit_word_eqI) (auto simp: bit_simps)
  then show ?thesis using align_down_is_aligned by metis
qed

lemma flags_or_V_small: "flags < 1024 \<Longrightarrow> flags OR PteV < 1024"
proof -
  assume f: "flags < 1024"
  have "flags OR PteV = take_bit 10 (flags OR PteV)"
    by (rule bit_word_eqI) (use small_flags_bit [OF f] in \<open>auto simp: bit_simps not_less [symmetric]\<close>)
  then have "unat (flags OR PteV) = take_bit 10 (unat (flags OR PteV))"
    by (metis unsigned_take_bit_eq)
  also have "\<dots> < 2 ^ 10" by (rule take_bit_nat_less_exp)
  finally show ?thesis by (simp add: word_less_nat_alt)
qed

section \<open>The indices of a virtual address\<close>

lemma vpn_index_less [simp]: "unat (vpn_index va l) < 512"
proof -
  have "vpn_index va l = take_bit 9 (drop_bit (12 + 9 * l) va)"
    by (simp add: vpn_index_def kVpnMask_mask take_bit_eq_mask)
  then have "unat (vpn_index va l) = take_bit 9 (unat (drop_bit (12 + 9 * l) va))"
    by (metis unsigned_take_bit_eq)
  also have "\<dots> < 2 ^ 9" by (rule take_bit_nat_less_exp)
  finally show ?thesis by simp
qed

lemma bit_vpn_index: "bit (vpn_index va l) n \<longleftrightarrow> n < 9 \<and> bit va (12 + 9 * l + n)"
  by (auto simp: vpn_index_def kVpnMask_mask bit_simps)

text \<open>The virtual page number: the three indices, most significant first.\<close>

definition vpns :: "addr \<Rightarrow> u64 list" where
  "vpns va = [vpn_index va 2, vpn_index va 1, vpn_index va 0]"

lemma vpns_eq_iff: "vpns va = vpns va' \<longleftrightarrow> take_bit 27 (drop_bit 12 va) = take_bit 27 (drop_bit 12 va')"
proof
  assume e: "vpns va = vpns va'"
  show "take_bit 27 (drop_bit 12 va) = take_bit 27 (drop_bit 12 va')"
  proof (rule bit_word_eqI)
    fix n :: nat
    have eq: "bit va (12 + 9 * l + k) \<longleftrightarrow> bit va' (12 + 9 * l + k)" if "k < 9" "l < 3" for k l
      using e that bit_vpn_index [of va l k] bit_vpn_index [of va' l k]
      by (auto simp: vpns_def less_Suc_eq numeral_3_eq_3 numeral_2_eq_2)
    have "n = 9 * (n div 9) + n mod 9" "n mod 9 < 9" by simp_all
    moreover have "n div 9 < 3" if "n < 27" using that by (simp add: less_mult_imp_div_less)
    ultimately have "n < 27 \<Longrightarrow> bit va (12 + n) \<longleftrightarrow> bit va' (12 + n)"
      using eq [of "n mod 9" "n div 9"] by (simp add: add.assoc)
    then show "bit (take_bit 27 (drop_bit 12 va)) n \<longleftrightarrow> bit (take_bit 27 (drop_bit 12 va')) n"
      by (auto simp: bit_simps)
  qed
next
  assume e: "take_bit 27 (drop_bit 12 va) = take_bit 27 (drop_bit 12 va')"
  have "bit va (12 + n) \<longleftrightarrow> bit va' (12 + n)" if "n < 27" for n
    using arg_cong [OF e, of "\<lambda>w. bit w n"] that by (simp add: bit_simps)
  then have "vpn_index va l = vpn_index va' l" if "l < 3" for l
    using that by (intro bit_word_eqI) (auto simp: bit_vpn_index add.assoc)
  then show "vpns va = vpns va'" by (simp add: vpns_def)
qed

section \<open>Properties\<close>

text \<open>Encoding and decoding of entries. For flags below bit 10, decoding the entry made
  from an address gives back its page base, the entry is valid or a leaf exactly when its flags
  are, and the low ten bits are the flags; the decoded base of any entry is page aligned. The
  same address made into an entry again is the same entry.\<close>

lemma pte_roundtrip:
  assumes "flags < 1024"
  shows "pte_to_pa (make_pte pa flags) = align_down pa \<and> is_page_aligned (pte_to_pa pte) \<and>
    pte_valid (make_pte pa flags) = pte_valid flags \<and> pte_leaf (make_pte pa flags) = pte_leaf flags \<and>
    take_bit 10 (make_pte pa flags) = flags \<and>
    make_pte (pte_to_pa (make_pte pa flags)) flags = make_pte pa flags"
proof -
  have "take_bit 10 (make_pte pa flags) = flags"
    by (rule bit_word_eqI)
      (use small_flags_bit [OF assms] in \<open>auto simp: bit_take_bit_iff bit_make_pte not_less [symmetric]\<close>)
  moreover have "drop_bit 12 (align_down pa) = drop_bit 12 pa"
    unfolding align_down_eq by (rule bit_word_eqI) (auto simp: bit_simps dest: bit_imp_le_length)
  then have "make_pte (align_down pa) flags = make_pte pa flags" by (simp add: make_pte_def)
  ultimately show ?thesis
    by (simp add: pte_to_pa_make [OF assms] pte_valid_bit bit_make_pte)
qed

lemma pte_roundtrip_witness: "pte_to_pa (make_pte 0x80201ABC 0xCF) = align_down 0x80201ABC"
  using pte_roundtrip [of "0xCF" "0x80201ABC"] by simp

end
