(* ===== verification/Pmm.thy ===== *)
theory Pmm
  imports Bit_Array Page
begin

text \<open>
  \<^verbatim>\<open>kernel/mm/pmm.h\<close> and \<^verbatim>\<open>pmm.cpp\<close>: the physical page allocator, a bitmap of used pages over the
  managed range and a counter of free pages. \<open>free_slots p\<close> is the set of page numbers whose
  bit is clear, \<open>page_at p i\<close> the address of page \<open>i\<close>, and \<open>pmm_ok p\<close> the invariant of the
  four variables.

  The code's \<^verbatim>\<open>mark_free_index\<close> computes the bit mask from the word index instead of the page
  index: it clears the bit \<open>slot_of i\<close>, one fixed bit per word. The model keeps that. The
  lemmas therefore speak of \<open>slot_of\<close>, and the properties say exactly which pages are free
  after initialisation and for which pages an allocation followed by a free is a round trip.
\<close>

section \<open>State and operations\<close>

definition kMaxManagedPages :: u64 where
  "kMaxManagedPages = 32768"

definition kBitsPerWord :: u64 where
  "kBitsPerWord = 64"

definition kBitmapWords :: u64 where
  "kBitmapWords = (kMaxManagedPages + kBitsPerWord - 1) div kBitsPerWord"

record pmm =
  g_used_bitmap :: "u64 list"
  g_managed_base :: addr
  g_total_pages :: u64
  g_free_pages :: u64

record PhysicalRange =
  range_base :: addr
  range_size :: u64

record ReservedRange =
  reserved_base :: addr
  reserved_size :: u64

record PmmStats =
  stat_total_pages :: u64
  stat_free_pages :: u64
  stat_used_pages :: u64

text \<open>The initial values of the static variables.\<close>

definition pmm_static :: pmm where
  "pmm_static = \<lparr>g_used_bitmap = replicate (unat kBitmapWords) 0, g_managed_base = 0,
     g_total_pages = 0, g_free_pages = 0\<rparr>"

definition bit_mask :: "u64 \<Rightarrow> u64" where
  "bit_mask b = shl1 (unat (b mod kBitsPerWord))"

definition word_index :: "u64 \<Rightarrow> u64" where
  "word_index b = b div kBitsPerWord"

definition pa_to_index :: "addr \<Rightarrow> pmm \<Rightarrow> u64" where
  "pa_to_index pa p = drop_bit kPageShift (pa - g_managed_base p)"

definition used_index :: "u64 \<Rightarrow> pmm \<Rightarrow> bool option" where
  "used_index index p = do {
     w \<leftarrow> rd (g_used_bitmap p) (word_index index);
     Some (w AND bit_mask index \<noteq> 0)
   }"

definition mark_used_index :: "u64 \<Rightarrow> pmm \<Rightarrow> pmm option" where
  "mark_used_index index p = do {
     let word = word_index index;
     let mask = bit_mask index;
     w \<leftarrow> rd (g_used_bitmap p) word;
     (if w AND mask = 0 then do {
        ws \<leftarrow> wr (g_used_bitmap p) word (w OR mask);
        let p = p\<lparr>g_used_bitmap := ws\<rparr>;
        Some (if g_free_pages p > 0 then p\<lparr>g_free_pages := g_free_pages p - 1\<rparr> else p)
      }
      else Some p)
   }"

definition mark_free_index :: "u64 \<Rightarrow> pmm \<Rightarrow> pmm option" where
  "mark_free_index index p = do {
     let word = word_index index;
     let mask = bit_mask word;
     w \<leftarrow> rd (g_used_bitmap p) word;
     (if w AND mask \<noteq> 0 then do {
        ws \<leftarrow> wr (g_used_bitmap p) word (w AND NOT mask);
        let p = p\<lparr>g_used_bitmap := ws\<rparr>;
        Some (p\<lparr>g_free_pages := g_free_pages p + 1\<rparr>)
      }
      else Some p)
   }"

definition reserve_range :: "addr \<Rightarrow> u64 \<Rightarrow> pmm \<Rightarrow> pmm option" where
  "reserve_range base sz p =
     (if sz = 0 \<or> g_total_pages p = 0 then Some p
      else
        let managed_start = g_managed_base p;
            managed_end = g_managed_base p + g_total_pages p * kPageSize;
            reserve_start = align_down base;
            reserve_end = align_up (base + sz);
            start = (if reserve_start < managed_start then managed_start else reserve_start);
            stop = (if reserve_end > managed_end then managed_end else reserve_end)
        in if start \<ge> stop then Some p
           else do {
             r \<leftarrow> for_loop kPageSize stop
               (\<lambda>pa p. do { p \<leftarrow> mark_used_index (pa_to_index pa p) p; Some (Inl p) }) start p;
             (case r of Inl p \<Rightarrow> Some p | Inr (_ :: unit) \<Rightarrow> None)
           })"

definition pmm_init_range :: "PhysicalRange \<Rightarrow> ReservedRange list \<Rightarrow> u64 \<Rightarrow> pmm \<Rightarrow> pmm option" where
  "pmm_init_range managed reserved reserved_count p = do {
     let base = align_up (range_base managed);
     let stop = align_down (range_base managed + range_size managed);
     let p = \<lparr>g_used_bitmap = map (\<lambda>_. NOT 0) (g_used_bitmap p), g_managed_base = base,
       g_total_pages = 0, g_free_pages = 0\<rparr>;
     (if stop \<le> base then Some p
      else do {
        let page_count = (stop - base) div kPageSize;
        let p = p\<lparr>g_total_pages := if page_count < kMaxManagedPages then page_count else kMaxManagedPages\<rparr>;
        r \<leftarrow> for_loop 1 (g_total_pages p)
          (\<lambda>i p. do { p \<leftarrow> mark_free_index i p; Some (Inl p :: pmm + unit) }) 0 p;
        (case r of Inr _ \<Rightarrow> None | Inl p \<Rightarrow> do {
           r \<leftarrow> for_loop 1 reserved_count
             (\<lambda>i p. do {
                d \<leftarrow> rd reserved i;
                p \<leftarrow> reserve_range (reserved_base d) (reserved_size d) p;
                Some (Inl p :: pmm + unit)
              }) 0 p;
           (case r of Inr _ \<Rightarrow> None | Inl p \<Rightarrow> Some p)
         })
      })
   }"

definition alloc_page :: "pmm \<Rightarrow> (addr \<times> pmm) option" where
  "alloc_page p = do {
     r \<leftarrow> for_loop 1 (g_total_pages p)
       (\<lambda>i p. do {
          u \<leftarrow> used_index i p;
          (if \<not> u then do {
             p \<leftarrow> mark_used_index i p;
             Some (Inr (g_managed_base p + i * kPageSize, p))
           }
           else Some (Inl p))
        }) 0 p;
     Some (case r of Inr (page, p) \<Rightarrow> (page, p) | Inl p \<Rightarrow> (nullptr, p))
   }"

definition is_managed_page :: "addr \<Rightarrow> pmm \<Rightarrow> bool" where
  "is_managed_page pa p =
     (if \<not> is_page_aligned pa then False
      else
        let start = g_managed_base p;
            stop = g_managed_base p + g_total_pages p * kPageSize
        in pa \<ge> start \<and> pa < stop)"

definition free_page :: "addr \<Rightarrow> pmm \<Rightarrow> (bool \<times> pmm) option" where
  "free_page page p =
     (if \<not> is_managed_page page p \<or> \<not> is_page_aligned page then Some (False, p)
      else do {
        let index = pa_to_index page p;
        u \<leftarrow> used_index index p;
        (if \<not> u then Some (False, p)
         else do {
           p \<leftarrow> mark_free_index index p;
           Some (True, p)
         })
      })"

definition total_pages :: "pmm \<Rightarrow> u64" where
  "total_pages p = g_total_pages p"

definition free_pages :: "pmm \<Rightarrow> u64" where
  "free_pages p = g_free_pages p"

definition get_stats :: "pmm \<Rightarrow> PmmStats" where
  "get_stats p = \<lparr>stat_total_pages = g_total_pages p, stat_free_pages = g_free_pages p,
     stat_used_pages = g_total_pages p - g_free_pages p\<rparr>"

definition is_page_free :: "addr \<Rightarrow> pmm \<Rightarrow> bool option" where
  "is_page_free pa p =
     (if \<not> is_managed_page pa p then Some False
      else do {
        u \<leftarrow> used_index (pa_to_index pa p) p;
        Some (\<not> u)
      })"

section \<open>The invariant\<close>

definition free_slots :: "pmm \<Rightarrow> nat set" where
  "free_slots p = clear_bits (g_used_bitmap p)"

definition page_at :: "pmm \<Rightarrow> nat \<Rightarrow> addr" where
  "page_at p i = g_managed_base p + of_nat i * kPageSize"

definition slot_of :: "nat \<Rightarrow> nat" where
  "slot_of i = 64 * (i div 64) + i div 64 mod 64"

definition pmm_ok :: "pmm \<Rightarrow> bool" where
  "pmm_ok p \<longleftrightarrow> length (g_used_bitmap p) = 512 \<and> unat (g_free_pages p) = card (free_slots p) \<and>
     unat (g_total_pages p) \<le> 32768 \<and> is_page_aligned (g_managed_base p) \<and>
     unat (g_managed_base p) + 4096 * unat (g_total_pages p) < 2 ^ 64"

definition same_range :: "pmm \<Rightarrow> pmm \<Rightarrow> bool" where
  "same_range p p' \<longleftrightarrow> g_managed_base p' = g_managed_base p \<and> g_total_pages p' = g_total_pages p"

lemma same_range_refl [simp]: "same_range p p"
  by (simp add: same_range_def)

lemma same_range_trans [trans]: "same_range p q \<Longrightarrow> same_range q r \<Longrightarrow> same_range p r"
  by (simp add: same_range_def)

lemma free_slots_less: "pmm_ok p \<Longrightarrow> i \<in> free_slots p \<Longrightarrow> i < 32768"
  by (auto simp: pmm_ok_def free_slots_def clear_bits_def)

lemma finite_free_slots [simp]: "finite (free_slots p)"
  by (simp add: free_slots_def)

lemma card_free_slots: "pmm_ok p \<Longrightarrow> card (free_slots p) \<le> 32768"
  using card_mono [of "{..<32768}" "free_slots p"] free_slots_less [of p] by auto

lemma word_index_nat [word_nat]: "unat (word_index i) = unat i div 64"
  by (simp add: word_index_def kBitsPerWord_def word_nat)

lemma bit_mask_shl1: "bit_mask i = shl1 (unat i mod 64)"
  by (simp add: bit_mask_def kBitsPerWord_def word_nat)

lemma slot_of_div [simp]: "slot_of i div 64 = i div 64"
  by (simp add: slot_of_def)

lemma slot_of_idem [simp]: "slot_of (slot_of i) = slot_of i"
  using slot_of_div [of i] by (simp only: slot_of_def)

lemma slot_of_less:
  assumes "i < 32768"
  shows "slot_of i < 32768"
proof -
  have "i div 64 < 512" using assms by (simp add: less_mult_imp_div_less)
  moreover have "i div 64 mod 64 < 64" by simp
  ultimately show ?thesis unfolding slot_of_def by linarith
qed

section \<open>Marking one page\<close>

lemma used_index_correct:
  assumes "pmm_ok p" "unat i < 32768"
  shows "used_index i p = Some (unat i \<notin> free_slots p)"
proof -
  have "unat i div 64 < length (g_used_bitmap p)"
    using assms by (simp add: pmm_ok_def less_mult_imp_div_less)
  then show ?thesis
    using assms by (auto simp: used_index_def bit_mask_shl1 word_index_nat and_mask_neq_0
        free_slots_def clear_bits_def bit_at_def pmm_ok_def)
qed

lemma mark_used_index_correct:
  assumes ok: "pmm_ok p" and i: "unat i < 32768"
  shows "\<exists>p'. mark_used_index i p = Some p' \<and> pmm_ok p' \<and> same_range p p' \<and>
    free_slots p' = free_slots p - {unat i}"
proof -
  let ?k = "unat i div 64" and ?j = "unat i mod 64"
  have k: "?k < length (g_used_bitmap p)"
    using ok i by (simp add: pmm_ok_def less_mult_imp_div_less)
  show ?thesis
  proof (cases "unat i \<in> free_slots p")
    case True
    let ?ws = "(g_used_bitmap p)[?k := g_used_bitmap p ! ?k OR shl1 ?j]"
    have fr: "clear_bits ?ws = free_slots p - {unat i}"
      using clear_bits_or [OF _ k, of ?j] by (simp add: free_slots_def)
    have pos: "0 < card (free_slots p)" using True by (auto simp: card_gt_0_iff)
    then have "g_free_pages p > 0" using ok by (simp add: pmm_ok_def word_less_nat_alt)
    moreover have "g_used_bitmap p ! ?k AND shl1 ?j = 0"
      using True by (auto simp: and_mask_eq_0 free_slots_def clear_bits_def bit_at_def)
    ultimately have "mark_used_index i p =
        Some (p\<lparr>g_used_bitmap := ?ws, g_free_pages := g_free_pages p - 1\<rparr>)"
      using k by (simp add: mark_used_index_def word_index_nat bit_mask_shl1 Let_def)
    moreover have "unat (g_free_pages p - 1) = card (free_slots p - {unat i})"
      using ok True pos by (simp add: pmm_ok_def unat_sub word_le_nat_alt)
    ultimately show ?thesis
      using ok fr by (simp add: pmm_ok_def free_slots_def same_range_def)
  next
    case False
    then have "g_used_bitmap p ! ?k AND shl1 ?j \<noteq> 0"
      using ok i by (auto simp: and_mask_neq_0 free_slots_def clear_bits_def bit_at_def pmm_ok_def)
    then have "mark_used_index i p = Some p"
      using k by (simp add: mark_used_index_def word_index_nat bit_mask_shl1)
    then show ?thesis using ok False by simp
  qed
qed

lemma mark_free_index_correct:
  assumes ok: "pmm_ok p" and i: "unat i < 32768"
  shows "\<exists>p'. mark_free_index i p = Some p' \<and> pmm_ok p' \<and> same_range p p' \<and>
    free_slots p' = insert (slot_of (unat i)) (free_slots p)"
proof -
  let ?k = "unat i div 64"
  let ?j = "?k mod 64" and ?s = "slot_of (unat i)"
  have s: "?s div 64 = ?k" "?s mod 64 = ?j" "?s < 32768"
    using slot_of_less [OF i] by (simp, simp add: slot_of_def, simp)
  have k: "?k < length (g_used_bitmap p)"
    using ok i by (simp add: pmm_ok_def less_mult_imp_div_less)
  show ?thesis
  proof (cases "?s \<in> free_slots p")
    case False
    let ?ws = "(g_used_bitmap p)[?k := g_used_bitmap p ! ?k AND NOT (shl1 ?j)]"
    have fr: "clear_bits ?ws = insert ?s (free_slots p)"
      using clear_bits_and_not [OF _ k, of ?j] by (simp add: free_slots_def slot_of_def)
    have "g_used_bitmap p ! ?k AND shl1 ?j \<noteq> 0"
      using False ok s by (auto simp: and_mask_neq_0 free_slots_def clear_bits_def bit_at_def pmm_ok_def)
    then have "mark_free_index i p =
        Some (p\<lparr>g_used_bitmap := ?ws, g_free_pages := g_free_pages p + 1\<rparr>)"
      using k by (simp add: mark_free_index_def word_index_nat bit_mask_shl1 Let_def)
    moreover have "unat (g_free_pages p + 1) = card (insert ?s (free_slots p))"
      using ok False card_free_slots [OF ok] by (simp add: pmm_ok_def unat_word_ariths)
    ultimately show ?thesis
      using ok fr by (simp add: pmm_ok_def free_slots_def same_range_def)
  next
    case True
    then have "g_used_bitmap p ! ?k AND shl1 ?j = 0"
      using s by (auto simp: and_mask_eq_0 free_slots_def clear_bits_def bit_at_def)
    then have "mark_free_index i p = Some p"
      using k by (simp add: mark_free_index_def word_index_nat bit_mask_shl1)
    then show ?thesis using ok True by (simp add: insert_absorb)
  qed
qed

section \<open>Addresses of managed pages\<close>

lemma page_at_nat:
  assumes "pmm_ok p" "i \<le> unat (g_total_pages p)"
  shows "unat (page_at p i) = unat (g_managed_base p) + 4096 * i"
proof -
  have "unat (of_nat i * 4096 :: u64) = i * 4096"
    using assms unat_of_nat64 [of "i * 4096"] by (simp add: pmm_ok_def)
  then show ?thesis using assms by (simp add: page_at_def unat_word_ariths pmm_ok_def)
qed

lemma page_at_aligned:
  "pmm_ok p \<Longrightarrow> i \<le> unat (g_total_pages p) \<Longrightarrow> is_page_aligned (page_at p i)"
  by (simp add: is_page_aligned_nat page_at_nat) (simp add: pmm_ok_def is_page_aligned_nat mod_add_eq [symmetric])

lemma page_at_inj:
  "pmm_ok p \<Longrightarrow> i \<le> unat (g_total_pages p) \<Longrightarrow> j \<le> unat (g_total_pages p) \<Longrightarrow>
   page_at p i = page_at p j \<longleftrightarrow> i = j"
proof
  assume "pmm_ok p" "i \<le> unat (g_total_pages p)" "j \<le> unat (g_total_pages p)" "page_at p i = page_at p j"
  then have "unat (g_managed_base p) + 4096 * i = unat (g_managed_base p) + 4096 * j"
    by (metis page_at_nat)
  then show "i = j" by simp
qed simp

lemma pa_to_index_page_at:
  assumes "pmm_ok p" "i < unat (g_total_pages p)"
  shows "pa_to_index (page_at p i) p = of_nat i" and "unat (of_nat i :: u64) = i" and "i < 32768"
proof -
  show i: "i < 32768" using assms by (simp add: pmm_ok_def)
  have "unat (of_nat i * 4096 :: u64) = 4096 * i"
    using i unat_of_nat64 [of "i * 4096"] by simp
  then have "unat (drop_bit 12 (of_nat i * 4096 :: u64)) = i"
    unfolding drop_12_nat by simp
  moreover show of: "unat (of_nat i :: u64) = i" using i by (simp add: unat_of_nat64)
  ultimately have "drop_bit 12 (of_nat i * 4096 :: u64) = of_nat i"
    by (metis unsigned_word_eqI)
  then show "pa_to_index (page_at p i) p = of_nat i"
    by (simp only: pa_to_index_def page_at_def page_consts add_diff_cancel_left')
qed

lemma same_range_page_at: "same_range p p' \<Longrightarrow> page_at p' i = page_at p i"
  by (simp add: same_range_def page_at_def)

lemma is_managed_page_correct:
  assumes ok: "pmm_ok p"
  shows "is_managed_page pa p \<longleftrightarrow> (\<exists>i < unat (g_total_pages p). pa = page_at p i)"
proof
  let ?b = "unat (g_managed_base p)" and ?n = "unat (g_total_pages p)"
  have stop: "unat (g_managed_base p + g_total_pages p * 4096) = ?b + 4096 * ?n"
    using page_at_nat [OF ok, of ?n] by (simp add: page_at_def)
  assume "is_managed_page pa p"
  then have al: "unat pa mod 4096 = 0" and lo: "?b \<le> unat pa" and hi: "unat pa < ?b + 4096 * ?n"
    using stop by (auto simp: is_managed_page_def Let_def is_page_aligned_nat word_le_nat_alt
        word_less_nat_alt split: if_splits)
  have "4096 dvd unat pa" "4096 dvd ?b"
    using ok al by (auto simp: pmm_ok_def is_page_aligned_nat mod_eq_0_iff_dvd)
  then have "4096 dvd unat pa - ?b" by (rule dvd_diff_nat)
  then obtain i where "unat pa - ?b = 4096 * i" by (rule dvdE)
  then have i: "unat pa = ?b + 4096 * i" "i < ?n" using lo hi by auto
  then have "unat pa = unat (page_at p i)" using page_at_nat [OF ok, of i] by simp
  then show "\<exists>i < ?n. pa = page_at p i" using i(2) by (auto dest: unsigned_word_eqI)
next
  assume "\<exists>i < unat (g_total_pages p). pa = page_at p i"
  then obtain i where i: "i < unat (g_total_pages p)" "pa = page_at p i" by blast
  then have "is_page_aligned pa" using page_at_aligned [OF ok, of i] by simp
  moreover have "unat pa = unat (g_managed_base p) + 4096 * i"
    "unat (g_managed_base p + g_total_pages p * 4096) = unat (g_managed_base p) + 4096 * unat (g_total_pages p)"
    using i page_at_nat [OF ok, of i] page_at_nat [OF ok, of "unat (g_total_pages p)"]
    by (simp_all add: page_at_def)
  ultimately show "is_managed_page pa p"
    using i(1) by (simp add: is_managed_page_def Let_def word_le_nat_alt word_less_nat_alt)
qed

section \<open>Allocation and release\<close>

definition can_alloc :: "pmm \<Rightarrow> nat \<Rightarrow> bool" where
  "can_alloc p i \<longleftrightarrow> i < unat (g_total_pages p) \<and> i \<in> free_slots p"

lemma alloc_page_correct:
  assumes ok: "pmm_ok p"
  shows "if \<exists>i. can_alloc p i
    then \<exists>p'. alloc_page p = Some (page_at p (LEAST i. can_alloc p i), p') \<and> pmm_ok p' \<and>
      same_range p p' \<and> free_slots p' = free_slots p - {LEAST i. can_alloc p i}
    else alloc_page p = Some (nullptr, p)"
proof -
  let ?P = "\<lambda>i. i \<in> free_slots p"
  let ?r = "\<lambda>i. (page_at p i, the (mark_used_index (of_nat i) p))"
  define body where "body = (\<lambda>i p. do {
     u \<leftarrow> used_index i p;
     (if \<not> u then do {
        p \<leftarrow> mark_used_index i p;
        Some (Inr (g_managed_base p + i * kPageSize, p) :: pmm + (addr \<times> pmm))
      }
      else Some (Inl p)) })"
  have step: "body (of_nat k) p = Some (if ?P k then Inr (?r k) else Inl p)"
    if "k < unat (g_total_pages p)" for k
  proof -
    note k = pa_to_index_page_at(2,3) [OF ok that]
    have k': "unat (of_nat k :: u64) < 32768" using k by simp
    obtain p' where "mark_used_index (of_nat k) p = Some p'" "same_range p p'"
      using mark_used_index_correct [OF ok k'] by blast
    then show ?thesis
      using used_index_correct [OF ok k'] k by (simp add: body_def page_at_def same_range_def)
  qed
  note run = for_upto_search [where P = ?P and r = ?r and body = body and s = p and n = "g_total_pages p", OF step]
  have least: "(LEAST k. k < unat (g_total_pages p) \<and> ?P k) = (LEAST i. can_alloc p i)"
    by (simp add: can_alloc_def)
  show ?thesis
  proof (cases "\<exists>i. can_alloc p i")
    case True
    then have any: "\<exists>k < unat (g_total_pages p). ?P k" by (auto simp: can_alloc_def)
    have "can_alloc p (LEAST i. can_alloc p i)" using True by (rule LeastI_ex)
    then have "(LEAST i. can_alloc p i) < unat (g_total_pages p)" by (simp add: can_alloc_def)
    note l = pa_to_index_page_at(2,3) [OF ok this]
    have "alloc_page p = Some (?r (LEAST i. can_alloc p i))"
      using run any by (simp add: alloc_page_def body_def [symmetric] least)
    moreover obtain p' where "mark_used_index (of_nat (LEAST i. can_alloc p i)) p = Some p'" "pmm_ok p'"
      "same_range p p'" "free_slots p' = free_slots p - {LEAST i. can_alloc p i}"
      using l mark_used_index_correct [OF ok, of "of_nat (LEAST i. can_alloc p i)"] by auto
    ultimately show ?thesis using True by simp
  next
    case False
    then have none: "\<not> (\<exists>k < unat (g_total_pages p). ?P k)" by (auto simp: can_alloc_def)
    then have "for_loop 1 (g_total_pages p) body 0 p = Some (Inl p)"
      by (simp only: run if_False)
    then show ?thesis
      using False by (simp add: alloc_page_def body_def [symmetric])
  qed
qed

lemma free_page_at:
  assumes ok: "pmm_ok p" and i: "i < unat (g_total_pages p)"
  shows "i \<in> free_slots p \<Longrightarrow> free_page (page_at p i) p = Some (False, p)"
    and "i \<notin> free_slots p \<Longrightarrow> \<exists>p'. free_page (page_at p i) p = Some (True, p') \<and> pmm_ok p' \<and>
      same_range p p' \<and> free_slots p' = insert (slot_of i) (free_slots p)"
proof -
  note k = pa_to_index_page_at [OF ok i]
  have "is_page_aligned (page_at p i)" using page_at_aligned [OF ok, of i] i by simp
  moreover have "is_managed_page (page_at p i) p" using is_managed_page_correct [OF ok] i by blast
  ultimately have run: "free_page (page_at p i) p = (if i \<in> free_slots p then Some (False, p)
      else do { p \<leftarrow> mark_free_index (of_nat i) p; Some (True, p) })"
    using used_index_correct [OF ok, of "of_nat i"] k by (simp add: free_page_def Let_def)
  have "unat (of_nat i :: u64) < 32768" using k by simp
  from mark_free_index_correct [OF ok this] k(2) obtain p' where
    p': "mark_free_index (of_nat i) p = Some p'" "pmm_ok p'" "same_range p p'"
      "free_slots p' = insert (slot_of i) (free_slots p)"
    by auto
  show "i \<in> free_slots p \<Longrightarrow> free_page (page_at p i) p = Some (False, p)" by (simp add: run)
  show "\<exists>p'. free_page (page_at p i) p = Some (True, p') \<and> pmm_ok p' \<and>
      same_range p p' \<and> free_slots p' = insert (slot_of i) (free_slots p)" if "i \<notin> free_slots p"
    using that p' by (simp add: run)
qed

lemma free_page_unmanaged: "\<not> is_managed_page page p \<Longrightarrow> free_page page p = Some (False, p)"
  by (simp add: free_page_def)

text \<open>The three cases of \<^verbatim>\<open>free_page\<close>.\<close>

lemma free_page_cases:
  assumes ok: "pmm_ok p"
  obtains (refused) "\<not> is_managed_page pg p" "free_page pg p = Some (False, p)"
  | (already_free) i where "i < unat (g_total_pages p)" "pg = page_at p i" "i \<in> free_slots p"
      "free_page pg p = Some (False, p)"
  | (freed) i p' where "i < unat (g_total_pages p)" "pg = page_at p i" "i \<notin> free_slots p"
      "free_page pg p = Some (True, p')" "pmm_ok p'" "same_range p p'"
      "free_slots p' = insert (slot_of i) (free_slots p)"
proof (cases "is_managed_page pg p")
  case False
  then show thesis using free_page_unmanaged [of pg p] refused by blast
next
  case True
  then obtain i where i: "i < unat (g_total_pages p)" "pg = page_at p i"
    using is_managed_page_correct [OF ok] by blast
  show thesis
  proof (cases "i \<in> free_slots p")
    case True
    then show thesis using free_page_at(1) [OF ok i(1)] i already_free by simp
  next
    case False
    then show thesis using free_page_at(2) [OF ok i(1)] i freed by auto
  qed
qed

lemma is_page_free_correct:
  assumes ok: "pmm_ok p"
  shows "is_page_free pa p = Some (\<exists>i. can_alloc p i \<and> pa = page_at p i)"
proof (cases "is_managed_page pa p")
  case True
  then obtain i where i: "i < unat (g_total_pages p)" "pa = page_at p i"
    using is_managed_page_correct [OF ok] by auto
  note k = pa_to_index_page_at [OF ok i(1)]
  have "is_page_free pa p = Some (i \<in> free_slots p)"
    using True used_index_correct [OF ok, of "of_nat i"] k by (simp add: is_page_free_def i(2))
  moreover have "(\<exists>j. can_alloc p j \<and> pa = page_at p j) \<longleftrightarrow> i \<in> free_slots p"
    unfolding can_alloc_def i(2) using i(1) page_at_inj [OF ok, of i] by (metis less_imp_le)
  ultimately show ?thesis by simp
next
  case False
  then have "\<not> (\<exists>i. can_alloc p i \<and> pa = page_at p i)"
    using is_managed_page_correct [OF ok, of pa] by (auto simp: can_alloc_def)
  then show ?thesis using False by (simp add: is_page_free_def)
qed

section \<open>Reserving ranges\<close>

lemma aligned_is_page_at:
  assumes ok: "pmm_ok p" and al: "unat x mod 4096 = 0"
    and lo: "unat (g_managed_base p) \<le> unat x"
    and hi: "unat x \<le> unat (page_at p (unat (g_total_pages p)))"
  obtains i where "i \<le> unat (g_total_pages p)" "x = page_at p i"
proof -
  let ?b = "unat (g_managed_base p)"
  have "4096 dvd unat x" "4096 dvd ?b"
    using ok al by (auto simp: pmm_ok_def is_page_aligned_nat mod_eq_0_iff_dvd)
  then have "4096 dvd unat x - ?b" by (rule dvd_diff_nat)
  then obtain i where "unat x - ?b = 4096 * i" by (rule dvdE)
  then have i: "unat x = ?b + 4096 * i" "i \<le> unat (g_total_pages p)"
    using lo hi page_at_nat [OF ok, of "unat (g_total_pages p)"] by auto
  then have "x = page_at p i"
    using page_at_nat [OF ok i(2)] by (intro unsigned_word_eqI [where 'a = nat]) simp
  then show thesis using that i(2) by blast
qed

text \<open>The pages that a range touches, rounded outwards to whole pages.\<close>

definition reserved_pages :: "pmm \<Rightarrow> addr \<Rightarrow> u64 \<Rightarrow> nat set" where
  "reserved_pages p base sz = {i. i < unat (g_total_pages p) \<and> sz \<noteq> 0 \<and>
     unat (align_down base) \<le> unat (page_at p i) \<and> unat (page_at p i) < unat (align_up (base + sz))}"

lemma reserved_pages_same_range:
  "same_range p p' \<Longrightarrow> reserved_pages p' base sz = reserved_pages p base sz"
  by (simp add: reserved_pages_def same_range_page_at) (simp add: same_range_def)

lemma mark_used_loop:
  assumes ok: "pmm_ok p" and i: "i0 \<le> i1" "i1 \<le> unat (g_total_pages p)"
  shows "\<exists>p'. for_loop kPageSize (page_at p i1)
      (\<lambda>pa p. do { p \<leftarrow> mark_used_index (pa_to_index pa p) p; Some (Inl p :: pmm + unit) })
      (page_at p i0) p = Some (Inl p') \<and>
    pmm_ok p' \<and> same_range p p' \<and> free_slots p' = free_slots p - {i0..<i1}"
    (is "\<exists>p'. for_loop _ _ ?body _ _ = _ \<and> _")
proof -
  let ?I = "\<lambda>k q. pmm_ok q \<and> same_range p q \<and> free_slots q = free_slots p - {i0..<i0 + k}"
  have at: "page_at p i0 + of_nat k * kPageSize = page_at p (i0 + k)" for k
    by (simp add: page_at_def algebra_simps)
  have "(\<exists>p'. for_loop kPageSize (page_at p i1) ?body (page_at p i0) p = Some (Inl p') \<and> ?I (i1 - i0) p') \<or>
    (\<exists>r. for_loop kPageSize (page_at p i1) ?body (page_at p i0) p = Some (Inr r) \<and> False)"
  proof (rule for_loop_rule [where I = ?I], goal_cases)
    case (1 k)
    then show ?case using i by (simp only: at word_less_nat_alt) (simp add: page_at_nat [OF ok])
  next
    case 2
    then show ?case using i by (simp only: at) simp
  next
    case (3 k q)
    then have q: "pmm_ok q" "page_at p (i0 + k) = page_at q (i0 + k)"
      using same_range_page_at [of p q] by simp_all
    have lt: "i0 + k < unat (g_total_pages q)"
      using 3 i by (simp add: same_range_def)
    note ix = pa_to_index_page_at [OF q(1) lt]
    have "unat (of_nat (i0 + k) :: u64) < 32768" using ix(2,3) by simp
    from mark_used_index_correct [OF q(1) this] obtain q' where
      "mark_used_index (of_nat (i0 + k)) q = Some q'" "pmm_ok q'" "same_range q q'"
      "free_slots q' = free_slots q - {i0 + k}"
      using ix(2) by auto
    with 3 same_range_trans [of p q q'] show ?case
      by (simp only: at q(2) ix(1)) (auto simp: atLeastLessThanSuc)
  qed (simp_all add: ok)
  then show ?thesis using i by auto
qed

lemma reserve_range_correct:
  assumes ok: "pmm_ok p"
  shows "\<exists>p'. reserve_range base sz p = Some p' \<and> pmm_ok p' \<and> same_range p p' \<and>
    free_slots p' = free_slots p - reserved_pages p base sz"
proof (cases "sz = 0 \<or> g_total_pages p = 0")
  case True
  then have "reserve_range base sz p = Some p" "reserved_pages p base sz = {}"
    by (auto simp: reserve_range_def reserved_pages_def)
  then show ?thesis using ok by simp
next
  case False
  let ?n = "unat (g_total_pages p)"
  define me where "me = page_at p ?n"
  define rs where "rs = align_down base"
  define re where "re = align_up (base + sz)"
  define start where "start = (if rs < g_managed_base p then g_managed_base p else rs)"
  define stop where "stop = (if re > me then me else re)"
  have me: "g_managed_base p + g_total_pages p * kPageSize = me" by (simp add: me_def page_at_def)
  have al: "unat rs mod 4096 = 0" "unat re mod 4096 = 0" by (simp_all add: rs_def re_def)
  have base: "g_managed_base p = page_at p 0" by (simp add: page_at_def)
  have in_range: "i \<in> reserved_pages p base sz \<longleftrightarrow> i < ?n \<and> start \<le> page_at p i \<and> page_at p i < stop" for i
    using False page_at_nat [OF ok, of i] page_at_nat [OF ok, of ?n]
    by (auto simp: reserved_pages_def start_def stop_def me_def rs_def [symmetric] re_def [symmetric]
        word_le_nat_alt word_less_nat_alt)
  have run: "reserve_range base sz p = (if start \<ge> stop then Some p else do {
       r \<leftarrow> for_loop kPageSize stop
         (\<lambda>pa p. do { p \<leftarrow> mark_used_index (pa_to_index pa p) p; Some (Inl p) }) start p;
       (case r of Inl p \<Rightarrow> Some p | Inr (_ :: unit) \<Rightarrow> None) })"
    using False by (simp only: reserve_range_def Let_def me rs_def re_def start_def stop_def if_False)
  show ?thesis
  proof (cases "start \<ge> stop")
    case True
    then have "reserved_pages p base sz = {}" by (auto simp: in_range)
    then show ?thesis using True ok by (simp add: run)
  next
    case lt: False
    have "unat start mod 4096 = 0" "g_managed_base p \<le> start" "stop \<le> me" "unat stop mod 4096 = 0"
      using al ok page_at_aligned [OF ok, of ?n]
      by (auto simp: start_def stop_def me_def pmm_ok_def is_page_aligned_nat)
    moreover have "start \<le> stop" using lt by simp
    ultimately have bounds: "unat start mod 4096 = 0" "unat (g_managed_base p) \<le> unat start"
      "unat start \<le> unat (page_at p ?n)" "unat stop mod 4096 = 0"
      "unat (g_managed_base p) \<le> unat stop" "unat stop \<le> unat (page_at p ?n)"
      unfolding me_def word_le_nat_alt by simp_all
    obtain i0 where i0: "i0 \<le> ?n" "start = page_at p i0"
      using aligned_is_page_at [OF ok bounds(1-3)] by blast
    obtain i1 where i1: "i1 \<le> ?n" "stop = page_at p i1"
      using aligned_is_page_at [OF ok bounds(4-6)] by blast
    have cmp: "page_at p i < page_at p j \<longleftrightarrow> i < j" "page_at p i \<le> page_at p j \<longleftrightarrow> i \<le> j"
      if "i \<le> ?n" "j \<le> ?n" for i j
      using page_at_nat [OF ok that(1)] page_at_nat [OF ok that(2)]
      by (simp_all add: word_le_nat_alt word_less_nat_alt)
    have lt': "i0 < i1" using lt i0 i1 cmp(1) [of i0 i1] by (simp add: not_le)
    have mem: "reserved_pages p base sz = {i0..<i1}"
      using i0 i1 cmp(2) [of i0] cmp(1) [of _ i1] by (auto simp: in_range)
    from mark_used_loop [OF ok, of i0 i1] lt' i1 obtain p' where
      "for_loop kPageSize stop (\<lambda>pa p. do { p \<leftarrow> mark_used_index (pa_to_index pa p) p;
         Some (Inl p :: pmm + unit) }) start p = Some (Inl p')"
      "pmm_ok p'" "same_range p p'" "free_slots p' = free_slots p - {i0..<i1}"
      using i0 i1 by auto
    then show ?thesis using lt mem by (simp add: run)
  qed
qed

section \<open>Initialisation\<close>

definition init_pages :: "PhysicalRange \<Rightarrow> nat" where
  "init_pages m =
     (let lo = unat (align_up (range_base m)); hi = unat (align_down (range_base m + range_size m))
      in if hi \<le> lo then 0 else min ((hi - lo) div 4096) 32768)"

definition all_used :: "addr \<Rightarrow> u64 \<Rightarrow> pmm" where
  "all_used base n = \<lparr>g_used_bitmap = replicate 512 (NOT 0), g_managed_base = base,
     g_total_pages = n, g_free_pages = 0\<rparr>"

lemma all_used_free_slots [simp]: "free_slots (all_used base n) = {}"
proof -
  have "i div 64 < 512" if "i < 32768" for i :: nat using that by (simp add: less_mult_imp_div_less)
  then show ?thesis by (auto simp: free_slots_def clear_bits_def all_used_def bit_at_def)
qed

lemma all_used_ok:
  assumes "is_page_aligned base" "unat n \<le> 32768" "unat base + 4096 * unat n < 2 ^ 64"
  shows "pmm_ok (all_used base n)"
proof -
  have "unat (g_free_pages (all_used base n)) = card (free_slots (all_used base n))"
    unfolding all_used_free_slots by (simp add: all_used_def)
  then show ?thesis using assms by (simp add: pmm_ok_def all_used_def)
qed

lemma mark_free_loop:
  assumes ok: "pmm_ok p" and n: "unat n \<le> 32768"
  shows "\<exists>p'. for_loop 1 n (\<lambda>i p. do { p \<leftarrow> mark_free_index i p; Some (Inl p :: pmm + unit) }) 0 p =
      Some (Inl p') \<and> pmm_ok p' \<and> same_range p p' \<and>
    free_slots p' = free_slots p \<union> slot_of ` {..<unat n}"
proof -
  let ?I = "\<lambda>k q. pmm_ok q \<and> same_range p q \<and> free_slots q = free_slots p \<union> slot_of ` {..<k}"
  show ?thesis
  proof (rule for_upto_ex [where I = ?I])
    show "?I 0 p" using ok by simp
    fix k q
    assume k: "k < unat n" and q: "?I k q"
    have k': "unat (of_nat k :: u64) = k" "k < 32768" using k n by (simp_all add: unat_of_nat64)
    then have "unat (of_nat k :: u64) < 32768" by simp
    from mark_free_index_correct [OF conjunct1 [OF q] this] obtain q' where
      "mark_free_index (of_nat k) q = Some q'" "pmm_ok q'" "same_range q q'"
      "free_slots q' = insert (slot_of k) (free_slots q)"
      using k' by auto
    then show "\<exists>s'. (do { p \<leftarrow> mark_free_index (of_nat k) q; Some (Inl p :: pmm + unit) }) = Some (Inl s') \<and>
        ?I (Suc k) s'"
      using q same_range_trans [of p q q'] by (simp add: lessThan_Suc)
  qed
qed

lemma reserve_loop:
  assumes ok: "pmm_ok p" and n: "unat n \<le> length rs"
  shows "\<exists>p'. for_loop 1 n (\<lambda>i p. do {
        d \<leftarrow> rd rs i;
        p \<leftarrow> reserve_range (reserved_base d) (reserved_size d) p;
        Some (Inl p :: pmm + unit) }) 0 p = Some (Inl p') \<and> pmm_ok p' \<and> same_range p p' \<and>
    free_slots p' = free_slots p -
      (\<Union>d \<in> set (take (unat n) rs). reserved_pages p (reserved_base d) (reserved_size d))"
    (is "\<exists>p'. for_loop _ _ ?body _ _ = _ \<and> _")
proof -
  let ?R = "\<lambda>k. \<Union>d \<in> set (take k rs). reserved_pages p (reserved_base d) (reserved_size d)"
  let ?I = "\<lambda>k q. pmm_ok q \<and> same_range p q \<and> free_slots q = free_slots p - ?R k"
  show ?thesis
  proof (rule for_upto_ex [where I = ?I])
    show "?I 0 p" using ok by simp
    fix k q
    assume k: "k < unat n" and q: "?I k q"
    have k': "unat (of_nat k :: u64) = k"
      using k unat_less_2p64 [of n] by (simp add: unat_of_nat64 del: unat_less_2p64)
    have len: "k < length rs" using k n by simp
    have d: "rd rs (of_nat k) = Some (rs ! k)" using len k' by simp
    obtain q' where q': "reserve_range (reserved_base (rs ! k)) (reserved_size (rs ! k)) q = Some q'"
      "pmm_ok q'" "same_range q q'"
      "free_slots q' = free_slots q - reserved_pages q (reserved_base (rs ! k)) (reserved_size (rs ! k))"
      using reserve_range_correct [OF conjunct1 [OF q]] by blast
    have "?R (Suc k) = ?R k \<union> reserved_pages q (reserved_base (rs ! k)) (reserved_size (rs ! k))"
      using q reserved_pages_same_range [of p q] by (simp add: take_Suc_conv_app_nth [OF len] Un_commute)
    moreover have "free_slots q = free_slots p - ?R k" using q by simp
    ultimately have "free_slots q' = free_slots p - ?R (Suc k)" by (simp only: q'(4) Diff_eq Compl_Un Int_assoc)
    then show "\<exists>s'. ?body (of_nat k) q = Some (Inl s') \<and> ?I (Suc k) s'"
      using q q' same_range_trans [of p q q'] d by simp
  qed
qed

lemma pmm_init_correct:
  assumes len: "length (g_used_bitmap p) = 512" and n: "unat n \<le> length rs"
  shows "\<exists>p'. pmm_init_range m rs n p = Some p' \<and> pmm_ok p' \<and>
    g_managed_base p' = align_up (range_base m) \<and> unat (g_total_pages p') = init_pages m \<and>
    free_slots p' = slot_of ` {..<init_pages m} -
      (\<Union>d \<in> set (take (unat n) rs). reserved_pages p' (reserved_base d) (reserved_size d))"
proof -
  let ?lo = "align_up (range_base m)" and ?hi = "align_down (range_base m + range_size m)"
  have fill: "map (\<lambda>_. - 1) (g_used_bitmap p) = replicate 512 (- 1 :: u64)"
    by (simp only: map_replicate_const len)
  show ?thesis
  proof (cases "?hi \<le> ?lo")
    case True
    then have "pmm_init_range m rs n p = Some (all_used ?lo 0)"
      by (simp add: pmm_init_range_def fill all_used_def)
    moreover have "pmm_ok (all_used ?lo 0)"
      by (rule all_used_ok) (simp_all add: align_up_is_aligned)
    ultimately show ?thesis
      using True by (simp add: init_pages_def word_le_nat_alt) (simp add: all_used_def)
  next
    case False
    define cnt where "cnt = (?hi - ?lo) div kPageSize"
    define tot where "tot = (if cnt < kMaxManagedPages then cnt else kMaxManagedPages)"
    have cnt: "unat cnt = (unat ?hi - unat ?lo) div 4096"
      using False by (simp add: cnt_def unat_div unat_sub)
    then have tot: "unat tot = init_pages m"
      using False by (simp add: tot_def init_pages_def word_less_nat_alt word_le_nat_alt
          kMaxManagedPages_def min_def Let_def)
    have le: "4096 * unat tot \<le> unat ?hi - unat ?lo" "unat tot \<le> 32768"
      using cnt by (auto simp: tot_def word_less_nat_alt kMaxManagedPages_def)
    have ok: "pmm_ok (all_used ?lo tot)"
      using le False unat_less_2p64 [of ?hi]
      by (intro all_used_ok) (simp_all add: align_up_is_aligned word_le_nat_alt del: unat_less_2p64)
    obtain p1 where p1: "for_loop 1 tot (\<lambda>i p. do { p \<leftarrow> mark_free_index i p; Some (Inl p :: pmm + unit) })
        0 (all_used ?lo tot) = Some (Inl p1)" "pmm_ok p1" "same_range (all_used ?lo tot) p1"
        "free_slots p1 = slot_of ` {..<unat tot}"
      using mark_free_loop [OF ok le(2)] by auto
    obtain p2 where p2: "for_loop 1 n (\<lambda>i p. do {
        d \<leftarrow> rd rs i;
        p \<leftarrow> reserve_range (reserved_base d) (reserved_size d) p;
        Some (Inl p :: pmm + unit) }) 0 p1 = Some (Inl p2)" "pmm_ok p2" "same_range p1 p2"
      "free_slots p2 = free_slots p1 -
        (\<Union>d \<in> set (take (unat n) rs). reserved_pages p1 (reserved_base d) (reserved_size d))"
      using reserve_loop [OF p1(2) n] by blast
    have "pmm_init_range m rs n p = Some p2"
      using False p1(1) [unfolded all_used_def] p2(1)
      by (simp add: pmm_init_range_def fill Let_def cnt_def [symmetric, simplified] tot_def [symmetric])
    moreover have "same_range (all_used ?lo tot) p2"
      using p1(3) p2(3) by (rule same_range_trans)
    ultimately show ?thesis
      using p2 p1(4) tot reserved_pages_same_range [OF p2(3)]
      by (simp add: same_range_def) (simp add: all_used_def)
  qed
qed

end
