(* ===== verification/Memmap.thy ===== *)
theory Memmap
  imports Page
begin

text \<open>
  \<^verbatim>\<open>platform/qemu/memmap.h\<close>, \<^verbatim>\<open>platform/linker_symbols.h\<close> and \<^verbatim>\<open>scripts/linker.ld\<close>: the physical
  regions of the virt machine, the linker symbols and the layout the linker script gives
  them. The sizes of the four output sections are the only parameter: \<open>link_layout\<close> computes
  every symbol from them as the script does, and the lemmas say that the symbols are ordered,
  page aligned where the kernel needs it, and inside DRAM for every kernel that fits.
\<close>

record MemoryRegion =
  region_base :: addr
  region_size :: u64

definition kDram :: MemoryRegion where
  "kDram = \<lparr>region_base = 0x80000000, region_size = 128 * 1024 * 1024\<rparr>"

definition kUart0 :: MemoryRegion where
  "kUart0 = \<lparr>region_base = 0x10000000, region_size = 0x100\<rparr>"

definition kClint :: MemoryRegion where
  "kClint = \<lparr>region_base = 0x02000000, region_size = 0x10000\<rparr>"

definition CLINT_MTIMECMP :: MemoryRegion where
  "CLINT_MTIMECMP = \<lparr>region_base = region_base kClint + 0x4000, region_size = 1\<rparr>"

definition CLINT_MTIME :: MemoryRegion where
  "CLINT_MTIME = \<lparr>region_base = region_base kClint + 0xBFF8, region_size = 1\<rparr>"

definition kPlic :: MemoryRegion where
  "kPlic = \<lparr>region_base = 0x0C000000, region_size = 0x4000000\<rparr>"

section \<open>Linker symbols\<close>

record linker_symbols =
  kernel_start_addr :: addr
  kernel_end_addr :: addr
  text_start_addr :: addr
  text_end_addr :: addr
  rodata_start_addr :: addr
  rodata_end_addr :: addr
  data_start_addr :: addr
  data_end_addr :: addr
  bss_start_addr :: addr
  bss_end_addr :: addr
  boot_stack_bottom_addr :: addr
  boot_stack_top_addr :: addr
  stack_bottom_addr :: addr
  stack_top_addr :: addr
  heap_start_addr :: addr
  global_pointer_addr :: addr

record section_sizes =
  text_size :: u64
  rodata_size :: u64
  data_size :: u64
  bss_size :: u64

definition ld_align :: "u64 \<Rightarrow> addr \<Rightarrow> addr" where
  "ld_align n a = (a + (n - 1)) AND NOT (n - 1)"

definition link_layout :: "section_sizes \<Rightarrow> linker_symbols" where
  "link_layout z =
     (let kstart = 0x80000000;
          tstart = ld_align 4096 kstart; tend = tstart + text_size z;
          rstart = ld_align 4096 tend; rend = rstart + rodata_size z;
          dstart = ld_align 4096 rend; dend = dstart + data_size z;
          bstart = ld_align 4096 dend; bend = bstart + bss_size z;
          bottom = ld_align 16 bend;
          top = bottom + 16 * 1024;
          kend = ld_align 4096 top
      in \<lparr>kernel_start_addr = kstart, kernel_end_addr = kend,
          text_start_addr = tstart, text_end_addr = tend,
          rodata_start_addr = rstart, rodata_end_addr = rend,
          data_start_addr = dstart, data_end_addr = dend,
          bss_start_addr = bstart, bss_end_addr = bend,
          boot_stack_bottom_addr = bottom, boot_stack_top_addr = top,
          stack_bottom_addr = bottom, stack_top_addr = top,
          heap_start_addr = kend, global_pointer_addr = kend\<rparr>)"

lemma ld_align_4096: "ld_align 4096 = align_up"
  by (simp add: fun_eq_iff ld_align_def align_up_def)

lemma ld_align_16_nat: "unat a + 15 < 2 ^ 64 \<Longrightarrow> unat (ld_align 16 a) = (unat a + 15) div 16 * 16"
proof -
  assume a: "unat a + 15 < 2 ^ 64"
  have "(16 :: u64) - 1 = mask 4" by (simp add: mask_eq_exp_minus_1)
  then have eq: "ld_align 16 a = push_bit 4 (drop_bit 4 (a + 15))"
    unfolding ld_align_def using and_not_mask [of "a + 15" 4] by simp
  have "unat (a + 15) = unat a + 15" using a by (simp add: unat_word_ariths)
  then have q: "unat (drop_bit 4 (a + 15)) = (unat a + 15) div 16"
    by (simp add: drop_bit_eq_div unat_div)
  have "(unat a + 15) div 16 * 16 \<le> unat a + 15" by (rule div_times_less_eq_dividend)
  then show ?thesis
    using a by (simp add: eq push_bit_eq_mult unat_word_ariths q)
qed

lemma ld_align_bounds:
  "unat a + 4095 < 2 ^ 64 \<Longrightarrow> unat a \<le> unat (ld_align 4096 a) \<and> unat (ld_align 4096 a) \<le> unat a + 4095"
  "unat a + 15 < 2 ^ 64 \<Longrightarrow> unat a \<le> unat (ld_align 16 a) \<and> unat (ld_align 16 a) \<le> unat a + 15"
proof -
  assume "unat a + 4095 < 2 ^ 64"
  from align_up_nat [OF this] show
    "unat a \<le> unat (ld_align 4096 a) \<and> unat (ld_align 4096 a) \<le> unat a + 4095"
    unfolding ld_align_4096 by linarith
next
  assume "unat a + 15 < 2 ^ 64"
  from ld_align_16_nat [OF this] show
    "unat a \<le> unat (ld_align 16 a) \<and> unat (ld_align 16 a) \<le> unat a + 15"
    by linarith
qed

definition image_size :: "section_sizes \<Rightarrow> nat" where
  "image_size z = unat (text_size z) + unat (rodata_size z) + unat (data_size z) + unat (bss_size z)"

lemma unat_add_small: "unat a + unat b < 2 ^ 64 \<Longrightarrow> unat (a + b) = unat a + unat (b :: u64)"
  by (simp add: unat_word_ariths)

text \<open>One output section: where it ends, and where the next one starts.\<close>

lemma section_step:
  fixes s sz :: u64
  assumes "unat s \<le> lo" "lo + unat sz + 4095 < 2 ^ 64"
  shows "unat s \<le> unat (s + sz)" "unat (s + sz) \<le> unat (ld_align 4096 (s + sz))"
    "unat (ld_align 4096 (s + sz)) \<le> lo + unat sz + 4095"
  using assms unat_add_small [of s sz] ld_align_bounds(1) [of "s + sz"] by auto

definition layout_ok :: "linker_symbols \<Rightarrow> bool" where
  "layout_ok L \<longleftrightarrow> kernel_start_addr L = 0x80000000 \<and>
     kernel_start_addr L \<le> text_start_addr L \<and> text_start_addr L \<le> text_end_addr L \<and>
     text_end_addr L \<le> rodata_start_addr L \<and> rodata_start_addr L \<le> rodata_end_addr L \<and>
     rodata_end_addr L \<le> data_start_addr L \<and> data_start_addr L \<le> data_end_addr L \<and>
     data_end_addr L \<le> bss_start_addr L \<and> bss_start_addr L \<le> bss_end_addr L \<and>
     bss_end_addr L \<le> boot_stack_bottom_addr L \<and> boot_stack_bottom_addr L < boot_stack_top_addr L \<and>
     boot_stack_top_addr L \<le> kernel_end_addr L \<and> heap_start_addr L = kernel_end_addr L \<and>
     is_page_aligned (text_start_addr L) \<and> is_page_aligned (rodata_start_addr L) \<and>
     is_page_aligned (data_start_addr L) \<and> is_page_aligned (bss_start_addr L) \<and>
     is_page_aligned (kernel_end_addr L) \<and> kernel_end_addr L < region_base kDram + region_size kDram"

lemma link_layout_ok:
  assumes sz: "image_size z + 0x9000 < 128 * 1024 * 1024"
  shows "layout_ok (link_layout z)"
proof -
  define rs where "rs = ld_align 4096 (0x80000000 + text_size z)"
  define ds where "ds = ld_align 4096 (rs + rodata_size z)"
  define bs where "bs = ld_align 4096 (ds + data_size z)"
  define bt where "bt = ld_align 16 (bs + bss_size z)"
  define ke where "ke = ld_align 4096 (bt + 16 * 1024)"
  note sz' = sz [unfolded image_size_def]
  have t: "ld_align 4096 0x80000000 = 0x80000000"
    by (simp add: ld_align_4096 align_up_of_aligned is_page_aligned_nat)
  have "unat (0x80000000 :: u64) \<le> 0x80000000" by simp
  note r1 = section_step [OF this, of "text_size z", folded rs_def]
  have r: "unat (0x80000000 :: u64) \<le> unat (0x80000000 + text_size z)" "unat (0x80000000 + text_size z) \<le> unat rs"
    "unat rs \<le> 0x80000FFF + unat (text_size z)"
    using r1 sz' by auto
  note d1 = section_step [OF r(3), of "rodata_size z", folded ds_def]
  have d: "unat rs \<le> unat (rs + rodata_size z)" "unat (rs + rodata_size z) \<le> unat ds"
    "unat ds \<le> 0x80001FFE + unat (text_size z) + unat (rodata_size z)"
    using d1 sz' by auto
  note b1 = section_step [OF d(3), of "data_size z", folded bs_def]
  have b: "unat ds \<le> unat (ds + data_size z)" "unat (ds + data_size z) \<le> unat bs"
    "unat bs \<le> 0x80002FFD + unat (text_size z) + unat (rodata_size z) + unat (data_size z)"
    using b1 sz' by auto
  have e: "unat (bs + bss_size z) = unat bs + unat (bss_size z)"
    by (rule unat_add_small) (use b(3) sz' in simp)
  have bt: "unat (bs + bss_size z) \<le> unat bt" "unat bt \<le> unat (bs + bss_size z) + 15"
    using ld_align_bounds(2) [of "bs + bss_size z"] e b(3) sz' by (simp_all add: bt_def)
  have top: "unat (bt + 16 * 1024) = unat bt + 16384"
    using unat_add_small [of bt "16 * 1024"] bt e b(3) sz' by simp
  have ke: "unat (bt + 16 * 1024) \<le> unat ke" "unat ke \<le> unat (bt + 16 * 1024) + 4095"
    using ld_align_bounds(1) [of "bt + 16 * 1024"] top bt e b(3) sz' by (simp_all add: ke_def)
  have al: "is_page_aligned rs" "is_page_aligned ds" "is_page_aligned bs" "is_page_aligned ke"
    "is_page_aligned 0x80000000"
    by (simp_all add: rs_def ds_def bs_def ke_def ld_align_4096 align_up_is_aligned is_page_aligned_nat)
  have "unat ke < 0x88000000" using ke top bt e b(3) sz' by simp
  then show ?thesis
    using r(1,2) d(1,2) b(1,2) e bt(1) top ke(1) al
    unfolding layout_ok_def link_layout_def Let_def t rs_def [symmetric] ds_def [symmetric]
      bs_def [symmetric] bt_def [symmetric] ke_def [symmetric] word_le_nat_alt word_less_nat_alt
    by (simp add: kDram_def)
qed

lemma link_layout_end:
  assumes sz: "image_size z + 0x9000 < 128 * 1024 * 1024"
  shows "unat (kernel_end_addr (link_layout z)) \<le> 0x80000000 + image_size z + 0x9000"
proof -
  define rs where "rs = ld_align 4096 (0x80000000 + text_size z)"
  define ds where "ds = ld_align 4096 (rs + rodata_size z)"
  define bs where "bs = ld_align 4096 (ds + data_size z)"
  define bt where "bt = ld_align 16 (bs + bss_size z)"
  note sz' = sz [unfolded image_size_def]
  have t: "ld_align 4096 0x80000000 = 0x80000000"
    by (simp add: ld_align_4096 align_up_of_aligned is_page_aligned_nat)
  have "unat (0x80000000 :: u64) \<le> 0x80000000" by simp
  from section_step(3) [OF this, of "text_size z", folded rs_def] sz'
  have r: "unat rs \<le> 0x80000FFF + unat (text_size z)" by simp
  from section_step(3) [OF r, of "rodata_size z", folded ds_def] sz'
  have d: "unat ds \<le> 0x80001FFE + unat (text_size z) + unat (rodata_size z)" by simp
  from section_step(3) [OF d, of "data_size z", folded bs_def] sz'
  have b: "unat bs \<le> 0x80002FFD + unat (text_size z) + unat (rodata_size z) + unat (data_size z)" by simp
  have e: "unat (bs + bss_size z) = unat bs + unat (bss_size z)"
    by (rule unat_add_small) (use b sz' in simp)
  have bt: "unat bt \<le> unat (bs + bss_size z) + 15"
    using ld_align_bounds(2) [of "bs + bss_size z"] e b sz' by (simp add: bt_def)
  have top: "unat (bt + 16 * 1024) = unat bt + 16384"
    using unat_add_small [of bt "16 * 1024"] bt e b sz' by simp
  have "unat (ld_align 4096 (bt + 16 * 1024)) \<le> unat (bt + 16 * 1024) + 4095"
    using ld_align_bounds(1) [of "bt + 16 * 1024"] top bt e b sz' by simp
  moreover have "kernel_end_addr (link_layout z) = ld_align 4096 (bt + 16 * 1024)"
    unfolding link_layout_def Let_def t rs_def ds_def bs_def bt_def by simp
  ultimately show ?thesis using top bt e b by (simp add: image_size_def)
qed

lemma layout_kernel_end: "layout_ok L \<Longrightarrow> 0x80000000 < kernel_end_addr L"
  unfolding layout_ok_def by (elim conjE) (drule sym, order)

end
