(* ===== verification/Page_Allocator.thy ===== *)
theory Page_Allocator
  imports Pmm Memmap
begin

text \<open>
  The contract of the physical page allocator and its proof for the model of
  \<^verbatim>\<open>kernel/mm/pmm.cpp\<close>, and the platform's initialisation \<^verbatim>\<open>kernel/mm/pmm_platform.cpp\<close>.
  The locale \<open>page_allocator\<close> states what a client (the page table code) relies on; its
  lemmas follow a client that allocates and releases pages in any order. The interpretation
  \<open>pmm\<close> discharges the contract on \<^verbatim>\<open>alloc_page\<close> and \<^verbatim>\<open>free_page\<close>, for the pages whose bit the
  code's \<^verbatim>\<open>mark_free_index\<close> clears (\<open>slot_of i = i\<close>).
\<close>

section \<open>Platform initialisation\<close>

definition pmm_init :: "linker_symbols \<Rightarrow> pmm \<Rightarrow> pmm option" where
  "pmm_init L p =
     (let reserved = [\<lparr>reserved_base = kernel_start_addr L,
            reserved_size = kernel_end_addr L - kernel_start_addr L\<rparr>]
      in pmm_init_range
           \<lparr>range_base = region_base kDram, range_size = region_size kDram\<rparr>
           reserved 1 p)"

section \<open>The contract\<close>

text \<open>
  A client of an allocator holds a set of pages. It may ask for a page at any time and give
  back a page it holds.
\<close>

inductive client_step ::
  "('s \<Rightarrow> (addr \<times> 's) option) \<Rightarrow> (addr \<Rightarrow> 's \<Rightarrow> (bool \<times> 's) option) \<Rightarrow>
   addr set \<times> 's \<Rightarrow> addr set \<times> 's \<Rightarrow> bool"
  for alloc free where
  obtained: "alloc s = Some (pg, s') \<Longrightarrow> pg \<noteq> nullptr \<Longrightarrow>
    client_step alloc free (held, s) (insert pg held, s')"
| refused: "alloc s = Some (nullptr, s') \<Longrightarrow> client_step alloc free (held, s) (held, s')"
| released: "pg \<in> held \<Longrightarrow> free pg s = Some (r, s') \<Longrightarrow>
    client_step alloc free (held, s) (held - {pg}, s')"

inductive_cases client_stepE: "client_step alloc free (held, s) c'"

locale page_allocator =
  fixes alloc :: "'s \<Rightarrow> (addr \<times> 's) option"
    and free :: "addr \<Rightarrow> 's \<Rightarrow> (bool \<times> 's) option"
    and avail :: "'s \<Rightarrow> addr set"
    and frames :: "'s \<Rightarrow> addr set"
    and inv :: "'s \<Rightarrow> bool"
  assumes alloc_law: "inv s \<Longrightarrow> avail s \<noteq> {} \<Longrightarrow> \<exists>pg s'. alloc s = Some (pg, s') \<and>
      pg \<in> avail s \<and> inv s' \<and> avail s' = avail s - {pg} \<and> frames s' = frames s"
    and alloc_none_law: "inv s \<Longrightarrow> avail s = {} \<Longrightarrow> alloc s = Some (nullptr, s)"
    and free_law: "inv s \<Longrightarrow> pg \<in> frames s \<Longrightarrow> pg \<notin> avail s \<Longrightarrow> \<exists>s'. free pg s = Some (True, s') \<and>
      inv s' \<and> avail s' = insert pg (avail s) \<and> frames s' = frames s"
    and frames_law: "inv s \<Longrightarrow> avail s \<subseteq> frames s \<and> finite (frames s) \<and> nullptr \<notin> frames s \<and>
      (\<forall>pg \<in> frames s. is_page_aligned pg)"
begin

lemma alloc_result:
  assumes "inv s"
  shows "\<exists>pg s'. alloc s = Some (pg, s') \<and> inv s' \<and> frames s' = frames s \<and>
    (if avail s = {} then pg = nullptr \<and> s' = s
     else pg \<in> avail s \<and> pg \<noteq> nullptr \<and> is_page_aligned pg \<and> avail s' = avail s - {pg})"
  using alloc_law [OF assms] alloc_none_law [OF assms] frames_law [OF assms] assms
  by (cases "avail s = {}") (auto simp: subset_iff)

lemma alloc_free_roundtrip:
  assumes "inv s" "alloc s = Some (pg, s1)" "pg \<noteq> nullptr"
  shows "\<exists>s2. free pg s1 = Some (True, s2) \<and> inv s2 \<and> avail s2 = avail s"
proof -
  have "avail s \<noteq> {}" using alloc_none_law [OF assms(1)] assms(2,3) by auto
  with alloc_law [OF assms(1)] assms(2) have s1: "pg \<in> avail s" "inv s1" "avail s1 = avail s - {pg}"
    "frames s1 = frames s"
    by auto
  moreover have "pg \<in> frames s1" using s1 frames_law [OF assms(1)] by auto
  ultimately show ?thesis using free_law [OF s1(2), of pg] by auto
qed

definition consistent :: "addr set \<Rightarrow> addr set \<times> 's \<Rightarrow> bool" where
  "consistent pool c \<longleftrightarrow> inv (snd c) \<and> fst c \<inter> avail (snd c) = {} \<and> fst c \<union> avail (snd c) = pool \<and>
     fst c \<subseteq> frames (snd c)"

lemma consistent_step:
  assumes "client_step alloc free c c'" "consistent pool c"
  shows "consistent pool c'"
  using assms
proof cases
  case (obtained s pg s' held)
  then have i: "inv s" using assms(2) by (simp add: consistent_def)
  have "avail s \<noteq> {}" using alloc_none_law [OF i] obtained by auto
  with alloc_law [OF i] obtained(3) have "pg \<in> avail s" "inv s'" "avail s' = avail s - {pg}"
    "frames s' = frames s"
    by auto
  then show ?thesis using assms(2) obtained frames_law [OF i] by (auto simp: consistent_def)
next
  case (refused s s' held)
  then have i: "inv s" using assms(2) by (simp add: consistent_def)
  have "avail s = {}" using alloc_law [OF i] frames_law [OF i] refused by auto
  then have "s' = s" using alloc_none_law [OF i] refused by simp
  then show ?thesis using assms(2) refused by simp
next
  case (released pg held s r s')
  then have i: "inv s" "pg \<in> frames s" "pg \<notin> avail s" using assms(2) by (auto simp: consistent_def)
  with free_law [OF i] released(4) have "inv s'" "avail s' = insert pg (avail s)" "frames s' = frames s"
    by auto
  then show ?thesis using assms(2) released by (auto simp: consistent_def)
qed

lemma client_invariant:
  assumes "(client_step alloc free)\<^sup>*\<^sup>* ({}, s0) c" "inv s0"
  shows "consistent (avail s0) c"
  using assms(1)
proof (induction rule: rtranclp_induct)
  case base
  then show ?case using assms(2) by (simp add: consistent_def)
next
  case (step c c')
  from consistent_step [OF step.hyps(2) step.IH] show ?case .
qed

lemma client_next_alloc:
  assumes "(client_step alloc free)\<^sup>*\<^sup>* ({}, s0) (held, s)" "inv s0"
  shows "\<exists>pg s'. alloc s = Some (pg, s') \<and>
    (if held = avail s0 then pg = nullptr \<and> s' = s
     else pg \<in> avail s0 \<and> pg \<notin> held \<and> pg \<noteq> nullptr \<and> is_page_aligned pg)"
proof -
  have c: "inv s" "held \<inter> avail s = {}" "held \<union> avail s = avail s0"
    using client_invariant [OF assms] by (simp_all add: consistent_def)
  have "held = avail s0 \<longleftrightarrow> avail s = {}" using c by blast
  then show ?thesis using alloc_result [OF c(1)] c by (cases "avail s = {}") auto
qed

lemma client_next_free:
  assumes "(client_step alloc free)\<^sup>*\<^sup>* ({}, s0) (held, s)" "inv s0" "pg \<in> held"
  shows "\<exists>s'. free pg s = Some (True, s') \<and> avail s' = insert pg (avail s)"
proof -
  have c: "inv s" "pg \<in> frames s" "pg \<notin> avail s"
    using client_invariant [OF assms(1,2)] assms(3) by (auto simp: consistent_def)
  then show ?thesis using free_law by blast
qed

end

section \<open>The physical page allocator implements it\<close>

definition avail_pages :: "pmm \<Rightarrow> addr set" where
  "avail_pages p = page_at p ` {i. can_alloc p i}"

definition frame_pages :: "pmm \<Rightarrow> addr set" where
  "frame_pages p = page_at p ` {i. i < unat (g_total_pages p) \<and> slot_of i = i}"

definition pmm_inv :: "pmm \<Rightarrow> bool" where
  "pmm_inv p \<longleftrightarrow> pmm_ok p \<and> g_managed_base p \<noteq> 0 \<and> (\<forall>i \<in> free_slots p. slot_of i = i)"

lemma pmm_invD: "pmm_inv p \<Longrightarrow> pmm_ok p" "pmm_inv p \<Longrightarrow> i \<in> free_slots p \<Longrightarrow> slot_of i = i"
  by (simp_all add: pmm_inv_def)

lemma frame_pages_same_range: "same_range p p' \<Longrightarrow> frame_pages p' = frame_pages p"
  using same_range_page_at [of p p'] by (simp add: frame_pages_def same_range_def cong: image_cong)

lemma avail_pages_same_range:
  assumes "same_range p p'"
  shows "avail_pages p' = page_at p ` {i. i < unat (g_total_pages p) \<and> i \<in> free_slots p'}"
  using same_range_page_at [OF assms] assms
  by (simp add: avail_pages_def can_alloc_def same_range_def cong: image_cong)

lemma page_at_nonzero:
  "pmm_inv p \<Longrightarrow> i \<le> unat (g_total_pages p) \<Longrightarrow> page_at p i \<noteq> 0"
  using page_at_nat [of p i] by (auto simp: pmm_inv_def dest!: arg_cong [where f = unat] simp: unat_eq_zero)

lemma page_at_image_diff:
  assumes "pmm_ok p" "A \<subseteq> {..<unat (g_total_pages p)}" "i < unat (g_total_pages p)"
  shows "page_at p ` (A - {i}) = page_at p ` A - {page_at p i}"
  using assms page_at_inj [OF assms(1)] by (auto simp: subset_iff)

lemma pmm_alloc_step:
  assumes inv: "pmm_inv p" and some: "avail_pages p \<noteq> {}"
  shows "\<exists>pg p'. alloc_page p = Some (pg, p') \<and> pg \<in> avail_pages p \<and> pmm_inv p' \<and>
    avail_pages p' = avail_pages p - {pg} \<and> frame_pages p' = frame_pages p"
proof -
  note ok = pmm_invD(1) [OF inv]
  let ?i = "LEAST i. can_alloc p i"
  have ex: "\<exists>i. can_alloc p i" using some by (auto simp: avail_pages_def)
  then have i: "can_alloc p ?i" by (rule LeastI_ex)
  obtain p' where p': "alloc_page p = Some (page_at p ?i, p')" "pmm_ok p'" "same_range p p'"
    "free_slots p' = free_slots p - {?i}"
    using alloc_page_correct [OF ok] ex by auto
  have set: "{i. i < unat (g_total_pages p) \<and> i \<in> free_slots p'} = {i. can_alloc p i} - {?i}"
    using p'(4) by (auto simp: can_alloc_def)
  have "avail_pages p' = page_at p ` ({i. can_alloc p i} - {?i})"
    by (simp only: avail_pages_same_range [OF p'(3)] set)
  also have "\<dots> = avail_pages p - {page_at p ?i}"
    unfolding avail_pages_def
    by (rule page_at_image_diff [OF ok]) (use i in \<open>auto simp: can_alloc_def\<close>)
  finally have "avail_pages p' = avail_pages p - {page_at p ?i}" .
  moreover have "pmm_inv p'" using inv p' by (simp add: pmm_inv_def same_range_def)
  ultimately show ?thesis
    using p' i frame_pages_same_range [OF p'(3)] by (auto simp: avail_pages_def)
qed

lemma pmm_alloc_none:
  "pmm_inv p \<Longrightarrow> avail_pages p = {} \<Longrightarrow> alloc_page p = Some (nullptr, p)"
  using alloc_page_correct [OF pmm_invD(1)] by (auto simp: avail_pages_def split: if_splits)

lemma pmm_free_step:
  assumes inv: "pmm_inv p" and pg: "pg \<in> frame_pages p" "pg \<notin> avail_pages p"
  shows "\<exists>p'. free_page pg p = Some (True, p') \<and> pmm_inv p' \<and>
    avail_pages p' = insert pg (avail_pages p) \<and> frame_pages p' = frame_pages p"
proof -
  note ok = pmm_invD(1) [OF inv]
  obtain i where i: "pg = page_at p i" "i < unat (g_total_pages p)" "slot_of i = i"
    using pg(1) by (auto simp: frame_pages_def)
  have used: "i \<notin> free_slots p" using pg(2) i by (auto simp: avail_pages_def can_alloc_def)
  obtain p' where p': "free_page pg p = Some (True, p')" "pmm_ok p'" "same_range p p'"
    and fs: "free_slots p' = insert i (free_slots p)"
    using free_page_at(2) [OF ok i(2) used] i(1,3) by auto
  have "{k. k < unat (g_total_pages p) \<and> k \<in> free_slots p'} = insert i {k. can_alloc p k}"
    using fs i(2) by (auto simp: can_alloc_def)
  then have "avail_pages p' = insert pg (avail_pages p)"
    by (simp only: avail_pages_same_range [OF p'(3)] image_insert i(1) avail_pages_def [of p])
  moreover have "pmm_inv p'" using inv p' fs i(3) by (simp add: pmm_inv_def same_range_def)
  ultimately show ?thesis using p'(1) frame_pages_same_range [OF p'(3)] by blast
qed

lemma pmm_frames:
  assumes "pmm_inv p"
  shows "avail_pages p \<subseteq> frame_pages p \<and> finite (frame_pages p) \<and> nullptr \<notin> frame_pages p \<and>
    (\<forall>pg \<in> frame_pages p. is_page_aligned pg)"
proof -
  have "finite {i. i < unat (g_total_pages p) \<and> slot_of i = i}" by simp
  then have "finite (frame_pages p)" unfolding frame_pages_def by (rule finite_imageI)
  then show ?thesis
    using assms page_at_nonzero [OF assms] page_at_aligned [OF pmm_invD(1) [OF assms]]
    by (auto simp: avail_pages_def frame_pages_def can_alloc_def pmm_inv_def)
qed

interpretation pmm: page_allocator alloc_page free_page avail_pages frame_pages pmm_inv
  by unfold_locales (fact pmm_alloc_step pmm_alloc_none pmm_free_step pmm_frames)+

section \<open>The pool at boot\<close>

lemma is_page_free_avail: "pmm_ok p \<Longrightarrow> is_page_free pa p = Some (pa \<in> avail_pages p)"
  by (auto simp: is_page_free_correct avail_pages_def)

lemma is_page_free_at:
  assumes "pmm_ok p'" "same_range p p'" "i < unat (g_total_pages p)"
  shows "is_page_free (page_at p i) p' = Some (i \<in> free_slots p')"
proof -
  have i: "i < unat (g_total_pages p')" using assms(2,3) by (simp add: same_range_def)
  have "(\<exists>k. can_alloc p' k \<and> page_at p' i = page_at p' k) \<longleftrightarrow> i \<in> free_slots p'"
    unfolding can_alloc_def using page_at_inj [OF assms(1), of i] i by (metis less_imp_le)
  then show ?thesis
    by (simp add: is_page_free_correct [OF assms(1)] same_range_page_at [OF assms(2), symmetric])
qed

lemma slot_image: "slot_of ` {..<n} \<inter> {..<n} = {i. i < n \<and> slot_of i = i}"
  by (auto simp: image_iff) (metis lessThan_iff)

lemma slot_image_dvd: "slot_of ` {..<64 * k} = {i. i < 64 * k \<and> slot_of i = i}"
proof -
  have "slot_of i < 64 * k" if "i < 64 * k" for i
  proof -
    have "i div 64 < k" using that by (simp add: less_mult_imp_div_less mult.commute)
    moreover have "i div 64 mod 64 < 64" by simp
    ultimately show ?thesis unfolding slot_of_def by linarith
  qed
  then have "slot_of ` {..<64 * k} \<subseteq> {..<64 * k}" by auto
  then show ?thesis using slot_image [of "64 * k"] by blast
qed

lemma diagonal_card: "card {i. i < 64 * k \<and> slot_of i = i} = k"
proof -
  have "{i. i < 64 * k \<and> slot_of i = i} = (\<lambda>j. 64 * j + j mod 64) ` {..<k}"
  proof (intro set_eqI iffI)
    fix i
    assume "i \<in> {i. i < 64 * k \<and> slot_of i = i}"
    then have "i div 64 < k" "i = 64 * (i div 64) + i div 64 mod 64"
      by (simp add: less_mult_imp_div_less mult.commute, simp add: slot_of_def)
    then show "i \<in> (\<lambda>j. 64 * j + j mod 64) ` {..<k}" by blast
  next
    fix i
    assume "i \<in> (\<lambda>j. 64 * j + j mod 64) ` {..<k}"
    then obtain j where j: "j < k" "i = 64 * j + j mod 64" by blast
    have "j mod 64 < 64" by simp
    then have "i div 64 = j" "i < 64 * k" using j by (simp, linarith)
    then show "i \<in> {i. i < 64 * k \<and> slot_of i = i}" using j by (simp add: slot_of_def)
  qed
  moreover have "inj_on (\<lambda>j. 64 * j + j mod 64) {..<k}"
  proof (rule inj_onI)
    fix a b :: nat
    assume "64 * a + a mod 64 = 64 * b + b mod 64"
    then have "(64 * a + a mod 64) div 64 = (64 * b + b mod 64) div 64" by simp
    then show "a = b" by simp
  qed
  ultimately show ?thesis by (simp add: card_image)
qed

lemma boot_range:
  "init_pages \<lparr>range_base = region_base kDram, range_size = region_size kDram\<rparr> = 32768"
  "align_up (region_base kDram) = 0x80000000"
proof -
  have "align_up 0x80000000 = 0x80000000" "align_down 0x88000000 = 0x88000000"
    by (rule align_up_of_aligned align_down_of_aligned, simp add: is_page_aligned_nat)+
  then show "init_pages \<lparr>range_base = region_base kDram, range_size = region_size kDram\<rparr> = 32768"
    "align_up (region_base kDram) = 0x80000000"
    by (simp_all add: init_pages_def kDram_def Let_def)
qed

definition boot_pool :: "linker_symbols \<Rightarrow> nat set" where
  "boot_pool L = {i. i < 32768 \<and> slot_of i = i \<and> unat (kernel_end_addr L) \<le> 0x80000000 + 4096 * i}"

lemma pmm_init_boot:
  assumes L: "layout_ok L"
  shows "\<exists>s0. pmm_init L pmm_static = Some s0 \<and> pmm_inv s0 \<and> g_managed_base s0 = 0x80000000 \<and>
    g_total_pages s0 = 32768 \<and> free_slots s0 = boot_pool L"
proof -
  let ?m = "\<lparr>range_base = region_base kDram, range_size = region_size kDram\<rparr>"
  let ?d = "\<lparr>reserved_base = kernel_start_addr L, reserved_size = kernel_end_addr L - kernel_start_addr L\<rparr>"
  have "length (g_used_bitmap pmm_static) = 512"
    by (simp add: pmm_static_def kBitmapWords_def kMaxManagedPages_def kBitsPerWord_def)
  from pmm_init_correct [OF this, of 1 "[?d]" ?m] obtain s0 where s0:
    "pmm_init L pmm_static = Some s0" "pmm_ok s0" "g_managed_base s0 = 0x80000000"
    "unat (g_total_pages s0) = 32768"
    "free_slots s0 = slot_of ` {..<32768} -
       reserved_pages s0 (kernel_start_addr L) (kernel_end_addr L - kernel_start_addr L)"
    by (auto simp: pmm_init_def boot_range Let_def)
  have ke: "kernel_start_addr L = 0x80000000" "is_page_aligned (kernel_end_addr L)"
    "0x80000000 < kernel_end_addr L" "kernel_end_addr L < 0x88000000"
    using L layout_kernel_end [OF L] by (simp_all add: layout_ok_def kDram_def)
  have "align_down 0x80000000 = 0x80000000" "align_up (kernel_end_addr L) = kernel_end_addr L"
    by (rule align_down_of_aligned, simp add: is_page_aligned_nat) (rule align_up_of_aligned [OF ke(2)])
  then have res: "i \<in> reserved_pages s0 (kernel_start_addr L) (kernel_end_addr L - kernel_start_addr L)
      \<longleftrightarrow> 0x80000000 + 4096 * i < unat (kernel_end_addr L)" if "i < 32768" for i
    using that ke s0(3,4) page_at_nat [OF s0(2), of i]
    by (auto simp: reserved_pages_def)
  have fs: "free_slots s0 = boot_pool L"
    using slot_image_dvd [of 512] res unfolding s0(5) boot_pool_def by (auto simp: not_less [symmetric])
  then have "pmm_inv s0" using s0(2,3) by (auto simp: pmm_inv_def boot_pool_def)
  moreover have "g_total_pages s0 = 32768"
    using s0(4) by (intro unsigned_word_eqI [where 'a = nat]) simp
  ultimately show ?thesis using s0 fs by blast
qed

text \<open>The pages of the pool after boot lie between the kernel and the end of DRAM.\<close>

lemma boot_pool_page:
  assumes "pmm_inv s0" "g_managed_base s0 = 0x80000000" "g_total_pages s0 = 32768"
    "free_slots s0 = boot_pool L" and pg: "pg \<in> avail_pages s0"
  shows "kernel_end_addr L \<le> pg \<and> pg < 0x88000000"
proof -
  obtain i where i: "pg = page_at s0 i" "i \<in> boot_pool L" "i < 32768"
    using pg assms(3,4) by (auto simp: avail_pages_def can_alloc_def)
  have "unat pg = 0x80000000 + 4096 * i"
    using page_at_nat [OF pmm_invD(1) [OF assms(1)], of i] i(1,3) assms(2,3) by simp
  then show ?thesis using i(2,3) by (simp add: boot_pool_def word_le_nat_alt word_less_nat_alt)
qed

lemma free_page_keeps_inv:
  assumes inv: "pmm_inv p"
  shows "\<exists>r p'. free_page pg p = Some (r, p') \<and> pmm_inv p' \<and> same_range p p'"
  by (rule free_page_cases [OF pmm_invD(1) [OF inv], of pg])
    (use inv in \<open>auto simp: pmm_inv_def same_range_def\<close>)

lemma alloc_page_keeps_inv:
  assumes inv: "pmm_inv p"
  shows "\<exists>pg p'. alloc_page p = Some (pg, p') \<and> pmm_inv p' \<and> same_range p p'"
  using alloc_page_correct [OF pmm_invD(1) [OF inv]] inv
  by (auto simp: pmm_inv_def same_range_def split: if_splits)

datatype pmm_op = OpAlloc | OpFree addr

fun run_pmm :: "pmm_op list \<Rightarrow> pmm \<Rightarrow> pmm option" where
  "run_pmm [] p = Some p"
| "run_pmm (OpAlloc # fs) p = do { (_, p) \<leftarrow> alloc_page p; run_pmm fs p }"
| "run_pmm (OpFree pg # fs) p = do { (_, p) \<leftarrow> free_page pg p; run_pmm fs p }"

lemma run_pmm_inv:
  "pmm_inv p \<Longrightarrow> \<exists>p'. run_pmm fs p = Some p' \<and> pmm_inv p' \<and> same_range p p'"
proof (induction fs arbitrary: p)
  case Nil
  then show ?case by simp
next
  case (Cons f fs)
  obtain p1 where p1: "run_pmm (f # fs) p = run_pmm fs p1" "pmm_inv p1" "same_range p p1"
  proof (cases f)
    case OpAlloc
    then show ?thesis using alloc_page_keeps_inv [OF Cons.prems] that by auto
  next
    case (OpFree pg)
    then show ?thesis using free_page_keeps_inv [OF Cons.prems, of pg] that by auto
  qed
  from Cons.IH [OF p1(2)] p1 show ?case by (auto intro: same_range_trans)
qed

lemma free_slots_diagonal:
  "pmm_inv p \<Longrightarrow> free_slots p \<subseteq> {i. i < 64 * 512 \<and> slot_of i = i}"
  using free_slots_less [of p] by (auto simp: pmm_inv_def)

lemma free_slots_at_most_512: "pmm_inv p \<Longrightarrow> card (free_slots p) \<le> 512"
  using card_mono [OF _ free_slots_diagonal [of p]] diagonal_card [of 512] by simp

text \<open>A concrete boot: an image with 64 KiB of code and data.\<close>

definition demo_image :: section_sizes where
  "demo_image = \<lparr>text_size = 0x8000, rodata_size = 0x1000, data_size = 0x1000, bss_size = 0x6000\<rparr>"

definition boot_state :: pmm where
  "boot_state = the (pmm_init (link_layout demo_image) pmm_static)"

lemma demo_image_fits: "image_size demo_image + 0x9000 < 128 * 1024 * 1024"
  by (simp add: image_size_def demo_image_def)

lemma boot_state:
  "pmm_init (link_layout demo_image) pmm_static = Some boot_state" "pmm_inv boot_state"
  "g_managed_base boot_state = 0x80000000" "g_total_pages boot_state = 32768"
  "free_slots boot_state = boot_pool (link_layout demo_image)"
proof -
  obtain s0 where s0: "pmm_init (link_layout demo_image) pmm_static = Some s0" "pmm_inv s0"
    "g_managed_base s0 = 0x80000000" "g_total_pages s0 = 32768"
    "free_slots s0 = boot_pool (link_layout demo_image)"
    using pmm_init_boot [OF link_layout_ok [OF demo_image_fits]] by blast
  then have "boot_state = s0" by (simp add: boot_state_def)
  with s0 show "pmm_init (link_layout demo_image) pmm_static = Some boot_state" "pmm_inv boot_state"
    "g_managed_base boot_state = 0x80000000" "g_total_pages boot_state = 32768"
    "free_slots boot_state = boot_pool (link_layout demo_image)"
    by (simp_all only:)
qed

lemma boot_state_slots: "1 \<notin> free_slots boot_state" "0 \<notin> free_slots boot_state"
    "32767 \<in> free_slots boot_state"
proof -
  let ?e = "unat (kernel_end_addr (link_layout demo_image))"
  have "0x80000000 < ?e" "?e < 0x88000000" "4096 dvd ?e"
    using layout_kernel_end [OF link_layout_ok [OF demo_image_fits]] link_layout_ok [OF demo_image_fits]
    by (simp_all add: word_less_nat_alt layout_ok_def kDram_def is_page_aligned_nat mod_eq_0_iff_dvd)
  then have "?e \<le> 0x87FFF000" "0x80000000 < ?e" by (auto elim!: dvdE)
  then show "1 \<notin> free_slots boot_state" "0 \<notin> free_slots boot_state" "32767 \<in> free_slots boot_state"
    by (simp_all add: boot_state(5) boot_pool_def slot_of_def)
qed

lemma boot_state_used: "is_page_free (page_at boot_state i) boot_state = Some (i \<in> free_slots boot_state)"
  if "i < 32768"
  using is_page_free_at [OF pmm_invD(1) [OF boot_state(2)] same_range_refl, of i] that boot_state(4) by simp

section \<open>Properties\<close>

text \<open>Property (C12): what initialisation leaves free. For every managed range and every list of
  reserved ranges, including ranges that overlap, lie outside the managed range or wrap
  around the address space, \<^verbatim>\<open>pmm_init\<close> terminates inside its arrays; afterwards a page is
  free exactly when it is managed, no reserved range touches it, and it is the one page of its
  group of 64 that \<^verbatim>\<open>mark_free_index\<close> reaches. In particular no reserved page is ever free.\<close>

theorem pmm_init_free_set:
  assumes "length (g_used_bitmap p) = 512" and "unat n \<le> length rs"
  shows "\<exists>p'. pmm_init_range m rs n p = Some p' \<and> unat (total_pages p') = init_pages m \<and>
    page_at p' 0 = align_up (range_base m) \<and>
    (\<forall>pa. is_page_free pa p' = Some (\<exists>i < init_pages m. pa = page_at p' i \<and> slot_of i = i \<and>
       (\<forall>d \<in> set (take (unat n) rs). i \<notin> reserved_pages p' (reserved_base d) (reserved_size d))))"
proof -
  from pmm_init_correct [OF assms, of m] obtain p' where p': "pmm_init_range m rs n p = Some p'"
    "pmm_ok p'" "g_managed_base p' = align_up (range_base m)" "unat (g_total_pages p') = init_pages m"
    "free_slots p' = slot_of ` {..<init_pages m} -
      (\<Union>d \<in> set (take (unat n) rs). reserved_pages p' (reserved_base d) (reserved_size d))"
    by blast
  have "can_alloc p' i \<longleftrightarrow> i < init_pages m \<and> slot_of i = i \<and>
      (\<forall>d \<in> set (take (unat n) rs). i \<notin> reserved_pages p' (reserved_base d) (reserved_size d))" for i
    using slot_image [of "init_pages m"] unfolding can_alloc_def p'(4,5) by blast
  then show ?thesis
    using p' is_page_free_correct [OF p'(2)] by (auto simp: total_pages_def page_at_def)
qed

lemma pmm_init_free_set_witness:
  "\<exists>p'. pmm_init_range \<lparr>range_base = 0x80000000, range_size = 2 * 4096\<rparr> [] 0 pmm_static = Some p' \<and>
    unat (total_pages p') = 2 \<and> page_at p' 0 = 0x80000000 \<and> is_page_free 0x80000000 p' = Some True"
proof -
  let ?m = "\<lparr>range_base = 0x80000000, range_size = 2 * 4096\<rparr> :: PhysicalRange"
  have al: "align_up 0x80000000 = 0x80000000" "align_down 0x80002000 = 0x80002000"
    by (rule align_up_of_aligned align_down_of_aligned, simp add: is_page_aligned_nat)+
  then have n: "init_pages ?m = 2" by (simp add: init_pages_def Let_def)
  have "length (g_used_bitmap pmm_static) = 512" "unat (0 :: u64) \<le> length []"
    by (simp_all add: pmm_static_def kBitmapWords_def kMaxManagedPages_def kBitsPerWord_def)
  from pmm_init_free_set [OF this, of ?m] obtain p' where p': "pmm_init_range ?m [] 0 pmm_static = Some p'"
    "unat (total_pages p') = 2" "page_at p' 0 = 0x80000000"
    "is_page_free 0x80000000 p' = Some (\<exists>i < 2. 0x80000000 = page_at p' i \<and> slot_of i = i)"
    unfolding n by (auto simp: al)
  moreover have "\<exists>i < 2. 0x80000000 = page_at p' i \<and> slot_of i = i"
    using p'(3) by (intro exI [of _ 0]) (simp add: slot_of_def)
  ultimately show ?thesis by auto
qed

text \<open>\<^verbatim>\<open>alloc_page\<close> terminates, returns the lowest free page and marks exactly that
  page used, so that the counter drops by one and no other page changes; it returns the null
  pointer, and changes nothing, exactly when no managed page is free.\<close>

lemma alloc_page_lowest:
  assumes "pmm_ok p"
  shows "\<exists>pg p'. alloc_page p = Some (pg, p') \<and>
    (if \<forall>pa. is_page_free pa p = Some False then pg = nullptr \<and> p' = p
     else is_page_free pg p = Some True \<and> is_page_free pg p' = Some False \<and>
       (\<forall>pa. is_page_free pa p = Some True \<longrightarrow> pg \<le> pa) \<and>
       (\<forall>pa. pa \<noteq> pg \<longrightarrow> is_page_free pa p' = is_page_free pa p) \<and>
       unat (free_pages p') + 1 = unat (free_pages p))"
proof (cases "\<exists>i. can_alloc p i")
  case False
  then show ?thesis
    using alloc_page_correct [OF assms] by (simp add: is_page_free_correct [OF assms])
next
  case True
  define m where "m = (LEAST i. can_alloc p i)"
  have m: "can_alloc p m" "\<And>i. can_alloc p i \<Longrightarrow> m \<le> i"
    unfolding m_def using True by (auto intro: LeastI_ex Least_le)
  obtain p' where p': "alloc_page p = Some (page_at p m, p')" "pmm_ok p'" "same_range p p'"
    "free_slots p' = free_slots p - {m}"
    using alloc_page_correct [OF assms] True by (auto simp: m_def)
  have lt: "i \<le> unat (g_total_pages p)" if "can_alloc p i" for i using that by (simp add: can_alloc_def)
  have avail: "(\<exists>i. can_alloc p i \<and> pa = page_at p i) \<longleftrightarrow> pa \<in> avail_pages p" for pa
    by (auto simp: avail_pages_def)
  have "{i. i < unat (g_total_pages p) \<and> i \<in> free_slots p'} = {i. can_alloc p i} - {m}"
    using p'(4) by (auto simp: can_alloc_def)
  then have "avail_pages p' = page_at p ` ({i. can_alloc p i} - {m})"
    by (simp only: avail_pages_same_range [OF p'(3)])
  also have "\<dots> = avail_pages p - {page_at p m}"
    unfolding avail_pages_def
    by (rule page_at_image_diff [OF assms]) (use m(1) in \<open>auto simp: can_alloc_def\<close>)
  finally have av: "avail_pages p' = avail_pages p - {page_at p m}" .
  have mem: "page_at p m \<in> avail_pages p" using m(1) by (auto simp: avail_pages_def)
  have min: "page_at p m \<le> pa" if pa: "pa \<in> avail_pages p" for pa
  proof -
    obtain i where "can_alloc p i" "pa = page_at p i" using pa by (auto simp: avail_pages_def)
    then show ?thesis
      using m(2) [of i] page_at_nat [OF assms lt, of i] page_at_nat [OF assms lt [OF m(1)]]
      by (simp add: word_le_nat_alt)
  qed
  have cnt: "unat (g_free_pages p') + 1 = unat (g_free_pages p)"
    using assms p'(2,4) m(1) card.remove [OF finite_free_slots, of m p] by (simp add: pmm_ok_def can_alloc_def)
  note free = is_page_free_avail [OF assms] is_page_free_avail [OF p'(2)]
  have "is_page_free (page_at p m) p = Some True" by (simp only: free mem)
  moreover have "is_page_free (page_at p m) p' = Some False" unfolding free av by blast
  moreover have "\<forall>pa. is_page_free pa p = Some True \<longrightarrow> page_at p m \<le> pa"
    using min unfolding free by blast
  moreover have "is_page_free pa p' = is_page_free pa p" if "pa \<noteq> page_at p m" for pa
    using that unfolding free av by blast
  ultimately have "is_page_free (page_at p m) p = Some True \<and> is_page_free (page_at p m) p' = Some False \<and>
      (\<forall>pa. is_page_free pa p = Some True \<longrightarrow> page_at p m \<le> pa) \<and>
      (\<forall>pa. pa \<noteq> page_at p m \<longrightarrow> is_page_free pa p' = is_page_free pa p) \<and>
      unat (free_pages p') + 1 = unat (free_pages p)"
    using cnt unfolding free_pages_def by blast
  moreover from this have "\<not> (\<forall>pa. is_page_free pa p = Some False)" by (metis option.inject)
  ultimately show ?thesis using p'(1) by (simp only: if_False) blast
qed

lemma alloc_page_lowest_witness:
  "\<exists>pg p'. alloc_page boot_state = Some (pg, p') \<and> is_page_free pg boot_state = Some True \<and>
    is_page_free pg p' = Some False"
proof -
  have "\<not> (\<forall>pa. is_page_free pa boot_state = Some False)"
    using boot_state_used [of 32767] boot_state_slots(3) by (auto intro: exI [of _ "page_at boot_state 32767"])
  then show ?thesis using alloc_page_lowest [OF pmm_invD(1) [OF boot_state(2)]] by (simp only: if_False) blast
qed

text \<open>Property (C14): \<^verbatim>\<open>free_page\<close> on every branch. An address that is unaligned, outside the managed
  range or already free is refused and nothing changes; a managed used page is accepted, and
  then the page that becomes free is the one numbered \<^verbatim>\<open>slot_of\<close>, which is the page itself
  exactly when its number is a slot number.\<close>

theorem free_page_effect:
  assumes ok: "pmm_ok p"
  shows "\<exists>r p'. free_page pg p = Some (r, p') \<and>
    (if r then \<exists>i < unat (total_pages p). pg = page_at p i \<and> is_page_free pg p = Some False \<and>
         pmm_ok p' \<and> same_range p p' \<and> free_slots p' = insert (slot_of i) (free_slots p) \<and>
         is_page_free pg p' = Some (slot_of i = i)
     else p' = p \<and> (\<not> is_managed_page pg p \<or> is_page_free pg p = Some True))"
  using ok
proof (cases rule: free_page_cases [where pg = pg])
  case refused
  then show ?thesis by (intro exI [of _ False] exI [of _ p]) simp
next
  case (already_free i)
  then show ?thesis using is_page_free_at [OF ok same_range_refl, of i]
    by (intro exI [of _ False] exI [of _ p]) simp
next
  case (freed i p')
  have "is_page_free pg p = Some False"
    using is_page_free_at [OF ok same_range_refl freed(1)] freed(2,3) by (simp only:)
  moreover have "i \<in> insert (slot_of i) (free_slots p) \<longleftrightarrow> slot_of i = i"
    unfolding insert_iff using freed(3) by (metis (full_types))
  then have "is_page_free pg p' = Some (slot_of i = i)"
    by (simp only: freed(2) is_page_free_at [OF freed(5,6,1)] freed(7))
  ultimately have "is_page_free pg p = Some False \<and> is_page_free pg p' = Some (slot_of i = i)" ..
  with freed have "free_page pg p = Some (True, p') \<and> (\<exists>i < unat (total_pages p). pg = page_at p i \<and>
      is_page_free pg p = Some False \<and> pmm_ok p' \<and> same_range p p' \<and>
      free_slots p' = insert (slot_of i) (free_slots p) \<and> is_page_free pg p' = Some (slot_of i = i))"
    unfolding total_pages_def by blast
  then show ?thesis by (intro exI [of _ True] exI [of _ p']) (simp only: if_True)
qed

lemma free_page_effect_witness:
  "\<exists>r p'. free_page (page_at boot_state 0) boot_state = Some (r, p') \<and>
    (r \<or> p' = boot_state)"
  using free_page_effect [OF pmm_invD(1) [OF boot_state(2)], of "page_at boot_state 0"] by metis

text \<open>Property (C16): a page that is not a slot page is lost by \<^verbatim>\<open>free_page\<close>. The call reports success,
  the page stays used, the counter does not account for it, and the slot page of its group
  becomes free even though someone may hold it: \<^verbatim>\<open>mark_free_index\<close> builds its mask from the word
  index instead of the page index.\<close>

theorem free_page_wrong_page:
  assumes ok: "pmm_ok p" and pg: "pg = page_at p i" "i < unat (total_pages p)"
    and used: "is_page_free pg p = Some False" and off: "slot_of i \<noteq> i"
  shows "\<exists>p'. free_page pg p = Some (True, p') \<and> is_page_free pg p' = Some False \<and>
    slot_of i \<in> free_slots p' \<and>
    (slot_of i < unat (total_pages p) \<longrightarrow> is_page_free (page_at p (slot_of i)) p' = Some True)"
proof -
  have i: "i < unat (g_total_pages p)" using pg by (simp add: total_pages_def)
  then have nf: "i \<notin> free_slots p" using used pg is_page_free_at [OF ok same_range_refl] by simp
  obtain p' where p': "free_page pg p = Some (True, p')" "pmm_ok p'" "same_range p p'"
    "free_slots p' = insert (slot_of i) (free_slots p)"
    using free_page_at(2) [OF ok i nf] pg(1) by blast
  then show ?thesis
    using is_page_free_at [OF p'(2,3)] i nf off pg(1) by (simp add: total_pages_def)
qed

lemma free_page_wrong_page_witness:
  "\<exists>p'. free_page (page_at boot_state 1) boot_state = Some (True, p') \<and>
    is_page_free (page_at boot_state 1) p' = Some False \<and>
    is_page_free (page_at boot_state 0) p' = Some True"
  using free_page_wrong_page [OF pmm_invD(1) [OF boot_state(2)] refl, of 1] boot_state_used [of 1]
    boot_state_slots boot_state(4)
  by (simp add: total_pages_def slot_of_def) blast

text \<open>The configuration of the unit test \<^verbatim>\<open>tests/mm/pmm_unit_tests.cpp\<close>, sixteen
  pages of which two are reserved. The test expects 14 free pages; the code has none, and the
  first allocation fails.\<close>

lemma small_pool_is_empty:
  assumes "length (g_used_bitmap p) = 512"
    and "rs = [\<lparr>reserved_base = 0x80000000, reserved_size = 4096\<rparr>,
      \<lparr>reserved_base = 0x80003010, reserved_size = 100\<rparr>,
      \<lparr>reserved_base = 0x90000000, reserved_size = 4096\<rparr>]"
  shows "\<exists>p'. pmm_init_range \<lparr>range_base = 0x80000000, range_size = 16 * 4096\<rparr> rs 3 p = Some p' \<and>
    total_pages p' = 16 \<and> free_pages p' = 0 \<and> alloc_page p' = Some (nullptr, p')"
proof -
  let ?m = "\<lparr>range_base = 0x80000000, range_size = 16 * 4096\<rparr> :: PhysicalRange"
  have al: "align_up 0x80000000 = 0x80000000" "align_down 0x80010000 = 0x80010000"
    "align_down 0x80000000 = 0x80000000" "align_up 0x80001000 = 0x80001000"
    by (rule align_up_of_aligned align_down_of_aligned, simp add: is_page_aligned_nat)+
  have n: "init_pages ?m = 16" by (simp add: init_pages_def Let_def al)
  from pmm_init_correct [OF assms(1), of 3 rs ?m] n assms(2) al obtain p' where
    p': "pmm_init_range ?m rs 3 p = Some p'" "pmm_ok p'" "g_managed_base p' = 0x80000000"
    "unat (g_total_pages p') = 16"
    and fs: "free_slots p' \<subseteq> slot_of ` {..<16} - reserved_pages p' 0x80000000 4096"
    by auto
  have "slot_of i = 0" if "i < 16" for i using that by (simp add: slot_of_def)
  moreover have "page_at p' 0 = 0x80000000" using p'(3) by (simp add: page_at_def)
  then have "0 \<in> reserved_pages p' 0x80000000 4096"
    using p'(4) al by (simp add: reserved_pages_def)
  ultimately have none: "free_slots p' = {}" using fs by fastforce
  then have "unat (g_free_pages p') = 0" using p'(2) by (simp add: pmm_ok_def)
  moreover have "g_total_pages p' = 16"
    using p'(4) by (intro unsigned_word_eqI [where 'a = nat]) simp
  moreover have "alloc_page p' = Some (nullptr, p')"
    using alloc_page_correct [OF p'(2)] none by (simp add: can_alloc_def)
  ultimately show ?thesis using p'(1) by (simp add: total_pages_def free_pages_def unat_eq_0)
qed

lemma small_pool_is_empty_witness:
  "\<exists>p'. pmm_init_range \<lparr>range_base = 0x80000000, range_size = 16 * 4096\<rparr>
      [\<lparr>reserved_base = 0x80000000, reserved_size = 4096\<rparr>,
       \<lparr>reserved_base = 0x80003010, reserved_size = 100\<rparr>,
       \<lparr>reserved_base = 0x90000000, reserved_size = 4096\<rparr>] 3 pmm_static = Some p' \<and>
    free_pages p' = 0"
  using small_pool_is_empty [OF _ refl, of pmm_static]
  by (auto simp: pmm_static_def kBitmapWords_def kMaxManagedPages_def kBitsPerWord_def)

text \<open>Property (C11): the pages the kernel allocates after boot are its own. For every kernel image
  that fits in DRAM, after \<^verbatim>\<open>pmm_init()\<close> and any number of allocations and releases by a client
  that releases only pages it holds: the next allocation returns a page-aligned address above
  the kernel image and inside DRAM that the client does not hold, and fails only when the
  client holds the whole initial pool; and releasing any page it holds succeeds and makes that
  page free again.\<close>

theorem boot_pages_exclusive:
  assumes "image_size z + 0x9000 < 128 * 1024 * 1024"
    and "pmm_init (link_layout z) pmm_static = Some s0"
    and "(client_step alloc_page free_page)\<^sup>*\<^sup>* ({}, s0) (held, s)"
  shows "(\<exists>pg s'. alloc_page s = Some (pg, s') \<and> (pg = nullptr \<longleftrightarrow> held = avail_pages s0) \<and>
      (pg \<noteq> nullptr \<longrightarrow> pg \<notin> held \<and> is_page_aligned pg \<and> kernel_end_addr (link_layout z) \<le> pg \<and>
         pg < region_base kDram + region_size kDram)) \<and>
    (\<forall>q \<in> held. \<exists>s'. free_page q s = Some (True, s') \<and> is_page_free q s' = Some True)"
proof (intro conjI)
  let ?L = "link_layout z"
  have s0: "pmm_inv s0" "g_managed_base s0 = 0x80000000" "g_total_pages s0 = 32768"
    "free_slots s0 = boot_pool ?L"
    using pmm_init_boot [OF link_layout_ok [OF assms(1)]] assms(2) by auto
  note pool = boot_pool_page [OF s0]
  obtain pg s' where "alloc_page s = Some (pg, s')" "held = avail_pages s0 \<longrightarrow> pg = nullptr"
    "held \<noteq> avail_pages s0 \<longrightarrow> pg \<in> avail_pages s0 \<and> pg \<notin> held \<and> pg \<noteq> nullptr \<and> is_page_aligned pg"
    using pmm.client_next_alloc [OF assms(3) s0(1)] by (auto split: if_splits)
  then show "\<exists>pg s'. alloc_page s = Some (pg, s') \<and> (pg = nullptr \<longleftrightarrow> held = avail_pages s0) \<and>
      (pg \<noteq> nullptr \<longrightarrow> pg \<notin> held \<and> is_page_aligned pg \<and> kernel_end_addr ?L \<le> pg \<and>
         pg < region_base kDram + region_size kDram)"
    using pool [of pg] by (auto simp: kDram_def)
  show "\<forall>q \<in> held. \<exists>s'. free_page q s = Some (True, s') \<and> is_page_free q s' = Some True"
  proof
    fix q
    assume q: "q \<in> held"
    obtain s' where s': "free_page q s = Some (True, s')" "avail_pages s' = insert q (avail_pages s)"
      using pmm.client_next_free [OF assms(3) s0(1) q] by blast
    have "pmm_inv s" using pmm.client_invariant [OF assms(3) s0(1)] by (simp add: pmm.consistent_def)
    then have "pmm_inv s'" using free_page_keeps_inv [of s q] s'(1) by auto
    then show "\<exists>s'. free_page q s = Some (True, s') \<and> is_page_free q s' = Some True"
      using s' is_page_free_avail [OF pmm_invD(1), of s' q] by simp
  qed
qed

lemma boot_pages_exclusive_witness:
  "\<exists>pg s'. alloc_page boot_state = Some (pg, s') \<and> (pg = nullptr \<longleftrightarrow> {} = avail_pages boot_state)"
  using boot_pages_exclusive [OF demo_image_fits boot_state(1) rtranclp.rtrancl_refl] by blast

text \<open>Property (C15): the statistics stay consistent. After boot and any sequence of allocations and
  of releases of arbitrary addresses, also bad ones and pages nobody holds, the counter of free
  pages is the number of clear bits, \<^verbatim>\<open>used_pages\<close> in \<^verbatim>\<open>get_stats\<close> does not underflow, the
  managed range is unchanged, and no operation leaves its arrays. At most 512 of the 32768
  pages are ever free.\<close>

theorem stats_stay_consistent:
  assumes "image_size z + 0x9000 < 128 * 1024 * 1024"
  shows "\<exists>s0 s. pmm_init (link_layout z) pmm_static = Some s0 \<and> run_pmm fs s0 = Some s \<and>
    stat_total_pages (get_stats s) = 32768 \<and>
    unat (stat_free_pages (get_stats s)) = card (free_slots s) \<and> card (free_slots s) \<le> 512 \<and>
    unat (stat_used_pages (get_stats s)) + unat (stat_free_pages (get_stats s)) = 32768"
proof -
  obtain s0 where s0: "pmm_init (link_layout z) pmm_static = Some s0" "pmm_inv s0"
    "g_total_pages s0 = 32768"
    using pmm_init_boot [OF link_layout_ok [OF assms]] by blast
  obtain s where s: "run_pmm fs s0 = Some s" "pmm_inv s" "same_range s0 s"
    using run_pmm_inv [OF s0(2)] by blast
  have "unat (g_free_pages s) = card (free_slots s)" "g_total_pages s = 32768"
    using s s0(3) by (simp_all add: pmm_inv_def pmm_ok_def same_range_def)
  moreover note le = free_slots_at_most_512 [OF s(2)]
  ultimately have "unat (32768 - g_free_pages s) = 32768 - card (free_slots s)"
    by (simp add: unat_sub word_le_nat_alt)
  then show ?thesis
    using s0(1) s(1) le \<open>unat (g_free_pages s) = _\<close> \<open>g_total_pages s = _\<close> by (simp add: get_stats_def)
qed

lemma stats_stay_consistent_witness:
  "\<exists>s. run_pmm [OpAlloc, OpFree 0x80000000, OpFree 3, OpAlloc] boot_state = Some s \<and>
    card (free_slots s) \<le> 512"
  using stats_stay_consistent [OF demo_image_fits, of "[OpAlloc, OpFree 0x80000000, OpFree 3, OpAlloc]"]
    boot_state(1) by auto

end
