(* ===== verification/PageTable.thy ===== *)
theory PageTable
  imports Sv39 Page_Allocator
begin

text \<open>
  \<^verbatim>\<open>kernel/arch/riscv/mm/page_table.h\<close> and \<^verbatim>\<open>page_table.cpp\<close>: building, reading and clearing Sv39
  page tables in physical memory, with table pages taken from the page allocator. Memory is a
  partial map from the addresses of 64-bit words; an access outside it is \<open>None\<close>.
  The abstraction of a tree is the function \<open>leaf_pte\<close> from the three indices of a virtual page
  to its last-level entry (0 where tables are missing); \<open>pt_ok\<close> is the invariant of a tree:
  its table pages are allocated, distinct along all paths, readable, and every valid entry above
  the last level is a pure pointer (no huge page, no flag but \<^verbatim>\<open>PteV\<close>).
\<close>

section \<open>State and operations\<close>

record kmem =
  pmm_of :: pmm
  mem :: "addr \<Rightarrow> u64 option"

definition load :: "addr \<Rightarrow> kmem \<Rightarrow> u64 option" where
  "load a s = (if a = nullptr then None else mem s a)"

definition store :: "addr \<Rightarrow> u64 \<Rightarrow> kmem \<Rightarrow> kmem option" where
  "store a v s =
     (if a = nullptr \<or> mem s a = None then None else Some (s\<lparr>mem := (mem s)(a \<mapsto> v)\<rparr>))"

text \<open>The address of \<^verbatim>\<open>table->entries[index]\<close>; a page table page has 512 entries of 8 bytes.\<close>

definition kEntries :: u64 where
  "kEntries = 512"

definition entry_addr :: "addr \<Rightarrow> u64 \<Rightarrow> addr" where
  "entry_addr table index = table + 8 * index"

definition zero_page :: "addr \<Rightarrow> kmem \<Rightarrow> kmem option" where
  "zero_page page s = do {
     r \<leftarrow> for_loop 1 kEntries
       (\<lambda>i s. do { s \<leftarrow> store (entry_addr page i) 0 s; Some (Inl s) }) 0 s;
     (case r of Inl s \<Rightarrow> Some s | Inr (_ :: unit) \<Rightarrow> None)
   }"

definition pte_to_table :: "Pte \<Rightarrow> addr" where
  "pte_to_table pte = pte_to_pa pte"

definition alloc_page_table :: "kmem \<Rightarrow> (addr \<times> kmem) option" where
  "alloc_page_table s = do {
     (page, p) \<leftarrow> alloc_page (pmm_of s);
     let s = s\<lparr>pmm_of := p\<rparr>;
     (if page = nullptr then Some (nullptr, s)
      else do {
        s \<leftarrow> zero_page page s;
        Some (page, s)
      })
   }"

text \<open>
  The loop of \<^verbatim>\<open>map_page\<close> over the levels above \<open>level\<close>'s last one: \<open>None\<close> in the result pair is
  the code's \<^verbatim>\<open>return false\<close>.
\<close>

fun map_walk :: "nat \<Rightarrow> addr \<Rightarrow> addr \<Rightarrow> kmem \<Rightarrow> (addr option \<times> kmem) option" where
  "map_walk 0 va table s = Some (Some table, s)"
| "map_walk (Suc l) va table s = do {
     let index = vpn_index va (Suc l);
     let pte = entry_addr table index;
     v \<leftarrow> load pte s;
     (ok, s) \<leftarrow>
       (if \<not> pte_valid v then do {
          (nxt, s) \<leftarrow> alloc_page_table s;
          (if nxt = nullptr then Some (False, s)
           else do {
             s \<leftarrow> store pte (make_pte nxt PteV) s;
             Some (True, s)
           })
        }
        else Some (True, s));
     (if \<not> ok then Some (None, s)
      else do {
        v \<leftarrow> load pte s;
        (if pte_leaf v then Some (None, s)
         else map_walk l va (pte_to_table v) s)
      })
   }"

definition map_page :: "addr \<Rightarrow> addr \<Rightarrow> addr \<Rightarrow> u64 \<Rightarrow> kmem \<Rightarrow> (bool \<times> kmem) option" where
  "map_page root va pa flags s =
     (if root = nullptr then Some (False, s)
      else if \<not> is_page_aligned va \<or> \<not> is_page_aligned pa then Some (False, s)
      else do {
        (r, s) \<leftarrow> map_walk 2 va root s;
        (case r of None \<Rightarrow> Some (False, s)
         | Some table \<Rightarrow> do {
             let index = vpn_index va 0;
             let leaf = entry_addr table index;
             v \<leftarrow> load leaf s;
             (if pte_valid v then Some (False, s)
              else do {
                s \<leftarrow> store leaf (make_pte pa (flags OR PteV)) s;
                Some (True, s)
              })
           })
      })"

definition map_range :: "addr \<Rightarrow> addr \<Rightarrow> addr \<Rightarrow> u64 \<Rightarrow> u64 \<Rightarrow> kmem \<Rightarrow> (bool \<times> kmem) option" where
  "map_range root va pa sz flags s =
     (if sz = 0 then Some (True, s)
      else if \<not> is_page_aligned va \<or> \<not> is_page_aligned pa then Some (False, s)
      else do {
        let stop = align_up (va + sz);
        r \<leftarrow> for_loop kPageSize stop
          (\<lambda>cur_va (cur_pa, s). do {
             (ok, s) \<leftarrow> map_page root cur_va cur_pa flags s;
             Some (if \<not> ok then Inr s else Inl (cur_pa + kPageSize, s))
           }) va (pa, s);
        Some (case r of Inr s \<Rightarrow> (False, s) | Inl (_, s) \<Rightarrow> (True, s))
      })"

fun translate_walk :: "nat \<Rightarrow> addr \<Rightarrow> addr \<Rightarrow> kmem \<Rightarrow> addr option" where
  "translate_walk 0 va table s = Some 0"
| "translate_walk (Suc l) va table s = do {
     let index = vpn_index va l;
     pte \<leftarrow> load (entry_addr table index) s;
     (if \<not> pte_valid pte then Some 0
      else if pte_leaf pte then
        (let page_base = pte_to_pa pte in Some (page_base + page_offset va))
      else translate_walk l va (pte_to_table pte) s)
   }"

definition virt_to_phys :: "addr \<Rightarrow> addr \<Rightarrow> kmem \<Rightarrow> addr option" where
  "virt_to_phys root va s = (if root = nullptr then Some 0 else translate_walk 3 va root s)"

fun unmap_walk :: "nat \<Rightarrow> addr \<Rightarrow> addr \<Rightarrow> kmem \<Rightarrow> addr option option" where
  "unmap_walk 0 va table s = Some (Some table)"
| "unmap_walk (Suc l) va table s = do {
     pte \<leftarrow> load (entry_addr table (vpn_index va (Suc l))) s;
     (if \<not> pte_valid pte \<or> pte_leaf pte then Some None
      else unmap_walk l va (pte_to_table pte) s)
   }"

definition unmap_page :: "addr \<Rightarrow> addr \<Rightarrow> kmem \<Rightarrow> (bool \<times> kmem) option" where
  "unmap_page root va s =
     (if root = nullptr \<or> \<not> is_page_aligned va then Some (False, s)
      else do {
        r \<leftarrow> unmap_walk 2 va root s;
        (case r of None \<Rightarrow> Some (False, s)
         | Some table \<Rightarrow> do {
             let leaf = entry_addr table (vpn_index va 0);
             v \<leftarrow> load leaf s;
             (if \<not> pte_valid v \<or> \<not> pte_leaf v then Some (False, s)
              else do {
                s \<leftarrow> store leaf 0 s;
                Some (True, s)
              })
           })
      })"

definition put :: "addr \<Rightarrow> u64 \<Rightarrow> kmem \<Rightarrow> kmem" where
  "put a v s = s\<lparr>mem := (mem s)(a \<mapsto> v)\<rparr>"

lemma put_simps [simp]:
  "pmm_of (put a v s) = pmm_of s"
  "mem (put a v s) b = (if b = a then Some v else mem s b)"
  by (simp_all add: put_def)

lemma store_put: "store a v s = (if a = nullptr \<or> mem s a = None then None else Some (put a v s))"
  by (simp add: store_def put_def)

section \<open>Entries of tables\<close>

lemma entry_addr_nat:
  assumes "is_page_aligned t" "unat i < 512"
  shows "unat (entry_addr t i) = unat t + 8 * unat i"
proof -
  have "4096 dvd unat t" using assms(1) by (simp add: is_page_aligned_nat mod_eq_0_iff_dvd)
  then obtain k where "unat t = 4096 * k" by (rule dvdE)
  then have "unat t + 4095 < 2 ^ 64"
    using unat_less_2p64 [of t] by (simp del: unat_less_2p64)
  then show ?thesis using assms(2) by (simp add: entry_addr_def unat_word_ariths)
qed

lemma entry_addr_split:
  assumes "is_page_aligned t" "unat i < 512"
  shows "unat (entry_addr t i) div 4096 = unat t div 4096" "unat (entry_addr t i) mod 4096 = 8 * unat i"
proof -
  obtain k where "unat t = 4096 * k"
    using assms(1) by (auto simp: is_page_aligned_nat mod_eq_0_iff_dvd elim!: dvdE)
  then show "unat (entry_addr t i) div 4096 = unat t div 4096" "unat (entry_addr t i) mod 4096 = 8 * unat i"
    using assms(2) by (simp_all add: entry_addr_nat [OF assms])
qed

lemma entry_addr_inj:
  assumes "is_page_aligned t" "unat i < 512" "is_page_aligned u" "unat j < 512"
  shows "entry_addr t i = entry_addr u j \<longleftrightarrow> t = u \<and> i = j"
proof
  assume e: "entry_addr t i = entry_addr u j"
  have "unat t div 4096 = unat u div 4096" "8 * unat i = 8 * unat j"
    using entry_addr_split [OF assms(1,2)] entry_addr_split [OF assms(3,4)] e by simp_all
  moreover have "unat t = unat t div 4096 * 4096" "unat u = unat u div 4096 * 4096"
    using assms(1,3) by (auto simp: is_page_aligned_nat mod_eq_0_iff_dvd)
  ultimately have "unat t = unat u" "unat i = unat j" by simp_all
  then show "t = u \<and> i = j" by (auto dest: unsigned_word_eqI)
qed simp

lemma entry_addr_nonnull:
  assumes "is_page_aligned t" "unat i < 512" "t \<noteq> 0"
  shows "entry_addr t i \<noteq> 0"
  using entry_addr_nat [OF assms(1,2)] assms(3) by (auto simp: unat_eq_zero)

section \<open>Fresh tables\<close>

definition page_words :: "addr \<Rightarrow> addr set" where
  "page_words t = entry_addr t ` {i. unat i < 512}"

definition kmem_ok :: "kmem \<Rightarrow> bool" where
  "kmem_ok s \<longleftrightarrow> pmm_inv (pmm_of s) \<and>
     (\<forall>pg \<in> frame_pages (pmm_of s). \<forall>a \<in> page_words pg. mem s a \<noteq> None)"

definition zeroed :: "addr \<Rightarrow> kmem \<Rightarrow> kmem" where
  "zeroed t s = s\<lparr>mem := (\<lambda>a. if a \<in> page_words t then Some 0 else mem s a)\<rparr>"

lemma page_wordsI [simp]: "unat i < 512 \<Longrightarrow> entry_addr t i \<in> page_words t"
  by (simp add: page_words_def)

lemma page_words_iff:
  assumes "is_page_aligned t" "is_page_aligned u" "unat i < 512"
  shows "entry_addr u i \<in> page_words t \<longleftrightarrow> t = u"
  using assms entry_addr_inj [OF assms(2,3,1)] by (auto simp: page_words_def)

lemma frame_facts:
  assumes "kmem_ok s" "t \<in> frame_pages (pmm_of s)"
  shows "is_page_aligned t" "t \<noteq> 0" "unat i < 512 \<Longrightarrow> \<exists>v. load (entry_addr t i) s = Some v \<and> mem s (entry_addr t i) = Some v"
proof -
  show al: "is_page_aligned t" and nz: "t \<noteq> 0"
    using pmm.frames_law [of "pmm_of s"] assms by (auto simp: kmem_ok_def)
  assume i: "unat i < 512"
  then have "mem s (entry_addr t i) \<noteq> None" using assms by (simp add: kmem_ok_def)
  then show "\<exists>v. load (entry_addr t i) s = Some v \<and> mem s (entry_addr t i) = Some v"
    using entry_addr_nonnull [OF al i nz] by (auto simp: load_def)
qed

lemma store_frame:
  assumes "kmem_ok s" "t \<in> frame_pages (pmm_of s)" "unat i < 512"
  shows "store (entry_addr t i) v s = Some (put (entry_addr t i) v s)"
  using frame_facts(3) [OF assms] by (auto simp: store_put load_def split: if_splits)

lemma kmem_ok_update:
  "kmem_ok s \<Longrightarrow> kmem_ok (put a v s)"
  by (simp add: kmem_ok_def)

lemma zero_page_correct:
  assumes al: "is_page_aligned t" and nz: "t \<noteq> 0" and dom: "\<forall>a \<in> page_words t. mem s a \<noteq> None"
  shows "zero_page t s = Some (zeroed t s)"
proof -
  let ?Z = "\<lambda>k. s\<lparr>mem := (\<lambda>a. if a \<in> entry_addr t ` {i. unat i < k} then Some 0 else mem s a)\<rparr>"
  let ?I = "\<lambda>k s'. s' = ?Z k"
  let ?body = "\<lambda>i s. do { s \<leftarrow> store (entry_addr t i) 0 s; Some (Inl s :: kmem + unit) }"
  have n: "unat kEntries = 512" by (simp add: kEntries_def)
  have "\<exists>s'. for_loop 1 kEntries ?body 0 s = Some (Inl s') \<and> ?I (unat kEntries) s'"
  proof (rule for_upto_ex [where I = ?I])
    show "?I 0 s" by simp
    fix k s'
    assume k: "k < unat kEntries" and s': "?I k s'"
    have u: "unat (of_nat k :: u64) = k" using k by (simp add: n unat_of_nat64)
    then have "unat (of_nat k :: u64) < 512" using k n by simp
    note facts = entry_addr_nonnull [OF al this nz] page_wordsI [OF this, of t]
    have "mem s' (entry_addr t (of_nat k)) \<noteq> None" using facts(2) dom s' by auto
    then have st: "store (entry_addr t (of_nat k)) 0 s' = Some (put (entry_addr t (of_nat k)) 0 s')"
      using facts(1) by (simp add: store_put)
    have "{i :: u64. unat i < Suc k} = insert (of_nat k) {i. unat i < k}"
      using u by (auto simp: less_Suc_eq dest: unsigned_word_eqI)
    then have "put (entry_addr t (of_nat k)) 0 s' = ?Z (Suc k)"
      using s' by (auto simp: fun_eq_iff)
    then show "\<exists>s''. ?body (of_nat k) s' = Some (Inl s'') \<and> ?I (Suc k) s''" using st by simp
  qed
  then show ?thesis by (simp add: zero_page_def zeroed_def page_words_def n)
qed

lemma alloc_page_table_correct:
  assumes ok: "kmem_ok s"
  shows "if avail_pages (pmm_of s) = {} then alloc_page_table s = Some (nullptr, s)
    else \<exists>t p'. alloc_page_table s = Some (t, zeroed t (s\<lparr>pmm_of := p'\<rparr>)) \<and> t \<noteq> nullptr \<and>
      t \<in> avail_pages (pmm_of s) \<and> pmm_inv p' \<and> avail_pages p' = avail_pages (pmm_of s) - {t} \<and>
      frame_pages p' = frame_pages (pmm_of s)"
proof -
  have inv: "pmm_inv (pmm_of s)" using ok by (simp add: kmem_ok_def)
  show ?thesis
  proof (cases "avail_pages (pmm_of s) = {}")
    case True
    then show ?thesis using pmm.alloc_none_law [OF inv] by (simp add: alloc_page_table_def)
  next
    case False
    obtain t p' where a: "alloc_page (pmm_of s) = Some (t, p')" "t \<in> avail_pages (pmm_of s)" "pmm_inv p'"
      "avail_pages p' = avail_pages (pmm_of s) - {t}" "frame_pages p' = frame_pages (pmm_of s)"
      using pmm.alloc_law [OF inv False] by blast
    have t: "t \<in> frame_pages (pmm_of s)" using a(2) pmm.frames_law [OF inv] by blast
    note ft = frame_facts(1,2) [OF ok t]
    have "zero_page t (s\<lparr>pmm_of := p'\<rparr>) = Some (zeroed t (s\<lparr>pmm_of := p'\<rparr>))"
      by (rule zero_page_correct [OF ft]) (use ok t in \<open>simp add: kmem_ok_def\<close>)
    then show ?thesis using a ft False by (auto simp: alloc_page_table_def)
  qed
qed

lemma zeroed_simps [simp]:
  "pmm_of (zeroed t s) = pmm_of s"
  "mem (zeroed t s) a = (if a \<in> page_words t then Some 0 else mem s a)"
  by (simp_all add: zeroed_def)

lemma kmem_ok_zeroed:
  "kmem_ok s \<Longrightarrow> pmm_inv p' \<Longrightarrow> frame_pages p' = frame_pages (pmm_of s) \<Longrightarrow>
   kmem_ok (zeroed t (s\<lparr>pmm_of := p'\<rparr>))"
  by (simp add: kmem_ok_def)

section \<open>The tree of tables\<close>

definition next_table :: "kmem \<Rightarrow> addr \<Rightarrow> u64 \<Rightarrow> addr option" where
  "next_table s t i = (case mem s (entry_addr t i) of None \<Rightarrow> None
     | Some v \<Rightarrow> if pte_valid v \<and> \<not> pte_leaf v then Some (pte_to_pa v) else None)"

fun tab :: "kmem \<Rightarrow> addr \<Rightarrow> u64 list \<Rightarrow> addr option" where
  "tab s t [] = Some t"
| "tab s t (i # is) = (case next_table s t i of None \<Rightarrow> None | Some u \<Rightarrow> tab s u is)"

text \<open>The path to a table: at most two indices.\<close>

definition path :: "u64 list \<Rightarrow> bool" where
  "path p \<longleftrightarrow> length p \<le> 2 \<and> (\<forall>i \<in> set p. unat i < 512)"

text \<open>An entry that points to a table and carries nothing but \<^verbatim>\<open>PteV\<close>.\<close>

definition pte_pointer :: "Pte \<Rightarrow> bool" where
  "pte_pointer v \<longleftrightarrow> v = make_pte (pte_to_pa v) PteV"

lemma pte_pointer_no_leaf: "pte_pointer v \<Longrightarrow> \<not> pte_leaf v"
  unfolding pte_pointer_def by (metis pte_leaf_make pte_leaf_PteV(1))

lemma pte_pointer_make: "is_page_aligned n \<Longrightarrow> pte_pointer (make_pte n PteV)"
  using pte_to_pa_make [of PteV n] by (simp add: pte_pointer_def align_down_of_aligned PteV_def)

definition pt_ok :: "kmem \<Rightarrow> addr \<Rightarrow> bool" where
  "pt_ok s root \<longleftrightarrow> kmem_ok s \<and>
     (\<forall>p t. path p \<and> tab s root p = Some t \<longrightarrow> t \<in> frame_pages (pmm_of s) \<and> t \<notin> avail_pages (pmm_of s)) \<and>
     (\<forall>p q t. path p \<and> path q \<and> tab s root p = Some t \<and> tab s root q = Some t \<longrightarrow> p = q) \<and>
     (\<forall>p t i v. path (p @ [i]) \<and> tab s root p = Some t \<and> mem s (entry_addr t i) = Some v \<and>
        pte_valid v \<longrightarrow> pte_pointer v)"

definition dir_path :: "addr \<Rightarrow> u64 list" where
  "dir_path va = [vpn_index va 2, vpn_index va 1]"

definition leaf_pte :: "kmem \<Rightarrow> addr \<Rightarrow> addr \<Rightarrow> Pte" where
  "leaf_pte s root va =
     (case tab s root (dir_path va) of None \<Rightarrow> 0
      | Some t \<Rightarrow> (case mem s (entry_addr t (vpn_index va 0)) of None \<Rightarrow> 0 | Some v \<Rightarrow> v))"

lemma tab_snoc: "tab s t (p @ [i]) = Option.bind (tab s t p) (\<lambda>u. next_table s u i)"
  by (induction p arbitrary: t) (auto split: option.split)

lemma path_simps [simp]: "path []" "path (p @ [i]) \<longleftrightarrow> path p \<and> length p < 2 \<and> unat i < 512"
  by (auto simp: path_def)

lemma dir_path [simp]: "path (dir_path va)" "length (dir_path va) = 2"
  by (simp_all add: dir_path_def path_def)

lemma pt_okD:
  assumes "pt_ok s root"
  shows "kmem_ok s"
    and "path p \<Longrightarrow> tab s root p = Some t \<Longrightarrow> t \<in> frame_pages (pmm_of s)"
    and "path p \<Longrightarrow> tab s root p = Some t \<Longrightarrow> t \<notin> avail_pages (pmm_of s)"
    and "path p \<Longrightarrow> path q \<Longrightarrow> tab s root p = Some t \<Longrightarrow> tab s root q = Some t \<Longrightarrow> p = q"
    and "path (p @ [i]) \<Longrightarrow> tab s root p = Some t \<Longrightarrow> mem s (entry_addr t i) = Some v \<Longrightarrow>
      pte_valid v \<Longrightarrow> pte_pointer v"
    and "path (p @ [i]) \<Longrightarrow> tab s root p = Some t \<Longrightarrow> mem s (entry_addr t i) = Some v \<Longrightarrow>
      pte_valid v \<Longrightarrow> \<not> pte_leaf v"
  using assms pte_pointer_no_leaf unfolding pt_ok_def by blast+

lemma pt_ok_aligned:
  "pt_ok s root \<Longrightarrow> path p \<Longrightarrow> tab s root p = Some t \<Longrightarrow> is_page_aligned t"
  using frame_facts(1) pt_okD(1,2) by blast

lemma next_table_update:
  assumes "is_page_aligned t" "unat i < 512" "is_page_aligned u" "unat j < 512"
  shows "next_table (put (entry_addr u j) v s) t i =
    (if t = u \<and> i = j then (if pte_valid v \<and> \<not> pte_leaf v then Some (pte_to_pa v) else None)
     else next_table s t i)"
  using entry_addr_inj [OF assms] by (simp add: next_table_def)

text \<open>Writing an entry of a last-level table does not change the tree.\<close>

lemma tab_leaf_update:
  assumes ok: "pt_ok s root" and p0: "path p0" "length p0 = 2" "tab s root p0 = Some t0" "unat i0 < 512"
    and p: "path p"
  shows "tab (put (entry_addr t0 i0) v s) root p = tab s root p"
  using p
proof (induction p rule: rev_induct)
  case Nil
  then show ?case by simp
next
  case (snoc i p)
  show ?case
  proof (cases "tab s root p")
    case None
    then show ?thesis using snoc by (simp add: tab_snoc)
  next
    case (Some t)
    have "t \<noteq> t0" using pt_okD(4) [OF ok, of p p0 t] Some p0 snoc.prems by auto
    then show ?thesis
      using snoc Some next_table_update [OF pt_ok_aligned [OF ok _ Some] _ pt_ok_aligned [OF ok p0(1,3)] p0(4)]
      by (simp add: tab_snoc)
  qed
qed

text \<open>Zeroing a page that is not a table does not change the tree.\<close>

lemma tab_zeroed:
  assumes ok: "pt_ok s root" and n: "is_page_aligned n" "\<And>q. path q \<Longrightarrow> tab s root q \<noteq> Some n"
    and p: "path p"
  shows "tab (zeroed n (s\<lparr>pmm_of := p'\<rparr>)) root p = tab s root p"
  using p
proof (induction p rule: rev_induct)
  case Nil
  then show ?case by simp
next
  case (snoc i p)
  have "next_table (zeroed n (s\<lparr>pmm_of := p'\<rparr>)) t i = next_table s t i" if "tab s root p = Some t" for t
    using page_words_iff [OF n(1) pt_ok_aligned [OF ok _ that], of i] n(2) [of p] that snoc.prems
    by (auto simp: next_table_def)
  then show ?case using snoc by (cases "tab s root p") (simp_all add: tab_snoc)
qed

text \<open>Linking a fresh empty table into an invalid entry adds exactly one path.\<close>

lemma tab_link:
  assumes ok: "pt_ok s root" and p0: "path (p0 @ [i0])" "tab s root p0 = Some t0"
    and none: "next_table s t0 i0 = None"
    and n: "is_page_aligned n" "\<And>q. path q \<Longrightarrow> tab s root q \<noteq> Some n"
    and empty: "\<And>i. unat i < 512 \<Longrightarrow> mem s (entry_addr n i) = Some 0"
    and p: "path p"
  shows "tab (put (entry_addr t0 i0) (make_pte n PteV) s) root p =
    (if p = p0 @ [i0] then Some n else tab s root p)"
    (is "tab ?s root p = _")
  using p
proof (induction p rule: rev_induct)
  case Nil
  then show ?case by simp
next
  case (snoc i p)
  have p0': "path p0" "unat i0 < 512" using p0(1) by simp_all
  note al0 = pt_ok_aligned [OF ok p0'(1) p0(2)]
  have pn: "pte_to_pa (make_pte n PteV) = n"
    using n(1) pte_to_pa_make [of PteV n] by (simp add: align_down_of_aligned PteV_def)
  have i: "path p" "unat i < 512" using snoc.prems by simp_all
  show ?case
  proof (cases "p = p0 @ [i0]")
    case True
    have "n \<noteq> t0" using n(2) p0'(1) p0(2) by blast
    then have "next_table ?s n i = None"
      using next_table_update [OF n(1) i(2) al0 p0'(2)] empty [OF i(2)] by (simp add: next_table_def)
    moreover have "tab ?s root p = Some n" using snoc.IH i True by simp
    moreover have "tab s root p = None" using p0(2) none True by (simp add: tab_snoc)
    moreover have "p @ [i] \<noteq> p0 @ [i0]" using True by simp
    ultimately show ?thesis by (simp only: tab_snoc bind.simps if_False)
  next
    case False
    then have eq: "tab ?s root p = tab s root p" using snoc.IH i by simp
    show ?thesis
    proof (cases "tab s root p")
      case None
      moreover have "p \<noteq> p0" using None p0(2) by auto
      ultimately show ?thesis using eq by (simp add: tab_snoc)
    next
      case (Some t)
      have "t = t0 \<longleftrightarrow> p = p0" using pt_okD(4) [OF ok, of p p0 t] Some p0(2) p0' i by auto
      then show ?thesis
        using eq Some pn next_table_update [OF pt_ok_aligned [OF ok i(1) Some] i(2) al0 p0'(2)]
        by (auto simp: tab_snoc)
    qed
  qed
qed

section \<open>Walking and extending the tree\<close>

lemma pt_okI:
  assumes "kmem_ok s"
    and "\<And>p t. path p \<Longrightarrow> tab s root p = Some t \<Longrightarrow>
      t \<in> frame_pages (pmm_of s) \<and> t \<notin> avail_pages (pmm_of s)"
    and "\<And>p q t. path p \<Longrightarrow> path q \<Longrightarrow> tab s root p = Some t \<Longrightarrow> tab s root q = Some t \<Longrightarrow> p = q"
    and "\<And>p t i v. path (p @ [i]) \<Longrightarrow> tab s root p = Some t \<Longrightarrow> mem s (entry_addr t i) = Some v \<Longrightarrow>
      pte_valid v \<Longrightarrow> pte_pointer v"
  shows "pt_ok s root"
  using assms unfolding pt_ok_def by blast

lemma kmem_ok_put: "kmem_ok s \<Longrightarrow> kmem_ok (put a v s)"
  by (simp add: kmem_ok_def)

text \<open>A tree survives the zeroing of a freshly allocated page, with all its leaf entries.\<close>

lemma pt_ok_alloc:
  assumes ok: "pt_ok s root" and n: "n \<in> avail_pages (pmm_of s)"
    and p': "pmm_inv p'" "avail_pages p' = avail_pages (pmm_of s) - {n}" "frame_pages p' = frame_pages (pmm_of s)"
  defines "s' \<equiv> zeroed n (s\<lparr>pmm_of := p'\<rparr>)"
  shows "pt_ok s' root" and "leaf_pte s' root = leaf_pte s root"
    and "path p \<Longrightarrow> tab s' root p = tab s root p"
    and "path p \<Longrightarrow> tab s' root p \<noteq> Some n"
    and "path p \<Longrightarrow> tab s root p = Some t \<Longrightarrow> unat i < 512 \<Longrightarrow>
      mem s' (entry_addr t i) = mem s (entry_addr t i)"
proof -
  have k: "kmem_ok s" using ok by (rule pt_okD)
  have "n \<in> frame_pages (pmm_of s)" using n pmm.frames_law [of "pmm_of s"] k by (auto simp: kmem_ok_def)
  note al = frame_facts(1) [OF k this]
  have fresh: "tab s root q \<noteq> Some n" if "path q" for q using pt_okD(3) [OF ok that] n by blast
  have tab: "tab s' root p = tab s root p" if "path p" for p
    unfolding s'_def by (rule tab_zeroed [OF ok al fresh that])
  have m: "mem s' (entry_addr t i) = mem s (entry_addr t i)"
    if "path p" "tab s root p = Some t" "unat i < 512" for p t i
    using page_words_iff [OF al pt_ok_aligned [OF ok that(1,2)] that(3)] fresh [OF that(1)] that(2)
    by (auto simp: s'_def)
  show "pt_ok s' root"
  proof (rule pt_okI)
    show "kmem_ok s'" unfolding s'_def by (rule kmem_ok_zeroed [OF k p'(1,3)])
  next
    fix p t assume a: "path p" "tab s' root p = Some t"
    then have "tab s root p = Some t" by (simp add: tab)
    then show "t \<in> frame_pages (pmm_of s') \<and> t \<notin> avail_pages (pmm_of s')"
      using pt_okD(2,3) [OF ok a(1)] p' by (simp add: s'_def)
  next
    fix p q t assume "path p" "path q" "tab s' root p = Some t" "tab s' root q = Some t"
    then show "p = q" using pt_okD(4) [OF ok] by (simp add: tab)
  next
    fix p t i v assume a: "path (p @ [i])" "tab s' root p = Some t" "mem s' (entry_addr t i) = Some v" "pte_valid v"
    then have "tab s root p = Some t" by (simp add: tab)
    then show "pte_pointer v" using a m [of p t i] pt_okD(5) [OF ok a(1)] by simp
  qed
  show "tab s' root p = tab s root p" if "path p" using that by (rule tab)
  show "tab s' root p \<noteq> Some n" if "path p" using fresh [OF that] by (simp add: tab [OF that])
  show "mem s' (entry_addr t i) = mem s (entry_addr t i)"
    if "path p" "tab s root p = Some t" "unat i < 512" using that by (rule m)
  have "leaf_pte s' root va = leaf_pte s root va" for va
    using tab [of "dir_path va"] m [of "dir_path va" _ "vpn_index va 0"]
    by (cases "tab s root (dir_path va)") (simp_all add: leaf_pte_def)
  then show "leaf_pte s' root = leaf_pte s root" ..
qed

text \<open>Linking the fresh page keeps the invariant and all leaf entries.\<close>

lemma pt_ok_link:
  assumes ok: "pt_ok s root" and p0: "path (p0 @ [i0])" "tab s root p0 = Some t0"
    and none: "next_table s t0 i0 = None"
    and n: "n \<in> frame_pages (pmm_of s)" "n \<notin> avail_pages (pmm_of s)" "\<And>q. path q \<Longrightarrow> tab s root q \<noteq> Some n"
    and empty: "\<And>i. unat i < 512 \<Longrightarrow> mem s (entry_addr n i) = Some 0"
  defines "s' \<equiv> put (entry_addr t0 i0) (make_pte n PteV) s"
  shows "pt_ok s' root" and "leaf_pte s' root = leaf_pte s root"
    and "path p \<Longrightarrow> tab s' root p = (if p = p0 @ [i0] then Some n else tab s root p)"
proof -
  have k: "kmem_ok s" using ok by (rule pt_okD)
  note al = frame_facts(1) [OF k n(1)]
  have tab: "tab s' root p = (if p = p0 @ [i0] then Some n else tab s root p)" if "path p" for p
    unfolding s'_def by (rule tab_link [OF ok p0 none al n(3) empty that])
  have p0': "path p0" "length p0 < 2" "unat i0 < 512" using p0(1) by simp_all
  note al0 = pt_ok_aligned [OF ok p0'(1) p0(2)]
  have m: "mem s' (entry_addr t i) = (if t = t0 \<and> i = i0 then Some (make_pte n PteV) else mem s (entry_addr t i))"
    if "is_page_aligned t" "unat i < 512" for t i
    using entry_addr_inj [OF that al0 p0'(3)] by (simp add: s'_def)
  show "pt_ok s' root"
  proof (rule pt_okI)
    show "kmem_ok s'" unfolding s'_def by (rule kmem_ok_put [OF k])
  next
    fix p t assume a: "path p" "tab s' root p = Some t"
    then show "t \<in> frame_pages (pmm_of s') \<and> t \<notin> avail_pages (pmm_of s')"
      using tab [OF a(1)] pt_okD(2,3) [OF ok a(1)] n(1,2) by (auto simp: s'_def split: if_splits)
  next
    fix p q t assume "path p" "path q" "tab s' root p = Some t" "tab s' root q = Some t"
    then show "p = q" using tab [of p] tab [of q] pt_okD(4) [OF ok] n(3) by (auto split: if_splits)
  next
    fix p t i v assume a: "path (p @ [i])" "tab s' root p = Some t" "mem s' (entry_addr t i) = Some v" "pte_valid v"
    then have i: "path p" "unat i < 512" by simp_all
    show "pte_pointer v"
    proof (cases "p = p0 @ [i0]")
      case True
      then have "t = n" using tab [OF i(1)] a(2) by simp
      moreover have "n \<noteq> t0" using n(3) p0'(1) p0(2) by blast
      ultimately show ?thesis using m [OF al i(2)] a(3,4) empty [OF i(2)] by auto
    next
      case False
      then have "tab s root p = Some t" using tab [OF i(1)] a(2) by simp
      then show ?thesis
        using m [OF pt_ok_aligned [OF ok i(1)] i(2)] a(3,4) pt_okD(5) [OF ok a(1)] pte_pointer_make [OF al]
        by (auto split: if_splits)
    qed
  qed
  show "tab s' root p = (if p = p0 @ [i0] then Some n else tab s root p)" if "path p" using that by (rule tab)
  show "leaf_pte s' root = leaf_pte s root"
  proof
    fix va
    let ?p = "dir_path va"
    have p: "path ?p" "length ?p = 2" by simp_all
    show "leaf_pte s' root va = leaf_pte s root va"
    proof (cases "?p = p0 @ [i0]")
      case True
      have "n \<noteq> t0" using n(3) p0'(1) p0(2) by blast
      then have "mem s' (entry_addr n (vpn_index va 0)) = Some 0"
        using m [OF al, of "vpn_index va 0"] empty by simp
      moreover have "tab s root ?p = None" using p0(2) none unfolding True by (simp add: tab_snoc)
      moreover have "tab s' root ?p = Some n" using tab [OF p(1)] by (simp add: True)
      ultimately show ?thesis by (simp only: leaf_pte_def option.case)
    next
      case False
      then have eq: "tab s' root ?p = tab s root ?p" using tab [OF p(1)] by simp
      show ?thesis
      proof (cases "tab s root ?p")
        case None
        then show ?thesis using eq by (simp add: leaf_pte_def)
      next
        case (Some t)
        have "t \<noteq> t0" using pt_okD(4) [OF ok p(1) p0'(1) Some] p0(2) p0'(2) p(2) by auto
        then show ?thesis
          using eq Some m [OF pt_ok_aligned [OF ok p(1) Some], of "vpn_index va 0"]
          by (simp add: leaf_pte_def)
      qed
    qed
  qed
qed

text \<open>Tables stay where they are, new ones come from the pool, and memory changes only in tables of the new tree.\<close>

definition keeps :: "addr \<Rightarrow> kmem \<Rightarrow> kmem \<Rightarrow> bool" where
  "keeps root s s' \<longleftrightarrow>
     (\<forall>p t. path p \<and> tab s root p = Some t \<longrightarrow> tab s' root p = Some t) \<and>
     (\<forall>p t. path p \<and> tab s' root p = Some t \<longrightarrow> tab s root p = Some t \<or> t \<in> avail_pages (pmm_of s)) \<and>
     avail_pages (pmm_of s') \<subseteq> avail_pages (pmm_of s) \<and>
     (\<forall>a. (\<forall>p t. path p \<and> tab s' root p = Some t \<longrightarrow> a \<notin> page_words t) \<longrightarrow> mem s' a = mem s a)"

lemma keeps_refl [simp]: "keeps root s s"
  by (simp add: keeps_def)

lemma keepsD:
  assumes "keeps root s s'"
  shows "path p \<Longrightarrow> tab s root p = Some t \<Longrightarrow> tab s' root p = Some t"
    and "path p \<Longrightarrow> tab s' root p = Some t \<Longrightarrow> tab s root p = Some t \<or> t \<in> avail_pages (pmm_of s)"
    and "avail_pages (pmm_of s') \<subseteq> avail_pages (pmm_of s)"
    and "(\<And>p t. path p \<Longrightarrow> tab s' root p = Some t \<Longrightarrow> a \<notin> page_words t) \<Longrightarrow> mem s' a = mem s a"
  using assms unfolding keeps_def by blast+

lemma keeps_trans:
  assumes "keeps root s s1" "keeps root s1 s2"
  shows "keeps root s s2"
  unfolding keeps_def
proof (intro conjI allI impI)
  fix p t assume "path p \<and> tab s root p = Some t"
  then show "tab s2 root p = Some t" using keepsD(1) assms by blast
next
  fix p t assume "path p \<and> tab s2 root p = Some t"
  then show "tab s root p = Some t \<or> t \<in> avail_pages (pmm_of s)" using keepsD(2,3) assms by blast
next
  show "avail_pages (pmm_of s2) \<subseteq> avail_pages (pmm_of s)" using keepsD(3) assms by blast
next
  fix a assume a: "\<forall>p t. path p \<and> tab s2 root p = Some t \<longrightarrow> a \<notin> page_words t"
  then have "mem s2 a = mem s1 a" by (intro keepsD(4) [OF assms(2)]) blast
  also have "mem s1 a = mem s a"
    by (rule keepsD(4) [OF assms(1)]) (use a keepsD(1) [OF assms(2)] in blast)
  finally show "mem s2 a = mem s a" .
qed

text \<open>
  What an operation may do to a tree whose leaf entries it keeps: add tables on the paths \<open>P\<close>,
  one page from the pool for each.
\<close>

definition tables :: "kmem \<Rightarrow> addr \<Rightarrow> u64 list set" where
  "tables s root = {p. path p \<and> tab s root p \<noteq> None}"

definition grows :: "addr \<Rightarrow> u64 list set \<Rightarrow> kmem \<Rightarrow> kmem \<Rightarrow> bool" where
  "grows root P s s' \<longleftrightarrow> keeps root s s' \<and> frame_pages (pmm_of s') = frame_pages (pmm_of s) \<and>
     avail_pages (pmm_of s') \<subseteq> avail_pages (pmm_of s) \<and>
     tables s root \<subseteq> tables s' root \<and> tables s' root \<subseteq> tables s root \<union> P \<and>
     card (avail_pages (pmm_of s)) + card (tables s root) =
       card (avail_pages (pmm_of s')) + card (tables s' root)"

lemma finite_tables [simp]: "finite (tables s root)"
proof (rule finite_subset)
  show "tables s root \<subseteq> {p. set p \<subseteq> UNIV \<and> length p \<le> 2}" by (auto simp: tables_def path_def)
  show "finite {p :: u64 list. set p \<subseteq> UNIV \<and> length p \<le> 2}" by (rule finite_lists_length_le) simp
qed

lemma grows_refl [simp]: "grows root P s s"
  by (simp add: grows_def)

lemma grows_trans: "grows root P s s1 \<Longrightarrow> grows root Q s1 s2 \<Longrightarrow> grows root (P \<union> Q) s s2"
  by (auto simp: grows_def intro: keeps_trans)

lemma grows_mono: "grows root P s s' \<Longrightarrow> P \<subseteq> Q \<Longrightarrow> grows root Q s s'"
  by (auto simp: grows_def)

lemma finite_avail: "kmem_ok s \<Longrightarrow> finite (avail_pages (pmm_of s))"
  using pmm.frames_law [of "pmm_of s"] by (auto simp: kmem_ok_def intro: finite_subset)

text \<open>One level of the walk of \<^verbatim>\<open>map_page\<close>.\<close>

lemma map_walk_step:
  assumes ok: "pt_ok s root" and p: "path (p @ [vpn_index va (Suc l)])" "tab s root p = Some t"
  shows "(avail_pages (pmm_of s) = {} \<and> p @ [vpn_index va (Suc l)] \<notin> tables s root \<and>
       map_walk (Suc l) va t s = Some (None, s)) \<or>
    (\<exists>n s'. map_walk (Suc l) va t s = map_walk l va n s' \<and> pt_ok s' root \<and>
       leaf_pte s' root = leaf_pte s root \<and> tab s' root (p @ [vpn_index va (Suc l)]) = Some n \<and>
       grows root {p @ [vpn_index va (Suc l)]} s s')"
proof -
  let ?i = "vpn_index va (Suc l)"
  have i: "path p" "length p < 2" "unat ?i < 512" using p(1) by simp_all
  have k: "kmem_ok s" using ok by (rule pt_okD)
  have t: "t \<in> frame_pages (pmm_of s)" using pt_okD(2) [OF ok i(1) p(2)] .
  obtain v where v: "load (entry_addr t ?i) s = Some v" "mem s (entry_addr t ?i) = Some v"
    using frame_facts(3) [OF k t i(3)] by blast
  show ?thesis
  proof (cases "pte_valid v")
    case True
    then have nl: "\<not> pte_leaf v" using pt_okD(6) [OF ok p v(2)] by blast
    then have "tab s root (p @ [?i]) = Some (pte_to_pa v)"
      using p(2) v(2) True by (simp add: tab_snoc next_table_def)
    moreover have "map_walk (Suc l) va t s = map_walk l va (pte_to_pa v) s"
      using v True nl by (simp add: Let_def pte_to_table_def)
    ultimately show ?thesis using ok by (metis grows_refl)
  next
    case False
    then have none: "next_table s t ?i = None" using v(2) by (simp add: next_table_def)
    show ?thesis
    proof (cases "avail_pages (pmm_of s) = {}")
      case True
      then have "alloc_page_table s = Some (nullptr, s)"
        using alloc_page_table_correct [OF k] by simp
      moreover have "p @ [?i] \<notin> tables s root" using p(2) none by (simp add: tables_def tab_snoc)
      ultimately show ?thesis using True False v by (simp add: Let_def)
    next
      case av: False
      then obtain n p' where n: "alloc_page_table s = Some (n, zeroed n (s\<lparr>pmm_of := p'\<rparr>))" "n \<noteq> nullptr"
        "n \<in> avail_pages (pmm_of s)" "pmm_inv p'" "avail_pages p' = avail_pages (pmm_of s) - {n}"
        "frame_pages p' = frame_pages (pmm_of s)"
        using alloc_page_table_correct [OF k] by auto
      define s1 where "s1 = zeroed n (s\<lparr>pmm_of := p'\<rparr>)"
      note a = pt_ok_alloc [OF ok n(3-6), folded s1_def]
      have t1: "tab s1 root p = Some t" using a(3) [OF i(1)] p(2) by simp
      have none1: "next_table s1 t ?i = None"
        using none a(5) [OF i(1) p(2) i(3)] by (simp add: next_table_def)
      have nf: "n \<in> frame_pages (pmm_of s1)" "n \<notin> avail_pages (pmm_of s1)"
        using n(3,5,6) pmm.frames_law [of "pmm_of s"] k by (auto simp: s1_def kmem_ok_def)
      have zero: "mem s1 (entry_addr n j) = Some 0" if "unat j < 512" for j
        using that by (simp add: s1_def)
      define s2 where "s2 = put (entry_addr t ?i) (make_pte n PteV) s1"
      note link = pt_ok_link [OF a(1) p(1) t1 none1 nf a(4) zero, folded s2_def]
      have b: "pt_ok s2 root" "leaf_pte s2 root = leaf_pte s1 root" by (rule link(1,2); assumption)+
      have b3: "tab s2 root q = (if q = p @ [?i] then Some n else tab s root q)" if "path q" for q
        using link(3) [OF _ _ that] a(3) [OF that] by simp
      have k1: "kmem_ok s1" "t \<in> frame_pages (pmm_of s1)"
        using a(1) pt_okD(1) t n(6) by (auto simp: s1_def)
      have st: "store (entry_addr t ?i) (make_pte n PteV) s1 = Some s2"
        unfolding s2_def by (rule store_frame [OF k1 i(3)])
      have ld: "load (entry_addr t ?i) s2 = Some (make_pte n PteV)"
        using entry_addr_nonnull [OF frame_facts(1) [OF k t] i(3) frame_facts(2) [OF k t]]
        by (simp add: load_def s2_def)
      have "pte_to_pa (make_pte n PteV) = n"
        using pte_to_pa_make [of PteV n] align_down_of_aligned [OF frame_facts(1) [OF k1(1) nf(1)]]
        by (simp add: PteV_def)
      then have "map_walk (Suc l) va t s = map_walk l va n s2"
        using v(1) False n(1,2) st ld by (simp add: Let_def pte_to_table_def s1_def)
      moreover have "pmm_of s2 = p'" by (simp add: s2_def s1_def)
      moreover have "tables s2 root = insert (p @ [?i]) (tables s root)"
        using b3 p(1) by (auto simp: tables_def split: if_splits)
      moreover have "p @ [?i] \<notin> tables s root" using p(2) none by (simp add: tables_def tab_snoc)
      moreover have "Suc (card (avail_pages (pmm_of s) - {n})) = card (avail_pages (pmm_of s))"
        using n(3) finite_avail [OF k] by (rule card.remove [symmetric, rotated])
      moreover have "keeps root s s2" unfolding keeps_def
      proof (intro conjI allI impI)
        fix q u assume q: "path q \<and> tab s root q = Some u"
        moreover have "tab s root (p @ [?i]) = None" using p(2) none by (simp add: tab_snoc)
        ultimately show "tab s2 root q = Some u" using b3 by auto
      next
        fix q u assume "path q \<and> tab s2 root q = Some u"
        then show "tab s root q = Some u \<or> u \<in> avail_pages (pmm_of s)"
          using b3 [of q] n(3) by (auto split: if_splits)
      next
        show "avail_pages (pmm_of s2) \<subseteq> avail_pages (pmm_of s)" using n(5) by (auto simp: s2_def s1_def)
      next
        fix a assume a: "\<forall>q u. path q \<and> tab s2 root q = Some u \<longrightarrow> a \<notin> page_words u"
        have "p \<noteq> p @ [?i]" by simp
        then have "tab s2 root p = Some t" using b3 [OF i(1)] p(2) by presburger
        moreover have "tab s2 root (p @ [?i]) = Some n" using b3 [OF p(1)] by simp
        ultimately have "a \<notin> page_words t" "a \<notin> page_words n" using a i(1) p(1) by blast+
        moreover have "a \<noteq> entry_addr t ?i" using \<open>a \<notin> page_words t\<close> i(3) by auto
        ultimately show "mem s2 a = mem s a" by (simp add: s2_def s1_def)
      qed
      ultimately have "grows root {p @ [?i]} s s2" using n(5,6) by (auto simp: grows_def)
      moreover have "tab s2 root (p @ [?i]) = Some n" using b3 [OF p(1)] by simp
      moreover note \<open>map_walk (Suc l) va t s = map_walk l va n s2\<close>
      moreover have "leaf_pte s2 root = leaf_pte s root" using b(2) a(2) by simp
      ultimately show ?thesis using b(1) by blast
    qed
  qed
qed

definition walk_paths :: "addr \<Rightarrow> u64 list set" where
  "walk_paths va = {[vpn_index va 2], dir_path va}"

lemma map_walk_correct:
  assumes "pt_ok s root" "tab s root (take (2 - l) (dir_path va)) = Some t" "l \<le> 2"
  shows "\<exists>r s'. map_walk l va t s = Some (r, s') \<and> pt_ok s' root \<and> leaf_pte s' root = leaf_pte s root \<and>
    grows root (walk_paths va) s s' \<and> (case r of Some u \<Rightarrow> tab s' root (dir_path va) = Some u
      | None \<Rightarrow> avail_pages (pmm_of s') = {} \<and> \<not> walk_paths va \<subseteq> tables s' root)"
  using assms
proof (induction l arbitrary: s t)
  case 0
  then show ?case by (simp add: dir_path_def)
next
  case (Suc l)
  let ?p = "take (2 - Suc l) (dir_path va)"
  have l: "l = 0 \<or> l = 1" using Suc.prems(3) by auto
  then have take: "take (2 - l) (dir_path va) = ?p @ [vpn_index va (Suc l)]"
    and w: "?p @ [vpn_index va (Suc l)] \<in> walk_paths va"
    by (auto simp: dir_path_def walk_paths_def numeral_2_eq_2)
  have "path (?p @ [vpn_index va (Suc l)])" using l by (auto simp: dir_path_def path_def)
  from map_walk_step [OF Suc.prems(1) this Suc.prems(2)] show ?case
  proof (elim disjE exE conjE)
    assume "avail_pages (pmm_of s) = {}" "?p @ [vpn_index va (Suc l)] \<notin> tables s root"
      "map_walk (Suc l) va t s = Some (None, s)"
    then show ?thesis using Suc.prems(1) w by (intro exI [of _ None] exI [of _ s]) auto
  next
    fix n s1
    assume s1: "map_walk (Suc l) va t s = map_walk l va n s1" "pt_ok s1 root"
      "leaf_pte s1 root = leaf_pte s root" "tab s1 root (?p @ [vpn_index va (Suc l)]) = Some n"
      "grows root {?p @ [vpn_index va (Suc l)]} s s1"
    obtain r s2 where s2: "map_walk l va n s1 = Some (r, s2)" "pt_ok s2 root"
      "leaf_pte s2 root = leaf_pte s1 root" "grows root (walk_paths va) s1 s2"
      "case r of Some u \<Rightarrow> tab s2 root (dir_path va) = Some u
        | None \<Rightarrow> avail_pages (pmm_of s2) = {} \<and> \<not> walk_paths va \<subseteq> tables s2 root"
      using Suc.IH [OF s1(2) s1(4) [folded take]] Suc.prems(3) by auto
    have "grows root (walk_paths va) s s2"
      using grows_mono [OF grows_trans [OF s1(5) s2(4)]] w by simp
    with s1(1,3) s2 show ?thesis by auto
  qed
qed

section \<open>Mapping, translating and unmapping one page\<close>

lemma vpns_path: "vpns va' = vpns va \<longleftrightarrow> dir_path va' = dir_path va \<and> vpn_index va' 0 = vpn_index va 0"
  by (simp add: vpns_def dir_path_def)

lemma leaf_pte_cong: "vpns va' = vpns va \<Longrightarrow> leaf_pte s root va' = leaf_pte s root va"
  unfolding vpns_path leaf_pte_def by (elim conjE) (simp only:)

definition set_leaf :: "addr \<Rightarrow> Pte \<Rightarrow> (addr \<Rightarrow> Pte) \<Rightarrow> addr \<Rightarrow> Pte" where
  "set_leaf va w f = (\<lambda>va'. if vpns va' = vpns va then w else f va')"

lemma leaf_update:
  fixes w :: Pte
  assumes ok: "pt_ok s root" and t: "tab s root (dir_path va) = Some t"
  defines "s' \<equiv> put (entry_addr t (vpn_index va 0)) w s"
  shows "pt_ok s' root" "leaf_pte s' root = set_leaf va w (leaf_pte s root)" "tables s' root = tables s root"
    "pmm_of s' = pmm_of s" "keeps root s s'"
proof -
  have tab: "tab s' root p = tab s root p" if "path p" for p
    unfolding s'_def by (rule tab_leaf_update [OF ok _ _ t _ that]) simp_all
  note al0 = pt_ok_aligned [OF ok dir_path(1) t]
  have m: "mem s' (entry_addr u i) = (if u = t \<and> i = vpn_index va 0 then Some w else mem s (entry_addr u i))"
    if "is_page_aligned u" "unat i < 512" for u i
    using entry_addr_inj [OF that al0, of "vpn_index va 0"] by (simp add: s'_def)
  show "pt_ok s' root"
  proof (rule pt_okI)
    show "kmem_ok s'" unfolding s'_def by (rule kmem_ok_put [OF pt_okD(1) [OF ok]])
  next
    fix p u assume a: "path p" "tab s' root p = Some u"
    then have "tab s root p = Some u" by (simp add: tab)
    then show "u \<in> frame_pages (pmm_of s') \<and> u \<notin> avail_pages (pmm_of s')"
      using pt_okD(2,3) [OF ok a(1)] by (simp add: tab s'_def)
  next
    fix p q u assume "path p" "path q" "tab s' root p = Some u" "tab s' root q = Some u"
    then show "p = q" using pt_okD(4) [OF ok] by (simp add: tab)
  next
    fix p u i v assume a: "path (p @ [i])" "tab s' root p = Some u" "mem s' (entry_addr u i) = Some v" "pte_valid v"
    then have u: "tab s root p = Some u" by (simp add: tab)
    have "u \<noteq> t" using pt_okD(4) [OF ok _ dir_path(1) u] t a(1) by auto
    then show "pte_pointer v"
      using a m [OF pt_ok_aligned [OF ok _ u]] pt_okD(5) [OF ok a(1) u] by simp
  qed
  show "tables s' root = tables s root" unfolding tables_def using tab by auto
  show "pmm_of s' = pmm_of s" by (simp add: s'_def)
  have t': "tab s' root (dir_path va) = Some t" using tab [OF dir_path(1)] t by simp
  have outside: "mem s' a = mem s a" if "a \<notin> page_words t" for a using that by (auto simp: s'_def)
  show "keeps root s s'" unfolding keeps_def
  proof (intro conjI allI impI)
    fix a assume "\<forall>p u. path p \<and> tab s' root p = Some u \<longrightarrow> a \<notin> page_words u"
    then show "mem s' a = mem s a" using t' dir_path(1) outside by blast
  qed (use tab in \<open>auto simp: \<open>pmm_of s' = pmm_of s\<close>\<close>)
  show "leaf_pte s' root = set_leaf va w (leaf_pte s root)"
  proof
    fix va'
    show "leaf_pte s' root va' = set_leaf va w (leaf_pte s root) va'"
    proof (cases "tab s root (dir_path va')")
      case None
      then have "dir_path va' \<noteq> dir_path va" using t by auto
      then show ?thesis using None by (simp add: leaf_pte_def tab set_leaf_def vpns_path)
    next
      case (Some u)
      have "u = t \<longleftrightarrow> dir_path va' = dir_path va"
        using pt_okD(4) [OF ok, of "dir_path va'" "dir_path va" t] t Some by auto
      then show ?thesis
        using Some m [OF pt_ok_aligned [OF ok dir_path(1) Some], of "vpn_index va' 0"]
        by (auto simp: leaf_pte_def tab set_leaf_def vpns_path)
    qed
  qed
qed

lemma root_frame: "pt_ok s root \<Longrightarrow> root \<in> frame_pages (pmm_of s) \<and> root \<noteq> nullptr"
  using pt_okD(2) [of s root "[]" root] frame_facts(2) pt_okD(1) by auto

lemma load_leaf:
  assumes ok: "pt_ok s root" and t: "tab s root (dir_path va) = Some t"
  shows "load (entry_addr t (vpn_index va 0)) s = Some (leaf_pte s root va)"
  using frame_facts(3) [OF pt_okD(1) [OF ok] pt_okD(2) [OF ok dir_path(1) t], of "vpn_index va 0"] t
  by (auto simp: leaf_pte_def)

lemma map_page_correct:
  assumes ok: "pt_ok s root"
  shows "\<exists>r s'. map_page root va pa flags s = Some (r, s') \<and> pt_ok s' root \<and> grows root (walk_paths va) s s' \<and>
    (if r then is_page_aligned va \<and> is_page_aligned pa \<and> \<not> pte_valid (leaf_pte s root va) \<and>
        leaf_pte s' root = set_leaf va (make_pte pa (flags OR PteV)) (leaf_pte s root)
     else leaf_pte s' root = leaf_pte s root \<and>
       (\<not> is_page_aligned va \<or> \<not> is_page_aligned pa \<or> pte_valid (leaf_pte s root va) \<or>
        (avail_pages (pmm_of s') = {} \<and> \<not> walk_paths va \<subseteq> tables s' root)))"
proof (cases "is_page_aligned va \<and> is_page_aligned pa")
  case False
  then show ?thesis using ok root_frame [OF ok] by (intro exI [of _ False] exI [of _ s]) (auto simp: map_page_def)
next
  case al: True
  obtain r s1 where w: "map_walk 2 va root s = Some (r, s1)" "pt_ok s1 root" "leaf_pte s1 root = leaf_pte s root"
    "grows root (walk_paths va) s s1"
    "case r of Some u \<Rightarrow> tab s1 root (dir_path va) = Some u
      | None \<Rightarrow> avail_pages (pmm_of s1) = {} \<and> \<not> walk_paths va \<subseteq> tables s1 root"
    using map_walk_correct [OF ok, of 2 va root] by auto
  show ?thesis
  proof (cases r)
    case None
    then have "map_page root va pa flags s = Some (False, s1)"
      using w(1) al root_frame [OF ok] by (simp add: map_page_def)
    then show ?thesis using w None by auto
  next
    case (Some t)
    then have t: "tab s1 root (dir_path va) = Some t" using w(5) by simp
    note ld = load_leaf [OF w(2) t]
    show ?thesis
    proof (cases "pte_valid (leaf_pte s root va)")
      case True
      then have "map_page root va pa flags s = Some (False, s1)"
        using w(1,3) Some al root_frame [OF ok] ld by (simp add: map_page_def Let_def)
      then show ?thesis using w True by auto
    next
      case False
      define s2 where "s2 = put (entry_addr t (vpn_index va 0)) (make_pte pa (flags OR PteV)) s1"
      note u = leaf_update [OF w(2) t, of "make_pte pa (flags OR PteV)", folded s2_def]
      have "store (entry_addr t (vpn_index va 0)) (make_pte pa (flags OR PteV)) s1 = Some s2"
        unfolding s2_def by (rule store_frame [OF pt_okD(1,2) [OF w(2)]]) (use t dir_path(1) in auto)
      then have "map_page root va pa flags s = Some (True, s2)"
        using w(1,3) Some al root_frame [OF ok] ld False by (simp add: map_page_def Let_def)
      moreover have "grows root (walk_paths va) s s2" using w(4) u(3,4) keeps_trans [OF _ u(5)] by (auto simp: grows_def)
      ultimately show ?thesis using u(1,2) w(3) al False by auto
    qed
  qed
qed

lemma next_of_tab:
  assumes ok: "pt_ok s root" and p: "path (p @ [i])" "tab s root p = Some t"
  shows "\<exists>v. load (entry_addr t i) s = Some v \<and>
    (if pte_valid v then \<not> pte_leaf v \<and> tab s root (p @ [i]) = Some (pte_to_pa v)
     else tab s root (p @ [i]) = None)"
proof -
  have i: "path p" "unat i < 512" using p(1) by simp_all
  obtain v where v: "load (entry_addr t i) s = Some v" "mem s (entry_addr t i) = Some v"
    using frame_facts(3) [OF pt_okD(1) [OF ok] pt_okD(2) [OF ok i(1) p(2)] i(2)] by blast
  then show ?thesis using pt_okD(6) [OF ok p v(2)] p(2) by (simp add: tab_snoc next_table_def)
qed

text \<open>Both read-only walks follow the two upper levels and meet the leaf entry.\<close>

lemma upper_levels:
  assumes ok: "pt_ok s root"
  obtains (missing2) v where "load (entry_addr root (vpn_index va 2)) s = Some v" "\<not> pte_valid v"
      "tab s root (dir_path va) = None"
  | (missing1) v t w where "load (entry_addr root (vpn_index va 2)) s = Some v" "pte_valid v" "\<not> pte_leaf v"
      "pte_to_pa v = t" "load (entry_addr t (vpn_index va 1)) s = Some w" "\<not> pte_valid w"
      "tab s root (dir_path va) = None"
  | (found) v t w u where "load (entry_addr root (vpn_index va 2)) s = Some v" "pte_valid v" "\<not> pte_leaf v"
      "pte_to_pa v = t" "load (entry_addr t (vpn_index va 1)) s = Some w" "pte_valid w" "\<not> pte_leaf w"
      "pte_to_pa w = u" "tab s root (dir_path va) = Some u"
proof -
  have p2: "path ([] @ [vpn_index va 2])" "path ([vpn_index va 2] @ [vpn_index va 1])"
    by (simp_all add: path_def)
  have dp: "dir_path va = [vpn_index va 2] @ [vpn_index va 1]" by (simp add: dir_path_def)
  obtain v where v: "load (entry_addr root (vpn_index va 2)) s = Some v"
    "if pte_valid v then \<not> pte_leaf v \<and> tab s root ([] @ [vpn_index va 2]) = Some (pte_to_pa v)
     else tab s root ([] @ [vpn_index va 2]) = None"
    using next_of_tab [OF ok p2(1)] by auto
  show thesis
  proof (cases "pte_valid v")
    case False
    then have "tab s root [vpn_index va 2] = None" using v(2) by simp
    then have "tab s root (dir_path va) = None" unfolding dp by (simp only: tab_snoc bind.simps)
    then show thesis using missing2 v(1) False by blast
  next
    case True
    then have v2: "\<not> pte_leaf v" "tab s root [vpn_index va 2] = Some (pte_to_pa v)" using v(2) by simp_all
    obtain w where w: "load (entry_addr (pte_to_pa v) (vpn_index va 1)) s = Some w"
      "if pte_valid w then \<not> pte_leaf w \<and> tab s root (dir_path va) = Some (pte_to_pa w)
       else tab s root (dir_path va) = None"
      using next_of_tab [OF ok p2(2) v2(2)] unfolding dp by blast
    show thesis
      by (cases "pte_valid w") (use missing1 [OF v(1) True v2(1) refl w(1)] found [OF v(1) True v2(1) refl w(1)] w(2) in auto)
  qed
qed

lemma virt_to_phys_correct:
  assumes ok: "pt_ok s root"
  shows "virt_to_phys root va s = Some (let pte = leaf_pte s root va in
    if pte_valid pte \<and> pte_leaf pte then pte_to_pa pte + page_offset va else 0)"
  using ok
proof (cases rule: upper_levels [where va = va])
  case (missing2 v)
  then show ?thesis using root_frame [OF ok]
    by (simp add: virt_to_phys_def leaf_pte_def numeral_3_eq_3 numeral_2_eq_2)
next
  case (missing1 v t w)
  then show ?thesis using root_frame [OF ok]
    by (simp add: virt_to_phys_def leaf_pte_def numeral_3_eq_3 numeral_2_eq_2 pte_to_table_def)
next
  case (found v t w u)
  then show ?thesis using root_frame [OF ok] load_leaf [OF ok found(9)]
    by (simp add: virt_to_phys_def numeral_3_eq_3 numeral_2_eq_2 pte_to_table_def Let_def)
qed

lemma unmap_page_correct:
  assumes ok: "pt_ok s root"
  shows "\<exists>r s'. unmap_page root va s = Some (r, s') \<and> pt_ok s' root \<and> pmm_of s' = pmm_of s \<and> keeps root s s' \<and>
    tables s' root = tables s root \<and>
    (if r then is_page_aligned va \<and> pte_valid (leaf_pte s root va) \<and> pte_leaf (leaf_pte s root va) \<and>
        leaf_pte s' root = set_leaf va 0 (leaf_pte s root)
     else s' = s \<and> (\<not> is_page_aligned va \<or> \<not> (pte_valid (leaf_pte s root va) \<and> pte_leaf (leaf_pte s root va))))"
proof (cases "is_page_aligned va")
  case False
  then show ?thesis using ok by (intro exI [of _ False] exI [of _ s]) (auto simp: unmap_page_def)
next
  case al: True
  have none: ?thesis if "unmap_walk 2 va root s = Some None" "tab s root (dir_path va) = None"
    using that ok al root_frame [OF ok]
    by (intro exI [of _ False] exI [of _ s]) (auto simp: unmap_page_def leaf_pte_def)
  from ok show ?thesis
  proof (cases rule: upper_levels [where va = va])
    case (missing2 v)
    then show ?thesis by (intro none) (simp_all add: numeral_2_eq_2)
  next
    case (missing1 v t w)
    then show ?thesis by (intro none) (simp_all add: numeral_2_eq_2 pte_to_table_def)
  next
    case (found v t w u)
    then have walk: "unmap_walk 2 va root s = Some (Some u)" by (simp add: numeral_2_eq_2 pte_to_table_def)
    note ld = load_leaf [OF ok found(9)]
    show ?thesis
    proof (cases "pte_valid (leaf_pte s root va) \<and> pte_leaf (leaf_pte s root va)")
      case False
      then have "unmap_page root va s = Some (False, s)"
        using al root_frame [OF ok] walk ld by (auto simp: unmap_page_def Let_def)
      then show ?thesis using ok False by auto
    next
      case True
      define s2 where "s2 = put (entry_addr u (vpn_index va 0)) 0 s"
      note upd = leaf_update [OF ok found(9), of 0, folded s2_def]
      have "store (entry_addr u (vpn_index va 0)) 0 s = Some s2"
        unfolding s2_def by (rule store_frame [OF pt_okD(1,2) [OF ok]]) (use found(9) dir_path(1) in auto)
      then have "unmap_page root va s = Some (True, s2)"
        using al root_frame [OF ok] walk ld True by (simp add: unmap_page_def Let_def)
      then show ?thesis using upd True al by auto
    qed
  qed
qed

section \<open>Mapping a range\<close>

definition nth_page :: "addr \<Rightarrow> nat \<Rightarrow> addr" where
  "nth_page a k = a + of_nat k * kPageSize"

definition range_paths :: "addr \<Rightarrow> nat \<Rightarrow> u64 list set" where
  "range_paths va k = (\<Union>i < k. walk_paths (nth_page va i))"

definition mapped_to :: "addr \<Rightarrow> addr \<Rightarrow> u64 \<Rightarrow> nat \<Rightarrow> (addr \<Rightarrow> Pte) \<Rightarrow> (addr \<Rightarrow> Pte) \<Rightarrow> bool" where
  "mapped_to va pa flags k f f' \<longleftrightarrow>
     (\<forall>i < k. f' (nth_page va i) = make_pte (nth_page pa i) (flags OR PteV)) \<and>
     (\<forall>va'. (\<forall>i < k. vpns va' \<noteq> vpns (nth_page va i)) \<longrightarrow> f' va' = f va')"

lemma range_paths_mono: "j \<le> k \<Longrightarrow> range_paths va j \<subseteq> range_paths va k"
  unfolding range_paths_def by (rule UN_mono) auto

lemma nth_page_0 [simp]: "nth_page a 0 = a"
  by (simp add: nth_page_def)

lemma nth_page_Suc: "nth_page a k + kPageSize = nth_page a (Suc k)"
  by (simp add: nth_page_def algebra_simps)

lemma nth_page_nat: "unat a + 4096 * k < 2 ^ 64 \<Longrightarrow> unat (nth_page a k) = unat a + 4096 * k"
  using unat_of_nat64 [of "k * 4096"] by (simp add: nth_page_def unat_word_ariths)

lemma is_page_aligned_add: "is_page_aligned a \<Longrightarrow> is_page_aligned (a + 4096)"
proof -
  assume a: "is_page_aligned a"
  have "unat (a + 4096) = (unat a + 4096) mod 18446744073709551616" by (simp add: unat_word_ariths)
  moreover have "(unat a + 4096) mod 18446744073709551616 mod 4096 = (unat a + 4096) mod 4096"
    by (rule mod_mod_cancel) simp
  ultimately show ?thesis using a by (simp add: is_page_aligned_nat)
qed

lemma nth_page_aligned: "is_page_aligned a \<Longrightarrow> is_page_aligned (nth_page a k)"
  by (induction k) (simp_all add: is_page_aligned_add flip: nth_page_Suc)

lemma mapped_to_0 [simp]: "mapped_to va pa flags 0 f f"
  by (simp add: mapped_to_def)

lemma pte_valid_or_V [simp]: "pte_valid (make_pte pa (flags OR PteV))"
  by (simp add: bit_or_iff)

lemma mapped_to_Suc:
  assumes "mapped_to va pa flags k f g" "\<not> pte_valid (g (nth_page va k))"
    and cong: "\<And>a b. vpns a = vpns b \<Longrightarrow> g a = g b"
  shows "mapped_to va pa flags (Suc k) f
    (set_leaf (nth_page va k) (make_pte (nth_page pa k) (flags OR PteV)) g)"
proof -
  have "vpns (nth_page va i) \<noteq> vpns (nth_page va k)" if "i < k" for i
    using assms(1,2) that cong [of "nth_page va i" "nth_page va k"] pte_valid_or_V
    unfolding mapped_to_def by metis
  then show ?thesis using assms(1) by (auto simp: mapped_to_def set_leaf_def less_Suc_eq)
qed

definition range_pages :: "addr \<Rightarrow> u64 \<Rightarrow> nat" where
  "range_pages va sz = (unat (align_up (va + sz)) - unat va) div 4096"

lemma range_pages_bounds:
  assumes "is_page_aligned va" "va < align_up (va + sz)"
  shows "nth_page va (range_pages va sz) = align_up (va + sz)"
    and "k \<le> range_pages va sz \<Longrightarrow> unat (nth_page va k) = unat va + 4096 * k"
    and "k < range_pages va sz \<Longrightarrow> nth_page va k < align_up (va + sz)"
proof -
  let ?e = "unat (align_up (va + sz))"
  have "4096 dvd ?e" "4096 dvd unat va"
    using assms(1) align_up_aligned [of "va + sz"] unfolding is_page_aligned_nat mod_eq_0_iff_dvd by blast+
  then have "4096 dvd ?e - unat va" by (rule dvd_diff_nat)
  then have e: "?e = unat va + 4096 * range_pages va sz"
    using assms(2) by (simp add: range_pages_def word_less_nat_alt)
  show n: "unat (nth_page va k) = unat va + 4096 * k" if "k \<le> range_pages va sz" for k
    using that e unat_less_2p64 [of "align_up (va + sz)"] by (intro nth_page_nat) (simp del: unat_less_2p64)
  show "nth_page va (range_pages va sz) = align_up (va + sz)"
    using n [of "range_pages va sz"] e by (intro unsigned_word_eqI [where 'a = nat]) simp
  show "k < range_pages va sz \<Longrightarrow> nth_page va k < align_up (va + sz)"
    using n [of k] e by (simp add: word_less_nat_alt)
qed

definition range_failure :: "kmem \<Rightarrow> addr \<Rightarrow> addr \<Rightarrow> bool" where
  "range_failure s root va \<longleftrightarrow> pte_valid (leaf_pte s root va) \<or>
     (avail_pages (pmm_of s) = {} \<and> \<not> walk_paths va \<subseteq> tables s root)"

lemma map_range_correct:
  assumes ok: "pt_ok s root" and al: "is_page_aligned va" "is_page_aligned pa"
    and sz: "sz \<noteq> 0" "va < align_up (va + sz)"
  shows "\<exists>r s' k. map_range root va pa sz flags s = Some (r, s') \<and> pt_ok s' root \<and>
    k \<le> range_pages va sz \<and> r = (k = range_pages va sz) \<and>
    mapped_to va pa flags k (leaf_pte s root) (leaf_pte s' root) \<and>
    grows root (range_paths va (range_pages va sz)) s s' \<and>
    (\<not> r \<longrightarrow> range_failure s' root (nth_page va k))"
proof -
  let ?N = "range_pages va sz" and ?stop = "align_up (va + sz)"
  define body where "body = (\<lambda>cur_va (cur_pa, s). do {
     (ok, s) \<leftarrow> map_page root cur_va cur_pa flags s;
     Some (if \<not> ok then Inr s else Inl (cur_pa + kPageSize, s)) })"
  let ?S = "\<lambda>k s'. pt_ok s' root \<and> mapped_to va pa flags k (leaf_pte s root) (leaf_pte s' root)"
  let ?I = "\<lambda>k (cur_pa, s'). cur_pa = nth_page pa k \<and> ?S k s' \<and> grows root (range_paths va k) s s'"
  let ?Q = "\<lambda>s'. \<exists>k < ?N. ?S k s' \<and> grows root (range_paths va ?N) s s' \<and>
    range_failure s' root (nth_page va k)"
  note bd = range_pages_bounds [OF al(1) sz(2)]
  have "(\<exists>x. for_loop kPageSize ?stop body va (pa, s) = Some (Inl x) \<and> ?I ?N x) \<or>
    (\<exists>x. for_loop kPageSize ?stop body va (pa, s) = Some (Inr x) \<and> ?Q x)"
  proof (rule for_loop_rule [where I = ?I], goal_cases)
    case (1 k)
    then show ?case using bd(3) [of k] by (simp add: nth_page_def)
  next
    case 2
    then show ?case using bd(1) by (simp add: nth_page_def)
  next
    case (3 k x)
    obtain cur s1 where x: "x = (cur, s1)" by (cases x)
    then have I: "cur = nth_page pa k" "pt_ok s1 root"
      "mapped_to va pa flags k (leaf_pte s root) (leaf_pte s1 root)" "grows root (range_paths va k) s s1"
      using 3 by simp_all
    obtain r s2 where m: "map_page root (nth_page va k) (nth_page pa k) flags s1 = Some (r, s2)" "pt_ok s2 root"
      "grows root (walk_paths (nth_page va k)) s1 s2"
      "if r then \<not> pte_valid (leaf_pte s1 root (nth_page va k)) \<and> leaf_pte s2 root =
          set_leaf (nth_page va k) (make_pte (nth_page pa k) (flags OR PteV)) (leaf_pte s1 root)
       else leaf_pte s2 root = leaf_pte s1 root \<and> (pte_valid (leaf_pte s1 root (nth_page va k)) \<or>
         (avail_pages (pmm_of s2) = {} \<and> \<not> walk_paths (nth_page va k) \<subseteq> tables s2 root))"
      using map_page_correct [OF I(2), of "nth_page va k" "nth_page pa k" flags]
      by (simp only: nth_page_aligned [OF al(1)] nth_page_aligned [OF al(2)] simp_thms) blast
    have g: "grows root (range_paths va (Suc k)) s s2"
      using grows_trans [OF I(4) m(3)] by (rule grows_mono) (auto simp: range_paths_def less_Suc_eq)
    have cur: "va + of_nat k * kPageSize = nth_page va k" by (simp add: nth_page_def)
    show ?case
    proof (cases r)
      case True
      then have "mapped_to va pa flags (Suc k) (leaf_pte s root) (leaf_pte s2 root)"
        using m(4) mapped_to_Suc [OF I(3) _ leaf_pte_cong] by simp
      then have "body (va + of_nat k * kPageSize) x = Some (Inl (nth_page pa (Suc k), s2)) \<and>
          ?I (Suc k) (nth_page pa (Suc k), s2)"
        using m g True I(1) unfolding cur by (simp add: body_def x flip: nth_page_Suc)
      then show ?thesis by blast
    next
      case False
      have "grows root (range_paths va ?N) s s2"
        using g by (rule grows_mono) (rule range_paths_mono, use 3(1) in simp)
      then have "body (va + of_nat k * kPageSize) x = Some (Inr s2) \<and> ?Q s2"
        using m False I(1,3) 3(1) unfolding cur by (auto simp: body_def x range_failure_def)
      then show ?thesis by blast
    qed
  next
    case 4
    then show ?case using ok by (simp add: range_paths_def)
  qed
  then show ?thesis
  proof (elim disjE exE conjE)
    fix x assume "for_loop kPageSize ?stop body va (pa, s) = Some (Inl x)" "?I ?N x"
    then show ?thesis using sz(1) al
      by (intro exI [of _ True] exI [of _ "snd x"] exI [of _ ?N])
        (auto simp: map_range_def body_def [symmetric])
  next
    fix x k assume "for_loop kPageSize ?stop body va (pa, s) = Some (Inr x)" "k < ?N"
      "pt_ok x root" "mapped_to va pa flags k (leaf_pte s root) (leaf_pte x root)"
      "grows root (range_paths va ?N) s x" "range_failure x root (nth_page va k)"
    then show ?thesis using sz(1) al
      by (intro exI [of _ False] exI [of _ x] exI [of _ k])
        (auto simp: map_range_def body_def [symmetric])
  qed
qed

lemma map_range_wraps:
  assumes "sz \<noteq> 0" "is_page_aligned va" "is_page_aligned pa" "align_up (va + sz) \<le> va"
  shows "map_range root va pa sz flags s = Some (True, s)"
  using assms by (simp add: map_range_def for_loop_done)

end
