(* ===== verification/Csr.thy ===== *)
theory Csr
  imports Prelude
begin

text \<open>
  \<^verbatim>\<open>platform/riscv.h\<close>: the control and status registers the kernel uses, with the effect of the
  \<^verbatim>\<open>csrr\<close>, \<^verbatim>\<open>csrw\<close>, \<^verbatim>\<open>csrs\<close> and \<^verbatim>\<open>csrc\<close> instructions on them, and the decoding of
  \<^verbatim>\<open>mcause\<close>. \<open>tlb_synced\<close> records whether an \<^verbatim>\<open>sfence.vma\<close> followed the last write of satp.
\<close>

record csrs =
  satp :: u64
  mtvec :: u64
  mepc :: u64
  mcause :: u64
  mtval :: u64
  mstatus :: u64
  mhartid :: u64
  mie :: u64
  tlb_synced :: bool

definition read_satp :: "csrs \<Rightarrow> u64" where "read_satp c = satp c"
definition write_satp :: "u64 \<Rightarrow> csrs \<Rightarrow> csrs" where "write_satp v c = c\<lparr>satp := v, tlb_synced := False\<rparr>"
definition sfence_vma :: "csrs \<Rightarrow> csrs" where "sfence_vma c = c\<lparr>tlb_synced := True\<rparr>"
definition read_mcause :: "csrs \<Rightarrow> u64" where "read_mcause c = mcause c"
definition read_mepc :: "csrs \<Rightarrow> u64" where "read_mepc c = mepc c"
definition read_mtval :: "csrs \<Rightarrow> u64" where "read_mtval c = mtval c"
definition read_mstatus :: "csrs \<Rightarrow> u64" where "read_mstatus c = mstatus c"
definition read_mhartid :: "csrs \<Rightarrow> u64" where "read_mhartid c = mhartid c"
definition write_mtvec :: "u64 \<Rightarrow> csrs \<Rightarrow> csrs" where "write_mtvec v c = c\<lparr>mtvec := v\<rparr>"
definition write_mepc :: "u64 \<Rightarrow> csrs \<Rightarrow> csrs" where "write_mepc v c = c\<lparr>mepc := v\<rparr>"

definition set_mstatus_bits :: "u64 \<Rightarrow> csrs \<Rightarrow> csrs" where
  "set_mstatus_bits bits c = c\<lparr>mstatus := mstatus c OR bits\<rparr>"

definition clear_mstatus_bits :: "u64 \<Rightarrow> csrs \<Rightarrow> csrs" where
  "clear_mstatus_bits bits c = c\<lparr>mstatus := mstatus c AND NOT bits\<rparr>"

definition set_mie_bits :: "u64 \<Rightarrow> csrs \<Rightarrow> csrs" where
  "set_mie_bits bits c = c\<lparr>mie := mie c OR bits\<rparr>"

definition clear_mie_bits :: "u64 \<Rightarrow> csrs \<Rightarrow> csrs" where
  "clear_mie_bits bits c = c\<lparr>mie := mie c AND NOT bits\<rparr>"

definition kMstatusMie :: u64 where "kMstatusMie = push_bit 3 1"
definition kMieMtie :: u64 where "kMieMtie = push_bit 7 1"
definition kMcauseInterruptBit :: u64 where "kMcauseInterruptBit = push_bit (8 * 8 - 1) 1"

definition mcause_is_interrupt :: "u64 \<Rightarrow> bool" where
  "mcause_is_interrupt c = (c AND kMcauseInterruptBit \<noteq> 0)"

definition mcause_code :: "u64 \<Rightarrow> u64" where
  "mcause_code c = c AND NOT kMcauseInterruptBit"

datatype ExceptionCode = InstructionAddressMisaligned | InstructionAccessFault | IllegalInstruction
  | Breakpoint | LoadAddressMisaligned | LoadAccessFault | StoreAmoAddressMisaligned
  | StoreAmoAccessFault | EcallFromUMode | EcallFromSMode | EcallFromMMode
  | InstructionPageFault | LoadPageFault | StoreAmoPageFault

fun exception_number :: "ExceptionCode \<Rightarrow> u64" where
  "exception_number InstructionAddressMisaligned = 0"
| "exception_number InstructionAccessFault = 1"
| "exception_number IllegalInstruction = 2"
| "exception_number Breakpoint = 3"
| "exception_number LoadAddressMisaligned = 4"
| "exception_number LoadAccessFault = 5"
| "exception_number StoreAmoAddressMisaligned = 6"
| "exception_number StoreAmoAccessFault = 7"
| "exception_number EcallFromUMode = 8"
| "exception_number EcallFromSMode = 9"
| "exception_number EcallFromMMode = 11"
| "exception_number InstructionPageFault = 12"
| "exception_number LoadPageFault = 13"
| "exception_number StoreAmoPageFault = 15"

datatype InterruptCode = MachineSoftware | MachineTimer | MachineExternal

fun interrupt_number :: "InterruptCode \<Rightarrow> u64" where
  "interrupt_number MachineSoftware = 3"
| "interrupt_number MachineTimer = 7"
| "interrupt_number MachineExternal = 11"

lemma mcause_is_interrupt_bit: "mcause_is_interrupt c \<longleftrightarrow> bit c 63"
  by (simp add: mcause_is_interrupt_def kMcauseInterruptBit_def bit_iff_and_push_bit_not_eq_0
      del: push_bit_of_1)

lemma bit_kMcauseInterruptBit: "bit kMcauseInterruptBit n \<longleftrightarrow> n = 63"
  unfolding kMcauseInterruptBit_def bit_push_bit_iff bit_1_iff by auto

lemma bit_mcause_code: "bit (mcause_code c) n \<longleftrightarrow> bit c n \<and> n \<noteq> 63"
  using bit_imp_le_length [of c n]
  by (auto simp: mcause_code_def bit_and_iff bit_not_iff bit_kMcauseInterruptBit)

text \<open>The registers of a concrete hart after reset, for evaluations.\<close>

definition demo_csrs :: csrs where
  "demo_csrs = \<lparr>satp = 0, mtvec = 0, mepc = 0, mcause = 0, mtval = 0, mstatus = 0, mhartid = 0, mie = 0, tlb_synced = True\<rparr>"

end
