(* ===== verification/Address_Space.thy ===== *)
theory Address_Space
  imports PageTable Csr
begin

text \<open>
  The contract of a page table as its clients see it (locale \<open>address_space\<close>), proved for the
  model of \<^verbatim>\<open>page_table.cpp\<close>, and its client: \<^verbatim>\<open>kernel/mm/kernel_address_space.cpp\<close> with
  \<^verbatim>\<open>kernel/arch/riscv/mm/mmu.cpp\<close>, which build the identity mapping of the boot kernel and write
  satp.
\<close>

section \<open>The kernel's address space\<close>

record kspace =
  kmem_of :: kmem
  g_kernel_page_table :: addr

definition map_device_region :: "addr \<Rightarrow> addr \<Rightarrow> u64 \<Rightarrow> kmem \<Rightarrow> (bool \<times> kmem) option" where
  "map_device_region root base sz s =
     map_range root (align_down base) (align_down base) (align_up sz)
       (PteR OR PteW OR PteA OR PteD) s"

definition kernel_address_space_init :: "kspace \<Rightarrow> kspace option" where
  "kernel_address_space_init S = do {
     (root, s) \<leftarrow> alloc_page_table (kmem_of S);
     let S = S\<lparr>kmem_of := s, g_kernel_page_table := root\<rparr>;
     (if g_kernel_page_table S = nullptr then Some S
      else do {
        (_, s) \<leftarrow> map_range (g_kernel_page_table S) (region_base kDram) (region_base kDram)
          (region_size kDram) (PteR OR PteW OR PteX OR PteA OR PteD) (kmem_of S);
        (_, s) \<leftarrow> map_device_region (g_kernel_page_table S) (region_base kUart0) (region_size kUart0) s;
        (_, s) \<leftarrow> map_device_region (g_kernel_page_table S) (region_base kClint) (region_size kClint) s;
        Some (S\<lparr>kmem_of := s\<rparr>)
      })
   }"

definition kernel_page_table :: "kspace \<Rightarrow> addr" where
  "kernel_page_table S = g_kernel_page_table S"

text \<open>The wrapper of the same name in \<^verbatim>\<open>mmu.cpp\<close>.\<close>

definition mmu_sfence_vma :: "csrs \<Rightarrow> csrs" where
  "mmu_sfence_vma c = sfence_vma c"

definition enable_sv39 :: "addr \<Rightarrow> csrs \<Rightarrow> csrs" where
  "enable_sv39 root c = sfence_vma (write_satp (make_satp root) c)"

section \<open>The contract of a page table\<close>

text \<open>The permission bits that make an entry a leaf, and flags that fit below the page number.\<close>

definition leaf_flags :: "u64 \<Rightarrow> bool" where
  "leaf_flags flags \<longleftrightarrow> pte_leaf flags \<and> flags < 1024"

locale address_space =
  fixes map_pg :: "addr \<Rightarrow> addr \<Rightarrow> u64 \<Rightarrow> 's \<Rightarrow> (bool \<times> 's) option"
    and unmap_pg :: "addr \<Rightarrow> 's \<Rightarrow> (bool \<times> 's) option"
    and translate :: "addr \<Rightarrow> 's \<Rightarrow> addr option"
    and view :: "'s \<Rightarrow> addr \<Rightarrow> Pte"
    and inv :: "'s \<Rightarrow> bool"
  assumes map_law: "inv s \<Longrightarrow> \<exists>r s'. map_pg va pa flags s = Some (r, s') \<and> inv s' \<and>
      (if r then is_page_aligned va \<and> is_page_aligned pa \<and> \<not> pte_valid (view s va) \<and>
         view s' = set_leaf va (make_pte pa (flags OR PteV)) (view s)
       else view s' = view s)"
    and unmap_law: "inv s \<Longrightarrow> \<exists>r s'. unmap_pg va s = Some (r, s') \<and> inv s' \<and>
      (if r then is_page_aligned va \<and> pte_valid (view s va) \<and> pte_leaf (view s va) \<and>
         view s' = set_leaf va 0 (view s)
       else view s' = view s \<and> (is_page_aligned va \<longrightarrow> \<not> (pte_valid (view s va) \<and> pte_leaf (view s va))))"
    and translate_law: "inv s \<Longrightarrow> translate va s = Some (let pte = view s va in
      if pte_valid pte \<and> pte_leaf pte then pte_to_pa pte + page_offset va else 0)"
begin

lemma translate_cong: "inv s \<Longrightarrow> inv s' \<Longrightarrow> view s' va = view s va \<Longrightarrow> translate va s' = translate va s"
  by (simp add: translate_law)

lemma map_translate:
  assumes "inv s" "map_pg va pa flags s = Some (True, s')" "leaf_flags flags"
  shows "inv s' \<and> translate va' s' =
    (if vpns va' = vpns va then Some (pa + page_offset va') else translate va' s)"
proof -
  have s': "inv s'" "view s' = set_leaf va (make_pte pa (flags OR PteV)) (view s)" "is_page_aligned pa"
    using map_law [OF assms(1), of va pa flags] assms(2) by auto
  have "flags OR PteV < 1024" using assms(3) flags_or_V_small by (simp add: leaf_flags_def)
  then show ?thesis
    using s' assms(1,3) translate_cong [OF assms(1) s'(1), of va']
    by (auto simp: translate_law set_leaf_def leaf_flags_def pte_to_pa_make align_down_of_aligned bit_or_iff)
qed

lemma map_fail_translate:
  "inv s \<Longrightarrow> map_pg va pa flags s = Some (False, s') \<Longrightarrow> inv s' \<and> translate va' s' = translate va' s"
  using map_law [of s va pa flags] translate_cong [of s s' va'] by auto

lemma unmap_translate:
  assumes "inv s" "unmap_pg va s = Some (True, s')"
  shows "inv s' \<and> translate va' s' = (if vpns va' = vpns va then Some 0 else translate va' s)"
  using unmap_law [OF assms(1), of va] assms translate_cong [of s s' va']
  by (auto simp: translate_law set_leaf_def)

lemma unmap_fail_translate:
  "inv s \<Longrightarrow> unmap_pg va s = Some (False, s') \<Longrightarrow> inv s' \<and> translate va' s' = translate va' s"
  using unmap_law [of s va] translate_cong [of s s' va'] by auto

lemma map_unmap_restores:
  assumes "inv s" "map_pg va pa flags s = Some (True, s1)" "leaf_flags flags"
  shows "\<exists>s2. unmap_pg va s1 = Some (True, s2) \<and> inv s2 \<and>
    (\<forall>va'. translate va' s2 = (if vpns va' = vpns va then Some 0 else translate va' s))"
proof -
  have s1: "inv s1" "view s1 = set_leaf va (make_pte pa (flags OR PteV)) (view s)" "is_page_aligned va"
    using map_law [OF assms(1), of va pa flags] assms(2) by auto
  then have "view s1 va = make_pte pa (flags OR PteV)" by (simp add: set_leaf_def)
  then have leaf: "pte_valid (view s1 va)" "pte_leaf (view s1 va)"
    using assms(3) by (simp_all add: leaf_flags_def bit_or_iff)
  obtain r s2 where u: "unmap_pg va s1 = Some (r, s2)"
    "\<not> r \<Longrightarrow> is_page_aligned va \<longrightarrow> \<not> (pte_valid (view s1 va) \<and> pte_leaf (view s1 va))"
    using unmap_law [OF s1(1), of va] by (auto split: if_splits)
  then have r: "r" using leaf s1(3) by blast
  then have "inv s2 \<and> translate va' s2 = (if vpns va' = vpns va then Some 0 else translate va' s)" for va'
    using unmap_translate [OF s1(1), of va s2 va'] map_translate [OF assms, of va'] u(1) by simp
  then show ?thesis using u(1) r by auto
qed

text \<open>Flags without any permission bit: the entry is valid but no leaf.\<close>

lemma map_without_permission:
  assumes "inv s" "map_pg va pa flags s = Some (True, s')" "\<not> pte_leaf flags"
  shows "translate va s' = Some 0" "\<exists>s2. unmap_pg va s' = Some (False, s2)"
    "\<exists>s2. map_pg va pa2 flags2 s' = Some (False, s2)"
proof -
  have s': "inv s'" "view s' = set_leaf va (make_pte pa (flags OR PteV)) (view s)" "is_page_aligned va"
    using map_law [OF assms(1), of va pa flags] assms(2) by auto
  then have v: "view s' va = make_pte pa (flags OR PteV)" by (simp add: set_leaf_def)
  then have vl: "pte_valid (view s' va)" "\<not> pte_leaf (view s' va)"
    using assms(3) by (simp_all add: bit_or_iff)
  show "translate va s' = Some 0" using vl by (simp add: translate_law [OF s'(1)])
  show "\<exists>s2. unmap_pg va s' = Some (False, s2)"
    using unmap_law [OF s'(1), of va] vl by (auto split: if_splits)
  show "\<exists>s2. map_pg va pa2 flags2 s' = Some (False, s2)"
    using map_law [OF s'(1), of va pa2 flags2] vl by (auto split: if_splits)
qed

end

interpretation pt: address_space "map_page root" "unmap_page root" "virt_to_phys root"
    "\<lambda>s. leaf_pte s root" "\<lambda>s. pt_ok s root"
  for root
proof unfold_locales
  fix s va pa flags
  assume "pt_ok s root"
  from map_page_correct [OF this, of va pa flags] obtain r s' where
    m: "map_page root va pa flags s = Some (r, s')" "pt_ok s' root"
    "if r then is_page_aligned va \<and> is_page_aligned pa \<and> \<not> pte_valid (leaf_pte s root va) \<and>
        leaf_pte s' root = set_leaf va (make_pte pa (flags OR PteV)) (leaf_pte s root)
     else leaf_pte s' root = leaf_pte s root \<and>
       (\<not> is_page_aligned va \<or> \<not> is_page_aligned pa \<or> pte_valid (leaf_pte s root va) \<or>
        (avail_pages (pmm_of s') = {} \<and> \<not> walk_paths va \<subseteq> tables s' root))"
    by blast
  then show "\<exists>r s'. map_page root va pa flags s = Some (r, s') \<and> pt_ok s' root \<and>
      (if r then is_page_aligned va \<and> is_page_aligned pa \<and> \<not> pte_valid (leaf_pte s root va) \<and>
         leaf_pte s' root = set_leaf va (make_pte pa (flags OR PteV)) (leaf_pte s root)
       else leaf_pte s' root = leaf_pte s root)"
    by (cases r) auto
next
  fix s va
  assume "pt_ok s root"
  from unmap_page_correct [OF this, of va] obtain r s' where
    m: "unmap_page root va s = Some (r, s')" "pt_ok s' root"
    "if r then is_page_aligned va \<and> pte_valid (leaf_pte s root va) \<and> pte_leaf (leaf_pte s root va) \<and>
        leaf_pte s' root = set_leaf va 0 (leaf_pte s root)
     else s' = s \<and> (\<not> is_page_aligned va \<or> \<not> (pte_valid (leaf_pte s root va) \<and> pte_leaf (leaf_pte s root va)))"
    by blast
  then show "\<exists>r s'. unmap_page root va s = Some (r, s') \<and> pt_ok s' root \<and>
      (if r then is_page_aligned va \<and> pte_valid (leaf_pte s root va) \<and> pte_leaf (leaf_pte s root va) \<and>
         leaf_pte s' root = set_leaf va 0 (leaf_pte s root)
       else leaf_pte s' root = leaf_pte s root \<and>
         (is_page_aligned va \<longrightarrow> \<not> (pte_valid (leaf_pte s root va) \<and> pte_leaf (leaf_pte s root va))))"
    by (cases r) auto
next
  fix s va
  assume "pt_ok s root"
  then show "virt_to_phys root va s = Some (let pte = leaf_pte s root va in
      if pte_valid pte \<and> pte_leaf pte then pte_to_pa pte + page_offset va else 0)"
    by (rule virt_to_phys_correct)
qed

section \<open>A fresh root table\<close>

lemma new_root:
  assumes ok: "kmem_ok s" and some: "avail_pages (pmm_of s) \<noteq> {}"
  shows "\<exists>root s'. alloc_page_table s = Some (root, s') \<and> root \<noteq> nullptr \<and> pt_ok s' root \<and>
    leaf_pte s' root = (\<lambda>_. 0) \<and> tables s' root = {[]} \<and>
    avail_pages (pmm_of s') = avail_pages (pmm_of s) - {root} \<and> root \<in> avail_pages (pmm_of s) \<and>
    frame_pages (pmm_of s') = frame_pages (pmm_of s) \<and> (\<forall>a. a \<notin> page_words root \<longrightarrow> mem s' a = mem s a)"
proof -
  obtain t p' where t: "alloc_page_table s = Some (t, zeroed t (s\<lparr>pmm_of := p'\<rparr>))" "t \<noteq> nullptr"
    "t \<in> avail_pages (pmm_of s)" "pmm_inv p'" "avail_pages p' = avail_pages (pmm_of s) - {t}"
    "frame_pages p' = frame_pages (pmm_of s)"
    using alloc_page_table_correct [OF ok] some by auto
  define s' where "s' = zeroed t (s\<lparr>pmm_of := p'\<rparr>)"
  have k: "kmem_ok s'" unfolding s'_def by (rule kmem_ok_zeroed [OF ok t(4,6)])
  have f: "t \<in> frame_pages (pmm_of s')"
    using t(3,6) pmm.frames_law [of "pmm_of s"] ok by (auto simp: s'_def kmem_ok_def)
  have none: "next_table s' t i = None" if "unat i < 512" for i
    using that by (simp add: next_table_def s'_def)
  have tab: "tab s' t p = (if p = [] then Some t else None)" if "path p" for p
    using that none by (cases p) (auto simp: path_def)
  have "pt_ok s' t"
  proof (rule pt_okI [OF k])
    fix p u assume "path p" "tab s' t p = Some u"
    then show "u \<in> frame_pages (pmm_of s') \<and> u \<notin> avail_pages (pmm_of s')"
      using tab [of p] f t(5) by (simp add: s'_def split: if_splits)
  next
    fix p q u assume "path p" "path q" "tab s' t p = Some u" "tab s' t q = Some u"
    then show "p = q" using tab [of p] tab [of q] by (simp split: if_splits)
  next
    fix p u i v assume "path (p @ [i])" "tab s' t p = Some u" "mem s' (entry_addr u i) = Some v" "pte_valid v"
    then show "pte_pointer v" using tab [of p] by (simp add: s'_def split: if_splits)
  qed
  moreover have "leaf_pte s' t = (\<lambda>_. 0)"
    using tab [OF dir_path(1)] by (auto simp: leaf_pte_def dir_path_def)
  moreover have "tables s' t = {[]}" using tab by (auto simp: tables_def split: if_splits)
  ultimately show ?thesis using t by (auto simp: s'_def)
qed

section \<open>When a range can be mapped completely\<close>

lemma vpns_inj_39:
  assumes "unat va < 2 ^ 39" "unat va' < 2 ^ 39" "vpns va = vpns va'"
  shows "unat va div 4096 = unat va' div 4096"
proof -
  have "unat (take_bit 27 (drop_bit 12 a)) = unat a div 4096" if "unat a < 2 ^ 39" for a :: u64
  proof -
    have "unat a div 4096 < 2 ^ 27" using that by (simp add: less_mult_imp_div_less)
    then show ?thesis using drop_12_nat [of a] by (simp add: unsigned_take_bit_eq take_bit_nat_eq_self)
  qed
  then show ?thesis using assms unfolding vpns_eq_iff by metis
qed

lemma range_vpns_inj:
  assumes "is_page_aligned va" "va < align_up (va + sz)" "unat (align_up (va + sz)) \<le> 2 ^ 39"
    and "i < range_pages va sz" "j < range_pages va sz" "vpns (nth_page va i) = vpns (nth_page va j)"
  shows "i = j"
proof -
  have n: "unat (nth_page va k) = unat va + 4096 * k" "unat (nth_page va k) < 2 ^ 39"
    if "k < range_pages va sz" for k
    using range_pages_bounds(2,3) [OF assms(1,2), of k] that assms(3) by (simp_all add: word_less_nat_alt)
  have "(unat va + 4096 * i) div 4096 = (unat va + 4096 * j) div 4096"
    using vpns_inj_39 [OF n(2) [OF assms(4)] n(2) [OF assms(5)] assms(6)] n(1) assms(4,5) by simp
  then show "i = j" by simp
qed

lemma map_range_complete:
  assumes ok: "pt_ok s root" and al: "is_page_aligned va" "is_page_aligned pa"
    and sz: "sz \<noteq> 0" "va < align_up (va + sz)" "unat (align_up (va + sz)) \<le> 2 ^ 39"
    and free: "\<And>i. i < range_pages va sz \<Longrightarrow> \<not> pte_valid (leaf_pte s root (nth_page va i))"
    and enough: "card (range_paths va (range_pages va sz) - tables s root) \<le> card (avail_pages (pmm_of s))"
  shows "\<exists>s'. map_range root va pa sz flags s = Some (True, s') \<and> pt_ok s' root \<and>
    mapped_to va pa flags (range_pages va sz) (leaf_pte s root) (leaf_pte s' root) \<and>
    grows root (range_paths va (range_pages va sz)) s s'"
proof -
  let ?N = "range_pages va sz" and ?P = "range_paths va (range_pages va sz)"
  obtain r s' k where m: "map_range root va pa sz flags s = Some (r, s')" "pt_ok s' root" "k \<le> ?N"
    "r = (k = ?N)" "mapped_to va pa flags k (leaf_pte s root) (leaf_pte s' root)" "grows root ?P s s'"
    "\<not> r \<Longrightarrow> range_failure s' root (nth_page va k)"
    using map_range_correct [OF ok al sz(1,2), of flags] by blast
  have "r"
  proof (rule ccontr)
    assume nr: "\<not> r"
    then have k: "k < ?N" using m(3,4) by simp
    have "vpns (nth_page va k) \<noteq> vpns (nth_page va i)" if "i < k" for i
      using range_vpns_inj [OF al(1) sz(2,3) k, of i] that k by auto
    then have "\<not> pte_valid (leaf_pte s' root (nth_page va k))"
      using m(5) free [OF k] by (simp add: mapped_to_def)
    then have e: "avail_pages (pmm_of s') = {}" and nsub: "\<not> walk_paths (nth_page va k) \<subseteq> tables s' root"
      using m(7) [OF nr] by (simp_all add: range_failure_def)
    have fin: "finite ?P" by (simp add: range_paths_def walk_paths_def)
    have "walk_paths (nth_page va k) \<subseteq> ?P" using k by (auto simp: range_paths_def)
    then have "tables s' root \<subset> tables s root \<union> ?P" using m(6) nsub by (auto simp: grows_def)
    then have "card (tables s' root) < card (tables s root \<union> ?P)"
      by (rule psubset_card_mono [rotated]) (simp add: fin)
    also have "\<dots> = card (tables s root) + card (?P - tables s root)"
      using card_Un_disjoint [of "tables s root" "?P - tables s root"] fin by simp
    also have "\<dots> \<le> card (tables s root) + card (avail_pages (pmm_of s))" using enough by simp
    also have "\<dots> = card (tables s' root)" using m(6) e by (simp add: grows_def)
    finally show False by simp
  qed
  then show ?thesis using m by auto
qed

section \<open>The boot mapping\<close>

lemma vpn_index_nat: "unat (vpn_index va l) = unat va div 2 ^ (12 + 9 * l) mod 512"
proof -
  have "vpn_index va l = take_bit 9 (drop_bit (12 + 9 * l) va)"
    by (simp add: vpn_index_def kVpnMask_mask take_bit_eq_mask)
  then show ?thesis
    by (simp only: unsigned_take_bit_eq unat_drop_bit_eq) (simp add: take_bit_eq_mod drop_bit_eq_div)
qed

lemma vpn_index_eqI: "unat va div 2 ^ (12 + 9 * l) mod 512 = unat w \<Longrightarrow> vpn_index va l = w"
  by (intro unsigned_word_eqI [where 'a = nat]) (simp add: vpn_index_nat)

text \<open>All pages of a region inside one 1 GiB block share the root entry.\<close>

lemma walk_paths_region:
  assumes "unat va div 2 ^ 30 mod 512 = unat i2"
  shows "walk_paths va = {[i2], [i2, vpn_index va 1]}"
  using vpn_index_eqI [of va 2 i2] assms by (simp add: walk_paths_def dir_path_def)

lemma dram_paths:
  "range_paths 0x80000000 32768 \<subseteq> insert [2] ((\<lambda>j. [2, of_nat j]) ` {..<64})"
proof
  fix p assume "p \<in> range_paths 0x80000000 32768"
  then obtain i where i: "i < 32768" "p \<in> walk_paths (nth_page 0x80000000 i)"
    by (auto simp: range_paths_def)
  let ?va = "nth_page 0x80000000 i"
  have n: "unat ?va = 0x80000000 + 4096 * i" using i(1) by (simp add: nth_page_nat)
  have "unat ?va div 2 ^ 30 = 2" using i(1) unfolding n by (intro div_nat_eqI) simp_all
  then have w: "walk_paths ?va = {[2], [2, vpn_index ?va 1]}"
    using walk_paths_region [of ?va 2] by simp
  have "unat ?va div 2 ^ 21 = 1024 + i div 512"
    using div_mult_self4 [of 2097152 1024 "4096 * i"] div_mult_mult1 [of 4096 i 512] unfolding n by simp
  moreover have "i div 512 < 64" using i(1) by (simp add: less_mult_imp_div_less)
  ultimately have "vpn_index ?va 1 = of_nat (i div 512)"
    by (intro vpn_index_eqI) (simp add: unat_of_nat64 mod_add_left_eq [of 1024 512, symmetric])
  with i(2) w \<open>i div 512 < 64\<close> show "p \<in> insert [2] ((\<lambda>j. [2, of_nat j]) ` {..<64})" by auto
qed

lemma card_dram_paths: "card (range_paths 0x80000000 32768) \<le> 65"
proof -
  have "card (range_paths 0x80000000 32768) \<le> card (insert [2] ((\<lambda>j. [2, of_nat j :: u64]) ` {..<64}))"
    by (rule card_mono [OF _ dram_paths]) simp
  also have "\<dots> \<le> Suc (card ((\<lambda>j. [2, of_nat j :: u64]) ` {..<64}))" by (rule card_insert_le_m1) simp_all
  also have "\<dots> \<le> Suc (card {..<64 :: nat})" using card_image_le [of "{..<64 :: nat}" "\<lambda>j. [2, of_nat j :: u64]"] by simp
  finally show ?thesis by simp
qed

text \<open>A region inside one 2 MiB block needs at most two tables.\<close>

lemma card_block_paths:
  assumes "\<And>i. i < k \<Longrightarrow> unat (nth_page va i) div 2 ^ 21 = d" and "d < 512"
  shows "card (range_paths va k) \<le> 2"
proof -
  have "walk_paths (nth_page va i) = {[0], [0, of_nat d]}" if "i < k" for i
  proof -
    have "unat (nth_page va i) div 2 ^ 21 div 2 ^ 9 = d div 2 ^ 9" by (simp only: assms(1) [OF that])
    then have "unat (nth_page va i) div 2 ^ 30 = 0" using assms(2) by (simp add: div_mult2_eq [symmetric])
    moreover have "vpn_index (nth_page va i) 1 = of_nat d"
      using assms(1) [OF that] assms(2) by (intro vpn_index_eqI) (simp add: unat_of_nat64)
    ultimately show ?thesis using walk_paths_region [of "nth_page va i" 0] by simp
  qed
  then have "range_paths va k \<subseteq> {[0], [0, of_nat d]}" by (auto simp: range_paths_def)
  then have "card (range_paths va k) \<le> card {[0], [0, of_nat d :: u64]}" by (rule card_mono [rotated]) simp
  then show ?thesis by simp
qed

text \<open>What an identity mapping of a range does to the entries of the low 512 GiB.\<close>

lemma page_number_of:
  assumes "is_page_aligned b" "unat b + 4096 * n < 2 ^ 64" "unat b \<le> unat va" "unat va < unat b + 4096 * n"
  shows "\<exists>i < n. vpns va = vpns (nth_page b i) \<and> nth_page b i = align_down va"
proof -
  obtain k where b: "unat b = 4096 * k"
    using assms(1) by (auto simp: is_page_aligned_nat mod_eq_0_iff_dvd elim!: dvdE)
  define i where "i = unat va div 4096 - k"
  have "k \<le> unat va div 4096" "unat va div 4096 < k + n"
    using assms(3,4) unfolding b by (simp_all add: less_eq_div_iff_mult_less_eq less_mult_imp_div_less mult.commute algebra_simps)
  then have i: "i < n" "unat b + 4096 * i = unat va div 4096 * 4096" unfolding i_def b by simp_all
  have "unat (nth_page b i) = unat b + 4096 * i" using i(1) assms(2) by (intro nth_page_nat) simp
  then have eq: "nth_page b i = align_down va"
    using i(2) by (intro unsigned_word_eqI [where 'a = nat]) (simp add: align_down_nat)
  have "drop_bit 12 (align_down va) = drop_bit 12 va"
    by (intro unsigned_word_eqI [where 'a = nat]) (simp add: drop_12_nat align_down_nat)
  then have "vpns va = vpns (align_down va)" by (simp add: vpns_eq_iff)
  then show ?thesis using i(1) eq by metis
qed

lemma mapped_identity:
  assumes m: "mapped_to b b flags n f f'" and al: "is_page_aligned b" and hi: "unat b + 4096 * n \<le> 2 ^ 39"
    and va: "unat va < 2 ^ 39" and cong: "\<And>a c. vpns a = vpns c \<Longrightarrow> f' a = f' c"
  shows "f' va = (if unat b \<le> unat va \<and> unat va < unat b + 4096 * n
    then make_pte (align_down va) (flags OR PteV) else f va)"
proof (cases "unat b \<le> unat va \<and> unat va < unat b + 4096 * n")
  case True
  then obtain i where i: "i < n" "vpns va = vpns (nth_page b i)" "nth_page b i = align_down va"
    using page_number_of [OF al, of n va] hi by auto
  have "f' (nth_page b i) = make_pte (nth_page b i) (flags OR PteV)"
    using m i(1) by (simp add: mapped_to_def)
  then have "f' va = make_pte (align_down va) (flags OR PteV)"
    using cong [OF i(2)] by (simp only: i(3))
  then show ?thesis using True by simp
next
  case False
  have "vpns va \<noteq> vpns (nth_page b i)" if "i < n" for i
  proof
    assume "vpns va = vpns (nth_page b i)"
    moreover have n: "unat (nth_page b i) = unat b + 4096 * i" using that hi by (intro nth_page_nat) simp
    ultimately have "unat va div 4096 = (unat b + 4096 * i) div 4096"
      using vpns_inj_39 [OF va, of "nth_page b i"] that hi by simp
    moreover obtain k where "unat b = 4096 * k"
      using al by (auto simp: is_page_aligned_nat mod_eq_0_iff_dvd elim!: dvdE)
    ultimately have k: "unat va div 4096 = k + i" "unat b = 4096 * k" by simp_all
    then have "unat va = 4096 * (k + i) + unat va mod 4096"
      using div_mult_mod_eq [of "unat va" 4096] by simp
    moreover have "unat va mod 4096 < 4096" by simp
    ultimately have "4096 * (k + i) \<le> unat va" "unat va < 4096 * (k + i) + 4096" by linarith+
    then show False using False that k(2) by simp
  qed
  then have "f' va = f va" using m by (simp add: mapped_to_def)
  then show ?thesis using False by (simp only: if_False)
qed

lemma align_down_offset: "align_down va + page_offset va = va"
  by (intro unsigned_word_eqI [where 'a = nat])
    (simp add: unat_word_ariths align_down_nat page_offset_nat)

definition in_range :: "addr \<Rightarrow> nat \<Rightarrow> addr \<Rightarrow> bool" where
  "in_range b n va \<longleftrightarrow> unat b \<le> unat va \<and> unat va < unat b + 4096 * n"

definition boot_mapped :: "addr \<Rightarrow> bool" where
  "boot_mapped va \<longleftrightarrow> in_range 0x80000000 32768 va \<or> in_range 0x10000000 1 va \<or> in_range 0x02000000 16 va"

definition kDramFlags :: u64 where
  "kDramFlags = PteR OR PteW OR PteX OR PteA OR PteD"

definition kDeviceFlags :: u64 where
  "kDeviceFlags = PteR OR PteW OR PteA OR PteD"

lemma boot_flags: "leaf_flags kDramFlags" "leaf_flags kDeviceFlags"
  by (simp_all add: leaf_flags_def kDramFlags_def kDeviceFlags_def pte_leaf_def PteR_def PteW_def
      PteX_def PteA_def PteD_def)

lemma identity_leaf:
  assumes "leaf_flags flags"
  shows "pte_valid (make_pte (align_down va) (flags OR PteV))" "pte_leaf (make_pte (align_down va) (flags OR PteV))"
    "pte_to_pa (make_pte (align_down va) (flags OR PteV)) + page_offset va = va"
proof -
  have "flags OR PteV < 1024" using assms flags_or_V_small by (simp add: leaf_flags_def)
  then show "pte_to_pa (make_pte (align_down va) (flags OR PteV)) + page_offset va = va"
    by (simp add: pte_to_pa_make align_down_of_aligned align_down_is_aligned align_down_offset)
qed (use assms in \<open>simp_all add: leaf_flags_def bit_or_iff\<close>)

lemma boot_regions:
  "is_page_aligned 0x80000000" "is_page_aligned 0x10000000" "is_page_aligned 0x02000000"
  "align_up (0x80000000 + 0x8000000) = 0x88000000" "align_up (0x10000000 + 0x1000) = 0x10001000"
  "align_up (0x02000000 + 0x10000) = 0x02010000" "align_up 0x100 = 0x1000" "align_up 0x10000 = 0x10000"
  "range_pages 0x80000000 0x8000000 = 32768" "range_pages 0x10000000 0x1000 = 1"
  "range_pages 0x02000000 0x10000 = 16"
proof -
  show "is_page_aligned 0x80000000" "is_page_aligned 0x10000000" "is_page_aligned 0x02000000"
    by (simp_all add: is_page_aligned_nat)
  have "align_up 0x88000000 = 0x88000000" "align_up 0x10001000 = 0x10001000"
    "align_up 0x02010000 = 0x02010000" "align_up 0x10000 = 0x10000"
    by (rule align_up_of_aligned, simp add: is_page_aligned_nat)+
  then show e: "align_up (0x80000000 + 0x8000000) = 0x88000000" "align_up (0x10000000 + 0x1000) = 0x10001000"
    "align_up (0x02000000 + 0x10000) = 0x02010000" "align_up 0x10000 = 0x10000" by simp_all
  show "align_up 0x100 = 0x1000"
    by (intro unsigned_word_eqI [where 'a = nat]) (simp add: align_up_nat)
  show "range_pages 0x80000000 0x8000000 = 32768" "range_pages 0x10000000 0x1000 = 1"
    "range_pages 0x02000000 0x10000 = 16"
    unfolding range_pages_def e by simp_all
qed

text \<open>One identity mapping of the boot: it succeeds when its tables fit in the pool.\<close>

lemma map_identity:
  assumes ok: "pt_ok s root" and al: "is_page_aligned b" and sz: "sz \<noteq> 0" "b < align_up (b + sz)"
    and hi: "unat (align_up (b + sz)) \<le> 2 ^ 39"
    and free: "\<And>va. unat va < 2 ^ 39 \<Longrightarrow> in_range b (range_pages b sz) va \<Longrightarrow> leaf_pte s root va = 0"
    and few: "card (range_paths b (range_pages b sz)) \<le> k" "k + j \<le> card (avail_pages (pmm_of s))"
  shows "\<exists>s'. map_range root b b sz flags s = Some (True, s') \<and> pt_ok s' root \<and>
    j \<le> card (avail_pages (pmm_of s')) \<and> frame_pages (pmm_of s') = frame_pages (pmm_of s) \<and>
    keeps root s s' \<and>
    (\<forall>va. unat va < 2 ^ 39 \<longrightarrow> leaf_pte s' root va = (if in_range b (range_pages b sz) va
       then make_pte (align_down va) (flags OR PteV) else leaf_pte s root va))"
proof -
  let ?N = "range_pages b sz"
  have fin: "finite (range_paths b ?N)" by (simp add: range_paths_def walk_paths_def)
  note bd = range_pages_bounds [OF al sz(2)]
  have e: "unat (align_up (b + sz)) = unat b + 4096 * ?N" using bd(1) bd(2) [of ?N] by simp
  have nv: "\<not> pte_valid (leaf_pte s root (nth_page b i))" if "i < ?N" for i
    using free [of "nth_page b i"] that bd(2) [of i] e hi by (simp add: in_range_def)
  have le: "card (range_paths b ?N - tables s root) \<le> card (range_paths b ?N)"
    by (rule card_mono [OF fin]) blast
  then have "card (range_paths b ?N - tables s root) \<le> card (avail_pages (pmm_of s))" using few by linarith
  from map_range_complete [OF ok al al sz hi nv this] obtain s' where
    s': "map_range root b b sz flags s = Some (True, s')" "pt_ok s' root"
    "mapped_to b b flags ?N (leaf_pte s root) (leaf_pte s' root)" "grows root (range_paths b ?N) s s'"
    by blast
  have "card (tables s' root) \<le> card (tables s root \<union> range_paths b ?N)"
    using s'(4) fin by (intro card_mono) (auto simp: grows_def)
  also have "\<dots> \<le> card (tables s root) + card (range_paths b ?N)" by (rule card_Un_le)
  finally have "j \<le> card (avail_pages (pmm_of s'))" using s'(4) few by (simp add: grows_def)
  moreover have "leaf_pte s' root va = (if in_range b ?N va then make_pte (align_down va) (flags OR PteV)
      else leaf_pte s root va)" if "unat va < 2 ^ 39" for va
    unfolding in_range_def
    by (rule mapped_identity [OF s'(3) al _ that leaf_pte_cong]) (use e hi in simp)
  moreover have "frame_pages (pmm_of s') = frame_pages (pmm_of s)" "keeps root s s'"
    using s'(4) by (simp_all add: grows_def)
  ultimately show ?thesis using s'(1,2) by blast
qed

lemma in_range_disjoint:
  "in_range 0x10000000 1 va \<Longrightarrow> \<not> in_range 0x80000000 32768 va"
  "in_range 0x02000000 16 va \<Longrightarrow> \<not> in_range 0x80000000 32768 va"
  "in_range 0x02000000 16 va \<Longrightarrow> \<not> in_range 0x10000000 1 va"
  by (auto simp: in_range_def)

lemma regions: "region_base kDram = 0x80000000" "region_size kDram = 0x8000000"
  "region_base kUart0 = 0x10000000" "region_size kUart0 = 0x100"
  "region_base kClint = 0x02000000" "region_size kClint = 0x10000"
  by (simp_all add: kDram_def kUart0_def kClint_def)

lemma device_region:
  "map_device_region root 0x10000000 0x100 s =
     map_range root 0x10000000 0x10000000 0x1000 kDeviceFlags s"
  "map_device_region root 0x02000000 0x10000 s =
     map_range root 0x02000000 0x02000000 0x10000 kDeviceFlags s"
  by (simp_all add: map_device_region_def regions boot_regions align_down_of_aligned kDeviceFlags_def)

lemma uart_clint_paths: "card (range_paths 0x10000000 1) \<le> 2" "card (range_paths 0x02000000 16) \<le> 2"
proof -
  show "card (range_paths 0x10000000 1) \<le> 2"
    by (rule card_block_paths [where d = 128]) (simp_all add: nth_page_nat)
  show "card (range_paths 0x02000000 16) \<le> 2"
    by (rule card_block_paths [where d = 16]) (simp_all add: nth_page_nat)
qed

lemma kernel_address_space_correct:
  assumes ok: "kmem_ok (kmem_of S)" and pool: "70 \<le> card (avail_pages (pmm_of (kmem_of S)))"
  shows "\<exists>S'. kernel_address_space_init S = Some S' \<and> g_kernel_page_table S' \<noteq> nullptr \<and>
    g_kernel_page_table S' \<in> avail_pages (pmm_of (kmem_of S)) \<and>
    pt_ok (kmem_of S') (g_kernel_page_table S') \<and>
    frame_pages (pmm_of (kmem_of S')) = frame_pages (pmm_of (kmem_of S)) \<and>
    (\<forall>a. (\<forall>t \<in> avail_pages (pmm_of (kmem_of S)). a \<notin> page_words t) \<longrightarrow>
       mem (kmem_of S') a = mem (kmem_of S) a) \<and>
    (\<forall>va. unat va < 2 ^ 39 \<longrightarrow> leaf_pte (kmem_of S') (g_kernel_page_table S') va =
       (if in_range 0x80000000 32768 va then make_pte (align_down va) (kDramFlags OR PteV)
        else if in_range 0x10000000 1 va \<or> in_range 0x02000000 16 va
        then make_pte (align_down va) (kDeviceFlags OR PteV) else 0))"
proof -
  let ?s = "kmem_of S"
  have fin: "finite (avail_pages (pmm_of ?s))" using ok by (rule finite_avail)
  have "avail_pages (pmm_of ?s) \<noteq> {}" using pool by auto
  from new_root [OF ok this] obtain root s0 where r: "alloc_page_table ?s = Some (root, s0)" "root \<noteq> nullptr"
    "pt_ok s0 root" "leaf_pte s0 root = (\<lambda>_. 0)" "avail_pages (pmm_of s0) = avail_pages (pmm_of ?s) - {root}"
    "root \<in> avail_pages (pmm_of ?s)" "frame_pages (pmm_of s0) = frame_pages (pmm_of ?s)"
    "tables s0 root = {[]}" "\<And>a. a \<notin> page_words root \<Longrightarrow> mem s0 a = mem ?s a"
    by blast
  have c0: "65 + 4 \<le> card (avail_pages (pmm_of s0))" using r(5,6) fin pool by simp
  obtain s1 where s1: "map_range root 0x80000000 0x80000000 0x8000000 kDramFlags s0 = Some (True, s1)"
    "pt_ok s1 root" "4 \<le> card (avail_pages (pmm_of s1))"
    "frame_pages (pmm_of s1) = frame_pages (pmm_of s0)" "keeps root s0 s1"
    "\<And>va. unat va < 2 ^ 39 \<Longrightarrow> leaf_pte s1 root va = (if in_range 0x80000000 32768 va
       then make_pte (align_down va) (kDramFlags OR PteV) else leaf_pte s0 root va)"
    using map_identity [OF r(3) boot_regions(1), of "0x8000000" 65 4 kDramFlags] c0 card_dram_paths
    unfolding boot_regions r(4) by auto
  obtain s2 where s2: "map_range root 0x10000000 0x10000000 0x1000 kDeviceFlags s1 = Some (True, s2)"
    "pt_ok s2 root" "2 \<le> card (avail_pages (pmm_of s2))"
    "frame_pages (pmm_of s2) = frame_pages (pmm_of s1)" "keeps root s1 s2"
    "\<And>va. unat va < 2 ^ 39 \<Longrightarrow> leaf_pte s2 root va = (if in_range 0x10000000 1 va
       then make_pte (align_down va) (kDeviceFlags OR PteV) else leaf_pte s1 root va)"
    using map_identity [OF s1(2) boot_regions(2), of "0x1000" 2 2 kDeviceFlags] s1(3,6) uart_clint_paths
      in_range_disjoint(1)
    unfolding boot_regions r(4) by auto
  obtain s3 where s3: "map_range root 0x02000000 0x02000000 0x10000 kDeviceFlags s2 = Some (True, s3)"
    "pt_ok s3 root"
    "frame_pages (pmm_of s3) = frame_pages (pmm_of s2)" "keeps root s2 s3"
    "\<And>va. unat va < 2 ^ 39 \<Longrightarrow> leaf_pte s3 root va = (if in_range 0x02000000 16 va
       then make_pte (align_down va) (kDeviceFlags OR PteV) else leaf_pte s2 root va)"
    using map_identity [OF s2(2) boot_regions(3), of "0x10000" 2 0 kDeviceFlags] s2(3,6) s1(6) uart_clint_paths
      in_range_disjoint(2,3)
    unfolding boot_regions r(4) by auto
  have "kernel_address_space_init S = Some (S\<lparr>g_kernel_page_table := root, kmem_of := s3\<rparr>)"
    using r(1,2) s1(1) s2(1) s3(1)
    by (simp add: kernel_address_space_init_def device_region regions kDramFlags_def Let_def)
  moreover have "leaf_pte s3 root va = (if in_range 0x80000000 32768 va then make_pte (align_down va) (kDramFlags OR PteV)
      else if in_range 0x10000000 1 va \<or> in_range 0x02000000 16 va
      then make_pte (align_down va) (kDeviceFlags OR PteV) else 0)" if "unat va < 2 ^ 39" for va
    using s1(6) [OF that] s2(6) [OF that] s3(5) [OF that] in_range_disjoint [of va] r(4) by auto
  moreover have "mem s3 a = mem ?s a" if a: "\<forall>t \<in> avail_pages (pmm_of ?s). a \<notin> page_words t" for a
  proof -
    have k: "keeps root s0 s3" using keeps_trans [OF s1(5) keeps_trans [OF s2(5) s3(4)]] .
    have "t \<in> avail_pages (pmm_of ?s)" if t: "path p" "tab s3 root p = Some t" for p t
    proof (cases "tab s0 root p = Some t")
      case True
      then have "p \<in> tables s0 root" using t(1) by (simp add: tables_def)
      then have "t = root" using r(8) True by simp
      then show ?thesis using r(6) by simp
    next
      case False
      then show ?thesis using keepsD(2) [OF k t] r(5) by auto
    qed
    then have "mem s3 a = mem s0 a" using a by (intro keepsD(4) [OF k]) blast
    then show ?thesis using r(6,9) a by simp
  qed
  ultimately show ?thesis using r(2,6,7) s1(4) s2(4) s3(2,3) by auto
qed

section \<open>From boot to the first address space\<close>

definition dram_readable :: "(addr \<Rightarrow> u64 option) \<Rightarrow> bool" where
  "dram_readable m \<longleftrightarrow> (\<forall>a. 0x80000000 \<le> a \<and> a < 0x88000000 \<longrightarrow> m a \<noteq> None)"

lemma boot_kmem_ok:
  assumes "pmm_inv s0" "g_managed_base s0 = 0x80000000" "g_total_pages s0 = 32768" "dram_readable m"
  shows "kmem_ok \<lparr>pmm_of = s0, mem = m\<rparr>"
proof -
  have "m a \<noteq> None" if pg: "pg \<in> frame_pages s0" and a: "a \<in> page_words pg" for pg a
  proof -
    obtain i where i: "pg = page_at s0 i" "i < 32768" using pg assms(3) by (auto simp: frame_pages_def)
    obtain j where j: "a = entry_addr pg j" "unat j < 512" using a by (auto simp: page_words_def)
    have "unat pg = 0x80000000 + 4096 * i"
      using page_at_nat [OF pmm_invD(1) [OF assms(1)], of i] i assms(2,3) by simp
    moreover have "is_page_aligned pg" using pg pmm.frames_law [OF assms(1)] by blast
    ultimately have "unat a = 0x80000000 + 4096 * i + 8 * unat j" using entry_addr_nat [of pg j] j by simp
    then have "0x80000000 \<le> a \<and> a < 0x88000000"
      using i(2) j(2) by (simp add: word_le_nat_alt word_less_nat_alt)
    then show ?thesis using assms(4) by (simp add: dram_readable_def)
  qed
  then show ?thesis using assms(1) by (simp add: kmem_ok_def)
qed

text \<open>With an image below 64 MiB at least 256 slot pages are free at boot.\<close>

lemma boot_pool_large:
  assumes "unat (kernel_end_addr L) \<le> 0x84000000"
  shows "256 \<le> card (boot_pool L)"
proof -
  have sub: "(\<lambda>j. 64 * j + j mod 64) ` {256..<512} \<subseteq> boot_pool L"
  proof
    fix i assume "i \<in> (\<lambda>j. 64 * j + j mod 64) ` {256..<512 :: nat}"
    then obtain j where j: "256 \<le> j" "j < 512" "i = 64 * j + j mod 64" by auto
    have "j mod 64 < 64" by simp
    then have "i div 64 = j" "i < 32768" using j(2,3) by (simp, linarith)
    then show "i \<in> boot_pool L" using j assms by (simp add: boot_pool_def slot_of_def)
  qed
  have inj: "inj_on (\<lambda>j. 64 * j + j mod 64) {256..<512 :: nat}"
  proof (rule inj_onI)
    fix a b :: nat assume "64 * a + a mod 64 = 64 * b + b mod 64"
    then have "(64 * a + a mod 64) div 64 = (64 * b + b mod 64) div 64" by simp
    then show "a = b" by simp
  qed
  have "finite (boot_pool L)" by (simp add: boot_pool_def)
  from card_mono [OF this sub] show ?thesis by (simp add: card_image [OF inj])
qed

lemma card_avail_boot:
  assumes "pmm_inv s0" "g_total_pages s0 = 32768" "free_slots s0 = boot_pool L"
  shows "card (avail_pages s0) = card (boot_pool L)"
proof -
  have "{i. can_alloc s0 i} = boot_pool L" using assms(2,3) by (auto simp: can_alloc_def boot_pool_def)
  moreover have "inj_on (page_at s0) (boot_pool L)"
  proof (rule inj_onI)
    fix i j assume "i \<in> boot_pool L" "j \<in> boot_pool L" "page_at s0 i = page_at s0 j"
    then show "i = j"
      using page_at_inj [OF pmm_invD(1) [OF assms(1)], of i j] assms(2) by (simp add: boot_pool_def)
  qed
  ultimately show ?thesis by (simp add: avail_pages_def card_image)
qed

lemma kernel_end_small:
  assumes "image_size z + 0x9000 < 64 * 1024 * 1024"
  shows "unat (kernel_end_addr (link_layout z)) \<le> 0x84000000"
  using assms link_layout_end [of z] by simp

lemma make_satp_fields:
  assumes "is_page_aligned root" "unat root < 2 ^ 56"
  shows "drop_bit 60 (make_satp root) = 8" "push_bit 12 (take_bit 44 (make_satp root)) = root"
proof -
  have hi: "\<not> bit root n" if "56 \<le> n" for n
  proof -
    have "unat root < 2 ^ n" using assms(2) power_increasing [OF that, of "2 :: nat"] by simp
    then have "\<not> bit (unat root) n" by (simp add: bit_iff_odd)
    then show ?thesis by (cases "n < 64") (auto simp: bit_unsigned_iff dest: bit_imp_le_length)
  qed
  have b: "bit kSatpModeSv39 n \<longleftrightarrow> n = 63" for n
  proof -
    have "kSatpModeSv39 = push_bit 63 1" by (simp add: kSatpModeSv39_def)
    then show ?thesis unfolding \<open>kSatpModeSv39 = push_bit 63 1\<close> bit_push_bit_iff bit_1_iff by auto
  qed
  have b8: "bit (8 :: u64) n \<longleftrightarrow> n = 3" for n
  proof -
    have "bit (push_bit 3 1 :: u64) n \<longleftrightarrow> n = 3" unfolding bit_push_bit_iff bit_1_iff by auto
    then show ?thesis by simp
  qed
  show "drop_bit 60 (make_satp root) = 8"
  proof (rule bit_word_eqI)
    fix n assume "n < LENGTH(64)"
    show "bit (drop_bit 60 (make_satp root)) n \<longleftrightarrow> bit (8 :: u64) n"
      unfolding make_satp_def bit_drop_bit_eq bit_or_iff comp_def b b8 using hi by auto
  qed
  have "push_bit 12 (take_bit 44 (make_satp root)) = push_bit 12 (drop_bit 12 root)"
  proof (rule bit_word_eqI)
    fix n assume "n < LENGTH(64)"
    then show "bit (push_bit 12 (take_bit 44 (make_satp root))) n \<longleftrightarrow> bit (push_bit 12 (drop_bit 12 root)) n"
      using hi [of n] by (auto simp: bit_push_bit_iff bit_take_bit_iff make_satp_def bit_or_iff b bit_drop_bit_eq)
  qed
  also have "\<dots> = root" using align_down_of_aligned [OF assms(1)] by (simp only: align_down_eq)
  finally show "push_bit 12 (take_bit 44 (make_satp root)) = root" .
qed

lemma boot_address_space:
  assumes z: "image_size z + 0x9000 < 64 * 1024 * 1024" and m: "dram_readable m"
  shows "\<exists>s0 S. pmm_init (link_layout z) pmm_static = Some s0 \<and>
    (\<forall>f \<in> frame_pages (pmm_of (kmem_of S)). unat f < 0x88000000) \<and>
    (\<forall>a. unat a < unat (kernel_end_addr (link_layout z)) \<longrightarrow> mem (kmem_of S) a = m a) \<and>
    kernel_address_space_init \<lparr>kmem_of = \<lparr>pmm_of = s0, mem = m\<rparr>, g_kernel_page_table = nullptr\<rparr> = Some S \<and>
    g_kernel_page_table S \<noteq> nullptr \<and> unat (g_kernel_page_table S) < 0x88000000 \<and>
    pt_ok (kmem_of S) (g_kernel_page_table S) \<and>
    (\<forall>va. unat va < 2 ^ 39 \<longrightarrow> leaf_pte (kmem_of S) (g_kernel_page_table S) va =
       (if in_range 0x80000000 32768 va then make_pte (align_down va) (kDramFlags OR PteV)
        else if in_range 0x10000000 1 va \<or> in_range 0x02000000 16 va
        then make_pte (align_down va) (kDeviceFlags OR PteV) else 0))"
proof -
  have z': "image_size z + 0x9000 < 128 * 1024 * 1024" using z by simp
  obtain s0 where s0: "pmm_init (link_layout z) pmm_static = Some s0" "pmm_inv s0"
    "g_managed_base s0 = 0x80000000" "g_total_pages s0 = 32768" "free_slots s0 = boot_pool (link_layout z)"
    using pmm_init_boot [OF link_layout_ok [OF z']] by blast
  let ?S = "\<lparr>kmem_of = \<lparr>pmm_of = s0, mem = m\<rparr>, g_kernel_page_table = nullptr\<rparr>"
  have "70 \<le> card (avail_pages (pmm_of (kmem_of ?S)))"
    using card_avail_boot [OF s0(2,4,5)] boot_pool_large [OF kernel_end_small [OF z]] by simp
  moreover have "kmem_ok (kmem_of ?S)" using boot_kmem_ok [OF s0(2,3,4) m] by simp
  ultimately obtain S where S: "kernel_address_space_init ?S = Some S" "g_kernel_page_table S \<noteq> nullptr"
    "g_kernel_page_table S \<in> avail_pages s0" "frame_pages (pmm_of (kmem_of S)) = frame_pages s0"
    "\<forall>a. (\<forall>t \<in> avail_pages s0. a \<notin> page_words t) \<longrightarrow> mem (kmem_of S) a = m a" "pt_ok (kmem_of S) (g_kernel_page_table S)"
    "\<forall>va. unat va < 2 ^ 39 \<longrightarrow> leaf_pte (kmem_of S) (g_kernel_page_table S) va =
       (if in_range 0x80000000 32768 va then make_pte (align_down va) (kDramFlags OR PteV)
        else if in_range 0x10000000 1 va \<or> in_range 0x02000000 16 va
        then make_pte (align_down va) (kDeviceFlags OR PteV) else 0)"
    using kernel_address_space_correct [of ?S] by auto
  have small: "unat f < 0x88000000" if "f \<in> frame_pages s0" for f
    using that page_at_nat [OF pmm_invD(1) [OF s0(2)]] s0(3,4) by (auto simp: frame_pages_def)
  moreover have "g_kernel_page_table S \<in> frame_pages s0" using S(3) pmm.frames_law [OF s0(2)] by blast
  ultimately have "unat (g_kernel_page_table S) < 0x88000000" by blast
  moreover have "mem (kmem_of S) a = m a" if a: "unat a < unat (kernel_end_addr (link_layout z))" for a
  proof -
    have "a \<notin> page_words t" if "t \<in> avail_pages s0" for t
    proof
      assume "a \<in> page_words t"
      then obtain i where i: "a = entry_addr t i" "unat i < 512" by (auto simp: page_words_def)
      have "is_page_aligned t" using pmm.frames_law [OF s0(2)] that by blast
      from entry_addr_nat [OF this i(2)] show False
        using boot_pool_page [OF s0(2-5) that] a i(1) by (simp add: word_le_nat_alt)
    qed
    then show ?thesis using S(5) by blast
  qed
  ultimately show ?thesis using S s0(1) small by (intro exI [of _ s0] exI [of _ S]) auto
qed

text \<open>Any sequence of calls, with any arguments.\<close>

datatype pt_call = CallMap addr addr u64 | CallMapRange addr addr u64 u64 | CallUnmap addr | CallTranslate addr

fun run_pt :: "addr \<Rightarrow> pt_call list \<Rightarrow> kmem \<Rightarrow> kmem option" where
  "run_pt root [] s = Some s"
| "run_pt root (CallMap va pa fl # cs) s = do { (_, s) \<leftarrow> map_page root va pa fl s; run_pt root cs s }"
| "run_pt root (CallMapRange va pa sz fl # cs) s = do { (_, s) \<leftarrow> map_range root va pa sz fl s; run_pt root cs s }"
| "run_pt root (CallUnmap va # cs) s = do { (_, s) \<leftarrow> unmap_page root va s; run_pt root cs s }"
| "run_pt root (CallTranslate va # cs) s = do { _ \<leftarrow> virt_to_phys root va s; run_pt root cs s }"

definition pt_kept :: "addr \<Rightarrow> kmem \<Rightarrow> kmem \<Rightarrow> bool" where
  "pt_kept root s s' \<longleftrightarrow> pt_ok s' root \<and> keeps root s s' \<and> frame_pages (pmm_of s') = frame_pages (pmm_of s)"

lemma pt_kept_refl: "pt_ok s root \<Longrightarrow> pt_kept root s s"
  by (simp add: pt_kept_def)

lemma pt_kept_trans: "pt_kept root s s1 \<Longrightarrow> pt_kept root s1 s2 \<Longrightarrow> pt_kept root s s2"
  by (auto simp: pt_kept_def intro: keeps_trans)

lemma map_range_total:
  assumes ok: "pt_ok s root"
  shows "\<exists>r s'. map_range root va pa sz flags s = Some (r, s') \<and> pt_kept root s s'"
proof (cases "sz \<noteq> 0 \<and> is_page_aligned va \<and> is_page_aligned pa")
  case False
  then show ?thesis using pt_kept_refl [OF ok] by (auto simp: map_range_def)
next
  case True
  then have a: "sz \<noteq> 0" "is_page_aligned va" "is_page_aligned pa" by simp_all
  show ?thesis
  proof (cases "va < align_up (va + sz)")
    case True
    from map_range_correct [OF ok a(2,3,1) this, of flags] show ?thesis
      by (auto simp: pt_kept_def grows_def)
  next
    case False
    then have "align_up (va + sz) \<le> va" by (simp only: not_less)
    from map_range_wraps [OF a this, of root flags s] pt_kept_refl [OF ok] show ?thesis by blast
  qed
qed

lemma run_pt_step:
  assumes ok: "pt_ok s root"
  shows "\<exists>s1. run_pt root (c # cs) s = run_pt root cs s1 \<and> pt_kept root s s1"
proof (cases c)
  case (CallMap va pa fl)
  then show ?thesis using map_page_correct [OF ok, of va pa fl] by (auto simp: pt_kept_def grows_def)
next
  case (CallMapRange va pa sz fl)
  then show ?thesis using map_range_total [OF ok, of va pa sz fl] by auto
next
  case (CallUnmap va)
  then show ?thesis using unmap_page_correct [OF ok, of va] by (auto simp: pt_kept_def)
next
  case (CallTranslate va)
  then show ?thesis using pt.translate_law [OF ok, of va] pt_kept_refl [OF ok] by auto
qed

lemma run_pt_correct:
  assumes "pt_ok s root"
  shows "\<exists>s'. run_pt root cs s = Some s' \<and> pt_kept root s s'"
  using assms
proof (induction cs arbitrary: s)
  case Nil
  then show ?case by (simp add: pt_kept_refl)
next
  case (Cons c cs)
  obtain s1 where s1: "run_pt root (c # cs) s = run_pt root cs s1" "pt_kept root s s1"
    using run_pt_step [OF Cons.prems] by blast
  then obtain s2 where "run_pt root cs s1 = Some s2" "pt_kept root s1 s2"
    using Cons.IH [of s1] by (auto simp: pt_kept_def)
  with s1 pt_kept_trans show ?case by auto
qed

section \<open>Properties\<close>

lemma boot_space_identity:
  assumes "image_size z + 0x9000 < 64 * 1024 * 1024" and "dram_readable m"
  shows "\<exists>s0 S root. pmm_init (link_layout z) pmm_static = Some s0 \<and>
    kernel_address_space_init \<lparr>kmem_of = \<lparr>pmm_of = s0, mem = m\<rparr>, g_kernel_page_table = nullptr\<rparr> = Some S \<and>
    kernel_page_table S = root \<and> root \<noteq> nullptr \<and>
    (\<forall>va. unat va < 2 ^ 39 \<longrightarrow>
       virt_to_phys root va (kmem_of S) = Some (if boot_mapped va then va else 0)) \<and>
    (\<forall>a. unat a < unat (kernel_end_addr (link_layout z)) \<longrightarrow> mem (kmem_of S) a = m a) \<and>
    drop_bit 60 (satp (enable_sv39 root c)) = 8 \<and>
    push_bit 12 (take_bit 44 (satp (enable_sv39 root c))) = root \<and> tlb_synced (enable_sv39 root c)"
proof -
  obtain s0 S where S: "pmm_init (link_layout z) pmm_static = Some s0"
    "kernel_address_space_init \<lparr>kmem_of = \<lparr>pmm_of = s0, mem = m\<rparr>, g_kernel_page_table = nullptr\<rparr> = Some S"
    "g_kernel_page_table S \<noteq> nullptr" "pt_ok (kmem_of S) (g_kernel_page_table S)"
    and small: "unat (g_kernel_page_table S) < 0x88000000"
    and image: "\<forall>a. unat a < unat (kernel_end_addr (link_layout z)) \<longrightarrow> mem (kmem_of S) a = m a"
    and view: "\<And>va. unat va < 2 ^ 39 \<Longrightarrow> leaf_pte (kmem_of S) (g_kernel_page_table S) va =
       (if in_range 0x80000000 32768 va then make_pte (align_down va) (kDramFlags OR PteV)
        else if in_range 0x10000000 1 va \<or> in_range 0x02000000 16 va
        then make_pte (align_down va) (kDeviceFlags OR PteV) else 0)"
    using boot_address_space [OF assms] by blast
  let ?root = "g_kernel_page_table S"
  have tr: "virt_to_phys ?root va (kmem_of S) = Some (if boot_mapped va then va else 0)"
    if "unat va < 2 ^ 39" for va
    using view [OF that] identity_leaf [OF boot_flags(1), of va] identity_leaf [OF boot_flags(2), of va]
    by (simp add: pt.translate_law [OF S(4)] boot_mapped_def Let_def)
  have root: "is_page_aligned ?root" "unat ?root < 2 ^ 56"
  proof -
    have f: "?root \<in> frame_pages (pmm_of (kmem_of S))" and k: "pmm_inv (pmm_of (kmem_of S))"
      using root_frame [OF S(4)] pt_okD(1) [OF S(4)] by (simp_all add: kmem_ok_def)
    then show "is_page_aligned ?root" using pmm.frames_law by blast
    show "unat ?root < 2 ^ 56" using small by simp
  qed
  show ?thesis
    using S(1-3) tr image make_satp_fields [OF root]
    by (simp add: kernel_page_table_def enable_sv39_def write_satp_def sfence_vma_def)
qed

text \<open>Property (C1): the boot address space is the identity on the memory the kernel uses and
  nothing else. For every kernel image below 64 MiB, starting from the reset values of the
  allocator, \<^verbatim>\<open>pmm_init\<close> and \<^verbatim>\<open>kernel_address_space_init\<close> terminate without an invalid access,
  every \<^verbatim>\<open>map_range\<close> whose result the code ignores succeeds, and the software walk translates
  an address of the low 512 GiB to itself if it lies in the 128 MiB of DRAM, the UART page or
  the CLINT pages, and to 0 otherwise; no word of the kernel image changes; writing satp selects that root in Sv39 mode and the
  fence follows the write.\<close>

theorem boot_identity_map:
  assumes "image_size z + 0x9000 < 64 * 1024 * 1024" and "dram_readable m"
  shows "\<exists>s0 S root. pmm_init (link_layout z) pmm_static = Some s0 \<and>
    kernel_address_space_init \<lparr>kmem_of = \<lparr>pmm_of = s0, mem = m\<rparr>, g_kernel_page_table = nullptr\<rparr> = Some S \<and>
    kernel_page_table S = root \<and> root \<noteq> nullptr \<and>
    (\<forall>va. unat va < 2 ^ 39 \<longrightarrow>
       virt_to_phys root va (kmem_of S) = Some (if boot_mapped va then va else 0)) \<and>
    (\<forall>a. unat a < unat (kernel_end_addr (link_layout z)) \<longrightarrow> mem (kmem_of S) a = m a) \<and>
    drop_bit 60 (satp (enable_sv39 root c)) = 8 \<and>
    push_bit 12 (take_bit 44 (satp (enable_sv39 root c))) = root \<and> tlb_synced (enable_sv39 root c)"
  by (rule boot_space_identity [OF assms])

text \<open>A concrete address space: one root table in a freshly booted allocator.\<close>

definition demo_mem :: kmem where
  "demo_mem = \<lparr>pmm_of = boot_state, mem = (\<lambda>_. Some 0)\<rparr>"

definition demo_root :: addr where
  "demo_root = fst (the (alloc_page_table demo_mem))"

definition demo_space :: kmem where
  "demo_space = snd (the (alloc_page_table demo_mem))"

lemma demo_space: "pt_ok demo_space demo_root" "leaf_pte demo_space demo_root = (\<lambda>_. 0)"
  "tables demo_space demo_root = {[]}" "255 \<le> card (avail_pages (pmm_of demo_space))"
proof -
  have k: "kmem_ok demo_mem"
    unfolding demo_mem_def by (rule boot_kmem_ok) (simp_all add: boot_state dram_readable_def)
  have "page_at boot_state 32767 \<in> avail_pages (pmm_of demo_mem)"
    using boot_state_slots(3) boot_state(4) by (auto simp: demo_mem_def avail_pages_def can_alloc_def)
  then have "avail_pages (pmm_of demo_mem) \<noteq> {}" by blast
  from new_root [OF k this] obtain root s' where r: "alloc_page_table demo_mem = Some (root, s')"
    "pt_ok s' root" "leaf_pte s' root = (\<lambda>_. 0)" "tables s' root = {[]}"
    "avail_pages (pmm_of s') = avail_pages (pmm_of demo_mem) - {root}" "root \<in> avail_pages (pmm_of demo_mem)"
    by blast
  have "image_size demo_image + 0x9000 < 64 * 1024 * 1024" by (simp add: image_size_def demo_image_def)
  then have "256 \<le> card (avail_pages boot_state)"
    using boot_pool_large [OF kernel_end_small] card_avail_boot [OF boot_state(2,4,5)] by simp
  then have c: "255 \<le> card (avail_pages (pmm_of s'))"
    using r(5,6) finite_avail [OF k] by (simp add: demo_mem_def)
  from r(1) have "demo_root = root" "demo_space = s'" by (simp_all add: demo_root_def demo_space_def)
  then show "pt_ok demo_space demo_root" "leaf_pte demo_space demo_root = (\<lambda>_. 0)"
    "tables demo_space demo_root = {[]}" "255 \<le> card (avail_pages (pmm_of demo_space))"
    using r(2-4) c by simp_all
qed

lemma boot_identity_map_witness:
  "\<exists>s0 S root. pmm_init (link_layout demo_image) pmm_static = Some s0 \<and>
    kernel_address_space_init \<lparr>kmem_of = \<lparr>pmm_of = s0, mem = (\<lambda>_. Some 7)\<rparr>, g_kernel_page_table = nullptr\<rparr> = Some S \<and>
    kernel_page_table S = root \<and> virt_to_phys root 0x80001234 (kmem_of S) = Some 0x80001234"
proof -
  have "image_size demo_image + 0x9000 < 64 * 1024 * 1024" "dram_readable (\<lambda>_. Some 7)"
    by (simp_all add: image_size_def demo_image_def dram_readable_def)
  moreover have "unat (0x80001234 :: u64) < 2 ^ 39" "boot_mapped 0x80001234"
    by (simp_all add: boot_mapped_def in_range_def)
  ultimately show ?thesis using boot_identity_map by fastforce
qed

text \<open>Property (C19): \<^verbatim>\<open>map_page\<close> on every branch. It always returns. On success the page was not
  mapped, and the only translations that change are those of the addresses in that page, which
  now go to the same offset of the physical page; on failure no translation changes at all,
  even when intermediate tables were added, and the reason is a misaligned argument, an entry
  that is already valid, or an empty page pool.\<close>

theorem map_page_effect:
  assumes ok: "pt_ok s root" and fl: "leaf_flags flags"
  shows "\<exists>r s'. map_page root va pa flags s = Some (r, s') \<and> pt_ok s' root \<and>
    (if r then is_page_aligned va \<and> is_page_aligned pa \<and> virt_to_phys root va s = Some 0 \<and>
         (\<forall>va'. virt_to_phys root va' s' =
            (if vpns va' = vpns va then Some (pa + page_offset va') else virt_to_phys root va' s))
     else (\<forall>va'. virt_to_phys root va' s' = virt_to_phys root va' s) \<and>
       (\<not> is_page_aligned va \<or> \<not> is_page_aligned pa \<or> pte_valid (leaf_pte s root va) \<or>
        avail_pages (pmm_of s') = {}))"
proof -
  obtain r s' where m: "map_page root va pa flags s = Some (r, s')" "pt_ok s' root"
    "if r then is_page_aligned va \<and> is_page_aligned pa \<and> \<not> pte_valid (leaf_pte s root va) \<and>
        leaf_pte s' root = set_leaf va (make_pte pa (flags OR PteV)) (leaf_pte s root)
     else leaf_pte s' root = leaf_pte s root \<and>
       (\<not> is_page_aligned va \<or> \<not> is_page_aligned pa \<or> pte_valid (leaf_pte s root va) \<or>
        (avail_pages (pmm_of s') = {} \<and> \<not> walk_paths va \<subseteq> tables s' root))"
    using map_page_correct [OF ok, of va pa flags] by blast
  show ?thesis
  proof (cases r)
    case True
    then have "virt_to_phys root va' s' =
        (if vpns va' = vpns va then Some (pa + page_offset va') else virt_to_phys root va' s)" for va'
      using pt.map_translate [OF ok _ fl, of va pa s' va'] m(1) by simp
    moreover have "virt_to_phys root va s = Some 0" using m(3) True by (simp add: pt.translate_law [OF ok])
    ultimately show ?thesis using m True by (intro exI [of _ True] exI [of _ s']) simp
  next
    case False
    then have "virt_to_phys root va' s' = virt_to_phys root va' s" for va'
      using pt.map_fail_translate [OF ok, of va pa flags s' va'] m(1) by simp
    then show ?thesis using m False by (intro exI [of _ False] exI [of _ s']) auto
  qed
qed

lemma map_page_effect_witness:
  "\<exists>r s'. map_page demo_root 0x40000000 0x80002000 kDramFlags demo_space = Some (r, s') \<and> pt_ok s' demo_root"
  using map_page_effect [OF demo_space(1) boot_flags(1), of "0x40000000" "0x80002000"] by blast

text \<open>Property (C20): \<^verbatim>\<open>unmap_page\<close> undoes \<^verbatim>\<open>map_page\<close>. After a successful mapping with a permission
  flag, unmapping that page succeeds; then its addresses translate to 0 and every other address
  translates as before the mapping.\<close>

theorem map_then_unmap:
  assumes "pt_ok s root" and "map_page root va pa flags s = Some (True, s1)" and "leaf_flags flags"
  shows "\<exists>s2. unmap_page root va s1 = Some (True, s2) \<and> pt_ok s2 root \<and>
    (\<forall>va'. virt_to_phys root va' s2 = (if vpns va' = vpns va then Some 0 else virt_to_phys root va' s))"
  using assms by (rule pt.map_unmap_restores)

lemma demo_map: "\<exists>s'. map_page demo_root 0x40000000 0x80002000 flags demo_space = Some (True, s')"
proof -
  have al: "is_page_aligned 0x40000000" "is_page_aligned 0x80002000" by (simp_all add: is_page_aligned_nat)
  obtain r s' where m: "map_page demo_root 0x40000000 0x80002000 flags demo_space = Some (r, s')"
    "grows demo_root (walk_paths 0x40000000) demo_space s'"
    "\<not> r \<longrightarrow> avail_pages (pmm_of s') = {} \<and> \<not> walk_paths 0x40000000 \<subseteq> tables s' demo_root"
    using map_page_correct [OF demo_space(1), of "0x40000000" "0x80002000" flags] demo_space(2) al
    by (auto split: if_splits)
  have "r"
  proof (rule ccontr)
    assume "\<not> r"
    then have e: "avail_pages (pmm_of s') = {}" "\<not> walk_paths 0x40000000 \<subseteq> tables s' demo_root"
      using m(3) by auto
    have sub: "tables s' demo_root \<subset> insert [] (walk_paths 0x40000000)"
      using m(2) e(2) demo_space(3) by (auto simp: grows_def)
    have "card (insert [] (walk_paths 0x40000000)) \<le> 3"
      by (simp add: walk_paths_def dir_path_def card_insert_if)
    then have "card (tables s' demo_root) < 3"
      using psubset_card_mono [OF _ sub] by (simp add: walk_paths_def)
    moreover have "card (avail_pages (pmm_of demo_space)) + 1 = card (tables s' demo_root)"
      using m(2) e(1) demo_space(3) by (simp add: grows_def)
    ultimately show False using demo_space(4) by simp
  qed
  then show ?thesis using m(1) by auto
qed

lemma map_then_unmap_witness:
  "\<exists>s1 s2. map_page demo_root 0x40000000 0x80002000 kDramFlags demo_space = Some (True, s1) \<and>
    unmap_page demo_root 0x40000000 s1 = Some (True, s2) \<and> pt_ok s2 demo_root"
  using demo_map [of kDramFlags] map_then_unmap [OF demo_space(1) _ boot_flags(1), of "0x40000000" "0x80002000"]
  by blast

text \<open>An entry made without a permission flag is stuck. \<^verbatim>\<open>map_page\<close> accepts flags with
  neither read, write nor execute and reports success, but the page then translates to 0, cannot
  be unmapped and cannot be mapped again.\<close>

lemma map_without_permission_stuck:
  assumes "pt_ok s root" and "map_page root va pa flags s = Some (True, s1)" and "\<not> pte_leaf flags"
  shows "virt_to_phys root va s1 = Some 0 \<and> (\<exists>s2. unmap_page root va s1 = Some (False, s2)) \<and>
    (\<exists>s2. map_page root va pa2 flags2 s1 = Some (False, s2))"
  using pt.map_without_permission [OF assms] by blast

lemma map_without_permission_stuck_witness:
  "\<exists>s1. map_page demo_root 0x40000000 0x80002000 PteU demo_space = Some (True, s1) \<and>
    virt_to_phys demo_root 0x40000000 s1 = Some 0"
proof -
  have "\<not> pte_leaf PteU" by (simp add: pte_leaf_def PteU_def PteR_def PteW_def PteX_def)
  then show ?thesis
    using demo_map [of PteU] map_without_permission_stuck [OF demo_space(1), of "0x40000000" "0x80002000" PteU]
    by blast
qed

text \<open>\<^verbatim>\<open>map_range\<close> maps a prefix of the range, page by page and consecutively. It
  returns true exactly when the prefix is the whole range; when it returns false the first
  pages stay mapped, and the page after them was already mapped or the pool is empty. Addresses
  outside the prefix translate as before.\<close>

lemma map_range_prefix:
  assumes ok: "pt_ok s root" and al: "is_page_aligned va" "is_page_aligned pa"
    and sz: "sz \<noteq> 0" "va < align_up (va + sz)" and fl: "leaf_flags flags"
  shows "\<exists>r s' k. map_range root va pa sz flags s = Some (r, s') \<and> pt_ok s' root \<and>
    k \<le> range_pages va sz \<and> r = (k = range_pages va sz) \<and>
    (\<forall>i < k. virt_to_phys root (nth_page va i) s' = Some (nth_page pa i)) \<and>
    (\<forall>va'. (\<forall>i < k. vpns va' \<noteq> vpns (nth_page va i)) \<longrightarrow>
       virt_to_phys root va' s' = virt_to_phys root va' s) \<and>
    (\<not> r \<longrightarrow> pte_valid (leaf_pte s' root (nth_page va k)) \<or> avail_pages (pmm_of s') = {})"
proof -
  obtain r s' k where m: "map_range root va pa sz flags s = Some (r, s')" "pt_ok s' root"
    "k \<le> range_pages va sz" "r = (k = range_pages va sz)"
    "mapped_to va pa flags k (leaf_pte s root) (leaf_pte s' root)"
    "\<not> r \<Longrightarrow> range_failure s' root (nth_page va k)"
    using map_range_correct [OF ok al sz, of flags] by blast
  have "flags OR PteV < 1024" "pte_leaf (flags OR PteV)"
    using fl flags_or_V_small by (simp_all add: leaf_flags_def)
  then have "virt_to_phys root (nth_page va i) s' = Some (nth_page pa i)" if "i < k" for i
    using m(5) that nth_page_aligned [OF al(1), of i] nth_page_aligned [OF al(2), of i]
    by (simp add: pt.translate_law [OF m(2)] mapped_to_def pte_to_pa_make align_down_of_aligned Let_def
        page_offset_def is_page_aligned_def bit_or_iff)
  moreover have "virt_to_phys root va' s' = virt_to_phys root va' s"
    if "\<forall>i < k. vpns va' \<noteq> vpns (nth_page va i)" for va'
    using m(5) that by (intro pt.translate_cong [OF ok m(2)]) (simp add: mapped_to_def)
  moreover have "\<not> r \<longrightarrow> pte_valid (leaf_pte s' root (nth_page va k)) \<or> avail_pages (pmm_of s') = {}"
    using m(6) by (auto simp: range_failure_def)
  ultimately show ?thesis using m(1-4) by blast
qed

lemma map_range_prefix_witness:
  "\<exists>r s'. map_range demo_root 0x10000000 0x10000000 0x1000 kDeviceFlags demo_space = Some (r, s') \<and>
    pt_ok s' demo_root"
  using map_range_prefix [OF demo_space(1) boot_regions(2) boot_regions(2) _ _ boot_flags(2), of "0x1000"]
  unfolding boot_regions by auto

text \<open>Property (C21): a range that reaches the top of the address space is silently not mapped. When
  the rounded end of the range wraps around, \<^verbatim>\<open>map_range\<close> returns true and maps nothing.\<close>

theorem map_range_wraps_silently:
  assumes "sz \<noteq> 0" and "is_page_aligned va" and "is_page_aligned pa" and "align_up (va + sz) \<le> va"
  shows "map_range root va pa sz flags s = Some (True, s)"
  using assms by (rule map_range_wraps)

lemma map_range_wraps_silently_witness:
  "map_range demo_root 0xFFFFFFFFFFFFF000 0x80000000 0x1000 kDramFlags demo_space = Some (True, demo_space)"
proof -
  have "align_up (0xFFFFFFFFFFFFF000 + 0x1000) = (0 :: u64)" by (simp add: align_up_def)
  then show ?thesis
    by (intro map_range_wraps_silently) (simp_all add: is_page_aligned_nat)
qed

text \<open>Property (C18): the page table code is memory safe under every sequence of calls. From a
  well-formed tree, any calls of \<^verbatim>\<open>map_page\<close>, \<^verbatim>\<open>map_range\<close>, \<^verbatim>\<open>unmap_page\<close> and \<^verbatim>\<open>virt_to_phys\<close> with
  any arguments terminate and access only readable memory; afterwards every table reached from
  the root is still a page handed out by the allocator, reached by one path only, every table of
  the old tree is where it was, and memory outside the tables of the new tree is unchanged: the
  code cannot write into the kernel image or into anyone else's page.\<close>

theorem page_table_calls_safe:
  assumes "pt_ok s root"
  shows "\<exists>s'. run_pt root cs s = Some s' \<and>
    (\<forall>p t. path p \<and> tab s' root p = Some t \<longrightarrow>
       t \<in> frame_pages (pmm_of s') \<and> t \<notin> avail_pages (pmm_of s') \<and>
       (\<forall>q. path q \<and> tab s' root q = Some t \<longrightarrow> q = p)) \<and>
    (\<forall>p t. path p \<and> tab s root p = Some t \<longrightarrow> tab s' root p = Some t) \<and>
    (\<forall>a. (\<forall>p t. path p \<and> tab s' root p = Some t \<longrightarrow> a \<notin> page_words t) \<longrightarrow> mem s' a = mem s a)"
proof -
  obtain s' where s': "run_pt root cs s = Some s'" "pt_ok s' root" "keeps root s s'"
    using run_pt_correct [OF assms] by (auto simp: pt_kept_def)
  then show ?thesis using pt_okD(2,3,4) [OF s'(2)] unfolding keeps_def by simp blast
qed

lemma page_table_calls_safe_witness:
  "\<exists>s'. run_pt demo_root [CallMap 0x1000 0x80002000 3, CallMap 5 7 0, CallMapRange 0x10000000 0x10000000 0x100 6,
      CallUnmap 0x1000, CallTranslate 0x10000044] demo_space = Some s'"
  using page_table_calls_safe [OF demo_space(1)] by blast

end
