(* ===== verification/Sv39_Mmu.thy ===== *)
theory Sv39_Mmu
  imports Address_Space
begin

text \<open>
  The other reader of the page tables: the processor. \<open>sv39_walk\<close> is the translation the
  architecture documents for Sv39 (three levels, valid and reserved bits, superpages, permission,
  accessed and dirty bits, the privilege rules with \<^verbatim>\<open>MPRV\<close>, \<^verbatim>\<open>SUM\<close> and \<^verbatim>\<open>MXR\<close>), written on the words of
  memory and independently of \<^verbatim>\<open>sv39.h\<close>. It is a reference and models no code of the kernel. The lemmas
  compare it with the kernel's software walk \<^verbatim>\<open>virt_to_phys\<close> on every tree that satisfies \<open>pt_ok\<close>, and
  give what the processor sees through the tables and the satp value of the boot.
\<close>

section \<open>The translation of the processor\<close>

datatype access = Fetch | Load | Store
datatype privilege = User | Supervisor | Machine
datatype xlate = Phys addr | PageFault | AccessFault

text \<open>\<^verbatim>\<open>MPRV\<close> (bit 17 of mstatus) lets loads and stores use the privilege in \<^verbatim>\<open>MPP\<close> (bits 11 and 12).\<close>

definition effective_mode :: "access \<Rightarrow> privilege \<Rightarrow> u64 \<Rightarrow> privilege" where
  "effective_mode acc m ms =
     (if m = Machine \<and> acc \<noteq> Fetch \<and> bit ms 17
      then (let mpp = take_bit 2 (drop_bit 11 ms) in
        if mpp = 3 then Machine else if mpp = 1 then Supervisor else User)
      else m)"

text \<open>Bits 63 to 39 of an Sv39 address are copies of bit 38.\<close>

definition canonical :: "addr \<Rightarrow> bool" where
  "canonical va \<longleftrightarrow> drop_bit 38 va = 0 \<or> drop_bit 38 va = mask 26"

text \<open>The rights of a leaf: R, W, X, U, A, D are bits 1, 2, 3, 4, 6, 7; \<^verbatim>\<open>SUM\<close> and \<^verbatim>\<open>MXR\<close> are bits 18 and 19
  of mstatus. An entry with A clear, or D clear on a store, raises a page fault.\<close>

definition leaf_permits :: "access \<Rightarrow> privilege \<Rightarrow> u64 \<Rightarrow> Pte \<Rightarrow> bool" where
  "leaf_permits acc m ms v \<longleftrightarrow>
     (case acc of Fetch \<Rightarrow> bit v 3 | Load \<Rightarrow> bit v 1 \<or> (bit ms 19 \<and> bit v 3) | Store \<Rightarrow> bit v 2) \<and>
     (if m = User then bit v 4 else \<not> bit v 4 \<or> (bit ms 18 \<and> acc \<noteq> Fetch)) \<and>
     bit v 6 \<and> (acc = Store \<longrightarrow> bit v 7)"

definition entry_reserved :: "Pte \<Rightarrow> bool" where
  "entry_reserved v \<longleftrightarrow> (bit v 2 \<and> \<not> bit v 1) \<or> drop_bit 54 v \<noteq> 0"

fun sv39_walk :: "access \<Rightarrow> privilege \<Rightarrow> u64 \<Rightarrow> nat \<Rightarrow> addr \<Rightarrow> addr \<Rightarrow> (addr \<Rightarrow> u64 option) \<Rightarrow> xlate" where
  "sv39_walk acc m ms 0 a va M = PageFault"
| "sv39_walk acc m ms (Suc l) a va M =
     (case M (a + 8 * take_bit 9 (drop_bit (12 + 9 * l) va)) of
        None \<Rightarrow> AccessFault
      | Some v \<Rightarrow>
          let ppn = take_bit 44 (drop_bit 10 v) in
          if \<not> bit v 0 \<or> entry_reserved v then PageFault
          else if bit v 1 \<or> bit v 3 then
            (if leaf_permits acc m ms v \<and> take_bit (9 * l) ppn = 0
             then Phys (push_bit 12 ppn OR take_bit (12 + 9 * l) va) else PageFault)
          else if bit v 4 \<or> bit v 6 \<or> bit v 7 then PageFault
          else sv39_walk acc m ms l (push_bit 12 ppn) va M)"

text \<open>Mode 8 of satp selects Sv39; the kernel writes no other mode, and any other one is taken as Bare.
  Machine mode does not translate.\<close>

definition processor_translate :: "access \<Rightarrow> privilege \<Rightarrow> csrs \<Rightarrow> addr \<Rightarrow> (addr \<Rightarrow> u64 option) \<Rightarrow> xlate" where
  "processor_translate acc m c va M =
     (let m = effective_mode acc m (mstatus c) in
      if m = Machine \<or> drop_bit 60 (satp c) \<noteq> 8 then Phys va
      else if \<not> canonical va then PageFault
      else sv39_walk acc m (mstatus c) 3 (push_bit 12 (take_bit 44 (satp c))) va M)"

text \<open>The privilege modes are ordered; \<^verbatim>\<open>MPRV\<close> only lowers the mode of an access.\<close>

fun privilege_level :: "privilege \<Rightarrow> nat" where
  "privilege_level User = 0"
| "privilege_level Supervisor = 1"
| "privilege_level Machine = 3"

instantiation privilege :: linorder
begin

definition less_eq_privilege :: "privilege \<Rightarrow> privilege \<Rightarrow> bool" where
  "less_eq_privilege m m' \<longleftrightarrow> privilege_level m \<le> privilege_level m'"

definition less_privilege :: "privilege \<Rightarrow> privilege \<Rightarrow> bool" where
  "less_privilege m m' \<longleftrightarrow> privilege_level m < privilege_level m'"

instance
proof
  fix m m' :: privilege
  assume "m \<le> m'" "m' \<le> m"
  then show "m = m'" by (cases m; cases m'; simp add: less_eq_privilege_def)
qed (auto simp: less_eq_privilege_def less_privilege_def)

end

lemma machine_top [simp]: "m \<le> Machine"
  by (cases m) (simp_all add: less_eq_privilege_def)

lemma effective_mode_lower: "effective_mode acc m ms \<le> m"
  by (simp add: effective_mode_def)

section \<open>Entries\<close>

lemma index_reference: "entry_addr t (vpn_index va l) = t + 8 * take_bit 9 (drop_bit (12 + 9 * l) va)"
  by (simp add: entry_addr_def vpn_index_def kVpnMask_mask take_bit_eq_mask)

text \<open>Decoding drops no bit of an entry whose reserved bits are clear.\<close>

lemma decode_reference:
  assumes "drop_bit 54 v = 0"
  shows "push_bit 12 (take_bit 44 (drop_bit 10 v)) = pte_to_pa v"
proof (rule bit_word_eqI)
  fix n assume "n < LENGTH(64)"
  have "k < 54" if "bit v k" for k
    using arg_cong [OF assms, of "\<lambda>w. bit w (k - 54)"] that by (cases "k < 54") (simp_all add: bit_drop_bit_eq)
  from this [of "n - 2"] show "bit (push_bit 12 (take_bit 44 (drop_bit 10 v))) n \<longleftrightarrow> bit (pte_to_pa v) n"
    by (auto simp: pte_to_pa_def bit_simps)
qed

lemma offset_reference: "is_page_aligned b \<Longrightarrow> b OR take_bit 12 va = b + page_offset va"
proof -
  assume al: "is_page_aligned b"
  have low: "12 \<le> n" if "bit b n" for n
    using that align_down_of_aligned [OF al] by (metis align_down_eq bit_push_bit_iff)
  have "\<not> (bit b n \<and> bit (take_bit 12 va) n)" for n
    using low [of n] by (auto simp: bit_take_bit_iff)
  then have "b + take_bit 12 va = b OR take_bit 12 va"
    by (intro disjunctive_add_eq_or bit_word_eqI) (simp add: bit_and_iff)
  moreover have "page_offset va = take_bit 12 va"
    by (intro unsigned_word_eqI [where 'a = nat]) (simp add: page_offset_nat unsigned_take_bit_eq take_bit_eq_mod unat_mod_distrib)
  ultimately show ?thesis by simp
qed

text \<open>Memory inside the 56-bit physical address space.\<close>

definition frames_physical :: "kmem \<Rightarrow> bool" where
  "frames_physical s \<longleftrightarrow> (\<forall>f \<in> frame_pages (pmm_of s). unat f < 2 ^ 56)"

lemma high_bit_clear: "unat (a :: addr) < 2 ^ k \<Longrightarrow> k \<le> n \<Longrightarrow> \<not> bit a n"
proof
  assume "unat a < 2 ^ k" "k \<le> n" "bit a n"
  then have "unat a < 2 ^ n" by (meson less_le_trans one_le_numeral power_increasing)
  then have "\<not> bit (unat a) n" by (simp add: bit_iff_odd)
  with \<open>bit a n\<close> show False by (simp add: bit_unsigned_iff)
qed

text \<open>The processor takes a pointer of the kernel as a pointer, to the same table.\<close>

lemma pointer_reference:
  assumes v: "pte_pointer v" and t: "unat (pte_to_pa v) < 2 ^ 56"
  shows "bit v 0" "\<not> entry_reserved v" "\<not> (bit v 1 \<or> bit v 3)" "\<not> (bit v 4 \<or> bit v 6 \<or> bit v 7)"
    "push_bit 12 (take_bit 44 (drop_bit 10 v)) = pte_to_pa v"
proof -
  have b: "bit v n \<longleftrightarrow> (10 \<le> n \<and> bit (pte_to_pa v) (n + 2) \<and> n < 64) \<or> n = 0" for n
    using v bit_make_pte [of "pte_to_pa v" PteV n] by (simp add: pte_pointer_def)
  show "bit v 0" "\<not> (bit v 1 \<or> bit v 3)" "\<not> (bit v 4 \<or> bit v 6 \<or> bit v 7)" using b by auto
  have "\<not> bit v n" if "54 \<le> n" for n using high_bit_clear [OF t, of "n + 2"] b [of n] that by auto
  then have top: "drop_bit 54 v = 0" by (intro bit_word_eqI) (simp add: bit_drop_bit_eq)
  then show "\<not> entry_reserved v" using b [of 2] by (simp add: entry_reserved_def)
  show "push_bit 12 (take_bit 44 (drop_bit 10 v)) = pte_to_pa v" using top by (rule decode_reference)
qed

section \<open>The processor and the software walk\<close>

lemma walk_pointer:
  assumes "load (entry_addr t (vpn_index va l)) s = Some v" "pte_pointer v" "unat (pte_to_pa v) < 2 ^ 56"
  shows "sv39_walk acc m ms (Suc l) t va (mem s) = sv39_walk acc m ms l (pte_to_pa v) va (mem s)"
proof -
  have "mem s (t + 8 * take_bit 9 (drop_bit (12 + 9 * l) va)) = Some v"
    using assms(1) unfolding index_reference by (simp add: load_def split: if_splits)
  then show ?thesis
    unfolding sv39_walk.simps option.case Let_def using pointer_reference [OF assms(2,3)] by simp
qed

lemma walk_invalid:
  assumes "load (entry_addr t (vpn_index va l)) s = Some v" "\<not> pte_valid v"
  shows "sv39_walk acc m ms (Suc l) t va (mem s) = PageFault"
proof -
  have "mem s (t + 8 * take_bit 9 (drop_bit (12 + 9 * l) va)) = Some v"
    using assms(1) unfolding index_reference by (simp add: load_def split: if_splits)
  then show ?thesis
    unfolding sv39_walk.simps option.case Let_def using assms(2) by (simp add: pte_valid_bit)
qed

text \<open>What a last-level entry grants.\<close>

definition grants :: "access \<Rightarrow> privilege \<Rightarrow> u64 \<Rightarrow> Pte \<Rightarrow> bool" where
  "grants acc m ms v \<longleftrightarrow> pte_valid v \<and> \<not> entry_reserved v \<and> leaf_permits acc m ms v"

lemma grants_leaf: "grants acc m ms v \<Longrightarrow> pte_valid v \<and> pte_leaf v \<and> (bit v 1 \<or> bit v 3)"
  by (cases acc) (auto simp: grants_def leaf_permits_def entry_reserved_def pte_leaf_bits)

lemma walk_leaf:
  assumes "load (entry_addr t (vpn_index va 0)) s = Some v"
  shows "sv39_walk acc m ms (Suc 0) t va (mem s) =
    (if grants acc m ms v then Phys (pte_to_pa v + page_offset va) else PageFault)"
proof -
  have M: "mem s (t + 8 * take_bit 9 (drop_bit (12 + 9 * 0) va)) = Some v"
    using assms(1) unfolding index_reference by (simp add: load_def split: if_splits)
  show ?thesis
  proof (cases "grants acc m ms v")
    case True
    then have "drop_bit 54 v = 0" by (simp add: grants_def entry_reserved_def)
    note d = decode_reference [OF this]
    show ?thesis unfolding sv39_walk.simps M option.case Let_def
      using True grants_leaf [OF True] d
      by (simp add: grants_def pte_valid_bit offset_reference)
  next
    case False
    then show ?thesis unfolding sv39_walk.simps M option.case Let_def
      by (auto simp: grants_def pte_valid_bit)
  qed
qed

text \<open>One level: the processor goes where the tree goes.\<close>

lemma walk_step:
  assumes ok: "pt_ok s root" and phys: "frames_physical s"
    and p: "path (p @ [vpn_index va l])" "tab s root p = Some t"
  shows "sv39_walk acc m ms (Suc l) t va (mem s) = (case tab s root (p @ [vpn_index va l]) of
    None \<Rightarrow> PageFault | Some u \<Rightarrow> sv39_walk acc m ms l u va (mem s))"
proof -
  obtain v where v: "load (entry_addr t (vpn_index va l)) s = Some v"
    "if pte_valid v then \<not> pte_leaf v \<and> tab s root (p @ [vpn_index va l]) = Some (pte_to_pa v)
     else tab s root (p @ [vpn_index va l]) = None"
    using next_of_tab [OF ok p] by blast
  show ?thesis
  proof (cases "pte_valid v")
    case True
    then have u: "tab s root (p @ [vpn_index va l]) = Some (pte_to_pa v)" using v(2) by simp
    have "mem s (entry_addr t (vpn_index va l)) = Some v"
      using v(1) by (simp add: load_def split: if_splits)
    then have "pte_pointer v" using pt_okD(5) [OF ok p] True by blast
    moreover have "unat (pte_to_pa v) < 2 ^ 56"
      using pt_okD(2) [OF ok p(1) u] phys by (simp add: frames_physical_def)
    ultimately show ?thesis using walk_pointer [OF v(1)] u by (simp only: option.case)
  next
    case False
    then show ?thesis using walk_invalid [OF v(1)] v(2) by simp
  qed
qed

text \<open>On every tree that the page table operations keep, the processor's walk ends at the leaf entry.\<close>

lemma walk_reference:
  assumes ok: "pt_ok s root" and phys: "frames_physical s"
  shows "sv39_walk acc m ms 3 root va (mem s) =
    (if grants acc m ms (leaf_pte s root va) then Phys (pte_to_pa (leaf_pte s root va) + page_offset va)
     else PageFault)"
proof -
  let ?p = "[vpn_index va 2]"
  have none: "\<not> grants acc m ms 0" by (simp add: grants_def)
  have p: "path ([] @ ?p)" "path (?p @ [vpn_index va 1])" "tab s root [] = Some root"
    by (simp_all add: path_def)
  have dp: "dir_path va = ?p @ [vpn_index va 1]" by (simp add: dir_path_def)
  have s2: "sv39_walk acc m ms 3 root va (mem s) = (case tab s root ?p of
    None \<Rightarrow> PageFault | Some u \<Rightarrow> sv39_walk acc m ms 2 u va (mem s))"
    using walk_step [OF ok phys p(1,3)] by (simp only: append_Nil) (simp add: numeral_3_eq_3 numeral_2_eq_2)
  show ?thesis
  proof (cases "tab s root ?p")
    case None
    then have "tab s root (dir_path va) = None" unfolding dp by (simp only: tab_snoc bind.simps)
    then have "leaf_pte s root va = 0" by (simp add: leaf_pte_def)
    then show ?thesis using s2 None none by simp
  next
    case (Some t)
    have s1: "sv39_walk acc m ms 2 t va (mem s) = (case tab s root (dir_path va) of
      None \<Rightarrow> PageFault | Some u \<Rightarrow> sv39_walk acc m ms 1 u va (mem s))"
      using walk_step [OF ok phys p(2) Some] unfolding dp by (simp add: numeral_2_eq_2)
    show ?thesis
    proof (cases "tab s root (dir_path va)")
      case None
      then have "leaf_pte s root va = 0" by (simp add: leaf_pte_def)
      then show ?thesis using s2 s1 Some None none by simp
    next
      case (Some u)
      show ?thesis using s2 s1 \<open>tab s root ?p = Some t\<close> Some walk_leaf [OF load_leaf [OF ok Some]] by simp
    qed
  qed
qed

lemma processor_view:
  assumes ok: "pt_ok s root" and phys: "frames_physical s" and satp: "satp c = make_satp root"
    and m: "effective_mode acc m (mstatus c) \<noteq> Machine"
  shows "processor_translate acc m c va (mem s) =
    (if canonical va \<and> grants acc (effective_mode acc m (mstatus c)) (mstatus c) (leaf_pte s root va)
     then Phys (pte_to_pa (leaf_pte s root va) + page_offset va) else PageFault)"
proof -
  have "root \<in> frame_pages (pmm_of s)" using root_frame [OF ok] by blast
  then have "is_page_aligned root" "unat root < 2 ^ 56"
    using frame_facts(1) [OF pt_okD(1) [OF ok]] phys by (simp_all add: frames_physical_def)
  from make_satp_fields [OF this] show ?thesis
    using m by (simp add: processor_translate_def Let_def satp walk_reference [OF ok phys])
qed

text \<open>The rights of an entry that \<^verbatim>\<open>map_page\<close> writes are those of its flags.\<close>

lemma grants_make:
  assumes f: "flags < 1024" and pa: "unat pa < 2 ^ 56"
  shows "grants acc m ms (make_pte pa (flags OR PteV)) \<longleftrightarrow>
    leaf_permits acc m ms flags \<and> (bit flags 2 \<longrightarrow> bit flags 1)"
proof -
  have top: "\<not> bit (make_pte pa (flags OR PteV)) n" if "54 \<le> n" for n
    using that high_bit_clear [OF pa, of "n + 2"] small_flags_bit [OF f, of n]
    by (simp add: bit_make_pte bit_or_iff)
  have "drop_bit 54 (make_pte pa (flags OR PteV)) = 0"
    by (intro bit_word_eqI) (simp add: bit_drop_bit_eq top)
  then show ?thesis
    by (auto simp: grants_def entry_reserved_def leaf_permits_def bit_make_pte bit_or_iff pte_valid_bit split: access.split)
qed

lemma boot_flag_values: "kDramFlags = 0xCE" "kDeviceFlags = 0xC6"
  by (simp_all add: kDramFlags_def kDeviceFlags_def PteR_def PteW_def PteX_def PteA_def PteD_def)

lemma boot_grants:
  assumes "unat va < 2 ^ 39"
  shows "grants acc m ms (make_pte (align_down va) (kDramFlags OR PteV)) \<longleftrightarrow> m \<noteq> User"
    "grants acc m ms (make_pte (align_down va) (kDeviceFlags OR PteV)) \<longleftrightarrow> m \<noteq> User \<and> acc \<noteq> Fetch"
proof -
  have "unat (align_down va) \<le> unat va" by (simp add: align_down_nat)
  then have a: "unat (align_down va) < 2 ^ 56" using assms by simp
  have f: "kDramFlags < 1024" "kDeviceFlags < 1024" using boot_flags by (simp_all add: leaf_flags_def)
  show "grants acc m ms (make_pte (align_down va) (kDramFlags OR PteV)) \<longleftrightarrow> m \<noteq> User"
    "grants acc m ms (make_pte (align_down va) (kDeviceFlags OR PteV)) \<longleftrightarrow> m \<noteq> User \<and> acc \<noteq> Fetch"
    unfolding grants_make [OF f(1) a] grants_make [OF f(2) a] leaf_permits_def
    by (cases acc; simp add: boot_flag_values)+
qed

text \<open>The upper half of the canonical addresses shares no entry with the regions of the boot.\<close>

lemma canonical_cases:
  assumes "canonical va"
  obtains (low) "unat va < 2 ^ 38"
  | (high) va' where "vpns va = vpns va'" "2 ^ 38 \<le> unat va'" "unat va' < 2 ^ 39" "2 ^ 63 \<le> unat va"
proof -
  from assms have "unat (drop_bit 38 va) = 0 \<or> unat (drop_bit 38 va) = 2 ^ 26 - 1"
    by (auto simp: canonical_def mask_eq_exp_minus_1)
  then have d: "unat va div 2 ^ 38 = 0 \<or> unat va div 2 ^ 38 = 2 ^ 26 - 1"
    unfolding unat_drop_bit_eq by (simp add: drop_bit_eq_div)
  show thesis
  proof (cases "unat va div 2 ^ 38 = 0")
    case True
    then have "unat va < 2 ^ 38" by (simp add: div_eq_0_iff)
    then show thesis by (rule low)
  next
    case False
    then have q: "unat va div 2 ^ 38 = 2 ^ 26 - 1" using d by simp
    let ?v = "take_bit 39 va"
    have n: "unat ?v = unat va mod 2 ^ 39" unfolding unsigned_take_bit_eq by (simp add: take_bit_eq_mod)
    have "unat va = (2 ^ 26 - 1) * 2 ^ 38 + unat va mod 2 ^ 38"
      using q div_mult_mod_eq [of "unat va" "2 ^ 38"] by simp
    also have "\<dots> = (2 ^ 25 - 1) * 2 ^ 39 + (2 ^ 38 + unat va mod 2 ^ 38)" by simp
    finally have e: "unat va = (2 ^ 25 - 1) * 2 ^ 39 + (2 ^ 38 + unat va mod 2 ^ 38)" .
    have r: "unat va mod 2 ^ 38 < 2 ^ 38" by simp
    then have "unat va mod 2 ^ 39 = 2 ^ 38 + unat va mod 2 ^ 38"
      by (subst e) (simp only: mod_mult_self3, simp)
    then have "2 ^ 38 \<le> unat ?v" "unat ?v < 2 ^ 39" using r n by simp_all
    moreover have "vpns va = vpns ?v"
      unfolding vpns_eq_iff by (rule bit_word_eqI) (auto simp: bit_simps)
    moreover have "2 ^ 63 \<le> unat va" using e by simp
    ultimately show thesis using high by blast
  qed
qed

lemma boot_region_low: "boot_mapped va \<Longrightarrow> unat va < 2 ^ 38" "in_range 0x80000000 32768 va \<Longrightarrow> boot_mapped va"
  by (auto simp: boot_mapped_def in_range_def)

lemma boot_view:
  assumes S: "pt_ok s root" "frames_physical s" "satp c = make_satp root"
    and view: "\<And>va. unat va < 2 ^ 39 \<Longrightarrow> leaf_pte s root va =
      (if in_range 0x80000000 32768 va then make_pte (align_down va) (kDramFlags OR PteV)
       else if in_range 0x10000000 1 va \<or> in_range 0x02000000 16 va
       then make_pte (align_down va) (kDeviceFlags OR PteV) else 0)"
    and m: "effective_mode acc m (mstatus c) \<noteq> Machine"
  shows "processor_translate acc m c va (mem s) =
    (if effective_mode acc m (mstatus c) = Supervisor \<and> boot_mapped va \<and>
        (acc = Fetch \<longrightarrow> in_range 0x80000000 32768 va)
     then Phys va else PageFault)"
proof -
  note p = processor_view [OF S m, of va]
  have none: "\<not> grants acc m' ms 0" for m' ms by (simp add: grants_def)
  have sup: "effective_mode acc m (mstatus c) \<noteq> User \<longleftrightarrow> effective_mode acc m (mstatus c) = Supervisor"
    using m by (cases "effective_mode acc m (mstatus c)") simp_all
  show ?thesis
  proof (cases "canonical va")
    case False
    have "\<not> boot_mapped va"
    proof
      assume "boot_mapped va"
      then have "unat va < 2 ^ 38" by (rule boot_region_low)
      then have "unat (drop_bit 38 va) = 0" unfolding unat_drop_bit_eq by (simp add: drop_bit_eq_div)
      then have "drop_bit 38 va = 0" by (simp only: unat_eq_zero)
      then show False using False by (simp add: canonical_def)
    qed
    then show ?thesis using p False by simp
  next
    case True
    then show ?thesis
    proof (cases rule: canonical_cases)
      case low
      then have va: "unat va < 2 ^ 39" by simp
      show ?thesis
        using p True boot_grants [OF va, of acc "effective_mode acc m (mstatus c)" "mstatus c"]
          identity_leaf [OF boot_flags(1), of va] identity_leaf [OF boot_flags(2), of va]
          none boot_region_low(2) [of va] sup
        unfolding view [OF va] by (auto simp: boot_mapped_def)
    next
      case (high va')
      have "\<not> boot_mapped va" "\<not> boot_mapped va'" using high boot_region_low(1) [of va'] boot_region_low(1) [of va] by auto
      then have "leaf_pte s root va = 0"
        using leaf_pte_cong [OF high(1), of s root] view [OF high(3)] boot_region_low(2) [of va']
        by (auto simp: boot_mapped_def)
      then show ?thesis using p none \<open>\<not> boot_mapped va\<close> by simp
    qed
  qed
qed

section \<open>Properties\<close>

lemma processor_walks_agree:
  assumes ok: "pt_ok s root" and phys: "frames_physical s" and satp: "satp c = make_satp root"
    and m: "effective_mode acc m (mstatus c) \<noteq> Machine" and can: "canonical va"
  shows "processor_translate acc m c va (mem s) =
    (if grants acc (effective_mode acc m (mstatus c)) (mstatus c) (leaf_pte s root va)
     then Phys (the (virt_to_phys root va s)) else PageFault)"
  unfolding processor_view [OF ok phys satp m] virt_to_phys_correct [OF ok]
  using can grants_leaf by (auto simp: Let_def)

text \<open>Property (C17): the processor and the kernel read the same page tables. From a well-formed tree
  inside the physical address space, after any calls of the page table code with any arguments,
  and with the satp value that \<^verbatim>\<open>make_satp\<close> builds, the documented Sv39 walk of the processor takes a
  canonical address to exactly the address \<^verbatim>\<open>virt_to_phys\<close> computes when the last-level entry grants the
  access (valid, no reserved bit, the right R, W, X, U, A and D bits for the privilege), and to a
  page fault when it does not; it never meets an access fault.\<close>

theorem processor_agrees_with_kernel:
  assumes "pt_ok s root" and "frames_physical s" and "satp c = make_satp root"
    and "effective_mode acc m (mstatus c) \<noteq> Machine" and "canonical va"
  shows "\<exists>s'. run_pt root calls s = Some s' \<and> processor_translate acc m c va (mem s') =
    (if grants acc (effective_mode acc m (mstatus c)) (mstatus c) (leaf_pte s' root va)
     then Phys (the (virt_to_phys root va s')) else PageFault)"
proof -
  obtain s' where s': "run_pt root calls s = Some s'" "pt_ok s' root"
    "frame_pages (pmm_of s') = frame_pages (pmm_of s)"
    using run_pt_correct [OF assms(1)] by (auto simp: pt_kept_def)
  then have "frames_physical s'" using assms(2) by (simp add: frames_physical_def)
  from processor_walks_agree [OF s'(2) this assms(3-5)] s'(1) show ?thesis by blast
qed

lemma demo_frames: "frames_physical demo_space"
proof -
  have k: "kmem_ok demo_mem"
    unfolding demo_mem_def by (rule boot_kmem_ok) (simp_all add: boot_state dram_readable_def)
  have "page_at boot_state 32767 \<in> avail_pages (pmm_of demo_mem)"
    using boot_state_slots(3) boot_state(4) by (auto simp: demo_mem_def avail_pages_def can_alloc_def)
  then have "avail_pages (pmm_of demo_mem) \<noteq> {}" by blast
  from new_root [OF k this] have "frame_pages (pmm_of demo_space) = frame_pages boot_state"
    by (auto simp: demo_space_def demo_mem_def)
  moreover have "unat f < 2 ^ 56" if "f \<in> frame_pages boot_state" for f
    using that page_at_nat [OF pmm_invD(1) [OF boot_state(2)]] boot_state(3,4) by (auto simp: frame_pages_def)
  ultimately show ?thesis by (simp add: frames_physical_def)
qed

lemma processor_agrees_with_kernel_witness:
  "\<exists>s'. run_pt demo_root [CallMap 0x1000 0x80002000 0xC7, CallUnmap 0x2000] demo_space = Some s' \<and>
    processor_translate Store Supervisor (enable_sv39 demo_root demo_csrs) 0x1234 (mem s') =
      (if grants Store Supervisor 0 (leaf_pte s' demo_root 0x1234)
       then Phys (the (virt_to_phys demo_root 0x1234 s')) else PageFault)"
proof -
  have c: "satp (enable_sv39 demo_root demo_csrs) = make_satp demo_root"
    "mstatus (enable_sv39 demo_root demo_csrs) = 0"
    by (simp_all add: enable_sv39_def write_satp_def sfence_vma_def demo_csrs_def)
  have e: "effective_mode Store Supervisor ms = Supervisor" for ms by (simp add: effective_mode_def)
  have "canonical 0x1234" by (simp add: canonical_def drop_bit_eq_div)
  then show ?thesis
    using processor_agrees_with_kernel [OF demo_space(1) demo_frames c(1), of Store Supervisor "0x1234"
        "[CallMap 0x1000 0x80002000 0xC7, CallUnmap 0x2000]"]
    unfolding e c(2) by blast
qed

text \<open>What \<^verbatim>\<open>map_page\<close> means to the processor.\<close>

lemma mapped_page_on_processor:
  assumes ok: "pt_ok s root" and m: "map_page root va pa flags s = Some (True, s')"
    and f: "leaf_flags flags" and phys: "frames_physical s" "unat pa < 2 ^ 56"
    and satp: "satp c = make_satp root" and mode: "effective_mode acc m (mstatus c) \<noteq> Machine"
    and can: "canonical va'"
  shows "processor_translate acc m c va' (mem s') =
    (if vpns va' = vpns va
     then if leaf_permits acc (effective_mode acc m (mstatus c)) (mstatus c) flags \<and> (bit flags 2 \<longrightarrow> bit flags 1)
       then Phys (pa + page_offset va') else PageFault
     else processor_translate acc m c va' (mem s))"
proof -
  obtain g: "pt_ok s' root" "leaf_pte s' root = set_leaf va (make_pte pa (flags OR PteV)) (leaf_pte s root)"
    "is_page_aligned pa" "frame_pages (pmm_of s') = frame_pages (pmm_of s)"
    using map_page_correct [OF ok, of va pa flags] m by (auto simp: grows_def)
  have fl: "flags < 1024" "flags OR PteV < 1024" using f flags_or_V_small by (simp_all add: leaf_flags_def)
  have phys': "frames_physical s'" using g(4) phys(1) by (simp add: frames_physical_def)
  show ?thesis
    unfolding processor_view [OF g(1) phys' satp mode] processor_view [OF ok phys(1) satp mode] g(2) set_leaf_def
    using can by (auto simp: grants_make [OF fl(1) phys(2)] pte_to_pa_make [OF fl(2)] align_down_of_aligned [OF g(3)])
qed

text \<open>Property (C4): what the processor sees after boot. For every kernel image below 64 MiB, through
  the tables that \<^verbatim>\<open>kernel_address_space_init\<close> builds and the satp value that \<^verbatim>\<open>enable_sv39\<close> writes and
  fences, supervisor mode reads, writes and executes the 128 MiB of DRAM and reads and writes, but
  does not execute, the UART page and the CLINT pages, each at its own physical address; every other
  one of the 2^64 addresses, the non-canonical and the upper half included, is a page fault. User mode
  has no access at all. Machine mode, in which this kernel stays, is not translated: with \<^verbatim>\<open>MPRV\<close> clear,
  as at reset, enabling Sv39 changes none of its accesses.\<close>

theorem boot_processor_view:
  assumes "image_size z + 0x9000 < 64 * 1024 * 1024" and "dram_readable m" and "\<not> bit (mstatus c) 17"
  shows "\<exists>s0 S root. pmm_init (link_layout z) pmm_static = Some s0 \<and>
    kernel_address_space_init \<lparr>kmem_of = \<lparr>pmm_of = s0, mem = m\<rparr>, g_kernel_page_table = nullptr\<rparr> = Some S \<and>
    kernel_page_table S = root \<and> tlb_synced (enable_sv39 root c) \<and>
    (\<forall>acc va. processor_translate acc Supervisor (enable_sv39 root c) va (mem (kmem_of S)) =
        (if boot_mapped va \<and> (acc = Fetch \<longrightarrow> in_range 0x80000000 32768 va) then Phys va else PageFault)) \<and>
    (\<forall>acc va. processor_translate acc User (enable_sv39 root c) va (mem (kmem_of S)) = PageFault) \<and>
    (\<forall>acc va. processor_translate acc Machine (enable_sv39 root c) va (mem (kmem_of S)) = Phys va)"
proof -
  obtain s0 S where S: "pmm_init (link_layout z) pmm_static = Some s0"
    "kernel_address_space_init \<lparr>kmem_of = \<lparr>pmm_of = s0, mem = m\<rparr>, g_kernel_page_table = nullptr\<rparr> = Some S"
    "pt_ok (kmem_of S) (g_kernel_page_table S)"
    and small: "\<forall>f \<in> frame_pages (pmm_of (kmem_of S)). unat f < 0x88000000"
    and view: "\<And>va. unat va < 2 ^ 39 \<Longrightarrow> leaf_pte (kmem_of S) (g_kernel_page_table S) va =
       (if in_range 0x80000000 32768 va then make_pte (align_down va) (kDramFlags OR PteV)
        else if in_range 0x10000000 1 va \<or> in_range 0x02000000 16 va
        then make_pte (align_down va) (kDeviceFlags OR PteV) else 0)"
    using boot_address_space [OF assms(1,2)] by blast
  let ?c = "enable_sv39 (g_kernel_page_table S) c"
  have c: "satp ?c = make_satp (g_kernel_page_table S)" "mstatus ?c = mstatus c" "tlb_synced ?c"
    by (simp_all add: enable_sv39_def write_satp_def sfence_vma_def)
  have "frames_physical (kmem_of S)" using small by (auto simp: frames_physical_def)
  note v = boot_view [OF S(3) this c(1) view]
  have "processor_translate acc Supervisor ?c va (mem (kmem_of S)) =
      (if boot_mapped va \<and> (acc = Fetch \<longrightarrow> in_range 0x80000000 32768 va) then Phys va else PageFault)"
    "processor_translate acc User ?c va (mem (kmem_of S)) = PageFault" for acc va
    using v [of acc Supervisor va] v [of acc User va] by (simp_all add: effective_mode_def)
  moreover have "processor_translate acc Machine ?c va (mem (kmem_of S)) = Phys va" for acc va
    using assms(3) by (simp add: processor_translate_def effective_mode_def c)
  ultimately show ?thesis using S(1,2) c(3) by (simp add: kernel_page_table_def)
qed

lemma boot_processor_view_witness:
  "\<exists>s0 S root. pmm_init (link_layout demo_image) pmm_static = Some s0 \<and>
    kernel_address_space_init \<lparr>kmem_of = \<lparr>pmm_of = s0, mem = (\<lambda>_. Some 7)\<rparr>, g_kernel_page_table = nullptr\<rparr> = Some S \<and>
    kernel_page_table S = root \<and>
    processor_translate Fetch Supervisor (enable_sv39 root demo_csrs) 0x80001234 (mem (kmem_of S)) = Phys 0x80001234 \<and>
    processor_translate Fetch Supervisor (enable_sv39 root demo_csrs) 0x10000005 (mem (kmem_of S)) = PageFault"
proof -
  have "image_size demo_image + 0x9000 < 64 * 1024 * 1024" "dram_readable (\<lambda>_. Some 7)" "\<not> bit (mstatus demo_csrs) 17"
    by (simp_all add: image_size_def demo_image_def dram_readable_def demo_csrs_def)
  from boot_processor_view [OF this] obtain s0 S root where
    S: "pmm_init (link_layout demo_image) pmm_static = Some s0"
    "kernel_address_space_init \<lparr>kmem_of = \<lparr>pmm_of = s0, mem = (\<lambda>_. Some 7)\<rparr>, g_kernel_page_table = nullptr\<rparr> = Some S"
    "kernel_page_table S = root"
    "\<forall>acc va. processor_translate acc Supervisor (enable_sv39 root demo_csrs) va (mem (kmem_of S)) =
        (if boot_mapped va \<and> (acc = Fetch \<longrightarrow> in_range 0x80000000 32768 va) then Phys va else PageFault)"
    by blast
  have "boot_mapped 0x80001234" "in_range 0x80000000 32768 0x80001234" "\<not> in_range 0x80000000 32768 0x10000005"
    by (simp_all add: boot_mapped_def in_range_def)
  then show ?thesis using S by auto
qed

end
