(* ===== verification/Entry.thy ===== *)
theory Entry
  imports Memmap Csr
begin

text \<open>
  \<^verbatim>\<open>boot/entry.S\<close>: the first instructions of the hart. \<open>entry_state\<close> is what they touch: the
  global pointer, the stack pointer, satp and the bytes of memory. The loop that clears the
  bss section compares unsigned addresses and stores eight zero bytes at a time, so it is the
  \<open>for\<close> loop of the prelude with step 8; it may pass the end of the section by up to seven bytes.
\<close>

record entry_state =
  entry_gp :: u64
  entry_sp :: u64
  entry_csr :: csrs
  entry_mem :: "addr \<Rightarrow> u8"

definition store_zero_dword :: "addr \<Rightarrow> (addr \<Rightarrow> u8) \<Rightarrow> addr \<Rightarrow> u8" where
  "store_zero_dword a m = (\<lambda>b. if b - a < 8 then 0 else m b)"

definition clear_bss :: "linker_symbols \<Rightarrow> (addr \<Rightarrow> u8) \<Rightarrow> (addr \<Rightarrow> u8) option" where
  "clear_bss L m = do {
     r \<leftarrow> for_loop 8 (bss_end_addr L) (\<lambda>t5 m. Some (Inl (store_zero_dword t5 m))) (bss_start_addr L) m;
     (case r of Inl m \<Rightarrow> Some m | Inr m \<Rightarrow> Some m)
   }"

definition start :: "linker_symbols \<Rightarrow> entry_state \<Rightarrow> entry_state option" where
  "start L s = do {
     let s = s\<lparr>entry_gp := global_pointer_addr L\<rparr>;
     let s = s\<lparr>entry_csr := write_satp 0 (entry_csr s)\<rparr>;
     let s = s\<lparr>entry_sp := stack_top_addr L\<rparr>;
     m \<leftarrow> clear_bss L (entry_mem s);
     Some (s\<lparr>entry_mem := m\<rparr>)
   }"

section \<open>The bss loop\<close>

lemma dword_covers:
  fixes a s :: u64
  assumes "unat s + 8 * k + 7 < 2 ^ 64"
  shows "a - (s + of_nat k * 8) < 8 \<longleftrightarrow> unat s + 8 * k \<le> unat a \<and> unat a < unat s + 8 * k + 8"
proof -
  let ?b = "s + of_nat k * 8"
  have b: "unat ?b = unat s + 8 * k"
    using assms by (simp add: unat_word_ariths unat_of_nat64 mod_less)
  show ?thesis
  proof (cases "?b \<le> a")
    case True
    then have "unat (a - ?b) = unat a - unat ?b" by (rule unat_sub)
    with True b show ?thesis by (auto simp: word_less_nat_alt word_le_nat_alt)
  next
    case False
    then have lt: "unat a < unat ?b" by (simp add: not_le word_less_nat_alt)
    have "unat (a - ?b) = unat a + 2 ^ 64 - unat ?b"
      using lt by (simp add: unat_sub_if_size word_size)
    then have "8 \<le> unat (a - ?b)" using lt assms b by simp
    then show ?thesis using lt b by (simp add: word_less_nat_alt)
  qed
qed

lemma clear_bss_loop:
  assumes le: "unat s \<le> unat e" and top: "unat e + 8 < 2 ^ 64"
    and N: "N = (unat e - unat s + 7) div 8"
  shows "for_loop 8 e (\<lambda>t5 m. Some (Inl (store_zero_dword t5 m) :: (addr \<Rightarrow> u8) + 'r)) s m =
    Some (Inl (\<lambda>a. if unat s \<le> unat a \<and> unat a < unat s + 8 * N then 0 else m a))"
proof -
  let ?f = "\<lambda>k a. if unat s \<le> unat a \<and> unat a < unat s + 8 * k then 0 else m a"
  have bound: "8 * N \<le> unat e - unat s + 7" "unat e - unat s \<le> 8 * N" using N by simp_all
  have val: "unat (s + of_nat k * 8) = unat s + 8 * k" if "k \<le> N" for k
    using that bound le top by (simp add: unat_word_ariths unat_of_nat64 mod_less)
  have "(\<exists>s'. for_loop 8 e (\<lambda>t5 m. Some (Inl (store_zero_dword t5 m) :: (addr \<Rightarrow> u8) + 'r)) s m = Some (Inl s') \<and> s' = ?f N) \<or>
      (\<exists>r. for_loop 8 e (\<lambda>t5 m. Some (Inl (store_zero_dword t5 m) :: (addr \<Rightarrow> u8) + 'r)) s m = Some (Inr r) \<and> False)"
  proof (rule for_loop_rule [where N = N and I = "\<lambda>k s. s = ?f k"])
    fix k assume "k < N"
    then have "8 * k < unat e - unat s" using N by linarith
    then show "s + of_nat k * 8 < e" using val [of k] \<open>k < N\<close> by (simp add: word_less_nat_alt)
  next
    show "\<not> s + of_nat N * 8 < e" using val [of N] bound le by (simp add: word_less_nat_alt)
  next
    fix k s'
    assume k: "k < N" and I: "s' = ?f k"
    have "unat s + 8 * k + 7 < 2 ^ 64" using k bound le top by linarith
    from dword_covers [OF this] have "store_zero_dword (s + of_nat k * 8) s' = ?f (Suc k)"
      by (auto simp: store_zero_dword_def I fun_eq_iff)
    then show "(\<exists>s''. Some (Inl (store_zero_dword (s + of_nat k * 8) s') :: (addr \<Rightarrow> u8) + 'r) = Some (Inl s'') \<and> s'' = ?f (Suc k)) \<or>
        (\<exists>r. Some (Inl (store_zero_dword (s + of_nat k * 8) s') :: (addr \<Rightarrow> u8) + 'r) = Some (Inr r) \<and> False)"
      by simp
  qed (auto simp: fun_eq_iff)
  then show ?thesis by blast
qed

lemma start_clears:
  assumes "image_size z + 0x9000 < 128 * 1024 * 1024" and "L = link_layout z"
  shows "\<exists>s'. start L s = Some s' \<and>
    (\<forall>a. (bss_start_addr L \<le> a \<and> a < bss_end_addr L \<longrightarrow> entry_mem s' a = 0) \<and>
         (a < bss_start_addr L \<or> boot_stack_bottom_addr L \<le> a \<longrightarrow> entry_mem s' a = entry_mem s a)) \<and>
    entry_sp s' = boot_stack_top_addr L \<and> unat (entry_sp s') mod 16 = 0 \<and>
    unat (entry_sp s') = unat (boot_stack_bottom_addr L) + 0x4000 \<and> satp (entry_csr s') = 0"
proof -
  have ok: "layout_ok L" using link_layout_ok [OF assms(1)] assms(2) by simp
  let ?s = "bss_start_addr L" and ?e = "bss_end_addr L" and ?b = "boot_stack_bottom_addr L"
  have ord: "unat ?s \<le> unat ?e" "unat ?e \<le> unat ?b" "unat ?b < unat (kernel_end_addr L)"
    and top: "unat (kernel_end_addr L) < 0x88000000"
    using ok by (auto simp: layout_ok_def kDram_def word_less_nat_alt word_le_nat_alt)
  let ?N = "(unat ?e - unat ?s + 7) div 8"
  have "unat ?s mod 4096 = 0" using ok by (simp add: layout_ok_def is_page_aligned_nat)
  then have al: "unat ?s mod 8 = 0" using mod_mod_cancel [of 8 4096 "unat ?s"] by simp
  have bot: "?b = ld_align 16 ?e" and sp: "stack_top_addr L = boot_stack_top_addr L"
    "boot_stack_top_addr L = ?b + 0x4000" using assms(2) by (simp_all add: link_layout_def Let_def)
  have b: "unat ?b = (unat ?e + 15) div 16 * 16" unfolding bot using ord top by (intro ld_align_16_nat) simp
  have pad: "unat ?s + 8 * ?N \<le> unat ?b"
  proof -
    obtain u where u: "unat ?s = 8 * u" using al by (auto elim: dvdE simp: mod_eq_0_iff_dvd)
    have "8 dvd unat ?b" unfolding b by (rule dvd_mult) simp
    then obtain w where w: "unat ?b = 8 * w" by (elim dvdE)
    have "u \<le> w" and "unat ?e - 8 * u + 7 \<le> 8 * (w - u) + 7" using ord(1,2) unfolding u w by simp_all
    then have "(unat ?e - 8 * u + 7) div 8 \<le> (8 * (w - u) + 7) div 8" by (intro div_le_mono)
    also have "\<dots> = w - u" by simp
    finally show ?thesis unfolding u w using \<open>u \<le> w\<close> by simp
  qed
  have cover: "unat ?e \<le> unat ?s + 8 * ?N" using ord(1) by linarith
  have e8: "unat ?e + 8 < 2 ^ 64" using ord top by simp
  have run: "clear_bss L (entry_mem s) = Some (\<lambda>a. if unat ?s \<le> unat a \<and> unat a < unat ?s + 8 * ?N then 0 else entry_mem s a)"
    unfolding clear_bss_def clear_bss_loop [OF ord(1) e8 refl] by simp
  have u: "unat (?b + 0x4000) = unat ?b + 0x4000" using ord top by (intro unat_add_small [THEN trans]) simp_all
  moreover have "(unat ?b + 0x4000) mod 16 = 0" unfolding b by simp
  ultimately show ?thesis
    using run cover pad by (simp add: start_def sp write_satp_def word_less_nat_alt word_le_nat_alt) linarith
qed

lemma start_csr: "start L s = Some s' \<Longrightarrow> entry_csr s' = write_satp 0 (entry_csr s)"
  by (auto simp: start_def Let_def bind_eq_Some_conv)

section \<open>Properties\<close>

text \<open>Property (C13): the entry code clears the bss section and nothing that matters besides. For every
  image that fits in memory the loop ends; afterwards every byte of the section is zero, every
  byte below it and every byte from the boot stack up is as the loader left it (at most the
  padding between the section and the stack is cleared as well), the stack pointer is the
  16-byte aligned top of the 16 KiB boot stack, and translation is off.\<close>

theorem entry_clears_bss:
  assumes "image_size z + 0x9000 < 128 * 1024 * 1024" and "L = link_layout z"
  shows "\<exists>s'. start L s = Some s' \<and>
    (\<forall>a. (bss_start_addr L \<le> a \<and> a < bss_end_addr L \<longrightarrow> entry_mem s' a = 0) \<and>
         (a < bss_start_addr L \<or> boot_stack_bottom_addr L \<le> a \<longrightarrow> entry_mem s' a = entry_mem s a)) \<and>
    entry_sp s' = boot_stack_top_addr L \<and> unat (entry_sp s') mod 16 = 0 \<and>
    unat (entry_sp s') = unat (boot_stack_bottom_addr L) + 0x4000 \<and> satp (entry_csr s') = 0"
  by (rule start_clears [OF assms])

text \<open>An image whose bss section ends at an odd address, over memory full of ones.\<close>

definition small_image :: section_sizes where
  "small_image = \<lparr>text_size = 0x8000, rodata_size = 0x1000, data_size = 0x1000, bss_size = 0x6003\<rparr>"

definition loaded_state :: entry_state where
  "loaded_state = \<lparr>entry_gp = 0, entry_sp = 0,
     entry_csr = \<lparr>satp = 7, mtvec = 0, mepc = 0, mcause = 0, mtval = 0, mstatus = 0, mhartid = 0, mie = 0,
       tlb_synced = False\<rparr>, entry_mem = (\<lambda>_. 255)\<rparr>"

lemma entry_clears_bss_witness:
  "\<exists>s'. start (link_layout small_image) loaded_state = Some s' \<and> entry_mem s' 0x80010002 = 0 \<and>
    entry_mem s' 0x80010010 = 255 \<and> entry_mem s' 0x80009FFF = 255 \<and> entry_sp s' = 0x80014010"
proof -
  have "image_size small_image + 0x9000 < 128 * 1024 * 1024" by (simp add: image_size_def small_image_def)
  from entry_clears_bss [OF this refl, of loaded_state] obtain s' where
    s': "start (link_layout small_image) loaded_state = Some s'"
      "\<And>a. bss_start_addr (link_layout small_image) \<le> a \<Longrightarrow> a < bss_end_addr (link_layout small_image) \<Longrightarrow> entry_mem s' a = 0"
      "\<And>a. a < bss_start_addr (link_layout small_image) \<or> boot_stack_bottom_addr (link_layout small_image) \<le> a \<Longrightarrow>
        entry_mem s' a = entry_mem loaded_state a"
      "entry_sp s' = boot_stack_top_addr (link_layout small_image)" by blast
  have L: "bss_start_addr (link_layout small_image) = 0x8000A000" "bss_end_addr (link_layout small_image) = 0x80010003"
    "boot_stack_bottom_addr (link_layout small_image) = 0x80010010" "boot_stack_top_addr (link_layout small_image) = 0x80014010"
    by (simp_all add: link_layout_def ld_align_def small_image_def)
  show ?thesis
    using s'(1,4) s'(2) [of "0x80010002"] s'(3) [of "0x80010010"] s'(3) [of "0x80009FFF"]
    by (simp add: L loaded_state_def)
qed

end
