(* ===== verification/Uart.thy ===== *)
theory Uart
  imports Memmap
begin

text \<open>
  \<^verbatim>\<open>drivers/uart/uart.h\<close> and \<^verbatim>\<open>uart.cpp\<close>: the polled 16550 console. The devices are behind a
  bus: every volatile read takes its value from an arbitrary input that depends on the number
  of reads done so far, and every volatile write is appended to a log, so the order of the
  writes is part of the state. A polling loop that never sees its condition is the value
  \<open>None\<close>. The locale \<open>char_device\<close> is the contract of a character device; it is interpreted
  on the raw output and on \<^verbatim>\<open>putc\<close>.
\<close>

section \<open>The device bus\<close>

datatype bus_write = Byte addr u8 | Dword addr u64

record bus =
  byte_in :: "nat \<Rightarrow> addr \<Rightarrow> u8"
  dword_in :: "nat \<Rightarrow> addr \<Rightarrow> u64"
  bus_reads :: nat
  bus_writes :: "bus_write list"

definition read_byte :: "addr \<Rightarrow> bus \<Rightarrow> u8 \<times> bus" where
  "read_byte a b = (byte_in b (bus_reads b) a, b\<lparr>bus_reads := Suc (bus_reads b)\<rparr>)"

definition write_byte :: "addr \<Rightarrow> u8 \<Rightarrow> bus \<Rightarrow> bus" where
  "write_byte a v b = b\<lparr>bus_writes := bus_writes b @ [Byte a v]\<rparr>"

definition read_dword :: "addr \<Rightarrow> bus \<Rightarrow> u64 \<times> bus" where
  "read_dword a b = (dword_in b (bus_reads b) a, b\<lparr>bus_reads := Suc (bus_reads b)\<rparr>)"

definition write_dword :: "addr \<Rightarrow> u64 \<Rightarrow> bus \<Rightarrow> bus" where
  "write_dword a v b = b\<lparr>bus_writes := bus_writes b @ [Dword a v]\<rparr>"

section \<open>The operations of UART\<close>

datatype Reg = RBR_THR_DLL | IER_DLM | FCR_IIR | LCR | MCR | LSR

fun reg_offset :: "Reg \<Rightarrow> addr" where
  "reg_offset RBR_THR_DLL = 0x00"
| "reg_offset IER_DLM = 0x01"
| "reg_offset FCR_IIR = 0x02"
| "reg_offset LCR = 0x03"
| "reg_offset MCR = 0x04"
| "reg_offset LSR = 0x05"

definition kLcr8n1 :: u8 where "kLcr8n1 = 0x03"
definition kFcrEnableFifo :: u8 where "kFcrEnableFifo = 0x01"
definition kFcrClearRxTx :: u8 where "kFcrClearRxTx = 0x06"
definition kLsrThrEmpty :: u8 where "kLsrThrEmpty = 0x20"

definition g_uart0 :: addr where
  "g_uart0 = region_base kUart0"

definition uart_init :: "addr \<Rightarrow> bus \<Rightarrow> bus" where
  "uart_init base b = b"

definition reg :: "addr \<Rightarrow> Reg \<Rightarrow> addr" where
  "reg base r = base + reg_offset r"

definition write_reg :: "addr \<Rightarrow> Reg \<Rightarrow> u8 \<Rightarrow> bus \<Rightarrow> bus" where
  "write_reg base r v b = write_byte (reg base r) v b"

definition read_reg :: "addr \<Rightarrow> Reg \<Rightarrow> bus \<Rightarrow> u8 \<times> bus" where
  "read_reg base r b = read_byte (reg base r) b"

partial_function (option) wait_tx_ready :: "addr \<Rightarrow> bus \<Rightarrow> bus option" where
  "wait_tx_ready base b =
     (case read_reg base LSR b of (v, b') \<Rightarrow>
        if v AND kLsrThrEmpty = 0 then wait_tx_ready base b' else Some b')"

definition putc_raw :: "addr \<Rightarrow> u8 \<Rightarrow> bus \<Rightarrow> bus option" where
  "putc_raw base ch b = do {
     b \<leftarrow> wait_tx_ready base b;
     Some (write_reg base RBR_THR_DLL ch b)
   }"

definition putc :: "addr \<Rightarrow> u8 \<Rightarrow> bus \<Rightarrow> bus option" where
  "putc base ch b = do {
     b \<leftarrow> (if ch = of_char (CHR 0x0A) then putc_raw base (of_char (CHR 0x0D)) b else Some b);
     putc_raw base ch b
   }"

text \<open>
  A C string pointer is the null pointer (\<open>None\<close>) or the bytes from the pointed-to position to
  the end of the array; running over its end is undefined behaviour. \<open>cstr\<close> is a string
  literal.
\<close>

definition cstr :: "string \<Rightarrow> u8 list" where
  "cstr s = map of_char s @ [0]"

fun puts_loop :: "addr \<Rightarrow> u8 list \<Rightarrow> bus \<Rightarrow> bus option" where
  "puts_loop base [] b = None"
| "puts_loop base (c # cs) b =
     (if c \<noteq> 0 then do { b \<leftarrow> putc base c b; puts_loop base cs b } else Some b)"

definition puts :: "addr \<Rightarrow> u8 list option \<Rightarrow> bus \<Rightarrow> bus option" where
  "puts base p b = (case p of None \<Rightarrow> Some b | Some s \<Rightarrow> puts_loop base s b)"

abbreviation print :: "string \<Rightarrow> bus \<Rightarrow> bus option" where
  "print s \<equiv> puts g_uart0 (Some (cstr s))"

definition kHex :: "u8 list" where
  "kHex = cstr ''0123456789abcdef''"

function put_hex_loop :: "addr \<Rightarrow> u64 \<Rightarrow> int \<Rightarrow> bus \<Rightarrow> bus option" where
  "put_hex_loop base val shift b =
     (if shift \<ge> 0 then do {
        let nibble = (ucast (drop_bit (nat shift) val AND 0xF) :: u8);
        c \<leftarrow> rd kHex (ucast nibble);
        b \<leftarrow> putc base c b;
        put_hex_loop base val (shift - 4) b
      }
      else Some b)"
  by pat_completeness auto
termination by (relation "measure (\<lambda>(_, _, shift, _). nat (shift + 4))") auto

definition put_hex :: "addr \<Rightarrow> u64 \<Rightarrow> bus \<Rightarrow> bus option" where
  "put_hex base val b = do {
     b \<leftarrow> putc base (of_char (CHR ''0'')) b;
     b \<leftarrow> putc base (of_char (CHR ''x'')) b;
     put_hex_loop base val 60 b
   }"

function dec_fill :: "u64 \<Rightarrow> u8 list \<Rightarrow> int \<Rightarrow> (u8 list \<times> int) option" where
  "dec_fill val buf i =
     (if val > 0 then do {
        buf \<leftarrow> wr buf (word_of_int i) (ucast (of_char (CHR ''0'') + val mod 10 :: u64));
        dec_fill (val div 10) buf (i + 1)
      }
      else Some (buf, i))"
  by pat_completeness auto
termination
proof (relation "measure (\<lambda>(val, _, _). unat val)")
  fix val :: u64 and buf x :: "u8 list" and i :: int
  assume "val > 0"
  then have "unat val > 0" by (simp add: unat_gt_0)
  then show "((val div 10, x, i + 1), (val, buf, i)) \<in> measure (\<lambda>(val, _, _). unat val)"
    by (simp add: unat_div)
qed simp

function dec_emit :: "addr \<Rightarrow> u8 list \<Rightarrow> int \<Rightarrow> bus \<Rightarrow> bus option" where
  "dec_emit base buf i b =
     (if i > 0 then do {
        c \<leftarrow> rd buf (word_of_int (i - 1));
        b \<leftarrow> putc base c b;
        dec_emit base buf (i - 1) b
      }
      else Some b)"
  by pat_completeness auto
termination by (relation "measure (\<lambda>(_, _, i, _). nat i)") auto

definition put_dec :: "addr \<Rightarrow> u64 \<Rightarrow> bus \<Rightarrow> bus option" where
  "put_dec base val b =
     (if val = 0 then putc base (of_char (CHR ''0'')) b
      else do {
        (buf, i) \<leftarrow> dec_fill val (replicate 20 0) 0;
        dec_emit base buf i b
      })"

declare put_hex_loop.simps [simp del] dec_fill.simps [simp del] dec_emit.simps [simp del]

section \<open>The contract of a character device\<close>

fun put_all :: "(u8 \<Rightarrow> 's \<Rightarrow> 's option) \<Rightarrow> u8 list \<Rightarrow> 's \<Rightarrow> 's option" where
  "put_all put [] s = Some s"
| "put_all put (c # cs) s = do { s \<leftarrow> put c s; put_all put cs s }"

locale char_device =
  fixes put :: "u8 \<Rightarrow> 's \<Rightarrow> 's option"
    and emits :: "u8 list \<Rightarrow> 's \<Rightarrow> 's \<Rightarrow> bool"
    and ready :: "'s \<Rightarrow> bool"
    and enc :: "u8 \<Rightarrow> u8 list"
  assumes put_law: "ready s \<Longrightarrow> \<exists>s'. put c s = Some s' \<and> emits (enc c) s s'"
    and emits_nil: "emits [] s s"
    and emits_append: "emits xs s s1 \<Longrightarrow> emits ys s1 s2 \<Longrightarrow> emits (xs @ ys) s s2"
    and emits_ready: "emits xs s s' \<Longrightarrow> ready s' = ready s"
begin

lemma put_all_law: "ready s \<Longrightarrow> \<exists>s'. put_all put cs s = Some s' \<and> emits (concat (map enc cs)) s s'"
proof (induction cs arbitrary: s)
  case Nil
  then show ?case using emits_nil by simp
next
  case (Cons c cs)
  from put_law [OF Cons.prems] obtain s1 where s1: "put c s = Some s1" "emits (enc c) s s1" by blast
  with Cons.prems have "ready s1" using emits_ready by blast
  from Cons.IH [OF this] s1 show ?case using emits_append by fastforce
qed

end

section \<open>The console implements it\<close>

text \<open>
  \<open>responsive\<close> is the documented behaviour of the transmitter: the holding register becomes
  empty again after every character.
\<close>

definition responsive :: "addr \<Rightarrow> bus \<Rightarrow> bool" where
  "responsive base b = (\<forall>n. \<exists>m \<ge> n. byte_in b m (base + 5) AND kLsrThrEmpty \<noteq> 0)"

definition sent :: "addr \<Rightarrow> u8 list \<Rightarrow> bus \<Rightarrow> bus \<Rightarrow> bool" where
  "sent base cs b b' = (bus_reads b \<le> bus_reads b' \<and>
     b' = b\<lparr>bus_reads := bus_reads b', bus_writes := bus_writes b @ map (Byte base) cs\<rparr>)"

definition crlf :: "u8 \<Rightarrow> u8 list" where
  "crlf c = (if c = 10 then [13, 10] else [c])"

lemma read_lsr: "read_reg base LSR b = (byte_in b (bus_reads b) (base + 5), b\<lparr>bus_reads := Suc (bus_reads b)\<rparr>)"
  by (simp add: read_reg_def reg_def read_byte_def)

lemma wait_tx_ready_correct:
  assumes "n \<ge> bus_reads b" "byte_in b n (base + 5) AND kLsrThrEmpty \<noteq> 0"
  shows "\<exists>t. wait_tx_ready base b = Some (b\<lparr>bus_reads := Suc t\<rparr>) \<and> bus_reads b \<le> t \<and>
    byte_in b t (base + 5) AND kLsrThrEmpty \<noteq> 0 \<and>
    (\<forall>k. bus_reads b \<le> k \<and> k < t \<longrightarrow> byte_in b k (base + 5) AND kLsrThrEmpty = 0)"
  using assms
proof (induction "n - bus_reads b" arbitrary: b)
  case 0
  then show ?case
    by (intro exI [of _ n]) (auto simp: wait_tx_ready.simps [of base b] read_lsr)
next
  case (Suc d)
  show ?case
  proof (cases "byte_in b (bus_reads b) (base + 5) AND kLsrThrEmpty = 0")
    case True
    let ?b = "b\<lparr>bus_reads := Suc (bus_reads b)\<rparr>"
    have n: "d = n - bus_reads ?b" "bus_reads ?b \<le> n" "byte_in ?b n (base + 5) AND kLsrThrEmpty \<noteq> 0"
      using Suc.hyps(2) Suc.prems by auto
    from Suc.hyps(1) [OF n] obtain t where
      "wait_tx_ready base ?b = Some (b\<lparr>bus_reads := Suc t\<rparr>)" "Suc (bus_reads b) \<le> t"
      "byte_in b t (base + 5) AND kLsrThrEmpty \<noteq> 0"
      and no: "\<And>k. Suc (bus_reads b) \<le> k \<Longrightarrow> k < t \<Longrightarrow> byte_in b k (base + 5) AND kLsrThrEmpty = 0"
      by auto
    moreover have "byte_in b k (base + 5) AND kLsrThrEmpty = 0" if "bus_reads b \<le> k" "k < t" for k
      using that True no [of k] by (cases "k = bus_reads b") auto
    ultimately show ?thesis using True
      by (intro exI [of _ t]) (auto simp: wait_tx_ready.simps [of base b] read_lsr)
  next
    case False
    then show ?thesis
      by (intro exI [of _ "bus_reads b"]) (auto simp: wait_tx_ready.simps [of base b] read_lsr)
  qed
qed

lemma wait_tx_ready_returns:
  "wait_tx_ready base b = Some b' \<Longrightarrow> \<exists>n \<ge> bus_reads b. byte_in b n (base + 5) AND kLsrThrEmpty \<noteq> 0"
proof (rule wait_tx_ready.raw_induct [where P = "\<lambda>base b b'. \<exists>n \<ge> bus_reads b.
    byte_in b n (base + 5) AND kLsrThrEmpty \<noteq> 0"])
  fix wait :: "addr \<Rightarrow> bus \<Rightarrow> bus option" and base b b'
  assume IH: "\<And>base b b'. wait base b = Some b' \<Longrightarrow>
      \<exists>n \<ge> bus_reads b. byte_in b n (base + 5) AND kLsrThrEmpty \<noteq> 0"
    and step: "(case read_reg base LSR b of (v, b') \<Rightarrow>
      if v AND kLsrThrEmpty = 0 then wait base b' else Some b') = Some b'"
  show "\<exists>n \<ge> bus_reads b. byte_in b n (base + 5) AND kLsrThrEmpty \<noteq> 0"
  proof (cases "byte_in b (bus_reads b) (base + 5) AND kLsrThrEmpty = 0")
    case True
    with step have "wait base (b\<lparr>bus_reads := Suc (bus_reads b)\<rparr>) = Some b'" by (simp add: read_lsr)
    from IH [OF this] show ?thesis by (auto intro: Suc_leD)
  qed blast
qed

lemma putc_raw_sent:
  assumes "responsive base b"
  shows "\<exists>b'. putc_raw base c b = Some b' \<and> sent base [c] b b'"
proof -
  from assms obtain n where "n \<ge> bus_reads b" "byte_in b n (base + 5) AND kLsrThrEmpty \<noteq> 0"
    unfolding responsive_def by blast
  from wait_tx_ready_correct [OF this] show ?thesis
    by (auto simp: putc_raw_def sent_def write_reg_def reg_def write_byte_def)
qed

lemma sent_nil: "sent base [] b b"
  by (simp add: sent_def)

lemma sent_append: "sent base xs b b1 \<Longrightarrow> sent base ys b1 b2 \<Longrightarrow> sent base (xs @ ys) b b2"
  unfolding sent_def by (cases b; cases b1; cases b2) simp

lemma sent_responsive: "sent base xs b b' \<Longrightarrow> responsive base b' = responsive base b"
  unfolding sent_def responsive_def by (cases b; cases b') simp

interpretation raw: char_device "putc_raw base" "sent base" "responsive base" "\<lambda>c. [c]" for base
  by unfold_locales (auto intro: putc_raw_sent sent_nil sent_append simp: sent_responsive)

lemma putc_raws: "putc base c b = put_all (putc_raw base) (crlf c) b"
  by (cases "putc_raw base 13 b"; cases "putc_raw base c b")
    (auto simp: putc_def crlf_def split: option.splits bind_splits)

interpretation con: char_device "putc base" "sent base" "responsive base" crlf for base
proof unfold_locales
  fix b c
  assume "responsive base b"
  from raw.put_all_law [OF this, of "crlf c"] show "\<exists>b'. putc base c b = Some b' \<and> sent base (crlf c) b b'"
    by (simp add: putc_raws)
qed (auto intro: sent_nil sent_append simp: sent_responsive)

lemma put_all_single [simp]: "put_all put [c] = put c"
proof
  fix s
  show "put_all put [c] s = put c s" by (cases "put c s") simp_all
qed

lemma put_all_Cons: "put_all put (c # cs) = (\<lambda>s. put c s \<bind> put_all put cs)"
  by (rule ext) simp

lemma con_emits:
  "responsive base b \<Longrightarrow> \<exists>b'. put_all (putc base) cs b = Some b' \<and> sent base (concat (map crlf cs)) b b' \<and> responsive base b'"
  using con.put_all_law [of base b cs] sent_responsive by blast

section \<open>Texts\<close>

text \<open>The characters that come before the terminating NUL.\<close>

lemma puts_loop_text: "0 \<notin> set cs \<Longrightarrow> puts_loop base (cs @ 0 # rest) b = put_all (putc base) cs b"
  by (induction cs arbitrary: b) (auto intro!: ext split: bind_splits)

text \<open>Hexadecimal: sixteen digits, the most significant one first.\<close>

definition hex_text :: "u64 \<Rightarrow> u8 list" where
  "hex_text v = map (\<lambda>k. kHex ! (unat v div 16 ^ k mod 16)) (rev [0..<16])"

lemma kHex_length [simp]: "length kHex = 17"
  by (simp add: kHex_def cstr_def)

lemma unat_nibble: "unat (drop_bit (4 * k) v AND 0xF :: u64) = unat v div 16 ^ k mod 16"
proof -
  have "drop_bit (4 * k) v AND 0xF = take_bit 4 (drop_bit (4 * k) v)"
    by (simp only: take_bit_eq_mask) (simp add: mask_eq_exp_minus_1)
  then have "unat (drop_bit (4 * k) v AND 0xF) = take_bit 4 (unat (drop_bit (4 * k) v))"
    by (simp only: unsigned_take_bit_eq)
  also have "\<dots> = unat v div 16 ^ k mod 16"
    unfolding unat_drop_bit_eq take_bit_eq_mod unfolding drop_bit_eq_div power_mult by simp
  finally show ?thesis .
qed

lemma hex_nibble:
  "rd kHex (ucast (ucast (drop_bit (4 * k) v AND 0xF :: u64) :: u8)) = Some (kHex ! (unat v div 16 ^ k mod 16))"
proof -
  have "unat (ucast (ucast x :: u8) :: u64) = unat x" if "unat x < 16" for x :: u64
    using that by (simp add: unsigned_ucast_eq unsigned_take_bit_eq take_bit_nat_eq_self)
  from this [of "drop_bit (4 * k) v AND 0xF"]
  have "unat (ucast (ucast (drop_bit (4 * k) v AND 0xF) :: u8) :: u64) = unat v div 16 ^ k mod 16"
    unfolding unat_nibble by simp
  then show ?thesis by (simp add: rd_def)
qed

lemma put_hex_loop_text:
  "put_hex_loop base v (4 * int k - 4) =
     put_all (putc base) (map (\<lambda>k. kHex ! (unat v div 16 ^ k mod 16)) (rev [0..<k]))"
proof (induction k)
  case 0
  then show ?case by (simp add: put_hex_loop.simps fun_eq_iff)
next
  case (Suc k)
  have "nat (4 * int (Suc k) - 4) = 4 * k" by simp
  with Suc.IH show ?case
    by (subst fun_eq_iff, subst put_hex_loop.simps) (simp add: hex_nibble Let_def)
qed

text \<open>Decimal: \<open>low_digits\<close> is the content of the buffer, the least significant digit first.\<close>

fun low_digits :: "nat \<Rightarrow> u8 list" where
  "low_digits n = (if n = 0 then [] else (48 + of_nat (n mod 10)) # low_digits (n div 10))"

declare low_digits.simps [simp del]

definition dec_text :: "nat \<Rightarrow> u8 list" where
  "dec_text n = (if n = 0 then [48] else rev (low_digits n))"

definition digit_value :: "u8 \<Rightarrow> nat" where
  "digit_value d = (if d < 58 then unat d - 48 else unat d - 87)"

definition text_value :: "nat \<Rightarrow> u8 list \<Rightarrow> nat" where
  "text_value r ds = foldl (\<lambda>a d. r * a + digit_value d) 0 ds"

lemma low_digits_length: "n < 10 ^ k \<Longrightarrow> length (low_digits n) \<le> k"
proof (induction k arbitrary: n)
  case 0
  then show ?case by (simp add: low_digits.simps)
next
  case (Suc k)
  then have "n div 10 < 10 ^ k" by (simp add: less_mult_imp_div_less mult.commute)
  from Suc.IH [OF this] show ?case by (simp add: low_digits.simps [of n])
qed

lemma low_digits_in: "d \<in> set (low_digits n) \<Longrightarrow> 48 \<le> unat d \<and> unat d \<le> 57"
proof (induction n rule: low_digits.induct)
  case (1 n)
  show ?case
  proof (cases "n = 0")
    case False
    have "unat (48 + of_nat (n mod 10) :: u8) = 48 + n mod 10"
      by (simp add: unat_word_ariths unat_of_nat take_bit_eq_mod)
    with 1 False show ?thesis by (auto simp: low_digits.simps [of n])
  qed (use 1 in \<open>simp add: low_digits.simps\<close>)
qed

lemma low_digits_value: "foldr (\<lambda>d a. 10 * a + digit_value d) (low_digits n) 0 = n"
proof (induction n rule: low_digits.induct)
  case (1 n)
  have "unat (48 + of_nat (n mod 10) :: u8) = 48 + n mod 10"
    by (simp add: unat_word_ariths unat_of_nat take_bit_eq_mod)
  then have "digit_value (48 + of_nat (n mod 10)) = n mod 10"
    by (simp add: digit_value_def word_less_nat_alt)
  with 1 show ?case by (auto simp: low_digits.simps [of n])
qed

lemma low_digits_top: "n \<noteq> 0 \<Longrightarrow> low_digits n \<noteq> [] \<and> last (low_digits n) \<noteq> 48"
proof (induction n rule: low_digits.induct)
  case (1 n)
  have "unat (48 + of_nat (n mod 10) :: u8) = 48 + n mod 10"
    by (simp add: unat_word_ariths unat_of_nat take_bit_eq_mod)
  then have "(48 + of_nat (n mod 10) :: u8) = 48 \<longleftrightarrow> n mod 10 = 0"
    by (simp only: word_unat_eq_iff) simp
  with 1 show ?case
    by (cases "n div 10 = 0") (auto simp: low_digits.simps [of n] low_digits.simps [of 0] div_eq_0_iff)
qed

lemma dec_text_value: "text_value 10 (dec_text n) = n"
  using low_digits_value [of n] by (auto simp: dec_text_def text_value_def foldl_conv_foldr digit_value_def)

lemma dec_fill_digits:
  assumes "n + length (low_digits (unat v)) \<le> length buf" "length buf < 2 ^ 63"
  shows "\<exists>buf'. dec_fill v buf (int n) = Some (buf', int (n + length (low_digits (unat v)))) \<and>
    length buf' = length buf \<and>
    take (n + length (low_digits (unat v))) buf' = take n buf @ low_digits (unat v)"
  using assms
proof (induction "unat v" arbitrary: v buf n rule: less_induct)
  case less
  show ?case
  proof (cases "v = 0")
    case True
    then show ?thesis by (simp add: dec_fill.simps low_digits.simps)
  next
    case False
    then have pos: "unat v > 0" by (simp add: unat_gt_0)
    let ?d = "48 + of_nat (unat v mod 10) :: u8"
    let ?buf = "buf[n := ?d]"
    have digits: "low_digits (unat v) = ?d # low_digits (unat (v div 10))"
      using pos by (simp add: low_digits.simps [of "unat v"] unat_div)
    have d: "ucast (48 + v mod 10 :: u64) = ?d"
      by (simp add: word_unat_eq_iff unat_word_ariths unsigned_ucast_eq unat_of_nat take_bit_eq_mod unat_mod)
    have n: "unat (of_nat n :: u64) = n" "n < length buf"
      using less.prems digits by (auto intro!: unat_of_nat64)
    have "unat (v div 10) < unat v" using pos by (simp add: unat_div)
    from less.hyps [OF this, of "Suc n" ?buf] less.prems digits obtain buf' where
      "dec_fill (v div 10) ?buf (int (Suc n)) = Some (buf', int (Suc n + length (low_digits (unat (v div 10)))))"
      "length buf' = length buf"
      "take (Suc n + length (low_digits (unat (v div 10)))) buf' = take (Suc n) ?buf @ low_digits (unat (v div 10))"
      by auto
    then show ?thesis
      using n False
      by (simp add: dec_fill.simps [of v] digits d wr_def word_gt_0 take_Suc_conv_app_nth add.commute)
  qed
qed

lemma dec_emit_text:
  "n \<le> length buf \<Longrightarrow> length buf < 2 ^ 63 \<Longrightarrow>
   dec_emit base buf (int n) = put_all (putc base) (rev (take n buf))"
proof (induction n)
  case 0
  then show ?case by (simp add: dec_emit.simps fun_eq_iff)
next
  case (Suc n)
  then have "unat (of_nat n :: u64) = n" by (intro unat_of_nat64) simp
  with Suc show ?case
    by (subst fun_eq_iff, subst dec_emit.simps) (simp add: rd_def take_Suc_conv_app_nth)
qed

lemma put_dec_text: "put_dec base v = put_all (putc base) (dec_text (unat v))"
proof (cases "v = 0")
  case True
  then show ?thesis by (simp add: put_dec_def dec_text_def fun_eq_iff)
next
  case False
  then have pos: "unat v \<noteq> 0" by (simp add: unat_eq_0)
  have "unat v < 10 ^ 20" using unat_less_2p64 [of v] by (rule less_trans) simp
  from low_digits_length [OF this] have len: "length (low_digits (unat v)) \<le> 20" .
  then obtain buf where "dec_fill v (replicate 20 0) 0 = Some (buf, int (length (low_digits (unat v))))"
    "length buf = 20" "take (length (low_digits (unat v))) buf = low_digits (unat v)"
    using dec_fill_digits [of 0 v "replicate 20 0"] by auto
  with len pos False show ?thesis
    by (simp add: put_dec_def dec_text_def fun_eq_iff dec_emit_text)
qed

lemma put_hex_text: "put_hex base v = put_all (putc base) (48 # 120 # hex_text v)"
  using put_hex_loop_text [of base v 16]
  by (simp add: put_hex_def hex_text_def fun_eq_iff put_all_Cons)

text \<open>A text without newlines is transmitted as it is.\<close>

lemma no_newline: "10 \<notin> set cs \<Longrightarrow> concat (map crlf cs) = cs"
  by (induction cs) (auto simp: crlf_def)

lemma kHex_digit:
  assumes "k < 16"
  shows "digit_value (kHex ! k) = k \<and> kHex ! k \<noteq> 10"
proof -
  have "\<forall>k \<in> set [0..<16]. digit_value (kHex ! k) = k \<and> kHex ! k \<noteq> 10"
    by (simp add: upt_rec kHex_def cstr_def digit_value_def)
  with assms show ?thesis by simp
qed

lemma hex_fold:
  "foldl (\<lambda>a k. 16 * a + n div 16 ^ k mod 16) a (rev [0..<j]) = a * 16 ^ j + (n :: nat) mod 16 ^ j"
proof (induction j arbitrary: a)
  case 0
  then show ?case by simp
next
  case (Suc j)
  have "n mod 16 ^ Suc j = 16 ^ j * (n div 16 ^ j mod 16) + n mod 16 ^ j"
    by (simp only: power_Suc2 mod_mult2_eq)
  with Suc.IH show ?case by (simp add: algebra_simps)
qed

lemma hex_text_value: "text_value 16 (hex_text v) = unat v"
proof -
  have "unat v mod 16 ^ 16 = unat v" using unat_less_2p64 [of v] by simp
  with hex_fold [of "unat v" 0 16] show ?thesis
    by (simp add: text_value_def hex_text_def foldl_map kHex_digit del: upt_rec_numeral)
qed

section \<open>Properties\<close>

text \<open>Property (C32): decimal output. \<^verbatim>\<open>put_dec\<close> never overruns its 20-byte buffer and, on a
  responsive transmitter, sends a text that consists of the characters 0 to 9, has no leading
  zero unless it is the single digit 0, and reads back as the number.\<close>

theorem put_dec_prints:
  assumes "responsive base b"
  shows "\<exists>b' ds. put_dec base v b = Some b' \<and> sent base ds b b' \<and> text_value 10 ds = unat v \<and>
    (\<forall>d \<in> set ds. 48 \<le> unat d \<and> unat d \<le> 57) \<and> length ds \<le> 20 \<and>
    ds \<noteq> [] \<and> (hd ds = 48 \<longrightarrow> ds = [48])"
proof -
  let ?ds = "dec_text (unat v)"
  have "unat v < 10 ^ 20" using unat_less_2p64 [of v] by (rule less_trans) simp
  from low_digits_length [OF this] have len: "length ?ds \<le> 20" by (simp add: dec_text_def)
  have range: "\<forall>d \<in> set ?ds. 48 \<le> unat d \<and> unat d \<le> 57"
    using low_digits_in by (auto simp: dec_text_def)
  then have "10 \<notin> set ?ds" by force
  then obtain b' where "put_dec base v b = Some b'" "sent base ?ds b b'"
    using con_emits [OF assms, of ?ds] by (auto simp: put_dec_text no_newline)
  moreover have "?ds \<noteq> [] \<and> (hd ?ds = 48 \<longrightarrow> ?ds = [48])"
    using low_digits_top [of "unat v"] by (auto simp: dec_text_def hd_rev)
  ultimately show ?thesis using range len dec_text_value by blast
qed

text \<open>A transmitter that is ready at every second poll.\<close>

definition demo_bus :: bus where
  "demo_bus = \<lparr>byte_in = (\<lambda>n a. if even n then 0 else 0x60), dword_in = (\<lambda>n a. of_nat n),
     bus_reads = 0, bus_writes = []\<rparr>"

lemma demo_responsive: "responsive base demo_bus"
  unfolding responsive_def
proof
  fix n
  show "\<exists>m\<ge>n. byte_in demo_bus m (base + 5) AND kLsrThrEmpty \<noteq> 0"
    by (intro exI [of _ "2 * n + 1"]) (simp add: demo_bus_def kLsrThrEmpty_def)
qed

lemma put_dec_prints_witness:
  "\<exists>b' ds. put_dec g_uart0 18446744073709551615 demo_bus = Some b' \<and> sent g_uart0 ds demo_bus b' \<and>
    text_value 10 ds = 18446744073709551615 \<and> length ds \<le> 20"
  using put_dec_prints [OF demo_responsive, of g_uart0 18446744073709551615] by (auto)

text \<open>Hexadecimal output. On a responsive transmitter \<^verbatim>\<open>put_hex\<close> sends the prefix
  \<^verbatim>\<open>0x\<close> and exactly sixteen lower-case hexadecimal digits that read back as the number.\<close>

lemma put_hex_prints:
  assumes "responsive base b"
  shows "\<exists>b' ds. put_hex base v b = Some b' \<and> sent base (48 # 120 # ds) b b' \<and> length ds = 16 \<and>
    set ds \<subseteq> set (map of_char ''0123456789abcdef'') \<and> text_value 16 ds = unat v"
proof -
  have sub: "set (hex_text v) \<subseteq> set (map of_char ''0123456789abcdef'')"
  proof
    fix d
    assume "d \<in> set (hex_text v)"
    then obtain k where d: "d = kHex ! (unat v div 16 ^ k mod 16)" by (auto simp: hex_text_def)
    have "kHex ! j \<in> set (take 16 kHex)" if "j < 16" for j
      using that by (auto simp: in_set_conv_nth intro!: exI [of _ j])
    moreover have "take 16 kHex = map of_char ''0123456789abcdef''" by (simp add: kHex_def cstr_def)
    ultimately show "d \<in> set (map of_char ''0123456789abcdef'')" using d by force
  qed
  have "10 \<notin> set (48 # 120 # hex_text v)" using kHex_digit by (auto simp: hex_text_def) 
  with con_emits [OF assms, of "48 # 120 # hex_text v"] obtain b' where
    "put_hex base v b = Some b'" "sent base (48 # 120 # hex_text v) b b'"
    by (auto simp: put_hex_text no_newline simp del: put_all.simps list.map concat.simps)
  moreover have "length (hex_text v) = 16" by (simp add: hex_text_def)
  ultimately show ?thesis using sub hex_text_value by blast
qed

lemma put_hex_prints_witness:
  "\<exists>b' ds. put_hex g_uart0 0xDEADBEEF demo_bus = Some b' \<and>
    sent g_uart0 (48 # 120 # ds) demo_bus b' \<and> length ds = 16 \<and> text_value 16 ds = 3735928559"
  using put_hex_prints [OF demo_responsive, of g_uart0 "0xDEADBEEF"] by auto

text \<open>String output. On a responsive transmitter \<^verbatim>\<open>puts\<close> sends the characters of the
  string up to the terminating NUL and no further, with a carriage return before every
  newline; the null pointer sends nothing.\<close>

lemma puts_prints:
  assumes "responsive base b" and "0 \<notin> set cs"
  shows "puts base None b = Some b \<and>
    (\<exists>b'. puts base (Some (cs @ 0 # rest)) b = Some b' \<and> sent base (concat (map crlf cs)) b b')"
  using con_emits [OF assms(1), of cs] puts_loop_text [OF assms(2)] by (auto simp: puts_def)

lemma puts_prints_witness:
  "puts g_uart0 None demo_bus = Some demo_bus \<and>
    (\<exists>b'. print ''pmm ok\<newline>'' demo_bus = Some b' \<and>
      sent g_uart0 (map of_char ''pmm ok'' @ [13, 10]) demo_bus b')"
  using puts_prints [OF demo_responsive, where cs = "map of_char ''pmm ok\<newline>''" and base = g_uart0 and rest = "[]"]
  by (simp add: cstr_def crlf_def)

text \<open>Property (C33): the polling protocol. \<^verbatim>\<open>putc_raw\<close> returns exactly when some later read of the
  line status register shows an empty transmitter. It then has read that register up to the
  first such value and no further, and has written the character once, after that read.\<close>

theorem putc_raw_polls:
  "putc_raw base c b =
     (if \<exists>n \<ge> bus_reads b. byte_in b n (base + 5) AND kLsrThrEmpty \<noteq> 0
      then Some (b\<lparr>bus_reads := Suc (LEAST n. bus_reads b \<le> n \<and> byte_in b n (base + 5) AND kLsrThrEmpty \<noteq> 0),
                   bus_writes := bus_writes b @ [Byte base c]\<rparr>)
      else None)"
proof (cases "\<exists>n \<ge> bus_reads b. byte_in b n (base + 5) AND kLsrThrEmpty \<noteq> 0")
  case True
  then obtain n where "bus_reads b \<le> n" "byte_in b n (base + 5) AND kLsrThrEmpty \<noteq> 0" by blast
  from wait_tx_ready_correct [OF this] obtain t where
    t: "wait_tx_ready base b = Some (b\<lparr>bus_reads := Suc t\<rparr>)" "bus_reads b \<le> t"
      "byte_in b t (base + 5) AND kLsrThrEmpty \<noteq> 0"
    and min: "\<forall>k. bus_reads b \<le> k \<and> k < t \<longrightarrow> byte_in b k (base + 5) AND kLsrThrEmpty = 0"
    by blast
  from t min have "(LEAST n. bus_reads b \<le> n \<and> byte_in b n (base + 5) AND kLsrThrEmpty \<noteq> 0) = t"
    by (intro Least_equality) (auto simp: not_less [symmetric])
  with True t(1) show ?thesis
    by (simp add: putc_raw_def write_reg_def reg_def write_byte_def)
next
  case False
  then have "wait_tx_ready base b = None"
    using wait_tx_ready_returns [of base b] by (cases "wait_tx_ready base b") auto
  with False show ?thesis by (simp add: putc_raw_def)
qed

end
