(* ===== verification/Timer.thy ===== *)
theory Timer
  imports Uart Csr
begin

text \<open>
  The hart as the kernel's components see it (registers and device bus), console output lifted
  to it, and the timer: \<^verbatim>\<open>platform/qemu/devices/timer/clint_timer.h\<close>, \<^verbatim>\<open>kernel/time/timer.h\<close> and
  \<^verbatim>\<open>timer.cpp\<close>. The record \<open>hart\<close> is extended by the components that build on it, and the
  operations are stated for every extension. \<open>effect\<close> is the frame of an operation that only
  drives the devices: it names the bus writes, in order, and says that nothing else changes.
\<close>

record hart =
  csr :: csrs
  dev :: bus
  s_interval :: u64
  s_ticks :: u64

section \<open>Output from the kernel\<close>

definition io :: "(bus \<Rightarrow> bus option) \<Rightarrow> 'a hart_scheme \<Rightarrow> 'a hart_scheme option" where
  "io f k = do { b \<leftarrow> f (dev k); Some (k\<lparr>dev := b\<rparr>) }"

abbreviation kputs :: "string \<Rightarrow> 'a hart_scheme \<Rightarrow> 'a hart_scheme option" where
  "kputs s \<equiv> io (puts g_uart0 (Some (cstr s)))"

abbreviation kputc :: "u8 \<Rightarrow> 'a hart_scheme \<Rightarrow> 'a hart_scheme option" where
  "kputc c \<equiv> io (putc g_uart0 c)"

abbreviation kput_dec :: "u64 \<Rightarrow> 'a hart_scheme \<Rightarrow> 'a hart_scheme option" where
  "kput_dec v \<equiv> io (put_dec g_uart0 v)"

abbreviation kput_hex :: "u64 \<Rightarrow> 'a hart_scheme \<Rightarrow> 'a hart_scheme option" where
  "kput_hex v \<equiv> io (put_hex g_uart0 v)"

definition newline :: u8 where "newline = of_char (CHR 0x0A)"

section \<open>The CLINT timer and the kernel timer\<close>

definition INTERVAL_S :: u64 where "INTERVAL_S = 10000000"

definition read_mtime :: "'a hart_scheme \<Rightarrow> u64 \<times> 'a hart_scheme" where
  "read_mtime k = (let (t, b) = read_dword (region_base CLINT_MTIME) (dev k) in (t, k\<lparr>dev := b\<rparr>))"

definition write_mtimecmp0 :: "u64 \<Rightarrow> 'a hart_scheme \<Rightarrow> 'a hart_scheme" where
  "write_mtimecmp0 v k = k\<lparr>dev := write_dword (region_base CLINT_MTIMECMP) v (dev k)\<rparr>"

definition interrupt_after :: "u64 \<Rightarrow> 'a hart_scheme \<Rightarrow> 'a hart_scheme" where
  "interrupt_after v k = (let (t, k) = read_mtime k in write_mtimecmp0 (t + v) k)"

definition timer_init :: "u64 \<Rightarrow> 'a hart_scheme \<Rightarrow> 'a hart_scheme" where
  "timer_init interval k =
     (let k = k\<lparr>s_interval := interval\<rparr>;
          k = interrupt_after interval k;
          k = k\<lparr>csr := set_mie_bits (push_bit 7 1) (csr k)\<rparr>
      in k\<lparr>csr := set_mstatus_bits (push_bit 3 1) (csr k)\<rparr>)"

definition ticks :: "'a hart_scheme \<Rightarrow> u64" where
  "ticks k = s_ticks k"

definition on_interrupt :: "'a hart_scheme \<Rightarrow> 'a hart_scheme option" where
  "on_interrupt k = do {
     let k = k\<lparr>s_ticks := s_ticks k + 1\<rparr>;
     k \<leftarrow> kputs ''current timer count: '' k;
     let (t, k) = read_mtime k;
     k \<leftarrow> kput_dec t k;
     k \<leftarrow> kputc newline k;
     k \<leftarrow> kputs ''current ticks count: '' k;
     k \<leftarrow> kput_dec (ticks k) k;
     k \<leftarrow> kputc newline k;
     Some (interrupt_after (s_interval k) k)
   }"

section \<open>Device effects\<close>

definition logs :: "bus_write list \<Rightarrow> bus \<Rightarrow> bus \<Rightarrow> bool" where
  "logs ws b b' = (bus_reads b \<le> bus_reads b' \<and>
     b' = b\<lparr>bus_reads := bus_reads b', bus_writes := bus_writes b @ ws\<rparr>)"

definition effect :: "bus_write list \<Rightarrow> 'a hart_scheme \<Rightarrow> 'a hart_scheme \<Rightarrow> bool" where
  "effect ws k k' = (logs ws (dev k) (dev k') \<and> k' = k\<lparr>dev := dev k'\<rparr>)"

abbreviation tx :: "u8 list \<Rightarrow> bus_write list" where
  "tx cs \<equiv> map (Byte g_uart0) cs"

definition console_ready :: "'a hart_scheme \<Rightarrow> bool" where
  "console_ready k = responsive g_uart0 (dev k)"

definition line_text :: "string \<Rightarrow> u8 list" where
  "line_text s = concat (map crlf (map of_char s))"

lemma logs_append: "logs xs b b1 \<Longrightarrow> logs ys b1 b2 \<Longrightarrow> logs (xs @ ys) b b2"
  unfolding logs_def by (cases b; cases b1; cases b2) simp

lemma sent_logs: "sent base cs = logs (map (Byte base) cs)"
  by (auto simp: fun_eq_iff sent_def logs_def)

lemma effect_nil [simp]: "effect [] k k"
  by (simp add: effect_def logs_def)

lemma effect_append: "effect xs k k1 \<Longrightarrow> effect ys k1 k2 \<Longrightarrow> effect (xs @ ys) k k2"
  unfolding effect_def using logs_append [of xs "dev k" "dev k1" ys "dev k2"]
  by (cases k; cases k1; cases k2) auto

lemma effect_ready: "effect ws k k' \<Longrightarrow> console_ready k' = console_ready k"
  unfolding effect_def console_ready_def logs_def responsive_def by (cases "dev k"; cases "dev k'") simp

lemma effect_bus: "effect ws k k' \<Longrightarrow> dword_in (dev k') = dword_in (dev k) \<and> bus_reads (dev k) \<le> bus_reads (dev k')"
  unfolding effect_def logs_def by (cases "dev k"; cases "dev k'") simp

interpretation kcon: char_device kputc "\<lambda>cs. effect (tx cs)" console_ready crlf
proof unfold_locales
  fix k :: "'a hart_scheme" and c
  assume "console_ready k"
  then have "responsive g_uart0 (dev k)" by (simp add: console_ready_def)
  from con.put_law [OF this] obtain b where b: "putc g_uart0 c (dev k) = Some b" "sent g_uart0 (crlf c) (dev k) b" by blast
  then have "effect (tx (crlf c)) k (k\<lparr>dev := b\<rparr>)"
    by (simp add: effect_def sent_logs)
  with b(1) show "\<exists>k'. kputc c k = Some k' \<and> effect (tx (crlf c)) k k'"
    by (simp add: io_def)
qed (auto intro: effect_append simp: effect_ready)

lemma io_put_all: "io (put_all (putc g_uart0) cs) = put_all (kputc :: u8 \<Rightarrow> 'a hart_scheme \<Rightarrow> 'a hart_scheme option) cs"
proof
  show "io (put_all (putc g_uart0) cs) k = put_all kputc cs k" for k :: "'a hart_scheme"
  proof (induction cs arbitrary: k)
    case Nil
    then show ?case by (simp add: io_def)
  next
    case (Cons c cs)
    show ?case
    proof (cases "putc g_uart0 c (dev k)")
      case (Some b)
      with Cons.IH [of "k\<lparr>dev := b\<rparr>"] show ?thesis by (simp add: io_def)
    qed (simp add: io_def)
  qed
qed

text \<open>An operation that only drives the devices, with a fixed sequence of writes.\<close>

definition drives :: "bus_write list \<Rightarrow> ('a hart_scheme \<Rightarrow> 'a hart_scheme option) \<Rightarrow> bool" where
  "drives ws f = (\<forall>k. console_ready k \<longrightarrow> (\<exists>k'. f k = Some k' \<and> effect ws k k'))"

lemma drivesD: "drives ws f \<Longrightarrow> console_ready k \<Longrightarrow>
    \<exists>k'. f k = Some k' \<and> effect ws k k' \<and> console_ready k'"
  using effect_ready by (fastforce simp: drives_def)

lemma drives_Some: "drives [] Some"
  by (simp add: drives_def)

lemma drives_bind:
  assumes f: "drives xs f" and g: "drives ys g"
  shows "drives (xs @ ys) (\<lambda>k. f k \<bind> g)"
  unfolding drives_def
proof (intro allI impI)
  fix k :: "'a hart_scheme"
  assume "console_ready k"
  from drivesD [OF f this] obtain k1 where k1: "f k = Some k1" "effect xs k k1" "console_ready k1" by blast
  from drivesD [OF g this(3)] k1 show "\<exists>k'. f k \<bind> g = Some k' \<and> effect (xs @ ys) k k'"
    using effect_append by fastforce
qed

lemma drives_put_all: "drives (tx (concat (map crlf cs))) (put_all kputc cs)"
  unfolding drives_def using kcon.put_all_law by blast

lemma kputs_eq: "CHR 0x00 \<notin> set s \<Longrightarrow> kputs s = put_all kputc (map of_char s)"
proof -
  assume "CHR 0x00 \<notin> set s"
  moreover have "c = CHR 0x00" if "(of_char c :: u8) = 0" for c
  proof -
    have small: "unat (of_nat n :: u8) = n" if "n < 256" for n
      using that by (simp add: unat_of_nat take_bit_nat_eq_self)
    have "unat (of_char c :: u8) = of_char c"
      using small [OF nat_of_char_less_256 [of c]] by (simp only: of_nat_of_char)
    with that have "of_char c = (of_char (CHR 0x00) :: nat)" by simp
    then show ?thesis by (simp only: of_char_eq_iff)
  qed
  ultimately have "0 \<notin> set (map of_char s :: u8 list)" by force
  then have "puts g_uart0 (Some (cstr s)) = put_all (putc g_uart0) (map of_char s)"
    using puts_loop_text [of "map of_char s" g_uart0 "[]"] by (simp add: fun_eq_iff puts_def cstr_def)
  then show ?thesis by (simp add: io_put_all)
qed

lemma drives_kputs: "CHR 0x00 \<notin> set s \<Longrightarrow> drives (tx (line_text s)) (kputs s)"
  unfolding line_text_def by (subst kputs_eq) (assumption, rule drives_put_all)

lemma drives_kputc: "drives (tx (crlf c)) (kputc c)"
  using drives_put_all [of "[c]"] by simp

lemma dec_text_no_newline: "10 \<notin> set (dec_text n)"
  using low_digits_in [of 10 n] by (auto simp: dec_text_def)

lemma drives_kput_dec: "drives (tx (dec_text (unat v))) (kput_dec v)"
  using drives_put_all [of "dec_text (unat v)"]
  by (simp add: put_dec_text io_put_all no_newline dec_text_no_newline)

lemma drives_kput_hex: "drives (tx (48 # 120 # hex_text v)) (kput_hex v)"
proof -
  have "10 \<notin> set (48 # 120 # hex_text v)" using kHex_digit by (auto simp: hex_text_def)
  with drives_put_all [of "48 # 120 # hex_text v"] show ?thesis
    by (simp add: put_hex_text io_put_all no_newline del: list.map concat.simps)
qed

lemmas drives_rules = drives_bind drives_kputs drives_kputc drives_kput_dec drives_kput_hex

section \<open>Properties\<close>

lemma read_mtime_effect:
  "read_mtime k = (dword_in (dev k) (bus_reads (dev k)) (region_base CLINT_MTIME),
     k\<lparr>dev := (dev k)\<lparr>bus_reads := Suc (bus_reads (dev k))\<rparr>\<rparr>)"
  by (simp add: read_mtime_def read_dword_def)

lemma interrupt_after_effect:
  "\<exists>k'. interrupt_after v k = k' \<and> bus_reads (dev k') = Suc (bus_reads (dev k)) \<and>
     effect [Dword (region_base CLINT_MTIMECMP) (dword_in (dev k) (bus_reads (dev k)) (region_base CLINT_MTIME) + v)] k k'"
  by (simp add: interrupt_after_def read_mtime_effect write_mtimecmp0_def write_dword_def effect_def logs_def)

lemma effect_read_mtime: "effect [] k (snd (read_mtime k))"
  by (simp add: read_mtime_effect effect_def logs_def)

text \<open>The line that the timer interrupt prints for a value.\<close>

definition count_line :: "string \<Rightarrow> u64 \<Rightarrow> u8 list" where
  "count_line s v = line_text s @ dec_text (unat v) @ [13, 10]"

lemma drives_number_line: "drives (tx (dec_text (unat v) @ [13, 10])) (\<lambda>k. kput_dec v k \<bind> kputc newline)"
proof -
  have "drives (tx (dec_text (unat v)) @ tx (crlf newline)) (\<lambda>k. kput_dec v k \<bind> kputc newline)"
    by (intro drives_rules)
  then show ?thesis by (simp add: crlf_def newline_def)
qed

lemma drives_count_line:
  assumes "CHR 0x00 \<notin> set s"
  shows "drives (tx (count_line s v)) (\<lambda>k. kputs s k \<bind> (\<lambda>k. kput_dec v k \<bind> kputc newline))"
  using drives_bind [OF drives_kputs [OF assms] drives_number_line [of v]]
  by (simp add: count_line_def)

lemma effect_fields:
  "effect ws k k' \<Longrightarrow> csr k' = csr k \<and> s_interval k' = s_interval k \<and> s_ticks k' = s_ticks k"
  unfolding effect_def by (cases k; cases k') simp

lemma effect_ticks:
  "effect ws k k' \<Longrightarrow> effect ws (k\<lparr>s_ticks := s_ticks k + 1\<rparr>) (k'\<lparr>s_ticks := s_ticks k' + 1\<rparr>)"
  unfolding effect_def by (cases k; cases k') simp

lemma io_fields:
  "io f k = Some k' \<Longrightarrow> csr k' = csr k \<and> s_interval k' = s_interval k \<and> s_ticks k' = s_ticks k"
  by (auto simp: io_def split: bind_splits)

text \<open>The value of mtime at the n-th read of the bus.\<close>

definition mtime_at :: "'a hart_scheme \<Rightarrow> nat \<Rightarrow> u64" where
  "mtime_at k n = dword_in (dev k) n 0x200BFF8"

lemma clint_addresses: "region_base CLINT_MTIME = 0x200BFF8" "region_base CLINT_MTIMECMP = 0x2004000"
  by (simp_all add: CLINT_MTIME_def CLINT_MTIMECMP_def kClint_def)

lemma on_interrupt_correct:
  assumes "console_ready k"
  shows "\<exists>k' n m. on_interrupt k = Some k' \<and> bus_reads (dev k) \<le> n \<and> n < m \<and> bus_reads (dev k') = Suc m \<and>
    effect (tx (count_line ''current timer count: '' (mtime_at k n)) @
            tx (count_line ''current ticks count: '' (s_ticks k + 1)) @
            [Dword 0x2004000 (mtime_at k m + s_interval k)])
      (k\<lparr>s_ticks := s_ticks k + 1\<rparr>) k'"
proof -
  let ?k = "k\<lparr>s_ticks := s_ticks k + 1\<rparr>"
  have r: "console_ready ?k" using assms by (simp add: console_ready_def)
  from drivesD [OF drives_kputs [of "''current timer count: ''"] r] obtain k1 where
    k1: "kputs ''current timer count: '' ?k = Some k1" "console_ready k1"
      "effect (tx (line_text ''current timer count: '')) ?k k1" by auto
  let ?n = "bus_reads (dev k1)"
  obtain k2 where t: "read_mtime k1 = (mtime_at k ?n, k2)" and n: "bus_reads (dev k2) = Suc ?n"
    using effect_bus [OF k1(3)] by (simp add: read_mtime_effect mtime_at_def clint_addresses)
  with effect_read_mtime [of k1] have k2: "effect [] k1 k2" by simp
  with k1(2) have "console_ready k2" by (simp add: effect_ready)
  from drivesD [OF drives_number_line [of "mtime_at k ?n"] this] obtain k3 k4 where
    k34: "kput_dec (mtime_at k ?n) k2 = Some k3" "kputc newline k3 = Some k4"
      "effect (tx (dec_text (unat (mtime_at k ?n)) @ [13, 10])) k2 k4" "console_ready k4"
    by (auto split: bind_splits)
  have first: "effect (tx (count_line ''current timer count: '' (mtime_at k ?n))) ?k k4"
    using effect_append [OF effect_append [OF k1(3) k2] k34(3)] by (simp add: count_line_def)
  then have tick: "ticks k4 = s_ticks k + 1" "s_interval k4 = s_interval k"
    using effect_fields [OF first] by (simp_all add: ticks_def)
  from drivesD [OF drives_count_line [of "''current ticks count: ''" "s_ticks k + 1"] k34(4)]
  obtain k5 k6 k7 where k7: "kputs ''current ticks count: '' k4 = Some k5"
      "kput_dec (s_ticks k + 1) k5 = Some k6" "kputc newline k6 = Some k7"
      "effect (tx (count_line ''current ticks count: '' (s_ticks k + 1))) k4 k7"
    by (auto split: bind_splits)
  have final: "ticks k5 = s_ticks k + 1" "s_interval k7 = s_interval k"
    using tick io_fields [OF k7(1)] io_fields [OF k7(2)] io_fields [OF k7(3)] by (simp_all add: ticks_def)
  let ?m = "bus_reads (dev k7)"
  have both: "effect (tx (count_line ''current timer count: '' (mtime_at k ?n)) @
      tx (count_line ''current ticks count: '' (s_ticks k + 1))) ?k k7"
    by (rule effect_append [OF first k7(4)])
  then have m: "dword_in (dev k7) ?m (region_base CLINT_MTIME) = mtime_at k ?m"
    using effect_bus [OF both] by (simp add: mtime_at_def clint_addresses)
  have deadline: "effect [Dword 0x2004000 (mtime_at k ?m + s_interval k)] k7 (interrupt_after (s_interval k) k7)"
    using interrupt_after_effect [of "s_interval k" k7] unfolding m by (simp add: clint_addresses)
  have "on_interrupt k = Some (interrupt_after (s_interval k) k7)"
    by (simp add: on_interrupt_def Let_def k1(1) t k34(1,2) k7(1,2,3) final)
  moreover have "bus_reads (dev (interrupt_after (s_interval k) k7)) = Suc ?m"
    using interrupt_after_effect [of "s_interval k" k7] by blast
  moreover have "bus_reads (dev k) \<le> ?n" using effect_bus [OF k1(3)] by simp
  moreover have "?n < ?m"
    using effect_bus [OF k34(3)] effect_bus [OF k7(4)] n by simp
  moreover from effect_append [OF both deadline] have
    "effect (tx (count_line ''current timer count: '' (mtime_at k ?n)) @
       tx (count_line ''current ticks count: '' (s_ticks k + 1)) @
       [Dword 0x2004000 (mtime_at k ?m + s_interval k)]) ?k (interrupt_after (s_interval k) k7)"
    by (simp only: append_assoc)
  ultimately show ?thesis by blast
qed

text \<open>The timer interrupt. On a responsive console the handler returns, it counts
  exactly one tick (modulo 2^64), and it writes to the devices, in this order: the line with the
  value of mtime, the line with the new tick count, and last the next deadline, which is a
  later reading of mtime plus the configured interval. No register and no other state
  changes.\<close>

lemma timer_interrupt:
  assumes "console_ready k"
  shows "\<exists>k' n m. on_interrupt k = Some k' \<and> bus_reads (dev k) \<le> n \<and> n < m \<and>
    effect (tx (count_line ''current timer count: '' (mtime_at k n)) @
            tx (count_line ''current ticks count: '' (s_ticks k + 1)) @
            [Dword 0x2004000 (mtime_at k m + s_interval k)])
      (k\<lparr>s_ticks := s_ticks k + 1\<rparr>) k'"
  using on_interrupt_correct [OF assms] by blast

definition demo_hart :: hart where
  "demo_hart = \<lparr>csr = demo_csrs, dev = demo_bus, s_interval = 0, s_ticks = 0\<rparr>"

lemma demo_console_ready: "console_ready demo_hart"
  by (simp add: console_ready_def demo_hart_def demo_responsive)

lemma timer_interrupt_witness:
  "\<exists>k' n m. on_interrupt demo_hart = Some k' \<and> n < m \<and>
    effect (tx (count_line ''current timer count: '' (of_nat n)) @
            tx (count_line ''current ticks count: '' 1) @ [Dword 0x2004000 (of_nat m)])
      (demo_hart\<lparr>s_ticks := 1\<rparr>) k'"
  using timer_interrupt [OF demo_console_ready]
  by (auto simp: mtime_at_def demo_hart_def demo_bus_def)

text \<open>Starting the timer. \<^verbatim>\<open>KernelTimer::init\<close> reads mtime once, programs the first
  deadline as that reading plus the interval, sets MTIE and MIE, and leaves every other bit of
  both registers, every other register and the tick count as they were. The sum wraps: for an
  interval larger than the distance to the end of the counter the deadline is already over.\<close>

lemma timer_init_programs:
  fixes k :: hart
  shows "\<exists>k1. effect [Dword 0x2004000 (mtime_at k (bus_reads (dev k)) + interval)] (k\<lparr>s_interval := interval\<rparr>) k1 \<and>
    timer_init interval k = k1\<lparr>csr := (csr k)\<lparr>mie := mie (csr k) OR kMieMtie, mstatus := mstatus (csr k) OR kMstatusMie\<rparr>\<rparr> \<and>
    (unat (mtime_at k (bus_reads (dev k))) + unat interval \<ge> 2 ^ 64 \<longleftrightarrow>
     mtime_at k (bus_reads (dev k)) + interval < mtime_at k (bus_reads (dev k)))"
proof -
  let ?k = "k\<lparr>s_interval := interval\<rparr>" and ?t = "mtime_at k (bus_reads (dev k))"
  from interrupt_after_effect [of interval ?k] have e:
    "effect [Dword 0x2004000 (?t + interval)] ?k (interrupt_after interval ?k)"
    by (simp add: mtime_at_def clint_addresses)
  moreover have "timer_init interval k = (interrupt_after interval ?k)\<lparr>csr := (csr k)\<lparr>mie := mie (csr k) OR kMieMtie, mstatus := mstatus (csr k) OR kMstatusMie\<rparr>\<rparr>"
    using effect_fields [OF e]
    by (simp add: timer_init_def Let_def set_mie_bits_def set_mstatus_bits_def kMieMtie_def kMstatusMie_def)
  moreover have "unat ?t + unat interval \<ge> 2 ^ 64 \<longleftrightarrow> ?t + interval < ?t"
    using no_olen_add_nat [of ?t interval] by (auto simp: not_less [symmetric])
  ultimately show ?thesis by blast
qed

end
