(* ===== verification/Task.thy ===== *)
theory Task
  imports Timer Intrusive_Queue
begin

text \<open>
  \<^verbatim>\<open>kernel/core/task/\<close> (task types, contexts, tasks, the task manager) and
  \<^verbatim>\<open>kernel/arch/riscv/task/switch.S\<close>. The task table \<^verbatim>\<open>s_tasks\<close> is a list of 32 records at the
  address the linker gave it; a task pointer is an address, and every access through it is
  \<open>None\<close> unless it is the address of a slot. The queue node of a task lives in the node store
  of the intrusive list, at the offset of \<^verbatim>\<open>run_node\<close>. The context switch is modelled
  instruction by instruction and proved to exchange whole contexts.
\<close>

section \<open>Types of a task\<close>

datatype State = Empty | Ready | Running | Blocked | Dead

fun state_number :: "State \<Rightarrow> u32" where
  "state_number Empty = 0"
| "state_number Ready = 1"
| "state_number Running = 2"
| "state_number Blocked = 3"
| "state_number Dead = 4"

type_synonym TaskId = u32
type_synonym Entry = addr

record Context =
  ctx_ra :: u64
  ctx_sp :: u64
  ctx_s0 :: u64
  ctx_s1 :: u64
  ctx_s2 :: u64
  ctx_s3 :: u64
  ctx_s4 :: u64
  ctx_s5 :: u64
  ctx_s6 :: u64
  ctx_s7 :: u64
  ctx_s8 :: u64
  ctx_s9 :: u64
  ctx_s10 :: u64
  ctx_s11 :: u64

record Task =
  task_id :: TaskId
  task_state :: State
  task_context :: Context
  task_entry :: Entry
  stack_base :: addr
  stack_size :: u64

text \<open>The layout of \<^verbatim>\<open>Task\<close> on RV64: the offset of \<^verbatim>\<open>run_node\<close> and the size of the struct.\<close>

definition run_node_offset :: u64 where "run_node_offset = 8"
definition sizeof_Task :: u64 where "sizeof_Task = 160"

section \<open>The kernel state\<close>

text \<open>
  The addresses that linking decides are parameters. \<open>live\<close> holds the callee-saved registers
  of the hart, \<open>boot_ctx\<close> the local variable of \<^verbatim>\<open>Scheduler::start\<close>.
\<close>

record symbols =
  s_tasks_at :: addr
  s_ready_queue_at :: addr
  s_idle_stack_at :: addr
  idle_task_entry_at :: addr
  task_entry_trampoline_at :: addr
  trap_entry_at :: addr

record kernel = hart +
  live :: Context
  boot_ctx :: Context
  s_tasks :: "Task list"
  nodes :: node_store
  s_idle_task :: addr
  s_next_id :: TaskId
  s_current :: addr

definition kMaxTasks :: nat where "kMaxTasks = 32"

definition slot_addr :: "symbols \<Rightarrow> nat \<Rightarrow> addr" where
  "slot_addr y i = s_tasks_at y + of_nat i * sizeof_Task"

definition slot_of_ptr :: "symbols \<Rightarrow> addr \<Rightarrow> nat option" where
  "slot_of_ptr y p =
     (let d = p - s_tasks_at y in
      if p \<noteq> nullptr \<and> d mod sizeof_Task = 0 \<and> unat (d div sizeof_Task) < kMaxTasks
      then Some (unat (d div sizeof_Task)) else None)"

definition get_task :: "symbols \<Rightarrow> addr \<Rightarrow> kernel \<Rightarrow> Task option" where
  "get_task y p k = do {
     i \<leftarrow> slot_of_ptr y p;
     (if i < length (s_tasks k) then Some (s_tasks k ! i) else None)
   }"

definition upd_task :: "symbols \<Rightarrow> addr \<Rightarrow> (Task \<Rightarrow> Task) \<Rightarrow> kernel \<Rightarrow> kernel option" where
  "upd_task y p f k = do {
     i \<leftarrow> slot_of_ptr y p;
     t \<leftarrow> get_task y p k;
     Some (k\<lparr>s_tasks := (s_tasks k)[i := f t]\<rparr>)
   }"

definition on_nodes :: "(node_store \<Rightarrow> node_store option) \<Rightarrow> kernel \<Rightarrow> kernel option" where
  "on_nodes f k = do { s \<leftarrow> f (nodes k); Some (k\<lparr>nodes := s\<rparr>) }"

definition run_node :: "addr \<Rightarrow> addr" where
  "run_node p = p + run_node_offset"

section \<open>The task manager\<close>

fun find_empty :: "Task list \<Rightarrow> nat option" where
  "find_empty [] = None"
| "find_empty (t # ts) = (if task_state t = Empty then Some 0 else map_option Suc (find_empty ts))"

definition create_kernel_task :: "symbols \<Rightarrow> Entry \<Rightarrow> addr \<Rightarrow> u64 \<Rightarrow> kernel \<Rightarrow> (addr \<times> kernel) option" where
  "create_kernel_task y entry base sz k =
     (if base = nullptr \<or> sz = 0 then Some (nullptr, k)
      else case find_empty (s_tasks k) of
        None \<Rightarrow> Some (nullptr, k)
      | Some i \<Rightarrow> do {
          let task = slot_addr y i;
          let new_id = s_next_id k;
          let k = k\<lparr>s_next_id := s_next_id k + 1\<rparr>;
          k \<leftarrow> upd_task y task (\<lambda>t. t\<lparr>task_id := new_id, task_state := Ready, task_entry := entry,
                 stack_base := base, stack_size := sz\<rparr>) k;
          k \<leftarrow> on_nodes (set_prev (run_node task) nullptr) k;
          k \<leftarrow> on_nodes (set_next (run_node task) nullptr) k;
          let sp = (base + sz) AND NOT 0xF;
          k \<leftarrow> upd_task y task (\<lambda>t. t\<lparr>task_context := \<lparr>ctx_ra = task_entry_trampoline_at y, ctx_sp = sp,
                 ctx_s0 = 0, ctx_s1 = 0, ctx_s2 = 0, ctx_s3 = 0, ctx_s4 = 0, ctx_s5 = 0, ctx_s6 = 0,
                 ctx_s7 = 0, ctx_s8 = 0, ctx_s9 = 0, ctx_s10 = 0, ctx_s11 = 0\<rparr>\<rparr>) k;
          Some (task, k)
        })"

definition task_manager_init :: "symbols \<Rightarrow> kernel \<Rightarrow> kernel option" where
  "task_manager_init y k = do {
     let k = k\<lparr>s_next_id := 1\<rparr>;
     let k = k\<lparr>s_tasks := map (\<lambda>t. t\<lparr>task_state := Empty, stack_base := nullptr, stack_size := 0,
               task_entry := nullptr\<rparr>) (s_tasks k)\<rparr>;
     (t, k) \<leftarrow> create_kernel_task y (idle_task_entry_at y) (s_idle_stack_at y) 256 k;
     Some (k\<lparr>s_idle_task := t\<rparr>)
   }"

definition idle_task :: "kernel \<Rightarrow> addr" where
  "idle_task k = (if s_idle_task k \<noteq> nullptr then s_idle_task k else nullptr)"

section \<open>The context switch\<close>

datatype creg = RA | SP | S0 | S1 | S2 | S3 | S4 | S5 | S6 | S7 | S8 | S9 | S10 | S11

fun ctx_get :: "creg \<Rightarrow> Context \<Rightarrow> u64" where
  "ctx_get RA c = ctx_ra c"
| "ctx_get SP c = ctx_sp c"
| "ctx_get S0 c = ctx_s0 c"
| "ctx_get S1 c = ctx_s1 c"
| "ctx_get S2 c = ctx_s2 c"
| "ctx_get S3 c = ctx_s3 c"
| "ctx_get S4 c = ctx_s4 c"
| "ctx_get S5 c = ctx_s5 c"
| "ctx_get S6 c = ctx_s6 c"
| "ctx_get S7 c = ctx_s7 c"
| "ctx_get S8 c = ctx_s8 c"
| "ctx_get S9 c = ctx_s9 c"
| "ctx_get S10 c = ctx_s10 c"
| "ctx_get S11 c = ctx_s11 c"

fun ctx_set :: "creg \<Rightarrow> u64 \<Rightarrow> Context \<Rightarrow> Context" where
  "ctx_set RA v c = c\<lparr>ctx_ra := v\<rparr>"
| "ctx_set SP v c = c\<lparr>ctx_sp := v\<rparr>"
| "ctx_set S0 v c = c\<lparr>ctx_s0 := v\<rparr>"
| "ctx_set S1 v c = c\<lparr>ctx_s1 := v\<rparr>"
| "ctx_set S2 v c = c\<lparr>ctx_s2 := v\<rparr>"
| "ctx_set S3 v c = c\<lparr>ctx_s3 := v\<rparr>"
| "ctx_set S4 v c = c\<lparr>ctx_s4 := v\<rparr>"
| "ctx_set S5 v c = c\<lparr>ctx_s5 := v\<rparr>"
| "ctx_set S6 v c = c\<lparr>ctx_s6 := v\<rparr>"
| "ctx_set S7 v c = c\<lparr>ctx_s7 := v\<rparr>"
| "ctx_set S8 v c = c\<lparr>ctx_s8 := v\<rparr>"
| "ctx_set S9 v c = c\<lparr>ctx_s9 := v\<rparr>"
| "ctx_set S10 v c = c\<lparr>ctx_s10 := v\<rparr>"
| "ctx_set S11 v c = c\<lparr>ctx_s11 := v\<rparr>"

text \<open>The fields of \<^verbatim>\<open>struct Context\<close> in the order of their declaration, eight bytes each.\<close>

definition context_layout :: "creg list" where
  "context_layout = [RA, SP, S0, S1, S2, S3, S4, S5, S6, S7, S8, S9, S10, S11]"

definition field_at :: "nat \<Rightarrow> creg option" where
  "field_at off = (if off mod 8 = 0 \<and> off div 8 < length context_layout
                   then Some (context_layout ! (off div 8)) else None)"

datatype context_ptr = BootContext | ContextOf addr

definition read_context :: "symbols \<Rightarrow> context_ptr \<Rightarrow> kernel \<Rightarrow> Context option" where
  "read_context y p k = (case p of BootContext \<Rightarrow> Some (boot_ctx k)
     | ContextOf t \<Rightarrow> map_option task_context (get_task y t k))"

definition write_context :: "symbols \<Rightarrow> context_ptr \<Rightarrow> Context \<Rightarrow> kernel \<Rightarrow> kernel option" where
  "write_context y p c k = (case p of BootContext \<Rightarrow> Some (k\<lparr>boot_ctx := c\<rparr>)
     | ContextOf t \<Rightarrow> upd_task y t (\<lambda>t. t\<lparr>task_context := c\<rparr>) k)"

text \<open>\<open>Sd r off\<close> is \<^verbatim>\<open>sd r, off(a0)\<close> and \<open>Ld r off\<close> is \<^verbatim>\<open>ld r, off(a1)\<close>.\<close>

datatype switch_insn = Sd creg nat | Ld creg nat

definition context_switch_save :: "switch_insn list" where
  "context_switch_save =
    [Sd RA 0, Sd SP 8, Sd S0 16, Sd S1 24, Sd S2 32,
     Sd S3 40, Sd S4 48, Sd S5 56, Sd S6 64, Sd S7 72,
     Sd S8 80, Sd S9 88, Sd S10 96, Sd S11 104]"

definition context_switch_restore :: "switch_insn list" where
  "context_switch_restore =
    [Ld RA 0, Ld SP 8, Ld S0 16, Ld S1 24, Ld S2 32,
     Ld S3 40, Ld S4 48, Ld S5 56, Ld S6 64, Ld S7 72,
     Ld S8 80, Ld S9 88, Ld S10 96, Ld S11 104]"

fun exec_insn :: "symbols \<Rightarrow> context_ptr \<Rightarrow> context_ptr \<Rightarrow> switch_insn \<Rightarrow> kernel \<Rightarrow> kernel option" where
  "exec_insn y a0 a1 (Sd r off) k = do {
     f \<leftarrow> field_at off;
     c \<leftarrow> read_context y a0 k;
     write_context y a0 (ctx_set f (ctx_get r (live k)) c) k
   }"
| "exec_insn y a0 a1 (Ld r off) k = do {
     f \<leftarrow> field_at off;
     c \<leftarrow> read_context y a1 k;
     Some (k\<lparr>live := ctx_set r (ctx_get f c) (live k)\<rparr>)
   }"

fun exec_insns :: "symbols \<Rightarrow> context_ptr \<Rightarrow> context_ptr \<Rightarrow> switch_insn list \<Rightarrow> kernel \<Rightarrow> kernel option" where
  "exec_insns y a0 a1 [] k = Some k"
| "exec_insns y a0 a1 (i # is) k = do { k \<leftarrow> exec_insn y a0 a1 i k; exec_insns y a0 a1 is k }"

text \<open>The final \<^verbatim>\<open>ret\<close> continues at the restored \<open>ctx_ra (live k)\<close>.\<close>

definition context_switch :: "symbols \<Rightarrow> context_ptr \<Rightarrow> context_ptr \<Rightarrow> kernel \<Rightarrow> kernel option" where
  "context_switch y current next k = exec_insns y current next (context_switch_save @ context_switch_restore) k"

section \<open>Pointers to tasks\<close>

text \<open>What linking guarantees of the addresses.\<close>

definition symbols_ok :: "symbols \<Rightarrow> bool" where
  "symbols_ok y \<longleftrightarrow> s_tasks_at y \<noteq> nullptr \<and> unat (s_tasks_at y) + 32 * 160 < 2 ^ 64 \<and>
     s_ready_queue_at y \<noteq> nullptr \<and>
     (unat (s_ready_queue_at y) < unat (s_tasks_at y) \<or>
      unat (s_tasks_at y) + 32 * 160 \<le> unat (s_ready_queue_at y)) \<and>
     s_idle_stack_at y \<noteq> nullptr \<and> unat (s_idle_stack_at y) + 256 < 2 ^ 64"

lemma slot_addr_nat:
  assumes "symbols_ok y" "i < 32"
  shows "unat (slot_addr y i) = unat (s_tasks_at y) + 160 * i"
proof -
  have i: "unat (of_nat i * sizeof_Task :: u64) = 160 * i"
    using assms(2) by (simp add: sizeof_Task_def unat_word_ariths unat_of_nat64)
  with assms show ?thesis
    unfolding slot_addr_def by (subst unat_add_small) (auto simp: symbols_ok_def)
qed

lemma slot_addr_nonnull: "symbols_ok y \<Longrightarrow> i < 32 \<Longrightarrow> slot_addr y i \<noteq> 0"
proof
  assume a: "symbols_ok y" "i < 32" and z: "slot_addr y i = 0"
  have "unat (slot_addr y i) = 0" by (simp only: z unsigned_0)
  with slot_addr_nat [OF a] have "unat (s_tasks_at y) = 0" by linarith
  moreover have "s_tasks_at y \<noteq> 0" using a(1) by (simp add: symbols_ok_def)
  ultimately show False by (simp only: unat_eq_zero)
qed

lemma slot_of_slot_addr:
  assumes "symbols_ok y" "i < 32"
  shows "slot_of_ptr y (slot_addr y i) = Some i"
proof -
  have d: "slot_addr y i - s_tasks_at y = of_nat i * sizeof_Task" by (simp add: slot_addr_def)
  have i: "unat (of_nat i * sizeof_Task :: u64) = 160 * i"
    using assms(2) by (simp add: sizeof_Task_def unat_word_ariths unat_of_nat64)
  then have "unat (of_nat i * sizeof_Task div sizeof_Task :: u64) = i"
    "of_nat i * sizeof_Task mod sizeof_Task = (0 :: u64)"
    unfolding word_unat_eq_iff unat_div unat_mod by (simp_all add: sizeof_Task_def)
  with slot_addr_nonnull [OF assms] assms(2) show ?thesis
    by (simp add: slot_of_ptr_def d Let_def kMaxTasks_def)
qed

lemma slot_addr_inj: "symbols_ok y \<Longrightarrow> i < 32 \<Longrightarrow> j < 32 \<Longrightarrow> slot_addr y i = slot_addr y j \<longleftrightarrow> i = j"
  by (metis option.inject slot_of_slot_addr)

definition node_at :: "symbols \<Rightarrow> nat \<Rightarrow> addr" where
  "node_at y i = run_node (slot_addr y i)"

lemma node_at_nat: "symbols_ok y \<Longrightarrow> i < 32 \<Longrightarrow> unat (node_at y i) = unat (s_tasks_at y) + 160 * i + 8"
  unfolding node_at_def run_node_def run_node_offset_def
  by (subst unat_add_small) (auto simp: slot_addr_nat symbols_ok_def)

lemma node_at_nonnull: "symbols_ok y \<Longrightarrow> i < 32 \<Longrightarrow> node_at y i \<noteq> 0"
  by (metis add_is_0 node_at_nat unsigned_0 zero_neq_numeral)

lemma node_at_not_head:
  assumes "symbols_ok y" "i < 32"
  shows "node_at y i \<noteq> s_ready_queue_at y"
proof
  assume "node_at y i = s_ready_queue_at y"
  with node_at_nat [OF assms] have "unat (s_ready_queue_at y) = unat (s_tasks_at y) + 160 * i + 8"
    by (simp only:)
  with assms show False unfolding symbols_ok_def by linarith
qed

lemma node_at_inj: "symbols_ok y \<Longrightarrow> i < 32 \<Longrightarrow> j < 32 \<Longrightarrow> node_at y i = node_at y j \<longleftrightarrow> i = j"
  using slot_addr_inj by (simp add: node_at_def run_node_def)

lemma container_of_node: "container_of (node_at y i) run_node_offset = slot_addr y i"
  by (simp add: node_at_def run_node_def)

lemma get_task_slot:
  "symbols_ok y \<Longrightarrow> i < 32 \<Longrightarrow> length (s_tasks k) = 32 \<Longrightarrow> get_task y (slot_addr y i) k = Some (s_tasks k ! i)"
  by (simp add: get_task_def slot_of_slot_addr)

lemma upd_task_slot:
  "symbols_ok y \<Longrightarrow> i < 32 \<Longrightarrow> length (s_tasks k) = 32 \<Longrightarrow>
   upd_task y (slot_addr y i) f k = Some (k\<lparr>s_tasks := (s_tasks k)[i := f (s_tasks k ! i)]\<rparr>)"
  by (simp add: upd_task_def slot_of_slot_addr get_task_slot)

section \<open>The context switch exchanges whole contexts\<close>

definition context_ok :: "symbols \<Rightarrow> context_ptr \<Rightarrow> bool" where
  "context_ok y p \<longleftrightarrow> (case p of BootContext \<Rightarrow> True | ContextOf t \<Rightarrow> (\<exists>i < 32. t = slot_addr y i))"

definition context_of :: "symbols \<Rightarrow> context_ptr \<Rightarrow> kernel \<Rightarrow> Context" where
  "context_of y p k = the (read_context y p k)"

definition put_context :: "symbols \<Rightarrow> context_ptr \<Rightarrow> Context \<Rightarrow> kernel \<Rightarrow> kernel" where
  "put_context y p c k = the (write_context y p c k)"

lemma context_access:
  assumes "symbols_ok y" "context_ok y p" "length (s_tasks k) = 32"
  shows "read_context y p k = Some (context_of y p k)"
    and "write_context y p c k = Some (put_context y p c k)"
  using assms
  by (auto simp: context_ok_def context_of_def put_context_def read_context_def write_context_def
      get_task_slot upd_task_slot split: context_ptr.splits)

lemma put_context_simps:
  assumes "symbols_ok y" "context_ok y p" "length (s_tasks k) = 32"
  shows "length (s_tasks (put_context y p c k)) = 32"
    and "live (put_context y p c k) = live k"
    and "put_context y p d (put_context y p c k) = put_context y p d k"
    and "context_of y p (put_context y p c k) = c"
  using assms
  by (auto simp: context_ok_def context_of_def put_context_def read_context_def write_context_def
      get_task_slot upd_task_slot split: context_ptr.splits)

lemma context_of_put_other:
  assumes "symbols_ok y" "context_ok y p" "context_ok y q" "length (s_tasks k) = 32" "p \<noteq> q"
  shows "context_of y q (put_context y p c k) = context_of y q k"
  using assms
  by (auto simp: context_ok_def context_of_def put_context_def read_context_def write_context_def
      get_task_slot upd_task_slot slot_addr_inj split: context_ptr.splits)

lemma put_context_cases:
  assumes "symbols_ok y" "length (s_tasks k) = 32"
  shows "put_context y BootContext c k = k\<lparr>boot_ctx := c\<rparr>"
    and "i < 32 \<Longrightarrow> put_context y (ContextOf (slot_addr y i)) c k =
      k\<lparr>s_tasks := (s_tasks k)[i := (s_tasks k ! i)\<lparr>task_context := c\<rparr>]\<rparr>"
    and "context_of y BootContext k = boot_ctx k"
    and "i < 32 \<Longrightarrow> context_of y (ContextOf (slot_addr y i)) k = task_context (s_tasks k ! i)"
  using assms by (simp_all add: put_context_def write_context_def upd_task_slot context_of_def
      read_context_def get_task_slot)

lemma context_copy: "c\<lparr>ctx_ra := ctx_ra d, ctx_sp := ctx_sp d, ctx_s0 := ctx_s0 d, ctx_s1 := ctx_s1 d,
      ctx_s2 := ctx_s2 d, ctx_s3 := ctx_s3 d, ctx_s4 := ctx_s4 d, ctx_s5 := ctx_s5 d, ctx_s6 := ctx_s6 d,
      ctx_s7 := ctx_s7 d, ctx_s8 := ctx_s8 d, ctx_s9 := ctx_s9 d, ctx_s10 := ctx_s10 d, ctx_s11 := ctx_s11 d\<rparr> = (d :: Context)"
  by (cases c; cases d) simp

lemma context_of_live [simp]: "context_of y p (k\<lparr>live := c\<rparr>) = context_of y p k"
  by (simp add: context_of_def read_context_def get_task_def cong: if_cong split: context_ptr.splits)

lemma live_same [simp]: "k\<lparr>live := live k\<rparr> = (k :: kernel)"
  by (cases k) simp

text \<open>A store and a load through valid context pointers.\<close>

lemma exec_Sd:
  assumes "symbols_ok y" "context_ok y a0" "length (s_tasks k) = 32" "field_at off = Some f"
  shows "exec_insn y a0 a1 (Sd r off) (put_context y a0 c k) =
    Some (put_context y a0 (ctx_set f (ctx_get r (live k)) c) k)"
  using assms by (simp add: context_access put_context_simps)

lemma exec_Ld:
  assumes "symbols_ok y" "context_ok y a1" "length (s_tasks k) = 32" "field_at off = Some f"
  shows "exec_insn y a0 a1 (Ld r off) (k\<lparr>live := c\<rparr>) =
    Some (k\<lparr>live := ctx_set r (ctx_get f (context_of y a1 k)) c\<rparr>)"
  using assms by (simp add: context_access)

lemma context_switch_saves:
  assumes "symbols_ok y" "context_ok y a0" "length (s_tasks k) = 32"
  shows "exec_insns y a0 a1 (context_switch_save @ is) (put_context y a0 c k) =
    exec_insns y a0 a1 is (put_context y a0 (live k) k)"
  using assms
  by (simp add: context_switch_save_def exec_Sd field_at_def context_layout_def context_copy del: exec_insn.simps)

lemma context_switch_restores:
  assumes "symbols_ok y" "context_ok y a1" "length (s_tasks k) = 32"
  shows "exec_insns y a0 a1 context_switch_restore (k\<lparr>live := c\<rparr>) =
    Some (k\<lparr>live := context_of y a1 k\<rparr>)"
  using assms
  by (simp add: context_switch_restore_def exec_Ld field_at_def context_layout_def del: exec_insn.simps)

lemma context_switch_run:
  assumes "symbols_ok y" "length (s_tasks k) = 32" "context_ok y current" "context_ok y next"
  shows "context_switch y current next k = Some ((put_context y current (live k) k)
    \<lparr>live := if current = next then live k else context_of y next k\<rparr>)"
proof -
  let ?k = "put_context y current (live k) k"
  have same: "put_context y current (context_of y current k) k = k"
    using assms by (auto simp: context_ok_def put_context_cases split: context_ptr.splits)
  have len: "length (s_tasks ?k) = 32" by (rule put_context_simps(1) [OF assms(1,3,2)])
  have "context_switch y current next k = exec_insns y current next context_switch_restore ?k"
    unfolding context_switch_def
    using context_switch_saves [OF assms(1,3,2), where c = "context_of y current k"] by (simp only: same)
  also have "\<dots> = Some (?k\<lparr>live := context_of y next ?k\<rparr>)"
    using context_switch_restores [OF assms(1,4) len, of current "live ?k"] by (simp only: live_same)
  also have "context_of y next ?k = (if current = next then live k else context_of y next k)"
    using assms by (simp add: put_context_simps context_of_put_other)
  finally show ?thesis .
qed

text \<open>The context switch. For valid context pointers the 28 instructions of
  \<^verbatim>\<open>switch.S\<close> run without an access outside the structs, store every callee-saved register
  into the current context, load every callee-saved register from the next context (the
  registers stay as they are when both are the same), and change nothing else.\<close>

lemma context_switch_exchanges:
  assumes "symbols_ok y" "length (s_tasks k) = 32" "context_ok y current" "context_ok y next"
  shows "context_switch y current next k = Some ((put_context y current (live k) k)
    \<lparr>live := if current = next then live k else context_of y next k\<rparr>)"
  by (rule context_switch_run [OF assms])

section \<open>The task manager\<close>

text \<open>\<open>pool_ok\<close>: the table has 32 slots and each has a live queue node, as has the queue head.\<close>

definition pool_ok :: "symbols \<Rightarrow> kernel \<Rightarrow> bool" where
  "pool_ok y k \<longleftrightarrow> symbols_ok y \<and> length (s_tasks k) = 32 \<and>
     valid (nodes k) (s_ready_queue_at y) \<and> (\<forall>i < 32. valid (nodes k) (node_at y i))"

lemma pool_okD:
  "pool_ok y k \<Longrightarrow> symbols_ok y" "pool_ok y k \<Longrightarrow> length (s_tasks k) = 32"
  "pool_ok y k \<Longrightarrow> i < 32 \<Longrightarrow> valid (nodes k) (node_at y i)"
  "pool_ok y k \<Longrightarrow> valid (nodes k) (s_ready_queue_at y)"
  by (simp_all add: pool_ok_def)

lemma find_empty_None: "find_empty ts = None \<longleftrightarrow> (\<forall>t \<in> set ts. task_state t \<noteq> Empty)"
  by (induction ts) auto

lemma find_empty_Some: "find_empty ts = Some i \<longleftrightarrow>
    i < length ts \<and> task_state (ts ! i) = Empty \<and> (\<forall>j < i. task_state (ts ! j) \<noteq> Empty)"
proof (induction ts arbitrary: i)
  case (Cons t ts)
  then show ?case by (cases i) (auto simp: less_Suc_eq_0_disj)
qed simp

text \<open>The first context of a task, and the task that a call creates in a slot.\<close>

definition first_context :: "symbols \<Rightarrow> addr \<Rightarrow> u64 \<Rightarrow> Context" where
  "first_context y base sz = \<lparr>ctx_ra = task_entry_trampoline_at y, ctx_sp = (base + sz) AND NOT 0xF,
     ctx_s0 = 0, ctx_s1 = 0, ctx_s2 = 0, ctx_s3 = 0, ctx_s4 = 0, ctx_s5 = 0, ctx_s6 = 0,
     ctx_s7 = 0, ctx_s8 = 0, ctx_s9 = 0, ctx_s10 = 0, ctx_s11 = 0\<rparr>"

definition new_task :: "symbols \<Rightarrow> TaskId \<Rightarrow> Entry \<Rightarrow> addr \<Rightarrow> u64 \<Rightarrow> Task" where
  "new_task y n entry base sz = \<lparr>task_id = n, task_state = Ready, task_context = first_context y base sz,
     task_entry = entry, stack_base = base, stack_size = sz\<rparr>"

definition unlinked :: "addr \<Rightarrow> node_store \<Rightarrow> node_store" where
  "unlinked p s = s(p \<mapsto> \<lparr>prev_ptr = nullptr, next_ptr = nullptr\<rparr>)"

lemma unlink_node:
  "valid s p \<Longrightarrow> set_next p nullptr (upd_prev p nullptr s) = Some (unlinked p s)"
  by (auto simp: set_next_def deref_def valid_def upd_prev_def unlinked_def)

lemma create_kernel_task_full:
  "base = nullptr \<or> sz = 0 \<or> (\<forall>t \<in> set (s_tasks k). task_state t \<noteq> Empty) \<Longrightarrow>
   create_kernel_task y entry base sz k = Some (nullptr, k)"
  by (auto simp: create_kernel_task_def find_empty_None [symmetric])

lemma create_kernel_task_new:
  assumes ok: "pool_ok y k" and arg: "base \<noteq> nullptr" "sz \<noteq> 0" and i: "find_empty (s_tasks k) = Some i"
  shows "create_kernel_task y entry base sz k = Some (slot_addr y i,
    k\<lparr>s_next_id := s_next_id k + 1,
      s_tasks := (s_tasks k)[i := new_task y (s_next_id k) entry base sz],
      nodes := unlinked (node_at y i) (nodes k)\<rparr>)"
proof -
  have "i < 32" using i pool_okD(2) [OF ok] by (simp add: find_empty_Some)
  note facts = pool_okD(1,2) [OF ok] pool_okD(3) [OF ok this] this
  from facts arg i show ?thesis
    by (simp add: create_kernel_task_def upd_task_slot on_nodes_def node_at_def [symmetric]
        set_prev_valid unlink_node new_task_def first_context_def Let_def)
      (cases k; cases "s_tasks k ! i"; simp)
qed

text \<open>The first stack pointer: the end of the stack, rounded down to 16 bytes.\<close>

lemma stack_pointer_nat:
  assumes "unat base + unat sz < 2 ^ 64"
  shows "unat ((base + sz) AND NOT 0xF :: u64) = (unat base + unat sz) div 16 * 16"
proof -
  have "(0xF :: u64) = mask 4" by (simp add: mask_eq_exp_minus_1)
  then have "unat ((base + sz) AND NOT 0xF) = unat (push_bit 4 (drop_bit 4 (base + sz)))"
    by (simp only: and_not_mask)
  also have "\<dots> = unat (base + sz) div 16 * 16"
    by (simp only: and_not_mask [symmetric])
      (simp add: and_not_mask push_bit_eq_mult drop_bit_eq_div unat_word_ariths unat_div)
  finally show ?thesis using assms by (simp add: unat_add_small)
qed

section \<open>Properties of the task manager\<close>

text \<open>Property (C31): creating a task. A call with a null stack, an empty stack or no free slot
  returns the null pointer and changes nothing. Every other call returns the address of the
  lowest free slot, which then holds a ready task with the next identifier, the given entry
  and stack, and a context that starts in the trampoline on top of the stack with all saved
  registers zero; its queue node is unlinked, and no other task or node changes.\<close>

theorem create_task_effect:
  assumes "pool_ok y k"
  shows "create_kernel_task y entry base sz k =
    (if base = nullptr \<or> sz = 0 \<or> (\<forall>i < 32. task_state (s_tasks k ! i) \<noteq> Empty) then Some (nullptr, k)
     else let i = LEAST i. i < 32 \<and> task_state (s_tasks k ! i) = Empty in
       Some (slot_addr y i, k\<lparr>s_next_id := s_next_id k + 1,
         s_tasks := (s_tasks k)[i := new_task y (s_next_id k) entry base sz],
         nodes := unlinked (node_at y i) (nodes k)\<rparr>))"
proof (cases "find_empty (s_tasks k)")
  case None
  then have "\<forall>i < 32. task_state (s_tasks k ! i) \<noteq> Empty"
    using pool_okD(2) [OF assms] by (simp add: find_empty_None all_set_conv_all_nth)
  with None show ?thesis
    using create_kernel_task_full [of base sz k] by (simp add: find_empty_None)
next
  case (Some i)
  then have i: "i < 32" "task_state (s_tasks k ! i) = Empty" "\<forall>j < i. task_state (s_tasks k ! j) \<noteq> Empty"
    using pool_okD(2) [OF assms] by (simp_all add: find_empty_Some)
  then have "(LEAST i. i < 32 \<and> task_state (s_tasks k ! i) = Empty) = i"
    by (intro Least_equality) (auto simp: not_less [symmetric])
  with i(1,2) show ?thesis
    using create_kernel_task_new [OF assms _ _ Some] create_kernel_task_full [of base sz k]
    by (auto simp: Let_def)
qed

definition demo_symbols :: symbols where
  "demo_symbols = \<lparr>s_tasks_at = 0x80010000, s_ready_queue_at = 0x80012000, s_idle_stack_at = 0x80013008,
     idle_task_entry_at = 0x80000100, task_entry_trampoline_at = 0x80000200, trap_entry_at = 0x80000300\<rparr>"

definition zero_context :: Context where
  "zero_context = \<lparr>ctx_ra = 0, ctx_sp = 0, ctx_s0 = 0, ctx_s1 = 0, ctx_s2 = 0, ctx_s3 = 0, ctx_s4 = 0,
     ctx_s5 = 0, ctx_s6 = 0, ctx_s7 = 0, ctx_s8 = 0, ctx_s9 = 0, ctx_s10 = 0, ctx_s11 = 0\<rparr>"

definition zero_task :: Task where
  "zero_task = \<lparr>task_id = 0, task_state = Empty, task_context = zero_context, task_entry = 0,
     stack_base = 0, stack_size = 0\<rparr>"

text \<open>The kernel as the loader leaves it: all static data zero.\<close>

definition demo_kernel :: kernel where
  "demo_kernel = hart.extend demo_hart (kernel.fields zero_context zero_context
     (replicate 32 zero_task)
     (\<lambda>p. if p = s_ready_queue_at demo_symbols \<or> p \<in> set (map (node_at demo_symbols) [0..<32])
          then Some \<lparr>prev_ptr = 0, next_ptr = 0\<rparr> else None)
     0 0 0)"

lemma demo_kernel_simps [simp]:
  "s_tasks demo_kernel = replicate 32 zero_task" "s_next_id demo_kernel = 0"
  "s_idle_task demo_kernel = 0" "s_current demo_kernel = 0"
  by (simp_all add: demo_kernel_def hart.defs kernel.defs)

lemma demo_symbols_ok: "symbols_ok demo_symbols"
  by (simp add: symbols_ok_def demo_symbols_def)

lemma demo_pool_ok: "pool_ok demo_symbols demo_kernel"
  using demo_symbols_ok node_at_nonnull [OF demo_symbols_ok]
  by (auto simp: pool_ok_def valid_def demo_kernel_def hart.defs kernel.defs symbols_ok_def)

lemma create_task_effect_witness:
  "create_kernel_task demo_symbols 0x80000400 0x80020000 1024 demo_kernel =
     Some (slot_addr demo_symbols 0, demo_kernel\<lparr>s_next_id := 1,
       s_tasks := (s_tasks demo_kernel)[0 := new_task demo_symbols 0 0x80000400 0x80020000 1024],
       nodes := unlinked (node_at demo_symbols 0) (nodes demo_kernel)\<rparr>)"
proof -
  have least: "(LEAST i. i < 32 \<and> task_state (s_tasks demo_kernel ! i) = Empty) = 0"
    by (intro Least_equality) (simp_all add: zero_task_def)
  have "task_state (s_tasks demo_kernel ! 0) = Empty" by (simp add: zero_task_def)
  then have free: "\<not> ((0x80020000 :: addr) = nullptr \<or> (1024 :: u64) = 0 \<or>
      (\<forall>i < 32. task_state (s_tasks demo_kernel ! i) \<noteq> Empty))" by fastforce
  from create_task_effect [OF demo_pool_ok, of "0x80000400" "0x80020000" 1024] show ?thesis
    unfolding if_not_P [OF free] Let_def least by simp
qed

text \<open>The stack of a new task. For a stack of at least 16 bytes that does not wrap,
  the first stack pointer is 16-byte aligned, above the start of the stack, at most its end,
  and less than 16 bytes below the end; switching to the new task from any valid context
  continues in the trampoline with that stack pointer.\<close>

lemma new_task_starts:
  assumes "unat base + unat sz < 2 ^ 64" and "16 \<le> unat sz"
    and "pool_ok y k" and "i < 32" and "s_tasks k ! i = new_task y n entry base sz"
    and "context_ok y current" and "current \<noteq> ContextOf (slot_addr y i)"
  shows "\<exists>k'. context_switch y current (ContextOf (slot_addr y i)) k = Some k' \<and>
    ctx_ra (live k') = task_entry_trampoline_at y \<and>
    unat (ctx_sp (live k')) mod 16 = 0 \<and> unat base < unat (ctx_sp (live k')) \<and>
    unat (ctx_sp (live k')) \<le> unat base + unat sz \<and> unat base + unat sz - unat (ctx_sp (live k')) < 16"
proof -
  note ok = pool_okD(1,2) [OF assms(3)]
  have p: "context_ok y (ContextOf (slot_addr y i))" using assms(4) by (auto simp: context_ok_def)
  let ?sp = "(base + sz) AND NOT 0xF"
  have sp: "unat ?sp = (unat base + unat sz) div 16 * 16" by (rule stack_pointer_nat [OF assms(1)])
  obtain k' where k': "context_switch y current (ContextOf (slot_addr y i)) k = Some k'"
      "live k' = first_context y base sz"
    using context_switch_run [OF ok assms(6) p] assms(4,5,7) ok
    by (simp add: put_context_cases new_task_def)
  have m: "(unat base + unat sz) mod 16 < 16" by (rule mod_less_divisor) simp
  have "unat base < (unat base + unat sz) div 16 * 16"
    "(unat base + unat sz) div 16 * 16 \<le> unat base + unat sz"
    "unat base + unat sz - (unat base + unat sz) div 16 * 16 < 16"
    using assms(2) m div_mult_mod_eq [of "unat base + unat sz" 16] by linarith+
  with sp k' show ?thesis by (simp add: first_context_def)
qed

definition one_task_kernel :: kernel where
  "one_task_kernel = demo_kernel\<lparr>s_tasks := (replicate 32 zero_task)
     [1 := new_task demo_symbols 1 0x80000400 0x80020008 1024]\<rparr>"

lemma new_task_starts_witness:
  "\<exists>k'. context_switch demo_symbols BootContext (ContextOf (slot_addr demo_symbols 1)) one_task_kernel = Some k' \<and>
    ctx_ra (live k') = 0x80000200 \<and> unat (ctx_sp (live k')) mod 16 = 0 \<and> 0x80020008 < unat (ctx_sp (live k'))"
proof -
  have "pool_ok demo_symbols one_task_kernel"
    using demo_pool_ok by (simp add: pool_ok_def one_task_kernel_def)
  from new_task_starts [OF _ _ this, where base = "0x80020008" and sz = 1024 and i = 1 and n = 1
      and entry = "0x80000400" and current = BootContext]
  show ?thesis by (auto simp: one_task_kernel_def context_ok_def demo_symbols_def)
qed

text \<open>The context switch on the same kernel.\<close>

lemma context_switch_exchanges_witness:
  "context_switch demo_symbols BootContext (ContextOf (slot_addr demo_symbols 1)) one_task_kernel =
     Some (one_task_kernel\<lparr>boot_ctx := live one_task_kernel,
       live := first_context demo_symbols 0x80020008 1024\<rparr>)"
proof -
  have c: "context_ok demo_symbols BootContext" "context_ok demo_symbols (ContextOf (slot_addr demo_symbols 1))"
    by (auto simp: context_ok_def intro!: exI [of _ 1])
  have l: "length (s_tasks one_task_kernel) = 32" by (simp add: one_task_kernel_def)
  from context_switch_exchanges [OF demo_symbols_ok l c] show ?thesis
    using l by (simp add: put_context_cases demo_symbols_ok one_task_kernel_def new_task_def)
qed

end
