(* ===== verification/Scheduler.thy ===== *)
theory Scheduler
  imports Task
begin

text \<open>
  \<^verbatim>\<open>kernel/core/sched/run_queue\<close> and \<^verbatim>\<open>kernel/core/sched/scheduler\<close>. A call of the scheduler
  returns to its caller, or has switched to another context (the caller goes on when it is
  switched to again), or never returns: that is its \<open>flow\<close>. The scheduler's abstract state
  is the slot that runs and the list of ready slots; \<open>sched_rep\<close> relates it to the kernel
  state and every operation is proved to refine its abstract counterpart. The step relation
  \<open>sched_step\<close> is what tasks can do; invariants are proved over its reachable states.
\<close>

datatype flow = Returned | Switched

section \<open>RunQueue\<close>

definition rq_init :: "symbols \<Rightarrow> kernel \<Rightarrow> kernel option" where
  "rq_init y k = do {
     k \<leftarrow> on_nodes (queue_init (s_ready_queue_at y)) k;
     Some (k\<lparr>s_current := nullptr\<rparr>)
   }"

definition rq_push :: "symbols \<Rightarrow> addr \<Rightarrow> kernel \<Rightarrow> (bool \<times> kernel) option" where
  "rq_push y task k =
     (if task = nullptr then Some (False, k)
      else do {
        k \<leftarrow> upd_task y task (\<lambda>t. t\<lparr>task_state := Ready\<rparr>) k;
        k \<leftarrow> on_nodes (queue_push (s_ready_queue_at y) (run_node task)) k;
        Some (True, k)
      })"

definition rq_current :: "kernel \<Rightarrow> addr" where
  "rq_current k = s_current k"

definition rq_set_current :: "addr \<Rightarrow> kernel \<Rightarrow> bool \<times> kernel" where
  "rq_set_current task k = (if task = nullptr then (False, k) else (True, k\<lparr>s_current := task\<rparr>))"

definition rq_next :: "symbols \<Rightarrow> kernel \<Rightarrow> (addr \<times> kernel) option" where
  "rq_next y k = do {
     (node, s) \<leftarrow> queue_pop (s_ready_queue_at y) (nodes k);
     let k = k\<lparr>nodes := s\<rparr>;
     (if node = nullptr then Some (nullptr, k)
      else Some (container_of node run_node_offset, k))
   }"

section \<open>Scheduler\<close>

definition sched_init :: "symbols \<Rightarrow> kernel \<Rightarrow> kernel option" where
  "sched_init y k = rq_init y k"

text \<open>
  \<^verbatim>\<open>Scheduler::start\<close> never returns: the loop after the switch runs only if something switches
  back to \<open>BootContext\<close>, which only this function refers to.
\<close>

definition sched_start :: "symbols \<Rightarrow> kernel \<Rightarrow> kernel option" where
  "sched_start y k = do {
     (next, k) \<leftarrow> rq_next y k;
     let next = (if next = nullptr then idle_task k else next);
     let k = snd (rq_set_current next k);
     k \<leftarrow> upd_task y next (\<lambda>t. t\<lparr>task_state := Running\<rparr>) k;
     let k = k\<lparr>boot_ctx := \<lparr>ctx_ra = 0, ctx_sp = 0, ctx_s0 = 0, ctx_s1 = 0, ctx_s2 = 0, ctx_s3 = 0,
       ctx_s4 = 0, ctx_s5 = 0, ctx_s6 = 0, ctx_s7 = 0, ctx_s8 = 0, ctx_s9 = 0, ctx_s10 = 0, ctx_s11 = 0\<rparr>\<rparr>;
     context_switch y BootContext (ContextOf next) k
   }"

definition reschedule :: "symbols \<Rightarrow> kernel \<Rightarrow> (flow \<times> kernel) option" where
  "reschedule y k = do {
     let prev = rq_current k;
     (next, k) \<leftarrow> rq_next y k;
     let next = (if next = nullptr then idle_task k else next);
     (if next = nullptr \<or> prev = nullptr then Some (Returned, k)
      else do {
        requeue \<leftarrow> (if prev \<noteq> nullptr \<and> prev \<noteq> idle_task k
                    then map_option (\<lambda>t. task_state t = Running) (get_task y prev k)
                    else Some False);
        k \<leftarrow> (if requeue
              then do {
                k \<leftarrow> upd_task y prev (\<lambda>t. t\<lparr>task_state := Ready\<rparr>) k;
                map_option snd (rq_push y prev k)
              }
              else Some k);
        k \<leftarrow> upd_task y next (\<lambda>t. t\<lparr>task_state := Running\<rparr>) k;
        let k = snd (rq_set_current next k);
        k \<leftarrow> context_switch y (ContextOf prev) (ContextOf next) k;
        Some (Switched, k)
      })
   }"

definition sched_yield :: "symbols \<Rightarrow> kernel \<Rightarrow> (flow \<times> kernel) option" where
  "sched_yield y k = reschedule y k"

definition on_tick :: "kernel \<Rightarrow> kernel" where
  "on_tick k = k"

section \<open>The abstract scheduler\<close>

text \<open>
  Slot 0 is the idle task. \<open>abs_next q\<close> is the slot that runs next and the rest of the queue;
  \<open>abs_reschedule c again q\<close> is a rescheduling in which slot \<open>c\<close> ran, and is to run again
  if \<open>again\<close>.
\<close>

fun abs_next :: "nat list \<Rightarrow> nat \<times> nat list" where
  "abs_next [] = (0, [])"
| "abs_next (n # q) = (n, q)"

definition abs_reschedule :: "nat \<Rightarrow> bool \<Rightarrow> nat list \<Rightarrow> nat \<times> nat list" where
  "abs_reschedule c again q =
     (case abs_next q of (n, q') \<Rightarrow> (n, if c \<noteq> 0 \<and> again then q' @ [c] else q'))"

text \<open>The ready queue represents the slots \<open>q\<close>.\<close>

definition queue_rep :: "symbols \<Rightarrow> kernel \<Rightarrow> nat list \<Rightarrow> bool" where
  "queue_rep y k q \<longleftrightarrow> pool_ok y k \<and> dll (nodes k) (s_ready_queue_at y) (map (node_at y) q) \<and>
     (\<forall>i \<in> set q. i < 32)"

definition sched_rep :: "symbols \<Rightarrow> kernel \<Rightarrow> nat \<Rightarrow> nat list \<Rightarrow> bool" where
  "sched_rep y k c q \<longleftrightarrow> queue_rep y k q \<and> c < 32 \<and> c \<notin> set q \<and> 0 \<notin> set q \<and>
     s_current k = slot_addr y c \<and> s_idle_task k = slot_addr y 0 \<and>
     task_state (s_tasks k ! 0) \<noteq> Empty \<and> task_state (s_tasks k ! c) \<noteq> Empty \<and>
     (\<forall>i \<in> set q. task_state (s_tasks k ! i) = Ready)"

section \<open>The run queue refines a list\<close>

lemma idle_task_eq: "idle_task k = s_idle_task k"
  by (simp add: idle_task_def)

lemma queue_repD:
  assumes "queue_rep y k q"
  shows "pool_ok y k" "symbols_ok y" "length (s_tasks k) = 32"
    "dll (nodes k) (s_ready_queue_at y) (map (node_at y) q)" "i \<in> set q \<Longrightarrow> i < 32"
  using assms by (auto simp: queue_rep_def pool_ok_def)

lemma pool_ok_nodes:
  assumes "pool_ok y k" "pushable s (s_ready_queue_at y) = pushable (nodes k) (s_ready_queue_at y)"
    "valid s (s_ready_queue_at y)"
  shows "pool_ok y (k\<lparr>nodes := s\<rparr>)"
proof -
  have "valid s (node_at y i)" if "i < 32" for i
    using fun_cong [OF assms(2), of "node_at y i"] pool_okD(3) [OF assms(1) that]
      node_at_not_head [OF pool_okD(1) [OF assms(1)] that] by (simp add: pushable_def)
  with assms show ?thesis by (simp add: pool_ok_def)
qed

lemma queue_rep_nodes:
  assumes "pool_ok y k" "dll s (s_ready_queue_at y) (map (node_at y) q)" "\<forall>i \<in> set q. i < 32"
    "pushable s (s_ready_queue_at y) = pushable (nodes k) (s_ready_queue_at y)"
  shows "queue_rep y (k\<lparr>nodes := s\<rparr>) q"
  using assms pool_ok_nodes [OF assms(1,4)] dll_valid [OF assms(2)] by (simp add: queue_rep_def)

lemma rq_next_correct:
  assumes q: "queue_rep y k q"
  shows "\<exists>s. rq_next y k = Some (case q of [] \<Rightarrow> nullptr | n # _ \<Rightarrow> slot_addr y n, k\<lparr>nodes := s\<rparr>) \<and>
    queue_rep y (k\<lparr>nodes := s\<rparr>) (tl q)"
proof (cases q)
  case Nil
  with queue_repD(4) [OF q] have e: "dll (nodes k) (s_ready_queue_at y) []" by simp
  have "k\<lparr>nodes := nodes k\<rparr> = k" by (cases k) simp
  with q Nil ready.pop_empty_law [OF e] show ?thesis
    by (intro exI [of _ "nodes k"]) (simp add: rq_next_def Let_def)
next
  case (Cons n ns)
  with queue_repD(4) [OF q] have l: "dll (nodes k) (s_ready_queue_at y) (node_at y n # map (node_at y) ns)" by simp
  from ready.pop_law [OF this] obtain s where s: "queue_pop (s_ready_queue_at y) (nodes k) = Some (node_at y n, s)"
      "dll s (s_ready_queue_at y) (map (node_at y) ns)"
      "pushable s (s_ready_queue_at y) = pushable (nodes k) (s_ready_queue_at y)" by blast
  have "queue_rep y (k\<lparr>nodes := s\<rparr>) ns"
    using Cons queue_repD(1,5) [OF q] by (intro queue_rep_nodes s) auto
  moreover have "node_at y n \<noteq> nullptr"
    using node_at_nonnull [OF queue_repD(2) [OF q]] queue_repD(5) [OF q] Cons by simp
  ultimately show ?thesis using s(1) Cons
    by (intro exI [of _ s]) (simp add: rq_next_def Let_def container_of_node)
qed

lemma queue_rep_cong:
  "nodes k' = nodes k \<Longrightarrow> length (s_tasks k') = length (s_tasks k) \<Longrightarrow> queue_rep y k' q = queue_rep y k q"
  by (simp add: queue_rep_def pool_ok_def)

lemma rq_push_correct:
  assumes q: "queue_rep y k q" and i: "i < 32" "i \<notin> set q"
  shows "\<exists>s. rq_push y (slot_addr y i) k = Some (True, k\<lparr>s_tasks := (s_tasks k)[i := (s_tasks k ! i)\<lparr>task_state := Ready\<rparr>],
      nodes := s\<rparr>) \<and> (\<forall>ts. length ts = 32 \<longrightarrow> queue_rep y (k\<lparr>s_tasks := ts, nodes := s\<rparr>) (q @ [i]))"
proof -
  note ok = queue_repD(2,3) [OF q]
  have n: "pushable (nodes k) (s_ready_queue_at y) (node_at y i)"
    using pool_okD(3) [OF queue_repD(1) [OF q] i(1)] node_at_not_head [OF ok(1) i(1)] by (simp add: pushable_def)
  have "node_at y i \<notin> set (map (node_at y) q)"
    using node_at_inj [OF ok(1) i(1)] queue_repD(5) [OF q] i(2) by auto
  from ready.push_law [OF queue_repD(4) [OF q] n this] obtain s where
    s: "queue_push (s_ready_queue_at y) (node_at y i) (nodes k) = Some s"
      "dll s (s_ready_queue_at y) (map (node_at y) (q @ [i]))"
      "pushable s (s_ready_queue_at y) = pushable (nodes k) (s_ready_queue_at y)" by auto
  have "queue_rep y (k\<lparr>nodes := s\<rparr>) (q @ [i])"
    using queue_repD(1,5) [OF q] i(1) by (intro queue_rep_nodes s) auto
  then have "queue_rep y (k\<lparr>s_tasks := ts, nodes := s\<rparr>) (q @ [i])" if "length ts = 32" for ts
    using queue_rep_cong [of "k\<lparr>s_tasks := ts, nodes := s\<rparr>" "k\<lparr>nodes := s\<rparr>"] that ok(2) by simp
  with s(1) ok i(1) slot_addr_nonnull [OF ok(1) i(1)] show ?thesis
    by (auto simp: rq_push_def upd_task_slot on_nodes_def node_at_def)
qed

section \<open>Rescheduling refines the abstract scheduler\<close>

text \<open>What a rescheduling from slot \<open>c\<close> to slot \<open>n\<close> does to the task in slot \<open>i\<close>.\<close>

definition resched_task :: "nat \<Rightarrow> bool \<Rightarrow> nat \<Rightarrow> Context \<Rightarrow> nat \<Rightarrow> Task \<Rightarrow> Task" where
  "resched_task c again n regs i t =
     t\<lparr>task_state := (if i = n then Running else if i = c \<and> c \<noteq> 0 \<and> again then Ready else task_state t),
       task_context := (if i = c then regs else task_context t)\<rparr>"

definition runs_again :: "kernel \<Rightarrow> nat \<Rightarrow> bool" where
  "runs_again k c \<longleftrightarrow> task_state (s_tasks k ! c) = Running"

definition resched_tasks :: "nat \<Rightarrow> bool \<Rightarrow> nat \<Rightarrow> Context \<Rightarrow> Task list \<Rightarrow> Task list" where
  "resched_tasks c again n regs ts = map (\<lambda>i. resched_task c again n regs i (ts ! i)) [0..<length ts]"

lemma sched_repD:
  assumes "sched_rep y k c q"
  shows "queue_rep y k q" "symbols_ok y" "length (s_tasks k) = 32" "c < 32" "c \<notin> set q" "0 \<notin> set q"
    "s_current k = slot_addr y c" "s_idle_task k = slot_addr y 0" "idle_task k = slot_addr y 0"
  using assms queue_repD(2,3) [of y k q] by (auto simp: sched_rep_def idle_task_def)

definition requeued :: "nat \<Rightarrow> bool \<Rightarrow> Task list \<Rightarrow> Task list" where
  "requeued c again ts = (if c \<noteq> 0 \<and> again then ts[c := (ts ! c)\<lparr>task_state := Ready\<rparr>] else ts)"

lemma nodes_tasks: "k\<lparr>nodes := s, s_tasks := ts\<rparr> = (k :: kernel)\<lparr>s_tasks := ts, nodes := s\<rparr>"
  by (cases k) simp

lemma requeue_step:
  assumes q: "queue_rep y (k\<lparr>nodes := s0\<rparr>) q" and c: "c < 32" "c \<notin> set q" and idle: "idle_task k = slot_addr y 0"
  shows "\<exists>r s. (if slot_addr y c \<noteq> nullptr \<and> slot_addr y c \<noteq> idle_task (k\<lparr>nodes := s0\<rparr>)
      then map_option (\<lambda>t. task_state t = Running) (get_task y (slot_addr y c) (k\<lparr>nodes := s0\<rparr>))
      else Some False) = Some r \<and>
    (if r
     then do {
       k \<leftarrow> upd_task y (slot_addr y c) (\<lambda>t. t\<lparr>task_state := Ready\<rparr>) (k\<lparr>nodes := s0\<rparr>);
       map_option snd (rq_push y (slot_addr y c) k)
     }
     else Some (k\<lparr>nodes := s0\<rparr>)) = Some (k\<lparr>s_tasks := requeued c (runs_again k c) (s_tasks k), nodes := s\<rparr>) \<and>
    queue_rep y (k\<lparr>s_tasks := requeued c (runs_again k c) (s_tasks k), nodes := s\<rparr>)
      (if c \<noteq> 0 \<and> runs_again k c then q @ [c] else q)"
proof -
  have ok: "symbols_ok y" "length (s_tasks k) = 32" using queue_repD(2,3) [OF q] by simp_all
  have idle': "idle_task (k\<lparr>nodes := s0\<rparr>) = slot_addr y 0" using idle by (simp add: idle_task_eq)
  have nz: "slot_addr y c \<noteq> nullptr" "slot_addr y c \<noteq> slot_addr y 0 \<longleftrightarrow> c \<noteq> 0"
    using slot_addr_nonnull [OF ok(1) c(1)] slot_addr_inj [OF ok(1) c(1)] by auto
  show ?thesis
  proof (cases "c \<noteq> 0 \<and> runs_again k c")
    case True
    let ?k = "k\<lparr>s_tasks := (s_tasks k)[c := (s_tasks k ! c)\<lparr>task_state := Ready\<rparr>], nodes := s0\<rparr>"
    have "queue_rep y ?k q" using queue_rep_cong [of ?k "k\<lparr>nodes := s0\<rparr>"] q by simp
    from rq_push_correct [OF this c] obtain s where
      "rq_push y (slot_addr y c) ?k = Some (True, ?k\<lparr>nodes := s\<rparr>)"
      "queue_rep y (?k\<lparr>nodes := s\<rparr>) (q @ [c])" using ok c(1) by auto
    with True nz idle' ok c(1) show ?thesis
      by (intro exI [of _ True] exI [of _ s])
        (simp add: get_task_slot upd_task_slot runs_again_def requeued_def nodes_tasks)
  next
    case False
    have "k\<lparr>s_tasks := s_tasks k, nodes := s0\<rparr> = k\<lparr>nodes := s0\<rparr>" by (cases k) simp
    with False nz idle' ok c(1) q show ?thesis
      by (intro exI [of _ False] exI [of _ s0]) (auto simp: get_task_slot runs_again_def requeued_def)
  qed
qed

lemma resched_tasks_eq:
  assumes "length ts = 32" "c < 32" "n < 32" "n \<noteq> c \<or> c = 0"
    "us = requeued c again ts"
    "vs = us[n := (us ! n)\<lparr>task_state := Running\<rparr>]"
  shows "vs[c := (vs ! c)\<lparr>task_context := regs\<rparr>] = resched_tasks c again n regs ts"
  using assms
  by (auto intro!: nth_equalityI simp: requeued_def resched_tasks_def resched_task_def nth_list_update)

lemma abs_reschedule_eq:
  "abs_reschedule c again q = (case q of [] \<Rightarrow> 0 | n # _ \<Rightarrow> n, if c \<noteq> 0 \<and> again then tl q @ [c] else tl q)"
  by (cases q) (simp_all add: abs_reschedule_def)

lemma sched_rep_distinct: "sched_rep y k c q \<Longrightarrow> distinct q"
  using dll_distinct [OF queue_repD(4) [OF sched_repD(1)]] by (auto simp: distinct_map)

lemma next_slot:
  assumes rep: "sched_rep y k c q" and step: "abs_reschedule c again q = (n, q')"
  shows "n < 32" "n \<noteq> c \<or> c = 0" "n \<notin> set q'" "c \<notin> set (tl q)" "0 \<notin> set q'"
    "i \<in> set q' \<Longrightarrow> i \<in> set q \<or> i = c \<and> c \<noteq> 0 \<and> again" "n = 0 \<or> n \<in> set q"
  using sched_repD(4,5,6) [OF rep] queue_repD(5) [OF sched_repD(1) [OF rep]] sched_rep_distinct [OF rep] step
  by (cases q; auto simp: abs_reschedule_eq split: if_splits)+

lemma next_pointer:
  assumes rep: "sched_rep y k c q" and step: "abs_reschedule c again q = (n, q')"
  shows "\<exists>s. rq_next y k = Some (case q of [] \<Rightarrow> nullptr | n # _ \<Rightarrow> slot_addr y n, k\<lparr>nodes := s\<rparr>) \<and>
    queue_rep y (k\<lparr>nodes := s\<rparr>) (tl q) \<and>
    (if (case q of [] \<Rightarrow> nullptr | n # _ \<Rightarrow> slot_addr y n) = nullptr then idle_task (k\<lparr>nodes := s\<rparr>)
     else (case q of [] \<Rightarrow> nullptr | n # _ \<Rightarrow> slot_addr y n)) = slot_addr y n"
  using rq_next_correct [OF sched_repD(1) [OF rep]] sched_repD(2,9) [OF rep] slot_addr_nonnull
    queue_repD(5) [OF sched_repD(1) [OF rep]] step
  by (cases q) (auto simp: abs_reschedule_eq idle_task_def)

lemma switch_tasks:
  assumes "symbols_ok y" "length ts = 32" "c < 32" "n < 32" "n \<noteq> c \<or> c = 0"
    "us = requeued c again ts"
    "s_tasks k = us[n := (us ! n)\<lparr>task_state := Running\<rparr>]"
  shows "context_switch y (ContextOf (slot_addr y c)) (ContextOf (slot_addr y n)) k =
    Some (k\<lparr>s_tasks := resched_tasks c again n (live k) ts,
      live := if n = c then live k else task_context (ts ! n)\<rparr>)"
proof -
  have len: "length (s_tasks k) = 32" using assms by (simp add: requeued_def)
  have ctx: "task_context (s_tasks k ! n) = task_context (ts ! n)"
    using assms by (auto simp: requeued_def nth_list_update)
  have ok: "context_ok y (ContextOf (slot_addr y c))" "context_ok y (ContextOf (slot_addr y n))"
    using assms(3,4) by (auto simp: context_ok_def)
  have same: "slot_addr y c = slot_addr y n \<longleftrightarrow> n = c"
    using slot_addr_inj [OF assms(1,3,4)] by auto
  show ?thesis
    unfolding context_switch_run [OF assms(1) len ok]
      resched_tasks_eq [OF assms(2-6,7), symmetric]
    by (simp add: put_context_cases [OF assms(1) len] assms(3,4) ctx same)
qed

text \<open>The state after a rescheduling from \<open>c\<close> to \<open>n\<close>, up to the queue's links.\<close>

definition rescheduled :: "symbols \<Rightarrow> kernel \<Rightarrow> nat \<Rightarrow> nat \<Rightarrow> node_store \<Rightarrow> kernel" where
  "rescheduled y k c n s = k\<lparr>live := if n = c then live k else task_context (s_tasks k ! n),
     s_tasks := resched_tasks c (runs_again k c) n (live k) (s_tasks k), nodes := s,
     s_current := slot_addr y n\<rparr>"

lemma resched_tasks_nth:
  "i < length ts \<Longrightarrow> resched_tasks c again n regs ts ! i = resched_task c again n regs i (ts ! i)"
  "length (resched_tasks c again n regs ts) = length ts"
  by (simp_all add: resched_tasks_def)

lemma rescheduled_rep:
  assumes rep: "sched_rep y k c q" and step: "abs_reschedule c (runs_again k c) q = (n, q')"
    and q: "queue_rep y (rescheduled y k c n s) q'"
  shows "sched_rep y (rescheduled y k c n s) n q'"
proof -
  have "i < 32 \<and> i \<noteq> n" if "i \<in> set q'" for i
    using that queue_repD(5) [OF q] next_slot(3) [OF rep step] by blast
  with assms next_slot [OF rep step] sched_repD(3,4) [OF rep] show ?thesis
    by (auto simp: sched_rep_def rescheduled_def resched_tasks_nth resched_task_def)
qed

lemma reschedule_refines:
  assumes rep: "sched_rep y k c q" and step: "abs_reschedule c (runs_again k c) q = (n, q')"
  shows "\<exists>s. reschedule y k = Some (Switched, rescheduled y k c n s) \<and> sched_rep y (rescheduled y k c n s) n q'"
proof -
  note facts = sched_repD [OF rep] and nx = next_slot [OF rep step]
  obtain s1 where s1: "rq_next y k = Some (case q of [] \<Rightarrow> nullptr | n # _ \<Rightarrow> slot_addr y n, k\<lparr>nodes := s1\<rparr>)"
      "queue_rep y (k\<lparr>nodes := s1\<rparr>) (tl q)"
    and next_ptr: "(if (case q of [] \<Rightarrow> nullptr | n # _ \<Rightarrow> slot_addr y n) = nullptr then idle_task (k\<lparr>nodes := s1\<rparr>)
      else (case q of [] \<Rightarrow> nullptr | n # _ \<Rightarrow> slot_addr y n)) = slot_addr y n"
    using next_pointer [OF rep step] by blast
  define us where "us = requeued c (runs_again k c) (s_tasks k)"
  from requeue_step [OF s1(2) facts(4) nx(4) facts(9)] obtain r s2 where
    r: "(if slot_addr y c \<noteq> nullptr \<and> slot_addr y c \<noteq> idle_task (k\<lparr>nodes := s1\<rparr>)
         then map_option (\<lambda>t. task_state t = Running) (get_task y (slot_addr y c) (k\<lparr>nodes := s1\<rparr>)) else Some False) = Some r"
      "(if r then do {
         k \<leftarrow> upd_task y (slot_addr y c) (\<lambda>t. t\<lparr>task_state := Ready\<rparr>) (k\<lparr>nodes := s1\<rparr>);
         map_option snd (rq_push y (slot_addr y c) k)
       } else Some (k\<lparr>nodes := s1\<rparr>)) = Some (k\<lparr>s_tasks := us, nodes := s2\<rparr>)"
    and "queue_rep y (k\<lparr>s_tasks := us, nodes := s2\<rparr>) (if c \<noteq> 0 \<and> runs_again k c then tl q @ [c] else tl q)"
    unfolding us_def by blast
  then have q2: "queue_rep y (k\<lparr>s_tasks := us, nodes := s2\<rparr>) q'" using step by (simp add: abs_reschedule_eq)
  have len: "length us = 32" using facts(3) by (simp add: us_def requeued_def)
  let ?k = "k\<lparr>s_tasks := us[n := (us ! n)\<lparr>task_state := Running\<rparr>], nodes := s2, s_current := slot_addr y n\<rparr>"
  have "context_switch y (ContextOf (slot_addr y c)) (ContextOf (slot_addr y n)) ?k = Some (rescheduled y k c n s2)"
    using switch_tasks [OF facts(2,3,4) nx(1,2) us_def, of ?k] by (simp add: rescheduled_def)
  then have "reschedule y k = Some (Switched, rescheduled y k c n s2)"
    using slot_addr_nonnull [OF facts(2,4)] slot_addr_nonnull [OF facts(2) nx(1)]
    unfolding reschedule_def rq_current_def facts(7) Let_def s1(1) Option.bind.bind_lunit prod.case next_ptr r
    by (simp add: upd_task_slot facts(2) nx(1) len rq_set_current_def nodes_tasks)
  moreover have "queue_rep y (rescheduled y k c n s2) q'"
    using queue_rep_cong [of "rescheduled y k c n s2" "k\<lparr>s_tasks := us, nodes := s2\<rparr>"] q2 len facts(3)
    by (simp add: rescheduled_def resched_tasks_def)
  ultimately show ?thesis using rescheduled_rep [OF rep step] by blast
qed

section \<open>Starting up\<close>

lemma rq_init_correct:
  assumes "pool_ok y k"
  shows "\<exists>s. rq_init y k = Some (k\<lparr>nodes := s, s_current := nullptr\<rparr>) \<and>
    queue_rep y (k\<lparr>nodes := s, s_current := nullptr\<rparr>) []"
proof -
  from list_init_correct [OF pool_okD(4) [OF assms]] obtain s where
    s: "list_init (s_ready_queue_at y) (nodes k) = Some s" "dll s (s_ready_queue_at y) []"
      "same_except {s_ready_queue_at y} (nodes k) s" by blast
  have "pushable s (s_ready_queue_at y) = pushable (nodes k) (s_ready_queue_at y)"
    using s(3) by (auto simp: fun_eq_iff pushable_def valid_def same_except_def)
  with assms s(2) have "queue_rep y (k\<lparr>nodes := s\<rparr>) []" by (intro queue_rep_nodes) simp_all
  then have "queue_rep y (k\<lparr>nodes := s, s_current := nullptr\<rparr>) []"
    using queue_rep_cong [of "k\<lparr>nodes := s, s_current := nullptr\<rparr>" "k\<lparr>nodes := s\<rparr>"] by simp
  with s(1) show ?thesis by (auto simp: rq_init_def on_nodes_def queue_init_def)
qed

definition cleared :: "Task \<Rightarrow> Task" where
  "cleared t = t\<lparr>task_state := Empty, stack_base := nullptr, stack_size := 0, task_entry := nullptr\<rparr>"

lemma pool_ok_unlinked:
  assumes "pool_ok y k" "i < 32" "length ts = 32"
  shows "pool_ok y (k\<lparr>s_next_id := m, s_tasks := ts, nodes := unlinked (node_at y i) (nodes k)\<rparr>)"
  using assms by (auto simp: pool_ok_def valid_def unlinked_def)

lemma task_manager_init_correct:
  assumes "pool_ok y k"
  shows "task_manager_init y k = Some (k\<lparr>s_next_id := 2,
      s_tasks := (map cleared (s_tasks k))[0 := new_task y 1 (idle_task_entry_at y) (s_idle_stack_at y) 256],
      nodes := unlinked (node_at y 0) (nodes k), s_idle_task := slot_addr y 0\<rparr>)"
proof -
  let ?k = "k\<lparr>s_next_id := 1, s_tasks := map cleared (s_tasks k)\<rparr>"
  have ok: "pool_ok y ?k" using assms by (simp add: pool_ok_def)
  have "find_empty (map cleared (s_tasks k)) = Some 0"
    using pool_okD(2) [OF assms] by (simp add: find_empty_Some cleared_def)
  moreover have "s_idle_stack_at y \<noteq> nullptr" using pool_okD(1) [OF assms] by (simp add: symbols_ok_def)
  ultimately have "create_kernel_task y (idle_task_entry_at y) (s_idle_stack_at y) 256 ?k = Some (slot_addr y 0,
    ?k\<lparr>s_next_id := 2, s_tasks := (map cleared (s_tasks k))[0 := new_task y 1 (idle_task_entry_at y) (s_idle_stack_at y) 256],
      nodes := unlinked (node_at y 0) (nodes k)\<rparr>)"
    using create_kernel_task_new [OF ok] by simp
  then show ?thesis
    by (simp add: task_manager_init_def Let_def cleared_def [abs_def])
qed

text \<open>Creating a task in a free slot keeps the queue.\<close>

lemma dll_frame:
  assumes "dll s h xs" "\<forall>p \<in> set (h # xs). s' p = s p"
  shows "dll s' h xs"
proof -
  have "seg (get_next s') (get_prev s') a xs b = seg (get_next s) (get_prev s) a xs b"
    if "\<forall>p \<in> set (a # b # xs). s' p = s p" for a b
    using that by (induction xs arbitrary: a) (auto simp: get_next_def get_prev_def deref_def)
  with assms show ?thesis by (simp add: dll_def)
qed

lemma queue_rep_unlinked:
  assumes q: "queue_rep y k q" and i: "i < 32" "i \<notin> set q" "length ts = 32"
  shows "queue_rep y (k\<lparr>s_next_id := m, s_tasks := ts, nodes := unlinked (node_at y i) (nodes k)\<rparr>) q"
proof -
  have "node_at y i \<notin> set (s_ready_queue_at y # map (node_at y) q)"
    using node_at_inj [OF queue_repD(2) [OF q] i(1)] node_at_not_head [OF queue_repD(2) [OF q] i(1)]
      queue_repD(5) [OF q] i(2) by auto
  then have "dll (unlinked (node_at y i) (nodes k)) (s_ready_queue_at y) (map (node_at y) q)"
    unfolding unlinked_def by (metis (no_types) dll_frame [OF queue_repD(4) [OF q]] fun_upd_other)
  with pool_ok_unlinked [OF queue_repD(1) [OF q] i(1,3)] queue_repD(5) [OF q] show ?thesis
    by (simp add: queue_rep_def)
qed

text \<open>The state once \<^verbatim>\<open>start\<close> has switched to slot \<open>n\<close>.\<close>

definition started :: "symbols \<Rightarrow> kernel \<Rightarrow> nat \<Rightarrow> node_store \<Rightarrow> kernel" where
  "started y k n s = k\<lparr>live := task_context (s_tasks k ! n), boot_ctx := live k,
     s_tasks := (s_tasks k)[n := (s_tasks k ! n)\<lparr>task_state := Running\<rparr>],
     nodes := s, s_current := slot_addr y n\<rparr>"

text \<open>A kernel ready to start: idle is slot 0, the queued tasks are ready.\<close>

definition startable :: "symbols \<Rightarrow> kernel \<Rightarrow> nat list \<Rightarrow> bool" where
  "startable y k q \<longleftrightarrow> queue_rep y k q \<and> 0 \<notin> set q \<and> s_idle_task k = slot_addr y 0 \<and>
     task_state (s_tasks k ! 0) \<noteq> Empty \<and> (\<forall>i \<in> set q. task_state (s_tasks k ! i) = Ready)"

lemma start_switch:
  assumes "symbols_ok y" "length (s_tasks k) = 32" "n < 32"
  shows "context_switch y BootContext (ContextOf (slot_addr y n)) k =
    Some (k\<lparr>live := task_context (s_tasks k ! n), boot_ctx := live k\<rparr>)"
proof -
  have "context_ok y BootContext" "context_ok y (ContextOf (slot_addr y n))"
    using assms(3) by (auto simp: context_ok_def)
  from context_switch_run [OF assms(1,2) this] assms show ?thesis
    by (cases k) (simp add: put_context_cases)
qed

lemma sched_start_correct:
  assumes st: "startable y k q" and step: "abs_next q = (n, q')"
  shows "\<exists>s. sched_start y k = Some (started y k n s) \<and> sched_rep y (started y k n s) n q'"
proof -
  have q: "queue_rep y k q" and idle: "s_idle_task k = slot_addr y 0" using st by (simp_all add: startable_def)
  note ok = queue_repD(2,3) [OF q]
  have d: "distinct q" using dll_distinct [OF queue_repD(4) [OF q]] by (auto simp: distinct_map)
  have n: "n = (case q of [] \<Rightarrow> 0 | n # _ \<Rightarrow> n)" "q' = tl q" "n < 32" "n \<notin> set q'"
    using step queue_repD(5) [OF q] d by (cases q; auto)+
  have sub: "i \<in> set q' \<Longrightarrow> i \<in> set q \<and> i \<noteq> n" for i using n(2,4) by (cases q) auto
  from rq_next_correct [OF q] obtain s where
    s: "rq_next y k = Some (case q of [] \<Rightarrow> nullptr | n # _ \<Rightarrow> slot_addr y n, k\<lparr>nodes := s\<rparr>)"
      "queue_rep y (k\<lparr>nodes := s\<rparr>) q'" unfolding n(2) by blast
  have p: "(if (case q of [] \<Rightarrow> nullptr | n # _ \<Rightarrow> slot_addr y n) = nullptr then idle_task (k\<lparr>nodes := s\<rparr>)
      else (case q of [] \<Rightarrow> nullptr | n # _ \<Rightarrow> slot_addr y n)) = slot_addr y n"
    using idle slot_addr_nonnull [OF ok(1)] queue_repD(5) [OF q] n(1)
    by (auto simp: idle_task_eq split: list.splits)
  have nz: "slot_addr y n \<noteq> nullptr" by (rule slot_addr_nonnull [OF ok(1) n(3)])
  have "sched_start y k = Some (started y k n s)"
    unfolding sched_start_def s(1) Option.bind.bind_lunit prod.case Let_def p
    using ok n(3) nz
    by (simp add: rq_set_current_def upd_task_slot start_switch started_def)
  moreover have "queue_rep y (started y k n s) q'"
    using queue_rep_cong [of "started y k n s" "k\<lparr>nodes := s\<rparr>"] s(2) by (simp add: started_def)
  then have "sched_rep y (started y k n s) n q'"
    using st n sub ok queue_repD(5) [OF s(2)]
    by (auto simp: sched_rep_def started_def startable_def nth_list_update)
  ultimately show ?thesis by blast
qed

text \<open>Creating a task and pushing it.\<close>

definition spawned :: "symbols \<Rightarrow> Entry \<Rightarrow> addr \<Rightarrow> u64 \<Rightarrow> nat \<Rightarrow> kernel \<Rightarrow> node_store \<Rightarrow> kernel" where
  "spawned y entry base sz i k s = k\<lparr>s_next_id := s_next_id k + 1,
     s_tasks := (s_tasks k)[i := new_task y (s_next_id k) entry base sz], nodes := s\<rparr>"

lemma spawn_correct:
  assumes q: "queue_rep y k q" and arg: "base \<noteq> nullptr" "sz \<noteq> 0"
    and i: "find_empty (s_tasks k) = Some i" "i \<notin> set q"
  shows "\<exists>k1 s. create_kernel_task y entry base sz k = Some (slot_addr y i, k1) \<and>
    rq_push y (slot_addr y i) k1 = Some (True, spawned y entry base sz i k s) \<and>
    queue_rep y (spawned y entry base sz i k s) (q @ [i])"
proof -
  note ok = queue_repD(1,2,3) [OF q]
  have i32: "i < 32" using i(1) ok(3) by (simp add: find_empty_Some)
  let ?k1 = "k\<lparr>s_next_id := s_next_id k + 1, s_tasks := (s_tasks k)[i := new_task y (s_next_id k) entry base sz],
      nodes := unlinked (node_at y i) (nodes k)\<rparr>"
  have "queue_rep y ?k1 q" by (rule queue_rep_unlinked [OF q i32 i(2)]) (simp add: ok(3))
  from rq_push_correct [OF this i32 i(2)] obtain s where
    s: "rq_push y (slot_addr y i) ?k1 = Some (True, ?k1\<lparr>s_tasks := (s_tasks ?k1)[i := (s_tasks ?k1 ! i)\<lparr>task_state := Ready\<rparr>],
        nodes := s\<rparr>)"
    and rep: "\<And>ts. length ts = 32 \<Longrightarrow> queue_rep y (?k1\<lparr>s_tasks := ts, nodes := s\<rparr>) (q @ [i])" by blast
  have "?k1\<lparr>s_tasks := (s_tasks ?k1)[i := (s_tasks ?k1 ! i)\<lparr>task_state := Ready\<rparr>], nodes := s\<rparr> = spawned y entry base sz i k s"
    using i32 ok(3) by (simp add: spawned_def new_task_def)
  with s rep [of "(s_tasks ?k1)[i := (s_tasks ?k1 ! i)\<lparr>task_state := Ready\<rparr>]"] ok(3)
  show ?thesis using create_kernel_task_new [OF ok(1) arg i(1), of entry]
    by (intro exI [of _ ?k1] exI [of _ s]) simp
qed

lemma startable_spawned:
  assumes st: "startable y k q" and q: "queue_rep y (spawned y entry base sz i k s) (q @ [i])"
    and i: "find_empty (s_tasks k) = Some i"
  shows "startable y (spawned y entry base sz i k s) (q @ [i])"
proof -
  have "i < 32" "i \<noteq> 0" "task_state (s_tasks k ! i) = Empty" "length (s_tasks k) = 32"
    using i queue_repD(3) [of y k q] st by (auto simp: find_empty_Some startable_def intro!: gr0I)
  with st q show ?thesis
    by (auto simp: startable_def spawned_def new_task_def nth_list_update)
qed

lemma free_slot_not_queued:
  "startable y k q \<Longrightarrow> find_empty (s_tasks k) = Some i \<Longrightarrow> i \<notin> set q"
  by (auto simp: startable_def find_empty_Some)

lemma fresh_scheduler:
  assumes "pool_ok y k"
  shows "\<exists>k1 k2 s. task_manager_init y k = Some k1 \<and> sched_init y k1 = Some k2 \<and>
    k2 = k\<lparr>s_next_id := 2,
      s_tasks := (map cleared (s_tasks k))[0 := new_task y 1 (idle_task_entry_at y) (s_idle_stack_at y) 256],
      nodes := s, s_idle_task := slot_addr y 0, s_current := nullptr\<rparr> \<and> startable y k2 []"
proof -
  let ?ts = "(map cleared (s_tasks k))[0 := new_task y 1 (idle_task_entry_at y) (s_idle_stack_at y) 256]"
  let ?k1 = "k\<lparr>s_next_id := 2, s_tasks := ?ts, nodes := unlinked (node_at y 0) (nodes k), s_idle_task := slot_addr y 0\<rparr>"
  have len: "length ?ts = 32" using pool_okD(2) [OF assms] by simp
  have "pool_ok y ?k1" using pool_ok_unlinked [OF assms _ len, of 0 2] by (simp add: pool_ok_def)
  from rq_init_correct [OF this] obtain s where
    s: "rq_init y ?k1 = Some (?k1\<lparr>nodes := s, s_current := nullptr\<rparr>)"
      "queue_rep y (?k1\<lparr>nodes := s, s_current := nullptr\<rparr>) []" by blast
  have eq: "?k1\<lparr>nodes := s, s_current := nullptr\<rparr> = k\<lparr>s_next_id := 2, s_tasks := ?ts, nodes := s,
      s_idle_task := slot_addr y 0, s_current := nullptr\<rparr>" by simp
  have "startable y (k\<lparr>s_next_id := 2, s_tasks := ?ts, nodes := s,
      s_idle_task := slot_addr y 0, s_current := nullptr\<rparr>) []"
    using s(2) len unfolding eq by (simp add: startable_def new_task_def)
  with s(1) task_manager_init_correct [OF assms] show ?thesis
    unfolding eq sched_init_def by blast
qed

section \<open>A kernel with two tasks\<close>

text \<open>Two tasks created and pushed on the freshly initialised demo kernel, then started.\<close>

lemma two_spawns:
  assumes st: "startable y k []" and free: "\<forall>i. 1 \<le> i \<and> i < 32 \<longrightarrow> task_state (s_tasks k ! i) = Empty"
    and a: "a \<noteq> nullptr" "asz \<noteq> 0" and b: "b \<noteq> nullptr" "bsz \<noteq> 0"
  shows "\<exists>k1 k2 k3 s1 s2. create_kernel_task y ea a asz k = Some (slot_addr y 1, k1) \<and>
    create_kernel_task y eb b bsz k1 = Some (slot_addr y 2, k2) \<and>
    rq_push y (slot_addr y 1) k2 = Some (True, k3) \<and>
    rq_push y (slot_addr y 2) k3 = Some (True, spawned y eb b bsz 2 (spawned y ea a asz 1 k s1) s2) \<and>
    startable y (spawned y eb b bsz 2 (spawned y ea a asz 1 k s1) s2) [1, 2]"
proof -
  have q: "queue_rep y k []" and s0: "task_state (s_tasks k ! 0) \<noteq> Empty"
    using st by (simp_all add: startable_def)
  note ok = queue_repD(1,2,3) [OF q]
  let ?ta = "(s_tasks k)[1 := new_task y (s_next_id k) ea a asz]"
  let ?tb = "?ta[2 := new_task y (s_next_id k + 1) eb b bsz]"
  let ?k1 = "k\<lparr>s_next_id := s_next_id k + 1, s_tasks := ?ta, nodes := unlinked (node_at y 1) (nodes k)\<rparr>"
  let ?k2 = "?k1\<lparr>s_next_id := s_next_id k + 1 + 1, s_tasks := ?tb, nodes := unlinked (node_at y 2) (nodes ?k1)\<rparr>"
  have one: "find_empty (s_tasks k) = Some 1"
    using s0 free ok(3) by (simp add: find_empty_Some)
  have two: "find_empty (s_tasks ?k1) = Some 2"
    using s0 free ok(3) by (auto simp: find_empty_Some new_task_def less_2_cases_iff)
  have q1: "queue_rep y ?k1 []" by (rule queue_rep_unlinked [OF q]) (simp_all add: ok(3))
  then have q2: "queue_rep y ?k2 []"
    using queue_rep_unlinked [OF q1, of 2 ?tb "s_next_id k + 1 + 1"] ok(3) by simp
  from rq_push_correct [OF q2, of 1] obtain s1 where
    s1: "rq_push y (slot_addr y 1) ?k2 = Some (True, ?k2\<lparr>s_tasks := (s_tasks ?k2)[1 := (s_tasks ?k2 ! 1)\<lparr>task_state := Ready\<rparr>], nodes := s1\<rparr>)"
      "\<And>ts. length ts = 32 \<Longrightarrow> queue_rep y (?k2\<lparr>s_tasks := ts, nodes := s1\<rparr>) [1]" by auto
  let ?k3 = "?k2\<lparr>s_tasks := (s_tasks ?k2)[1 := (s_tasks ?k2 ! 1)\<lparr>task_state := Ready\<rparr>], nodes := s1\<rparr>"
  have "queue_rep y ?k3 [1]" using s1(2) ok(3) by simp
  from rq_push_correct [OF this, of 2] obtain s2 where
    s2: "rq_push y (slot_addr y 2) ?k3 = Some (True, ?k3\<lparr>s_tasks := (s_tasks ?k3)[2 := (s_tasks ?k3 ! 2)\<lparr>task_state := Ready\<rparr>], nodes := s2\<rparr>)"
      "\<And>ts. length ts = 32 \<Longrightarrow> queue_rep y (?k3\<lparr>s_tasks := ts, nodes := s2\<rparr>) [1, 2]" by auto
  let ?k4 = "spawned y eb b bsz 2 (spawned y ea a asz 1 k s1) s2"
  have eq: "?k3\<lparr>s_tasks := (s_tasks ?k3)[2 := (s_tasks ?k3 ! 2)\<lparr>task_state := Ready\<rparr>], nodes := s2\<rparr> = ?k4"
    using ok(3) by (simp add: spawned_def new_task_def list_update_swap)
  have "startable y ?k4 [1, 2]"
    using st s0 ok(3) s2(2) [of "s_tasks ?k4"] queue_rep_cong [of ?k4 "?k3\<lparr>s_tasks := s_tasks ?k4, nodes := s2\<rparr>"]
    by (simp add: startable_def spawned_def new_task_def)
  then show ?thesis
    using create_kernel_task_new [OF ok(1) a one, of ea] create_kernel_task_new [OF queue_repD(1) [OF q1] b two, of eb]
      s1(1) s2(1) unfolding eq by (intro exI [of _ ?k1] exI [of _ ?k2] exI [of _ ?k3] exI [of _ s1] exI [of _ s2]) simp
qed

text \<open>Apart from the idle task, exactly the slots in \<open>q\<close> are ready and none runs.\<close>

definition only_ready :: "kernel \<Rightarrow> nat list \<Rightarrow> bool" where
  "only_ready k q \<longleftrightarrow> (\<forall>i < 32. i \<noteq> 0 \<longrightarrow> task_state (s_tasks k ! i) \<noteq> Running \<and>
     (task_state (s_tasks k ! i) = Ready \<longleftrightarrow> i \<in> set q))"

lemma two_spawned_ready:
  assumes "\<forall>i. 1 \<le> i \<and> i < 32 \<longrightarrow> task_state (s_tasks k ! i) = Empty" "length (s_tasks k) = 32"
  shows "only_ready (spawned y eb b bsz 2 (spawned y ea a asz 1 k s1) s2) [1, 2]"
  using assms by (auto simp: only_ready_def spawned_def new_task_def nth_list_update)

lemma demo_startable: "\<exists>k. startable demo_symbols k [1, 2] \<and> length (s_tasks k) = 32 \<and> only_ready k [1, 2]"
proof -
  from fresh_scheduler [OF demo_pool_ok] obtain k s where
    k: "k = demo_kernel\<lparr>s_next_id := 2, s_tasks := (map cleared (s_tasks demo_kernel))[0 :=
        new_task demo_symbols 1 (idle_task_entry_at demo_symbols) (s_idle_stack_at demo_symbols) 256],
      nodes := s, s_idle_task := slot_addr demo_symbols 0, s_current := nullptr\<rparr>"
    and st: "startable demo_symbols k []" by blast
  have free: "\<forall>i. 1 \<le> i \<and> i < 32 \<longrightarrow> task_state (s_tasks k ! i) = Empty"
    by (simp add: k cleared_def)
  have "length (s_tasks k) = 32" by (simp add: k)
  then show ?thesis
    using two_spawns [OF st free, of "0x80020000" 1024 "0x80021000" 1024 "0x80000400" "0x80000500"]
      two_spawned_ready [OF free] queue_repD(3) by (fastforce simp: startable_def)
qed

lemma demo_running: "\<exists>k. sched_rep demo_symbols k 1 [2] \<and> runs_again k 1"
proof -
  obtain k where k: "startable demo_symbols k [1, 2]" "length (s_tasks k) = 32" using demo_startable by blast
  from sched_start_correct [OF k(1), of 1 "[2]"] obtain s where
    "sched_rep demo_symbols (started demo_symbols k 1 s) 1 [2]" by auto
  moreover have "runs_again (started demo_symbols k 1 s) 1" using k(2) by (simp add: runs_again_def started_def)
  ultimately show ?thesis by blast
qed

section \<open>Properties\<close>

text \<open>Property (C5): rescheduling is round robin. From any state that represents a running slot and
  a ready list, \<^verbatim>\<open>reschedule\<close> switches to the first ready task, or to the idle task when the list
  is empty; a task that was still running goes to the end of the list (the idle task never
  does), and the result represents the new slot and list. The saved context of the old task
  is the registers it left, the live registers are the saved context of the new task, and
  the state of every other task and of the devices is unchanged.\<close>

theorem reschedule_round_robin:
  assumes "sched_rep y k c q"
    and "(n, q') = (case q of [] \<Rightarrow> 0 | n # _ \<Rightarrow> n, if c \<noteq> 0 \<and> runs_again k c then tl q @ [c] else tl q)"
  shows "\<exists>k'. reschedule y k = Some (Switched, k') \<and> sched_rep y k' n q' \<and>
    live k' = (if n = c then live k else task_context (s_tasks k ! n)) \<and>
    (\<forall>i < 32. s_tasks k' ! i = (s_tasks k ! i)\<lparr>
       task_state := (if i = n then Running else if i = c \<and> c \<noteq> 0 \<and> runs_again k c then Ready
                      else task_state (s_tasks k ! i)),
       task_context := (if i = c then live k else task_context (s_tasks k ! i))\<rparr>) \<and>
    hart.truncate k' = hart.truncate k"
proof -
  have "abs_reschedule c (runs_again k c) q = (n, q')" using assms(2) by (simp add: abs_reschedule_eq)
  from reschedule_refines [OF assms(1) this] obtain s where
    s: "reschedule y k = Some (Switched, rescheduled y k c n s)" "sched_rep y (rescheduled y k c n s) n q'" by blast
  have "length (s_tasks k) = 32" by (rule sched_repD(3) [OF assms(1)])
  with s show ?thesis
    by (intro exI [of _ "rescheduled y k c n s"])
      (simp add: rescheduled_def resched_tasks_nth resched_task_def hart.defs)
qed

lemma reschedule_round_robin_witness:
  "\<exists>k k'. sched_rep demo_symbols k 1 [2] \<and> reschedule demo_symbols k = Some (Switched, k') \<and>
    sched_rep demo_symbols k' 2 [1]"
proof -
  obtain k where k: "sched_rep demo_symbols k 1 [2]" "runs_again k 1" using demo_running by blast
  from reschedule_round_robin [OF k(1), of 2 "[1]"] k show ?thesis by auto
qed

text \<open>Property (C27): a rescheduling without a current task loses a task. When no task runs and the
  ready list is not empty, \<^verbatim>\<open>reschedule\<close> takes the first ready task off the queue before it sees
  that there is nothing to switch from, and returns: no switch takes place and the task,
  still marked ready, is in the queue no more.\<close>

theorem reschedule_loses_task:
  assumes "queue_rep y k (n # q)" and "s_current k = nullptr"
  shows "\<exists>k'. reschedule y k = Some (Returned, k') \<and> queue_rep y k' q \<and> n \<notin> set q \<and>
    s_tasks k' = s_tasks k \<and> s_current k' = nullptr \<and> live k' = live k"
proof -
  have "distinct (n # q)" using dll_distinct [OF queue_repD(4) [OF assms(1)]] by (auto simp: distinct_map)
  moreover from rq_next_correct [OF assms(1)] obtain s where
    "rq_next y k = Some (slot_addr y n, k\<lparr>nodes := s\<rparr>)" "queue_rep y (k\<lparr>nodes := s\<rparr>) q" by auto
  ultimately show ?thesis using assms(2) by (simp add: reschedule_def rq_current_def Let_def)
qed

lemma reschedule_loses_task_witness:
  "\<exists>k k'. queue_rep demo_symbols k [1, 2] \<and> reschedule demo_symbols k = Some (Returned, k') \<and>
    queue_rep demo_symbols k' [2]"
proof -
  obtain k where "startable demo_symbols k [1, 2]" using demo_startable by blast
  then have "queue_rep demo_symbols (k\<lparr>s_current := nullptr\<rparr>) [1, 2]"
    using queue_rep_cong [of "k\<lparr>s_current := nullptr\<rparr>" k] by (simp add: startable_def)
  from reschedule_loses_task [OF this] this show ?thesis by auto
qed

end
