(* ===== verification/Syscall.thy ===== *)
theory Syscall
  imports Scheduler
begin

text \<open>
  \<^verbatim>\<open>kernel/arch/riscv/syscall/\<close>: the system call numbers, the dispatcher and the three calls,
  with the trap frame of \<^verbatim>\<open>kernel/arch/riscv/trap/trap.h\<close> they get their arguments from. A call
  returns a value, or has switched to another task, or halts in a \<^verbatim>\<open>wfi\<close> loop. The bytes a
  caller hands to \<^verbatim>\<open>sys_write\<close> are read from the parameter \<open>mem\<close>; an address it does not hold
  is an invalid access.
\<close>

record TrapFrame =
  tf_ra :: u64
  tf_gp :: u64
  tf_tp :: u64
  tf_t0 :: u64
  tf_t1 :: u64
  tf_t2 :: u64
  tf_s0 :: u64
  tf_s1 :: u64
  tf_a0 :: u64
  tf_a1 :: u64
  tf_a2 :: u64
  tf_a3 :: u64
  tf_a4 :: u64
  tf_a5 :: u64
  tf_a6 :: u64
  tf_a7 :: u64
  tf_s2 :: u64
  tf_s3 :: u64
  tf_s4 :: u64
  tf_s5 :: u64
  tf_s6 :: u64
  tf_s7 :: u64
  tf_s8 :: u64
  tf_s9 :: u64
  tf_s10 :: u64
  tf_s11 :: u64
  tf_t3 :: u64
  tf_t4 :: u64
  tf_t5 :: u64
  tf_t6 :: u64
  tf_sp :: u64
  tf_mepc :: u64
  tf_mcause :: u64
  tf_mtval :: u64
  tf_mstatus :: u64
  tf_mhartid :: u64

datatype 'a outcome = Return 'a | SwitchedAway | Halted

type_synonym memory = "addr \<Rightarrow> u8 option"

datatype Number = Write | Exit | Yield

fun syscall_value :: "Number \<Rightarrow> u64" where
  "syscall_value Write = 1"
| "syscall_value Exit = 2"
| "syscall_value Yield = 3"

definition kFdStdout :: u64 where "kFdStdout = 1"
definition kFdStderr :: u64 where "kFdStderr = 2"
definition kErrBadFd :: u64 where "kErrBadFd = - 1"
definition kErrBadPtr :: u64 where "kErrBadPtr = - 2"
definition kErrUnknownSyscall :: u64 where "kErrUnknownSyscall = - 38"

definition sys_write :: "memory \<Rightarrow> u64 \<Rightarrow> addr \<Rightarrow> u64 \<Rightarrow> 'a hart_scheme \<Rightarrow> (u64 \<times> 'a hart_scheme) option" where
  "sys_write mem fd buf len k =
     (if fd \<noteq> kFdStdout \<and> fd \<noteq> kFdStderr then Some (kErrBadFd, k)
      else if buf = nullptr then Some (kErrBadPtr, k)
      else do {
        r \<leftarrow> for_loop 1 len (\<lambda>i k. do {
               c \<leftarrow> mem (buf + i);
               k \<leftarrow> kputc c k;
               Some (Inl k)
             }) 0 k;
        (case r of Inl k \<Rightarrow> Some (len, k) | Inr x \<Rightarrow> Some x)
      })"

definition sys_exit :: "symbols \<Rightarrow> u64 \<Rightarrow> kernel \<Rightarrow> (u64 outcome \<times> kernel) option" where
  "sys_exit y code k = do {
     k \<leftarrow> kputs ''sys_exit, code = '' k;
     k \<leftarrow> kput_dec code k;
     k \<leftarrow> kputc newline k;
     let current_task = rq_current k;
     k \<leftarrow> (if current_task \<noteq> nullptr
           then upd_task y current_task (\<lambda>t. t\<lparr>task_state := Dead\<rparr>) k else Some k);
     (f, k) \<leftarrow> reschedule y k;
     Some (case f of Returned \<Rightarrow> Halted | Switched \<Rightarrow> SwitchedAway, k)
   }"

definition sys_yield :: u64 where
  "sys_yield = 0"

definition dispatch :: "symbols \<Rightarrow> memory \<Rightarrow> TrapFrame \<Rightarrow> kernel \<Rightarrow> (u64 outcome \<times> kernel) option" where
  "dispatch y mem tf k =
     (if tf_a7 tf = syscall_value Write then do {
        (r, k) \<leftarrow> sys_write mem (tf_a0 tf) (tf_a1 tf) (tf_a2 tf) k;
        Some (Return r, k)
      }
      else if tf_a7 tf = syscall_value Exit then sys_exit y (tf_a0 tf) k
      else if tf_a7 tf = syscall_value Yield then Some (Return sys_yield, k)
      else Some (Return kErrUnknownSyscall, k))"

section \<open>What the calls do\<close>

lemma sys_write_correct:
  assumes r: "console_ready k" and fd: "fd = 1 \<or> fd = 2" "buf \<noteq> nullptr"
    and mem: "\<forall>i < unat len. mem (buf + of_nat i) = Some (cs i)"
  shows "\<exists>k'. sys_write mem fd buf len k = Some (len, k') \<and>
    effect (tx (concat (map (\<lambda>i. crlf (cs i)) [0..<unat len]))) k k'"
proof -
  let ?body = "\<lambda>i k. do { c \<leftarrow> mem (buf + i); k \<leftarrow> kputc c k; Some (Inl k :: 'a hart_scheme + u64 \<times> 'a hart_scheme) }"
  let ?I = "\<lambda>j k'. effect (tx (concat (map (\<lambda>i. crlf (cs i)) [0..<j]))) k k'"
  have "\<exists>k'. for_loop 1 len ?body 0 k = Some (Inl k') \<and> ?I (unat len) k'"
  proof (rule for_upto_ex [where I = ?I])
    fix j k'
    assume j: "j < unat len" and I: "?I j k'"
    then have "console_ready k'" using r effect_ready by blast
    from kcon.put_law [OF this] obtain k2 where
      k2: "kputc (cs j) k' = Some k2" "effect (tx (crlf (cs j))) k' k2" by blast
    with effect_append [OF I k2(2)] j mem
    show "\<exists>k2. ?body (of_nat j) k' = Some (Inl k2) \<and> ?I (Suc j) k2" by auto
  qed simp
  then show ?thesis using fd by (auto simp: sys_write_def kFdStdout_def kFdStderr_def)
qed

lemma effect_kernel_fields:
  assumes "effect ws k k'"
  shows "live (k' :: kernel) = live k" "boot_ctx k' = boot_ctx k" "s_tasks k' = s_tasks k" "nodes k' = nodes k"
    "s_idle_task k' = s_idle_task k" "s_next_id k' = s_next_id k" "s_current k' = s_current k"
  using assms by (cases k; cases k'; simp add: effect_def)+

definition exit_line :: "u64 \<Rightarrow> u8 list" where
  "exit_line code = count_line ''sys_exit, code = '' code"

lemma sched_rep_cong:
  assumes "nodes k' = nodes k" "s_tasks k' = s_tasks k" "s_current k' = s_current k" "s_idle_task k' = s_idle_task k"
  shows "sched_rep y k' c q = sched_rep y k c q"
  using assms queue_rep_cong [of k' k] by (simp add: sched_rep_def)

lemma sched_rep_state:
  assumes "sched_rep y k c q" "st \<noteq> Empty"
  shows "sched_rep y (k\<lparr>s_tasks := (s_tasks k)[c := (s_tasks k ! c)\<lparr>task_state := st\<rparr>]\<rparr>) c q"
proof -
  have "queue_rep y (k\<lparr>s_tasks := (s_tasks k)[c := (s_tasks k ! c)\<lparr>task_state := st\<rparr>]\<rparr>) q"
    using queue_rep_cong [of "k\<lparr>s_tasks := (s_tasks k)[c := (s_tasks k ! c)\<lparr>task_state := st\<rparr>]\<rparr>" k]
      sched_repD(1) [OF assms(1)] by simp
  with assms sched_repD(3,4) [OF assms(1)] show ?thesis
    by (auto simp: sched_rep_def nth_list_update)
qed

text \<open>The kernel after the task in slot \<open>c\<close> has been marked dead.\<close>

definition dead :: "nat \<Rightarrow> kernel \<Rightarrow> kernel" where
  "dead c k = k\<lparr>s_tasks := (s_tasks k)[c := (s_tasks k ! c)\<lparr>task_state := Dead\<rparr>]\<rparr>"

lemma drives_exit_line:
  "drives (tx (exit_line code)) (\<lambda>k. kputs ''sys_exit, code = '' k \<bind> (\<lambda>k. kput_dec code k \<bind> kputc newline))"
  unfolding exit_line_def by (rule drives_count_line) simp

lemma sys_exit_correct:
  assumes r: "console_ready k" and rep: "sched_rep y k c q" and n: "(n, q') = abs_reschedule c False q"
  shows "\<exists>k1 s. effect (tx (exit_line code)) k k1 \<and>
    sys_exit y code k = Some (SwitchedAway, rescheduled y (dead c k1) c n s) \<and>
    sched_rep y (rescheduled y (dead c k1) c n s) n q'"
proof -
  from drivesD [OF drives_exit_line r, of code] obtain ka kb k1 where
    k1: "kputs ''sys_exit, code = '' k = Some ka" "kput_dec code ka = Some kb" "kputc newline kb = Some k1"
      "effect (tx (exit_line code)) k k1"
    unfolding bind_eq_Some_conv by blast
  note same = effect_kernel_fields [OF k1(4)]
  have rep1: "sched_rep y k1 c q" using rep sched_rep_cong [OF same(4,3,7,5)] by blast
  then have rep2: "sched_rep y (dead c k1) c q" unfolding dead_def by (rule sched_rep_state) simp
  have "\<not> runs_again (dead c k1) c"
    using sched_repD(3,4) [OF rep1] by (simp add: runs_again_def dead_def)
  with n have "abs_reschedule c (runs_again (dead c k1) c) q = (n, q')" by simp
  from reschedule_refines [OF rep2 this] obtain s where
    s: "reschedule y (dead c k1) = Some (Switched, rescheduled y (dead c k1) c n s)"
      "sched_rep y (rescheduled y (dead c k1) c n s) n q'" by blast
  note f1 = sched_repD [OF rep1]
  have "rq_current k1 \<noteq> nullptr" "upd_task y (rq_current k1) (\<lambda>t. t\<lparr>task_state := Dead\<rparr>) k1 = Some (dead c k1)"
    using f1(7) slot_addr_nonnull [OF f1(2,4)] upd_task_slot [OF f1(2,4,3)]
    by (simp_all add: rq_current_def dead_def)
  then have "sys_exit y code k = Some (SwitchedAway, rescheduled y (dead c k1) c n s)"
    using k1(1,2,3) s(1) by (simp add: sys_exit_def Let_def)
  with k1(4) s(2) show ?thesis by blast
qed

section \<open>Properties\<close>

text \<open>Writing. \<^verbatim>\<open>sys_write\<close> refuses a descriptor other than 1 and 2 with -1, and then a
  null buffer with -2, and transmits nothing in either case. Otherwise, on a responsive
  console and for a readable buffer, it transmits exactly the \<open>len\<close> bytes of the buffer in
  order (NUL included, every newline preceded by a carriage return), returns \<open>len\<close>, and
  changes nothing else.\<close>

lemma sys_write_behaviour:
  assumes "console_ready k" and "\<forall>i < unat len. mem (buf + of_nat i) = Some (cs i)"
  shows "\<exists>k'. sys_write mem fd buf len k = Some (if fd \<noteq> 1 \<and> fd \<noteq> 2 then - 1 else if buf = nullptr then - 2 else len, k') \<and>
    effect (tx (if (fd \<noteq> 1 \<and> fd \<noteq> 2) \<or> buf = nullptr then [] else concat (map (\<lambda>i. crlf (cs i)) [0..<unat len]))) k k'"
proof (cases "(fd = 1 \<or> fd = 2) \<and> buf \<noteq> nullptr")
  case True
  with sys_write_correct [OF assms(1) _ _ assms(2)] show ?thesis by auto
next
  case False
  then show ?thesis
    by (auto simp: sys_write_def kFdStdout_def kFdStderr_def kErrBadFd_def kErrBadPtr_def)
qed

lemma sys_write_behaviour_witness:
  "\<exists>k'. sys_write (\<lambda>a. if a = 0x1000 then Some 72 else if a = 0x1001 then Some 10 else None) 1 0x1000 2 demo_hart = Some (2, k') \<and>
    effect (tx [72, 13, 10]) demo_hart k'"
proof -
  have mem: "\<forall>i < unat (2 :: u64). (\<lambda>a. if a = 0x1000 then Some 72 else if a = 0x1001 then Some 10 else None)
      ((0x1000 :: addr) + of_nat i) = Some ((\<lambda>i. if i = 0 then 72 else 10 :: u8) i)"
    by (auto simp: less_2_cases_iff)
  from sys_write_behaviour [OF demo_console_ready mem, of 1] show ?thesis
    by (simp add: crlf_def upt_rec)
qed

text \<open>Property (C10): exiting. On a responsive console \<^verbatim>\<open>sys_exit\<close> prints the exit line, marks the
  calling task dead and switches to the first ready task, or to the idle task when there is
  none; the dead task is in no queue, its slot stays taken, and the other tasks keep their
  states and contexts. The call never returns to its caller.\<close>

theorem sys_exit_retires:
  assumes "console_ready k" and "sched_rep y k c q" and "c \<noteq> 0"
    and "n = (case q of [] \<Rightarrow> 0 | n # _ \<Rightarrow> n)"
  shows "\<exists>k'. sys_exit y code k = Some (SwitchedAway, k') \<and> sched_rep y k' n (tl q) \<and>
    task_state (s_tasks k' ! c) = Dead \<and> c \<noteq> n \<and> c \<notin> set (tl q) \<and>
    live k' = task_context (s_tasks k ! n) \<and>
    (\<forall>i < 32. i \<noteq> c \<and> i \<noteq> n \<longrightarrow> s_tasks k' ! i = s_tasks k ! i) \<and>
    logs (tx (exit_line code)) (dev k) (dev k')"
proof -
  have n: "(n, tl q) = abs_reschedule c False q" using assms(4) by (simp add: abs_reschedule_eq)
  from sys_exit_correct [OF assms(1,2) n, of code] obtain k1 s where
    e: "effect (tx (exit_line code)) k k1" "sys_exit y code k = Some (SwitchedAway, rescheduled y (dead c k1) c n s)"
      "sched_rep y (rescheduled y (dead c k1) c n s) n (tl q)" by blast
  have "abs_reschedule c False q = (n, tl q)" using n by simp
  note nx = next_slot [OF assms(2) this]
  have "\<not> runs_again (dead c k1) c"
    using sched_repD(3,4) [OF assms(2)] effect_kernel_fields(3) [OF e(1)] by (simp add: runs_again_def dead_def)
  moreover have "c \<noteq> n" using nx(2) assms(3) by blast
  moreover have "logs (tx (exit_line code)) (dev k) (dev k1)" using e(1) by (simp add: effect_def)
  ultimately show ?thesis
    using e(2,3) nx(1,4) sched_repD(3,4) [OF assms(2)] effect_kernel_fields(3) [OF e(1)]
    by (intro exI [of _ "rescheduled y (dead c k1) c n s"])
      (auto simp: rescheduled_def resched_tasks_nth resched_task_def dead_def)
qed

lemma sched_rep_ready_demo: "\<exists>k. console_ready k \<and> sched_rep demo_symbols k 1 [2] \<and> runs_again k 1"
proof -
  obtain k where k: "sched_rep demo_symbols k 1 [2]" "runs_again k 1" using demo_running by blast
  let ?k = "k\<lparr>dev := demo_bus\<rparr>"
  have "sched_rep demo_symbols ?k 1 [2]" using k(1) sched_rep_cong [of ?k k] by simp
  moreover have "console_ready ?k" by (simp add: console_ready_def demo_responsive)
  moreover have "runs_again ?k 1" using k(2) by (simp add: runs_again_def)
  ultimately show ?thesis by blast
qed

lemma sys_exit_retires_witness:
  "\<exists>k k'. sched_rep demo_symbols k 1 [2] \<and> sys_exit demo_symbols 233 k = Some (SwitchedAway, k') \<and>
    sched_rep demo_symbols k' 2 [] \<and> task_state (s_tasks k' ! 1) = Dead"
proof -
  obtain k where k: "console_ready k" "sched_rep demo_symbols k 1 [2]" using sched_rep_ready_demo by blast
  from sys_exit_retires [OF k, of 2 233] k(2) show ?thesis by auto
qed

end
