(* ===== verification/Programs.thy ===== *)
theory Programs
  imports Syscall
begin

text \<open>
  The code that runs under the scheduler: \<^verbatim>\<open>task_A\<close> and \<^verbatim>\<open>task_B\<close> of \<^verbatim>\<open>kernel/kernel.cpp\<close>, the
  idle task of \<^verbatim>\<open>task_manager.cpp\<close>, \<^verbatim>\<open>task_bootstrap_entry\<close> and the trampoline of \<^verbatim>\<open>switch.S\<close>. The body of a task is a function
  from positions to actions: position \<open>n\<close> is its \<open>n\<close>-th call, with the loops unrolled. A task
  that is switched away continues at its next position, for which its saved return address and
  stack stand in the machine.
\<close>

section \<open>The programs\<close>

datatype action = Print string | Call_yield | Call_exit u64 | Wait | Finish

definition task_A :: "nat \<Rightarrow> action" where
  "task_A n =
     (if n = 0 then Print ''task A init.\<newline>''
      else let i = (n - 1) mod 11 in
        if i < 10 then (if even i then Print ''Hello from task_A\<newline>'' else Call_yield)
        else Call_exit 233)"

definition task_B :: "nat \<Rightarrow> action" where
  "task_B n =
     (if n = 0 then Print ''task B init.\<newline>''
      else let i = (n - 1) mod 11 in
        if i < 10 then (if even i then Print ''Hello from task_B\<newline>'' else Call_yield)
        else Call_exit 137)"

definition idle_task_entry :: "nat \<Rightarrow> action" where
  "idle_task_entry n =
     (if n = 0 then Print ''enter idle task\<newline>''
      else if odd n then Print ''idle task\<newline>'' else Wait)"

text \<open>\<^verbatim>\<open>task_bootstrap_entry\<close> calls the entry of the current task and exits with 255 if it returns.\<close>

definition task_bootstrap_entry :: "(nat \<Rightarrow> action) \<Rightarrow> nat \<Rightarrow> action" where
  "task_bootstrap_entry entry n = (case entry n of Finish \<Rightarrow> Call_exit 255 | a \<Rightarrow> a)"

text \<open>\<^verbatim>\<open>task_entry_trampoline\<close> of \<^verbatim>\<open>switch.S\<close>, to which a new task is switched, calls that function and
  loops in place should it return.\<close>

definition task_entry_trampoline :: "(nat \<Rightarrow> action) \<Rightarrow> nat \<Rightarrow> action" where
  "task_entry_trampoline entry n = (case task_bootstrap_entry entry n of Finish \<Rightarrow> Wait | a \<Rightarrow> a)"

lemma trampoline_never_loops: "task_entry_trampoline entry n = task_bootstrap_entry entry n"
  by (simp add: task_entry_trampoline_def task_bootstrap_entry_def split: action.splits)

text \<open>What an action does to the kernel. A \<^verbatim>\<open>wfi\<close> changes nothing in it; how long the hart stays there
  is a matter of the machine (Demo).\<close>

definition perform :: "symbols \<Rightarrow> action \<Rightarrow> kernel \<Rightarrow> kernel option" where
  "perform y a k =
     (case a of
        Print s \<Rightarrow> kputs s k
      | Call_yield \<Rightarrow> map_option snd (sched_yield y k)
      | Call_exit code \<Rightarrow> do {
          (r, k) \<leftarrow> sys_exit y code k;
          (if r = SwitchedAway then Some k else None)
        }
      | Wait \<Rightarrow> Some k
      | Finish \<Rightarrow> None)"

end
