(* ===== verification/Trap_Entry.thy ===== *)
theory Trap_Entry
  imports Syscall
begin

text \<open>
  \<^verbatim>\<open>kernel/arch/riscv/trap/trap_entry.S\<close>: the trap entry code, instruction by instruction. The
  frame the assembly writes is read back as the struct \<^verbatim>\<open>TrapFrame\<close> by the offsets of the C++
  layout (\<^verbatim>\<open>trap.h\<close>), so that the offsets of the assembly are checked against it.
\<close>

section \<open>The trap entry code\<close>

datatype xreg = X_RA | X_GP | X_TP | X_T0 | X_T1 | X_T2 | X_S0 | X_S1 | X_A0 | X_A1 | X_A2 | X_A3 | X_A4 |
  X_A5 | X_A6 | X_A7 | X_S2 | X_S3 | X_S4 | X_S5 | X_S6 | X_S7 | X_S8 | X_S9 | X_S10 | X_S11 |
  X_T3 | X_T4 | X_T5 | X_T6 | X_SP

datatype csreg = C_MEPC | C_MCAUSE | C_MTVAL | C_MSTATUS | C_MHARTID

definition TF_RA :: nat where "TF_RA = 0"
definition TF_GP :: nat where "TF_GP = 8"
definition TF_TP :: nat where "TF_TP = 16"
definition TF_T0 :: nat where "TF_T0 = 24"
definition TF_T1 :: nat where "TF_T1 = 32"
definition TF_T2 :: nat where "TF_T2 = 40"
definition TF_S0 :: nat where "TF_S0 = 48"
definition TF_S1 :: nat where "TF_S1 = 56"
definition TF_A0 :: nat where "TF_A0 = 64"
definition TF_A1 :: nat where "TF_A1 = 72"
definition TF_A2 :: nat where "TF_A2 = 80"
definition TF_A3 :: nat where "TF_A3 = 88"
definition TF_A4 :: nat where "TF_A4 = 96"
definition TF_A5 :: nat where "TF_A5 = 104"
definition TF_A6 :: nat where "TF_A6 = 112"
definition TF_A7 :: nat where "TF_A7 = 120"
definition TF_S2 :: nat where "TF_S2 = 128"
definition TF_S3 :: nat where "TF_S3 = 136"
definition TF_S4 :: nat where "TF_S4 = 144"
definition TF_S5 :: nat where "TF_S5 = 152"
definition TF_S6 :: nat where "TF_S6 = 160"
definition TF_S7 :: nat where "TF_S7 = 168"
definition TF_S8 :: nat where "TF_S8 = 176"
definition TF_S9 :: nat where "TF_S9 = 184"
definition TF_S10 :: nat where "TF_S10 = 192"
definition TF_S11 :: nat where "TF_S11 = 200"
definition TF_T3 :: nat where "TF_T3 = 208"
definition TF_T4 :: nat where "TF_T4 = 216"
definition TF_T5 :: nat where "TF_T5 = 224"
definition TF_T6 :: nat where "TF_T6 = 232"
definition TF_SP :: nat where "TF_SP = 240"
definition TF_MEPC :: nat where "TF_MEPC = 248"
definition TF_MCAUSE :: nat where "TF_MCAUSE = 256"
definition TF_MTVAL :: nat where "TF_MTVAL = 264"
definition TF_MSTATUS :: nat where "TF_MSTATUS = 272"
definition TF_MHARTID :: nat where "TF_MHARTID = 280"
definition TF_SIZE :: nat where "TF_SIZE = 288"

text \<open>
  The hart while it runs the entry code: general registers, memory in doublewords, control
  registers. Memory accesses are relative to \<^verbatim>\<open>sp\<close>.
\<close>

record cpu =
  xr :: "xreg \<Rightarrow> u64"
  dmem :: "addr \<Rightarrow> u64"
  cpu_csr :: csrs
  cpu_pc :: addr

datatype insn = Addi xreg xreg u64 | Sd_sp xreg nat | Ld_sp xreg nat | Csrr xreg csreg | Csrw csreg xreg
  | Mv xreg xreg | Mret

fun csr_get :: "csreg \<Rightarrow> csrs \<Rightarrow> u64" where
  "csr_get C_MEPC c = mepc c"
| "csr_get C_MCAUSE c = mcause c"
| "csr_get C_MTVAL c = mtval c"
| "csr_get C_MSTATUS c = mstatus c"
| "csr_get C_MHARTID c = mhartid c"

fun csr_set :: "csreg \<Rightarrow> u64 \<Rightarrow> csrs \<Rightarrow> csrs" where
  "csr_set C_MEPC v c = c\<lparr>mepc := v\<rparr>"
| "csr_set C_MCAUSE v c = c\<lparr>mcause := v\<rparr>"
| "csr_set C_MTVAL v c = c\<lparr>mtval := v\<rparr>"
| "csr_set C_MSTATUS v c = c\<lparr>mstatus := v\<rparr>"
| "csr_set C_MHARTID v c = c\<lparr>mhartid := v\<rparr>"

text \<open>\<^verbatim>\<open>mret\<close> continues at mepc, puts the bit MPIE (7) of mstatus back into MIE (3), sets MPIE, clears the
  field MPP (bits 11 and 12, to user mode), and clears MPRV (17) unless it returns to machine mode.\<close>

definition mret_status :: "u64 \<Rightarrow> u64" where
  "mret_status v =
     (let w = (if bit v 7 then v OR 0x88 else (v AND NOT 0x8) OR 0x80) AND NOT 0x1800
      in if v AND 0x1800 = 0x1800 then w else w AND NOT 0x20000)"

fun step_insn :: "insn \<Rightarrow> cpu \<Rightarrow> cpu" where
  "step_insn (Addi d r imm) s = s\<lparr>xr := (xr s)(d := xr s r + imm)\<rparr>"
| "step_insn (Sd_sp r off) s = s\<lparr>dmem := (dmem s)(xr s X_SP + of_nat off := xr s r)\<rparr>"
| "step_insn (Ld_sp r off) s = s\<lparr>xr := (xr s)(r := dmem s (xr s X_SP + of_nat off))\<rparr>"
| "step_insn (Csrr r c) s = s\<lparr>xr := (xr s)(r := csr_get c (cpu_csr s))\<rparr>"
| "step_insn (Csrw c r) s = s\<lparr>cpu_csr := csr_set c (xr s r) (cpu_csr s)\<rparr>"
| "step_insn (Mv d r) s = s\<lparr>xr := (xr s)(d := xr s r)\<rparr>"
| "step_insn Mret s = s\<lparr>cpu_pc := mepc (cpu_csr s), cpu_csr := (cpu_csr s)\<lparr>mstatus := mret_status (mstatus (cpu_csr s))\<rparr>\<rparr>"

definition run_insns :: "insn list \<Rightarrow> cpu \<Rightarrow> cpu" where
  "run_insns is s = fold step_insn is s"

text \<open>The code before and after \<^verbatim>\<open>call trap_handle\<close>.\<close>

definition trap_entry_save :: "insn list" where
  "trap_entry_save =
    [Addi X_SP X_SP (- of_nat TF_SIZE), Sd_sp X_RA TF_RA, Sd_sp X_GP TF_GP, Sd_sp X_TP TF_TP,
     Sd_sp X_T0 TF_T0, Sd_sp X_T1 TF_T1, Sd_sp X_T2 TF_T2, Sd_sp X_S0 TF_S0, Sd_sp X_S1 TF_S1,
     Sd_sp X_A0 TF_A0, Sd_sp X_A1 TF_A1, Sd_sp X_A2 TF_A2, Sd_sp X_A3 TF_A3, Sd_sp X_A4 TF_A4,
     Sd_sp X_A5 TF_A5, Sd_sp X_A6 TF_A6, Sd_sp X_A7 TF_A7, Sd_sp X_S2 TF_S2, Sd_sp X_S3 TF_S3,
     Sd_sp X_S4 TF_S4, Sd_sp X_S5 TF_S5, Sd_sp X_S6 TF_S6, Sd_sp X_S7 TF_S7, Sd_sp X_S8 TF_S8,
     Sd_sp X_S9 TF_S9, Sd_sp X_S10 TF_S10, Sd_sp X_S11 TF_S11, Sd_sp X_T3 TF_T3,
     Sd_sp X_T4 TF_T4, Sd_sp X_T5 TF_T5, Sd_sp X_T6 TF_T6, Addi X_T0 X_SP (of_nat TF_SIZE),
     Sd_sp X_T0 TF_SP, Csrr X_T0 C_MEPC, Sd_sp X_T0 TF_MEPC, Csrr X_T0 C_MCAUSE,
     Sd_sp X_T0 TF_MCAUSE, Csrr X_T0 C_MTVAL, Sd_sp X_T0 TF_MTVAL, Csrr X_T0 C_MSTATUS,
     Sd_sp X_T0 TF_MSTATUS, Csrr X_T0 C_MHARTID, Sd_sp X_T0 TF_MHARTID, Mv X_A0 X_SP]"

definition trap_entry_restore :: "insn list" where
  "trap_entry_restore =
    [Ld_sp X_T0 TF_MEPC, Csrw C_MEPC X_T0, Ld_sp X_RA TF_RA, Ld_sp X_GP TF_GP, Ld_sp X_TP TF_TP,
     Ld_sp X_T0 TF_T0, Ld_sp X_T1 TF_T1, Ld_sp X_T2 TF_T2, Ld_sp X_S0 TF_S0, Ld_sp X_S1 TF_S1,
     Ld_sp X_A0 TF_A0, Ld_sp X_A1 TF_A1, Ld_sp X_A2 TF_A2, Ld_sp X_A3 TF_A3, Ld_sp X_A4 TF_A4,
     Ld_sp X_A5 TF_A5, Ld_sp X_A6 TF_A6, Ld_sp X_A7 TF_A7, Ld_sp X_S2 TF_S2, Ld_sp X_S3 TF_S3,
     Ld_sp X_S4 TF_S4, Ld_sp X_S5 TF_S5, Ld_sp X_S6 TF_S6, Ld_sp X_S7 TF_S7, Ld_sp X_S8 TF_S8,
     Ld_sp X_S9 TF_S9, Ld_sp X_S10 TF_S10, Ld_sp X_S11 TF_S11, Ld_sp X_T3 TF_T3,
     Ld_sp X_T4 TF_T4, Ld_sp X_T5 TF_T5, Ld_sp X_T6 TF_T6, Addi X_SP X_SP (of_nat TF_SIZE), Mret]"

text \<open>The struct at an address, by the offsets of the C++ layout: 36 fields of eight bytes.\<close>

definition read_frame :: "(addr \<Rightarrow> u64) \<Rightarrow> addr \<Rightarrow> TrapFrame" where
  "read_frame m p =
    \<lparr>tf_ra = m p, tf_gp = m (p + 8 * 1), tf_tp = m (p + 8 * 2), tf_t0 = m (p + 8 * 3),
     tf_t1 = m (p + 8 * 4), tf_t2 = m (p + 8 * 5), tf_s0 = m (p + 8 * 6), tf_s1 = m (p + 8 * 7),
     tf_a0 = m (p + 8 * 8), tf_a1 = m (p + 8 * 9), tf_a2 = m (p + 8 * 10),
     tf_a3 = m (p + 8 * 11), tf_a4 = m (p + 8 * 12), tf_a5 = m (p + 8 * 13),
     tf_a6 = m (p + 8 * 14), tf_a7 = m (p + 8 * 15), tf_s2 = m (p + 8 * 16),
     tf_s3 = m (p + 8 * 17), tf_s4 = m (p + 8 * 18), tf_s5 = m (p + 8 * 19),
     tf_s6 = m (p + 8 * 20), tf_s7 = m (p + 8 * 21), tf_s8 = m (p + 8 * 22),
     tf_s9 = m (p + 8 * 23), tf_s10 = m (p + 8 * 24), tf_s11 = m (p + 8 * 25),
     tf_t3 = m (p + 8 * 26), tf_t4 = m (p + 8 * 27), tf_t5 = m (p + 8 * 28),
     tf_t6 = m (p + 8 * 29), tf_sp = m (p + 8 * 30), tf_mepc = m (p + 8 * 31),
     tf_mcause = m (p + 8 * 32), tf_mtval = m (p + 8 * 33), tf_mstatus = m (p + 8 * 34),
     tf_mhartid = m (p + 8 * 35)\<rparr>"

text \<open>The interrupted state as a frame.\<close>

definition frame_of :: "cpu \<Rightarrow> TrapFrame" where
  "frame_of s =
    \<lparr>tf_ra = xr s X_RA, tf_gp = xr s X_GP, tf_tp = xr s X_TP, tf_t0 = xr s X_T0,
     tf_t1 = xr s X_T1, tf_t2 = xr s X_T2, tf_s0 = xr s X_S0, tf_s1 = xr s X_S1,
     tf_a0 = xr s X_A0, tf_a1 = xr s X_A1, tf_a2 = xr s X_A2, tf_a3 = xr s X_A3,
     tf_a4 = xr s X_A4, tf_a5 = xr s X_A5, tf_a6 = xr s X_A6, tf_a7 = xr s X_A7,
     tf_s2 = xr s X_S2, tf_s3 = xr s X_S3, tf_s4 = xr s X_S4, tf_s5 = xr s X_S5,
     tf_s6 = xr s X_S6, tf_s7 = xr s X_S7, tf_s8 = xr s X_S8, tf_s9 = xr s X_S9,
     tf_s10 = xr s X_S10, tf_s11 = xr s X_S11, tf_t3 = xr s X_T3, tf_t4 = xr s X_T4,
     tf_t5 = xr s X_T5, tf_t6 = xr s X_T6, tf_sp = xr s X_SP, tf_mepc = mepc (cpu_csr s),
     tf_mcause = mcause (cpu_csr s), tf_mtval = mtval (cpu_csr s),
     tf_mstatus = mstatus (cpu_csr s), tf_mhartid = mhartid (cpu_csr s)\<rparr>"

text \<open>The registers that a frame holds.\<close>

fun frame_reg :: "TrapFrame \<Rightarrow> xreg \<Rightarrow> u64" where
  "frame_reg tf X_RA = tf_ra tf"
| "frame_reg tf X_GP = tf_gp tf"
| "frame_reg tf X_TP = tf_tp tf"
| "frame_reg tf X_T0 = tf_t0 tf"
| "frame_reg tf X_T1 = tf_t1 tf"
| "frame_reg tf X_T2 = tf_t2 tf"
| "frame_reg tf X_S0 = tf_s0 tf"
| "frame_reg tf X_S1 = tf_s1 tf"
| "frame_reg tf X_A0 = tf_a0 tf"
| "frame_reg tf X_A1 = tf_a1 tf"
| "frame_reg tf X_A2 = tf_a2 tf"
| "frame_reg tf X_A3 = tf_a3 tf"
| "frame_reg tf X_A4 = tf_a4 tf"
| "frame_reg tf X_A5 = tf_a5 tf"
| "frame_reg tf X_A6 = tf_a6 tf"
| "frame_reg tf X_A7 = tf_a7 tf"
| "frame_reg tf X_S2 = tf_s2 tf"
| "frame_reg tf X_S3 = tf_s3 tf"
| "frame_reg tf X_S4 = tf_s4 tf"
| "frame_reg tf X_S5 = tf_s5 tf"
| "frame_reg tf X_S6 = tf_s6 tf"
| "frame_reg tf X_S7 = tf_s7 tf"
| "frame_reg tf X_S8 = tf_s8 tf"
| "frame_reg tf X_S9 = tf_s9 tf"
| "frame_reg tf X_S10 = tf_s10 tf"
| "frame_reg tf X_S11 = tf_s11 tf"
| "frame_reg tf X_T3 = tf_t3 tf"
| "frame_reg tf X_T4 = tf_t4 tf"
| "frame_reg tf X_T5 = tf_t5 tf"
| "frame_reg tf X_T6 = tf_t6 tf"
| "frame_reg tf X_SP = tf_sp tf"

section \<open>Entering and leaving a trap\<close>

lemmas tf_offsets = TF_RA_def TF_GP_def TF_TP_def TF_T0_def TF_T1_def TF_T2_def TF_S0_def TF_S1_def
  TF_A0_def TF_A1_def TF_A2_def TF_A3_def TF_A4_def TF_A5_def TF_A6_def TF_A7_def TF_S2_def TF_S3_def
  TF_S4_def TF_S5_def TF_S6_def TF_S7_def TF_S8_def TF_S9_def TF_S10_def TF_S11_def TF_T3_def TF_T4_def
  TF_T5_def TF_T6_def TF_SP_def TF_MEPC_def TF_MCAUSE_def TF_MTVAL_def TF_MSTATUS_def TF_MHARTID_def TF_SIZE_def

definition frame_addrs :: "addr \<Rightarrow> addr set" where
  "frame_addrs b = set (map (\<lambda>i. b + 8 * of_nat i) [0..<36])"

lemma trap_entry_save_run:
  fixes s :: cpu
  defines "s' \<equiv> run_insns trap_entry_save s" and "b \<equiv> xr s X_SP - 288"
  shows "read_frame (dmem s') b = frame_of s"
    and "xr s' = (xr s)(X_SP := b, X_T0 := mhartid (cpu_csr s), X_A0 := b)"
    and "cpu_csr s' = cpu_csr s"
  unfolding s'_def b_def
  by (simp_all add: run_insns_def trap_entry_save_def tf_offsets read_frame_def frame_of_def fun_upd_twist)

lemma trap_entry_save_outside:
  assumes "a \<notin> frame_addrs (xr s X_SP - 288)"
  shows "dmem (run_insns trap_entry_save s) a = dmem s a"
  using assms by (simp add: run_insns_def trap_entry_save_def tf_offsets frame_addrs_def upt_rec)

lemma trap_entry_restore_run:
  fixes s :: cpu
  defines "s' \<equiv> run_insns trap_entry_restore s" and "tf \<equiv> read_frame (dmem s) (xr s X_SP)"
  shows "xr s' r = (if r = X_SP then xr s X_SP + 288 else frame_reg tf r)"
    and "cpu_pc s' = tf_mepc tf" and "dmem s' = dmem s"
    and "cpu_csr s' = (cpu_csr s)\<lparr>mepc := tf_mepc tf, mstatus := mret_status (mstatus (cpu_csr s))\<rparr>"
  unfolding s'_def tf_def
  by (cases r; simp add: run_insns_def trap_entry_restore_def tf_offsets read_frame_def)
    (simp_all add: run_insns_def trap_entry_restore_def tf_offsets read_frame_def)

lemma frame_reg_frame_of: "frame_reg (frame_of s) r = xr s r"
  by (cases r) (simp_all add: frame_of_def)

section \<open>Properties\<close>

text \<open>Property (C7): a trap is transparent to the interrupted code. The entry code lays out exactly the
  struct \<^verbatim>\<open>TrapFrame\<close> below the stack pointer, with every register and the five control
  registers in its field, passes its address in a0, and writes nowhere else. Whatever the
  handler did, if it kept the stack pointer and left a frame \<open>tf\<close> there, the exit code loads
  every register from its field, restores the stack pointer and continues at the frame's
  mepc; with an unchanged frame all 31 registers are as they were and execution continues
  where it was interrupted.\<close>

theorem trap_transparent:
  fixes s s2 :: cpu
  defines "b \<equiv> xr s X_SP - 288" and "s1 \<equiv> run_insns trap_entry_save s" and "s3 \<equiv> run_insns trap_entry_restore s2"
  assumes "xr s2 X_SP = xr s1 X_SP" and "read_frame (dmem s2) b = tf"
  shows "read_frame (dmem s1) b = frame_of s \<and> xr s1 X_A0 = b \<and>
    (\<forall>a. a \<notin> frame_addrs b \<longrightarrow> dmem s1 a = dmem s a) \<and>
    (\<forall>r. xr s3 r = (if r = X_SP then xr s X_SP else frame_reg tf r)) \<and> cpu_pc s3 = tf_mepc tf \<and>
    (tf = frame_of s \<longrightarrow> xr s3 = xr s \<and> cpu_pc s3 = mepc (cpu_csr s))"
proof -
  note save = trap_entry_save_run [of s, folded b_def s1_def]
  have sp: "xr s2 X_SP = b" using assms(4) save(2) by simp
  then have frame: "read_frame (dmem s2) (xr s2 X_SP) = tf" using assms(5) by simp
  note rest = trap_entry_restore_run [of s2, folded s3_def, unfolded frame]
  have regs: "xr s3 r = (if r = X_SP then xr s X_SP else frame_reg tf r)" for r
    using rest(1) [of r] sp by (simp add: b_def)
  moreover have "xr s3 = xr s \<and> cpu_pc s3 = mepc (cpu_csr s)" if "tf = frame_of s"
    using regs rest(2) unfolding that by (auto simp: fun_eq_iff frame_reg_frame_of) (simp add: frame_of_def)
  moreover have "dmem s1 a = dmem s a" if "a \<notin> frame_addrs b" for a
    using trap_entry_save_outside [of a s] that by (simp add: s1_def b_def)
  ultimately show ?thesis using save(1,2) rest(2) by simp
qed

definition demo_cpu :: cpu where
  "demo_cpu = \<lparr>xr = (\<lambda>r. if r = X_SP then 0x80020400 else if r = X_S5 then 55 else 7), dmem = (\<lambda>_. 0),
     cpu_csr = demo_csrs\<lparr>mepc := 0x80000abc\<rparr>, cpu_pc = 0x80000300\<rparr>"

lemma trap_transparent_witness:
  "xr (run_insns trap_entry_restore (run_insns trap_entry_save demo_cpu)) = xr demo_cpu \<and>
   cpu_pc (run_insns trap_entry_restore (run_insns trap_entry_save demo_cpu)) = 0x80000abc"
proof -
  have "cpu_pc (run_insns trap_entry_restore (run_insns trap_entry_save demo_cpu)) = mepc (cpu_csr demo_cpu) \<and>
      xr (run_insns trap_entry_restore (run_insns trap_entry_save demo_cpu)) = xr demo_cpu"
    using trap_transparent [OF refl trap_entry_save_run(1) [of demo_cpu]] by blast
  then show ?thesis by (simp add: demo_cpu_def)
qed

text \<open>Property (C30): a trap in the idle task overruns its stack. The idle stack has 256 bytes, the trap
  frame 288: wherever the idle stack lies above address 288, the first trap taken by the idle
  task before it pushes anything stores the interrupted ra at least 32 bytes below the start
  of that stack, in whatever data lies there.\<close>

theorem idle_trap_overruns_stack:
  assumes "symbols_ok y" and "288 \<le> unat (s_idle_stack_at y)"
    and "xr s X_SP = ctx_sp (first_context y (s_idle_stack_at y) 256)"
  shows "unat (xr s X_SP - 288) + 32 \<le> unat (s_idle_stack_at y) \<and>
    dmem (run_insns trap_entry_save s) (xr s X_SP - 288) = xr s X_RA"
proof -
  have small: "unat (s_idle_stack_at y) + unat (256 :: u64) < 2 ^ 64" using assms(1) by (simp add: symbols_ok_def)
  have sp: "unat (xr s X_SP) = (unat (s_idle_stack_at y) + 256) div 16 * 16"
    using stack_pointer_nat [OF small] by (simp add: assms(3) first_context_def)
  have m: "(unat (s_idle_stack_at y) + 256) div 16 * 16 + (unat (s_idle_stack_at y) + 256) mod 16 =
      unat (s_idle_stack_at y) + 256" "(unat (s_idle_stack_at y) + 256) mod 16 < 16"
    by (rule div_mult_mod_eq, rule mod_less_divisor) simp
  then have le: "unat (288 :: u64) \<le> unat (xr s X_SP)" using assms(2) sp by simp
  then have "unat (xr s X_SP - 288) = unat (xr s X_SP) - 288"
    by (simp add: unat_sub word_le_nat_alt)
  moreover have "dmem (run_insns trap_entry_save s) (xr s X_SP - 288) = tf_ra (frame_of s)"
    using arg_cong [OF trap_entry_save_run(1) [of s], of tf_ra] by (simp add: read_frame_def)
  moreover have "unat (xr s X_SP) \<le> unat (s_idle_stack_at y) + 256"
    unfolding sp by (rule div_times_less_eq_dividend)
  ultimately show ?thesis using le by (simp add: frame_of_def)
qed

lemma idle_trap_overruns_stack_witness:
  "\<exists>s. unat (xr s X_SP - 288) + 32 \<le> unat (s_idle_stack_at demo_symbols) \<and>
    dmem (run_insns trap_entry_save s) (xr s X_SP - 288) = 0x1234"
proof -
  let ?s = "demo_cpu\<lparr>xr := (\<lambda>r. if r = X_SP then ctx_sp (first_context demo_symbols (s_idle_stack_at demo_symbols) 256) else 0x1234)\<rparr>"
  have "288 \<le> unat (s_idle_stack_at demo_symbols)" by (simp add: demo_symbols_def)
  from idle_trap_overruns_stack [OF demo_symbols_ok this, of ?s] show ?thesis
    by (intro exI [of _ ?s]) simp
qed

end
