(* ===== verification/Trap.thy ===== *)
theory Trap
  imports Trap_Entry
begin

text \<open>
  \<^verbatim>\<open>kernel/arch/riscv/trap/trap_logic.h\<close> and \<^verbatim>\<open>trap.cpp\<close>: the handling helpers and the trap
  handler. A handler returns the (changed) frame, or has switched to another task, or halts.
\<close>

section \<open>The helpers of trap\_logic.h\<close>

datatype HandleResult = Resume | Fatal

record HandleSummary =
  is_interrupt :: bool
  summary_code :: u64
  summary_result :: HandleResult

definition kInsnBytes32 :: u64 where "kInsnBytes32 = 4"

definition syscall_number :: "TrapFrame \<Rightarrow> u64" where "syscall_number tf = tf_a7 tf"
definition syscall_arg0 :: "TrapFrame \<Rightarrow> u64" where "syscall_arg0 tf = tf_a0 tf"
definition syscall_arg1 :: "TrapFrame \<Rightarrow> u64" where "syscall_arg1 tf = tf_a1 tf"
definition syscall_arg2 :: "TrapFrame \<Rightarrow> u64" where "syscall_arg2 tf = tf_a2 tf"

definition set_syscall_return :: "u64 \<Rightarrow> TrapFrame \<Rightarrow> TrapFrame" where
  "set_syscall_return v tf = tf\<lparr>tf_a0 := v\<rparr>"

definition handle_breakpoint :: "TrapFrame \<Rightarrow> HandleSummary \<times> TrapFrame" where
  "handle_breakpoint tf =
     (\<lparr>is_interrupt = False, summary_code = exception_number Breakpoint, summary_result = Resume\<rparr>,
      tf\<lparr>tf_mepc := tf_mepc tf + kInsnBytes32\<rparr>)"

definition handle_ecall_mmode ::
  "symbols \<Rightarrow> memory \<Rightarrow> TrapFrame \<Rightarrow> kernel \<Rightarrow> ((HandleSummary \<times> TrapFrame) outcome \<times> kernel) option" where
  "handle_ecall_mmode y mem tf k = do {
     (r, k) \<leftarrow> dispatch y mem tf k;
     Some (case r of
       Return ret \<Rightarrow> Return (\<lparr>is_interrupt = False, summary_code = exception_number EcallFromMMode,
           summary_result = Resume\<rparr>, tf\<lparr>tf_a0 := ret, tf_mepc := tf_mepc tf + kInsnBytes32\<rparr>)
     | SwitchedAway \<Rightarrow> SwitchedAway
     | Halted \<Rightarrow> Halted, k)
   }"

definition handle_illegalinstruction :: "TrapFrame \<Rightarrow> HandleSummary \<times> TrapFrame" where
  "handle_illegalinstruction tf =
     (\<lparr>is_interrupt = False, summary_code = exception_number IllegalInstruction, summary_result = Resume\<rparr>,
      tf\<lparr>tf_mepc := tf_mepc tf + kInsnBytes32\<rparr>)"

definition classify_trap :: "TrapFrame \<Rightarrow> HandleSummary" where
  "classify_trap tf = \<lparr>is_interrupt = mcause_is_interrupt (tf_mcause tf),
     summary_code = mcause_code (tf_mcause tf), summary_result = Resume\<rparr>"

section \<open>The trap handler\<close>

definition trap_init :: "symbols \<Rightarrow> 'a hart_scheme \<Rightarrow> 'a hart_scheme" where
  "trap_init y k = k\<lparr>csr := write_mtvec (trap_entry_at y) (csr k)\<rparr>"

definition exception_name :: "u64 \<Rightarrow> string" where
  "exception_name code =
     (if code = exception_number IllegalInstruction then ''illegal instruction''
      else if code = exception_number Breakpoint then ''breakpoint''
      else if code = exception_number LoadAccessFault then ''load access fault''
      else if code = exception_number StoreAmoAccessFault then ''store/amo access fault''
      else if code = exception_number EcallFromMMode then ''ecall from M-mode''
      else if code = exception_number InstructionPageFault then ''instruction page fault''
      else if code = exception_number LoadPageFault then ''load page fault''
      else if code = exception_number StoreAmoPageFault then ''store/amo page fault''
      else ''unknown exception'')"

definition interrupt_name :: "u64 \<Rightarrow> string" where
  "interrupt_name code =
     (if code = interrupt_number MachineTimer then ''machine timer interrupt''
      else if code = interrupt_number MachineSoftware then ''machine software interrupt''
      else if code = interrupt_number MachineExternal then ''machine external interrupt''
      else ''unknown interrupt'')"

text \<open>The report that the handler prints for each of the three page faults.\<close>

definition report_field :: "string \<Rightarrow> u64 \<Rightarrow> 'a hart_scheme \<Rightarrow> 'a hart_scheme option" where
  "report_field name v k = do { k \<leftarrow> kputs name k; k \<leftarrow> kput_hex v k; kputc newline k }"

definition report_fault :: "string \<Rightarrow> TrapFrame \<Rightarrow> 'a hart_scheme \<Rightarrow> 'a hart_scheme option" where
  "report_fault title tf k = do {
     k \<leftarrow> kputs title k;
     k \<leftarrow> report_field ''mcause = '' (tf_mcause tf) k;
     k \<leftarrow> report_field ''mepc = '' (tf_mepc tf) k;
     k \<leftarrow> report_field ''mtval = '' (tf_mtval tf) k;
     k \<leftarrow> report_field ''mstatus = '' (tf_mstatus tf) k;
     k \<leftarrow> kputs ''hart = '' k;
     k \<leftarrow> kput_dec (tf_mhartid tf) k;
     kputc newline k
   }"

definition trap_handle :: "symbols \<Rightarrow> memory \<Rightarrow> TrapFrame \<Rightarrow> kernel \<Rightarrow> (TrapFrame outcome \<times> kernel) option" where
  "trap_handle y mem tf k =
     (let code = mcause_code (tf_mcause tf) in
      if mcause_is_interrupt (tf_mcause tf) then do {
        k \<leftarrow> kputs ''type = interrupt: '' k;
        k \<leftarrow> kputs (interrupt_name code) k;
        k \<leftarrow> kputc newline k;
        (if code = interrupt_number MachineTimer then do {
           k \<leftarrow> kputs ''catch a timer interrupt\<newline>'' k;
           k \<leftarrow> on_interrupt k;
           Some (Return tf, k)
         }
         else Some (Halted, k))
      }
      else do {
        k \<leftarrow> kputs ''type = exception: '' k;
        k \<leftarrow> kputs (exception_name code) k;
        k \<leftarrow> kputc newline k;
        (if code = exception_number Breakpoint then do {
           let tf = snd (handle_breakpoint tf);
           k \<leftarrow> kputs ''resume after breakpoint\<newline>'' k;
           Some (Return tf, k)
         }
         else if code = exception_number EcallFromMMode then do {
           (r, k) \<leftarrow> handle_ecall_mmode y mem tf k;
           Some (map_outcome snd r, k)
         }
         else do {
           k \<leftarrow> (if code = exception_number IllegalInstruction
                 then kputs ''Excpetion: Illegal instruction\<newline>'' k else Some k);
           k \<leftarrow> (if code = exception_number InstructionPageFault
                 then report_fault ''\<newline>=== Instruction Page Fault ===\<newline>'' tf k else Some k);
           k \<leftarrow> (if code = exception_number LoadPageFault
                 then report_fault ''\<newline>=== Load Page Fault ===\<newline>'' tf k else Some k);
           k \<leftarrow> (if code = exception_number StoreAmoPageFault
                 then report_fault ''\<newline>=== Store/Amo Page Fault ===\<newline>'' tf k else Some k);
           Some (Halted, k)
         })
      })"

section \<open>What the handler prints and returns\<close>

lemma mcause_code_exception: "\<not> mcause_is_interrupt c \<Longrightarrow> mcause_code c = c"
  by (rule bit_word_eqI) (auto simp: bit_mcause_code mcause_is_interrupt_bit)

lemma names_NUL_free: "CHR 0x00 \<notin> set (exception_name code)" "CHR 0x00 \<notin> set (interrupt_name code)"
  by (simp_all add: exception_name_def interrupt_name_def)

definition banner :: "string \<Rightarrow> string \<Rightarrow> u8 list" where
  "banner kind name = line_text kind @ line_text name @ [13, 10]"

lemma drives_banner:
  assumes "CHR 0x00 \<notin> set kind" "CHR 0x00 \<notin> set name"
  shows "drives (tx (banner kind name)) (\<lambda>k. kputs kind k \<bind> (\<lambda>k. kputs name k \<bind> kputc newline))"
proof -
  have "drives (tx (line_text kind) @ (tx (line_text name) @ tx (crlf newline)))
      (\<lambda>k. kputs kind k \<bind> (\<lambda>k. kputs name k \<bind> kputc newline))"
    using assms by (intro drives_rules)
  then show ?thesis by (simp add: banner_def crlf_def newline_def)
qed

text \<open>The report of a trap that halts, written out.\<close>

definition field_text :: "string \<Rightarrow> u64 \<Rightarrow> u8 list" where
  "field_text name v = line_text name @ (48 # 120 # hex_text v) @ [13, 10]"

definition fault_text :: "string \<Rightarrow> TrapFrame \<Rightarrow> u8 list" where
  "fault_text title tf = line_text title @ field_text ''mcause = '' (tf_mcause tf) @ field_text ''mepc = '' (tf_mepc tf) @
     field_text ''mtval = '' (tf_mtval tf) @ field_text ''mstatus = '' (tf_mstatus tf) @
     count_line ''hart = '' (tf_mhartid tf)"

definition title_of :: "(u64 \<times> string) list \<Rightarrow> string \<Rightarrow> u64 \<Rightarrow> string" where
  "title_of titles other code = (case map_of titles code of Some s \<Rightarrow> s | None \<Rightarrow> other)"

definition exception_titles :: "(u64 \<times> string) list" where
  "exception_titles = [(2, ''illegal instruction''), (3, ''breakpoint''), (5, ''load access fault''),
     (7, ''store/amo access fault''), (11, ''ecall from M-mode''), (12, ''instruction page fault''),
     (13, ''load page fault''), (15, ''store/amo page fault'')]"

definition interrupt_titles :: "(u64 \<times> string) list" where
  "interrupt_titles = [(3, ''machine software interrupt''), (7, ''machine timer interrupt''), (11, ''machine external interrupt'')]"

definition fatal_text :: "TrapFrame \<Rightarrow> u8 list" where
  "fatal_text tf =
     (let c = tf_mcause tf in
      if bit c 63 then banner ''type = interrupt: '' (title_of interrupt_titles ''unknown interrupt'' (take_bit 63 c))
      else banner ''type = exception: '' (title_of exception_titles ''unknown exception'' c) @
        (if c = 2 then line_text ''Excpetion: Illegal instruction\<newline>''
         else if c = 12 then fault_text ''\<newline>=== Instruction Page Fault ===\<newline>'' tf
         else if c = 13 then fault_text ''\<newline>=== Load Page Fault ===\<newline>'' tf
         else if c = 15 then fault_text ''\<newline>=== Store/Amo Page Fault ===\<newline>'' tf
         else []))"

lemma names_are_titles:
  "exception_name c = title_of exception_titles ''unknown exception'' c"
  "interrupt_name c = title_of interrupt_titles ''unknown interrupt'' c"
  by (simp_all add: exception_name_def interrupt_name_def title_of_def exception_titles_def interrupt_titles_def)

lemma mcause_code_take: "mcause_code c = take_bit 63 c"
  by (rule bit_word_eqI) (auto simp: bit_mcause_code bit_simps)

lemma drives_report_field:
  "CHR 0x00 \<notin> set name \<Longrightarrow> drives (tx (field_text name v)) (report_field name v)"
proof -
  assume "CHR 0x00 \<notin> set name"
  then have "drives (tx (line_text name) @ (tx (48 # 120 # hex_text v) @ tx (crlf newline))) (report_field name v)"
    unfolding report_field_def [abs_def] by (intro drives_rules)
  then show ?thesis by (simp add: field_text_def crlf_def newline_def)
qed

lemma drives_report_fault:
  assumes "CHR 0x00 \<notin> set title"
  shows "drives (tx (fault_text title tf)) (report_fault title tf)"
proof -
  have "drives (tx (line_text title) @ tx (field_text ''mcause = '' (tf_mcause tf)) @ tx (field_text ''mepc = '' (tf_mepc tf)) @
     tx (field_text ''mtval = '' (tf_mtval tf)) @ tx (field_text ''mstatus = '' (tf_mstatus tf)) @
     tx (count_line ''hart = '' (tf_mhartid tf))) (report_fault title tf)"
    unfolding report_fault_def [abs_def]
    by (intro drives_bind drives_report_field drives_kputs drives_count_line) (use assms in simp_all)
  then show ?thesis by (simp add: fault_text_def)
qed

lemma drives_cond: "drives (tx cs) f \<Longrightarrow> drives (tx (if P then cs else [])) (\<lambda>k. if P then f k else Some k)"
  using drives_Some by (cases P) (auto simp: drives_def)

lemma banner_run:
  assumes "console_ready k" "CHR 0x00 \<notin> set kind" "CHR 0x00 \<notin> set name"
  shows "\<exists>k1 k2 k3. kputs kind k = Some k1 \<and> kputs name k1 = Some k2 \<and> kputc newline k2 = Some k3 \<and>
    effect (tx (banner kind name)) k k3 \<and> console_ready k3"
  using drivesD [OF drives_banner [OF assms(2,3)] assms(1)] unfolding bind_eq_Some_conv by blast

section \<open>Properties\<close>

text \<open>The value a system call other than exit returns, and what it transmits.\<close>

definition syscall_result :: "TrapFrame \<Rightarrow> u64" where
  "syscall_result tf = (if tf_a7 tf = 1 then if tf_a0 tf \<noteq> 1 \<and> tf_a0 tf \<noteq> 2 then - 1
                                         else if tf_a1 tf = 0 then - 2 else tf_a2 tf
                        else if tf_a7 tf = 3 then 0 else - 38)"

definition syscall_output :: "TrapFrame \<Rightarrow> (nat \<Rightarrow> u8) \<Rightarrow> u8 list" where
  "syscall_output tf cs = (if tf_a7 tf = 1 \<and> (tf_a0 tf = 1 \<or> tf_a0 tf = 2) \<and> tf_a1 tf \<noteq> 0
     then concat (map (\<lambda>i. crlf (cs i)) [0..<unat (tf_a2 tf)]) else [])"

lemma dispatch_result:
  assumes "console_ready k" "tf_a7 tf \<noteq> 2"
    and mem: "tf_a7 tf = 1 \<Longrightarrow> \<forall>i < unat (tf_a2 tf). mem (tf_a1 tf + of_nat i) = Some (cs i)"
  shows "\<exists>k'. dispatch y mem tf k = Some (Return (syscall_result tf), k') \<and> effect (tx (syscall_output tf cs)) k k'"
proof (cases "tf_a7 tf = 1 \<and> (tf_a0 tf = 1 \<or> tf_a0 tf = 2) \<and> tf_a1 tf \<noteq> 0")
  case True
  with sys_write_correct [OF assms(1), of "tf_a0 tf" "tf_a1 tf" "tf_a2 tf" mem cs] mem show ?thesis
    by (auto simp: dispatch_def syscall_result_def syscall_output_def)
next
  case False
  with assms(2) show ?thesis
    by (auto simp: dispatch_def syscall_result_def syscall_output_def sys_write_def kFdStdout_def
        kFdStderr_def kErrBadFd_def kErrBadPtr_def kErrUnknownSyscall_def sys_yield_def)
qed

lemma ecall_cause: "\<not> mcause_is_interrupt 11" "mcause_code 11 = 11"
  by (simp_all add: mcause_is_interrupt_def mcause_code_def kMcauseInterruptBit_def)

lemma ecall_frame:
  assumes "console_ready k" and "tf_mcause tf = 11" and "tf_a7 tf \<noteq> 2"
    and "tf_a7 tf = 1 \<Longrightarrow> \<forall>i < unat (tf_a2 tf). mem (tf_a1 tf + of_nat i) = Some (cs i)"
  shows "\<exists>k'. trap_handle y mem tf k =
      Some (Return (tf\<lparr>tf_a0 := syscall_result tf, tf_mepc := tf_mepc tf + 4\<rparr>), k') \<and>
    effect (tx (banner ''type = exception: '' ''ecall from M-mode'' @ syscall_output tf cs)) k k'"
proof -
  have name: "exception_name 11 = ''ecall from M-mode''" by (simp add: exception_name_def)
  from banner_run [OF assms(1), of "''type = exception: ''" "''ecall from M-mode''"] obtain k1 k2 k3 where
    b: "kputs ''type = exception: '' k = Some k1" "kputs ''ecall from M-mode'' k1 = Some k2"
      "kputc newline k2 = Some k3" "effect (tx (banner ''type = exception: '' ''ecall from M-mode'')) k k3"
      "console_ready k3" by auto
  from dispatch_result [OF b(5) assms(3,4), of y] obtain k4 where
    d: "dispatch y mem tf k3 = Some (Return (syscall_result tf), k4)" "effect (tx (syscall_output tf cs)) k3 k4" by blast
  have "trap_handle y mem tf k = Some (Return (tf\<lparr>tf_a0 := syscall_result tf, tf_mepc := tf_mepc tf + 4\<rparr>), k4)"
    using b(1,2,3) d(1) by (simp add: trap_handle_def Let_def assms(2) ecall_cause name handle_ecall_mmode_def kInsnBytes32_def)
  moreover have "effect (tx (banner ''type = exception: '' ''ecall from M-mode'' @ syscall_output tf cs)) k k4"
    using effect_append [OF b(4) d(2)] by (simp only: map_append)
  ultimately show ?thesis by blast
qed

text \<open>Property (C22): system calls from M-mode. On a responsive console an ecall trap with any number
  other than exit returns a frame in which a0 holds the result (the count or -1 or -2 for
  write, 0 for yield, -38 for an unknown number) and mepc points behind the 4-byte ecall, all
  other registers as they were; the call transmits its banner and the written bytes and
  changes no other state. In particular a yield through ecall does not reschedule.\<close>

theorem ecall_returns:
  assumes "console_ready k" and "tf_mcause tf = 11" and "tf_a7 tf \<noteq> 2"
    and "tf_a7 tf = 1 \<Longrightarrow> \<forall>i < unat (tf_a2 tf). mem (tf_a1 tf + of_nat i) = Some (cs i)"
  shows "\<exists>k'. trap_handle y mem tf k =
      Some (Return (tf\<lparr>tf_a0 := syscall_result tf, tf_mepc := tf_mepc tf + 4\<rparr>), k') \<and>
    effect (tx (banner ''type = exception: '' ''ecall from M-mode'' @ syscall_output tf cs)) k k'"
  using assms by (rule ecall_frame)

definition zero_frame :: TrapFrame where
  "zero_frame = read_frame (\<lambda>_. 0) 0"

lemma demo_kernel_ready: "console_ready demo_kernel"
  by (simp add: console_ready_def demo_kernel_def hart.defs kernel.defs demo_hart_def demo_responsive)

lemma ecall_returns_witness:
  "\<exists>k'. trap_handle demo_symbols (\<lambda>_. None) (zero_frame\<lparr>tf_mcause := 11, tf_a7 := 3, tf_a0 := 7, tf_mepc := 0x80000100\<rparr>) demo_kernel =
      Some (Return (zero_frame\<lparr>tf_mcause := 11, tf_a7 := 3, tf_a0 := 0, tf_mepc := 0x80000104\<rparr>), k') \<and>
    s_current k' = s_current demo_kernel"
proof -
  let ?tf = "zero_frame\<lparr>tf_mcause := 11, tf_a7 := 3, tf_a0 := 7, tf_mepc := 0x80000100\<rparr>"
  have "tf_mcause ?tf = 11" "tf_a7 ?tf \<noteq> 2" "tf_a7 ?tf \<noteq> 1" by simp_all
  with ecall_returns [OF demo_kernel_ready, of ?tf "\<lambda>_. None" undefined demo_symbols] obtain k' where
    k': "trap_handle demo_symbols (\<lambda>_. None) ?tf demo_kernel =
      Some (Return (?tf\<lparr>tf_a0 := syscall_result ?tf, tf_mepc := tf_mepc ?tf + 4\<rparr>), k')"
    "effect (tx (banner ''type = exception: '' ''ecall from M-mode'' @ syscall_output ?tf undefined)) demo_kernel k'"
    by blast
  have "?tf\<lparr>tf_a0 := syscall_result ?tf, tf_mepc := tf_mepc ?tf + 4\<rparr> =
      zero_frame\<lparr>tf_mcause := 11, tf_a7 := 3, tf_a0 := 0, tf_mepc := 0x80000104\<rparr>"
    by (simp add: syscall_result_def)
  with k' effect_kernel_fields(7) [OF k'(2)] show ?thesis by metis
qed

text \<open>What the timer interrupt writes when its two readings of mtime give \<open>t\<close> and \<open>u\<close>.\<close>

definition timer_report :: "u64 \<Rightarrow> u64 \<Rightarrow> u64 \<Rightarrow> u64 \<Rightarrow> bus_write list" where
  "timer_report t count u interval =
     tx (banner ''type = interrupt: '' ''machine timer interrupt'') @ tx (line_text ''catch a timer interrupt\<newline>'') @
     tx (count_line ''current timer count: '' t) @ tx (count_line ''current ticks count: '' count) @
     [Dword 0x2004000 (u + interval)]"

lemma timer_frame:
  assumes "console_ready k" and "tf_mcause tf = kMcauseInterruptBit + 7"
  shows "\<exists>k' n m. trap_handle y mem tf k = Some (Return tf, k') \<and>
    bus_reads (dev k) \<le> n \<and> n < m \<and> bus_reads (dev k') = Suc m \<and>
    effect (timer_report (mtime_at k n) (s_ticks k + 1) (mtime_at k m) (s_interval k))
      (k\<lparr>s_ticks := s_ticks k + 1\<rparr>) k'"
proof -
  have cause: "mcause_is_interrupt (kMcauseInterruptBit + 7)" "mcause_code (kMcauseInterruptBit + 7) = 7"
    by (simp_all add: mcause_is_interrupt_def mcause_code_def kMcauseInterruptBit_def)
  have name: "interrupt_name 7 = ''machine timer interrupt''" by (simp add: interrupt_name_def)
  from banner_run [OF assms(1), of "''type = interrupt: ''" "''machine timer interrupt''"] obtain k1 k2 k3 where
    b: "kputs ''type = interrupt: '' k = Some k1" "kputs ''machine timer interrupt'' k1 = Some k2"
      "kputc newline k2 = Some k3" "effect (tx (banner ''type = interrupt: '' ''machine timer interrupt'')) k k3"
      "console_ready k3" by auto
  have "CHR 0x00 \<notin> set ''catch a timer interrupt\<newline>''" by simp
  from drivesD [OF drives_kputs [OF this] b(5)] obtain k4 where
    k4: "kputs ''catch a timer interrupt\<newline>'' k3 = Some k4"
      "effect (tx (line_text ''catch a timer interrupt\<newline>'')) k3 k4" "console_ready k4" by blast
  from on_interrupt_correct [OF k4(3)] obtain k5 n m where
    k5: "on_interrupt k4 = Some k5" "bus_reads (dev k4) \<le> n" "n < m" "bus_reads (dev k5) = Suc m"
      "effect (tx (count_line ''current timer count: '' (mtime_at k4 n)) @
        tx (count_line ''current ticks count: '' (s_ticks k4 + 1)) @
        [Dword 0x2004000 (mtime_at k4 m + s_interval k4)]) (k4\<lparr>s_ticks := s_ticks k4 + 1\<rparr>) k5" by blast
  have e: "effect (tx (banner ''type = interrupt: '' ''machine timer interrupt'') @
      tx (line_text ''catch a timer interrupt\<newline>'')) k k4" by (rule effect_append [OF b(4) k4(2)])
  have same: "s_interval k4 = s_interval k" "s_ticks k4 = s_ticks k" "mtime_at k4 = mtime_at k" "bus_reads (dev k) \<le> bus_reads (dev k4)"
    using effect_fields [OF e] effect_bus [OF e] by (simp_all add: mtime_at_def fun_eq_iff)
  have "effect (timer_report (mtime_at k n) (s_ticks k + 1) (mtime_at k m) (s_interval k)) (k\<lparr>s_ticks := s_ticks k + 1\<rparr>) k5"
    using effect_append [OF effect_ticks [OF e] k5(5)] by (simp add: same timer_report_def)
  moreover have "trap_handle y mem tf k = Some (Return tf, k5)"
    using b(1,2,3) k4(1) k5(1) by (simp add: trap_handle_def Let_def assms(2) cause name)
  ultimately show ?thesis using k5(2-4) same(4) by (meson le_trans)
qed

text \<open>Property (C23): the timer interrupt does not preempt. On a responsive console the handler answers a
  machine timer interrupt by returning the frame unchanged, so the interrupted task goes on; one
  more tick is counted. It reads mtime twice: it prints the first reading and the new number of
  ticks, and the last thing it does is to write to mtimecmp the second reading, which is the last
  read of a device in the handler, plus the configured interval. It writes nothing else, and the
  current task, the ready queue, every task and every control register are unchanged.\<close>

theorem timer_trap_returns:
  assumes "console_ready k" and "tf_mcause tf = kMcauseInterruptBit + 7"
  shows "\<exists>k' n m. trap_handle y mem tf k = Some (Return tf, k') \<and>
    bus_reads (dev k) \<le> n \<and> n < m \<and> bus_reads (dev k') = Suc m \<and>
    effect (timer_report (mtime_at k n) (s_ticks k + 1) (mtime_at k m) (s_interval k))
      (k\<lparr>s_ticks := s_ticks k + 1\<rparr>) k'"
  using assms by (rule timer_frame)

text \<open>Witness: on a clock that counts the reads, the deadline is the number of the last read, plus the interval.\<close>

lemma timer_trap_returns_witness:
  "\<exists>k'. trap_handle demo_symbols (\<lambda>_. None) (zero_frame\<lparr>tf_mcause := kMcauseInterruptBit + 7\<rparr>) demo_kernel =
      Some (Return (zero_frame\<lparr>tf_mcause := kMcauseInterruptBit + 7\<rparr>), k') \<and>
    last (bus_writes (dev k')) = Dword 0x2004000 (of_nat (bus_reads (dev k') - 1) + s_interval demo_kernel)"
proof -
  let ?tf = "zero_frame\<lparr>tf_mcause := kMcauseInterruptBit + 7\<rparr>"
  have "tf_mcause ?tf = kMcauseInterruptBit + 7" by simp
  from timer_trap_returns [OF demo_kernel_ready this, of demo_symbols "\<lambda>_. None"] obtain k' n m where
    k': "trap_handle demo_symbols (\<lambda>_. None) ?tf demo_kernel = Some (Return ?tf, k')" "bus_reads (dev k') = Suc m"
    "effect (timer_report (mtime_at demo_kernel n) (s_ticks demo_kernel + 1) (mtime_at demo_kernel m) (s_interval demo_kernel))
      (demo_kernel\<lparr>s_ticks := s_ticks demo_kernel + 1\<rparr>) k'" by blast
  have "mtime_at demo_kernel m = of_nat m" by (simp add: mtime_at_def demo_kernel_def demo_hart_def demo_bus_def hart.defs kernel.defs)
  moreover have "last (bus_writes (dev k')) = Dword 0x2004000 (mtime_at demo_kernel m + s_interval demo_kernel)"
    using k'(3) unfolding effect_def logs_def by (cases "dev k'") (simp add: timer_report_def)
  ultimately show ?thesis using k'(1,2) by simp
qed

text \<open>Property (C24): every other trap is fatal. On a responsive console the handler answers an interrupt
  other than the machine timer's, and an exception other than breakpoint and ecall from M-mode, with
  its report and then halts: it never returns to the interrupted code. The report names the cause
  after the table of codes, has the extra line for an illegal instruction and the five registers and
  the hart for each of the three page faults; nothing else is written and no state changes.\<close>

theorem other_traps_halt:
  assumes "console_ready k" and "bit (tf_mcause tf) 63 \<Longrightarrow> take_bit 63 (tf_mcause tf) \<noteq> 7"
    and "\<not> bit (tf_mcause tf) 63 \<Longrightarrow> tf_mcause tf \<noteq> 3 \<and> tf_mcause tf \<noteq> 11"
  shows "\<exists>k'. trap_handle y mem tf k = Some (Halted, k') \<and> effect (tx (fatal_text tf)) k k'"
proof (cases "bit (tf_mcause tf) 63")
  case True
  let ?n = "interrupt_name (mcause_code (tf_mcause tf))"
  from banner_run [OF assms(1) _ names_NUL_free(2), of "''type = interrupt: ''" "mcause_code (tf_mcause tf)"]
  obtain k1 k2 k3 where b: "kputs ''type = interrupt: '' k = Some k1" "kputs ?n k1 = Some k2"
    "kputc newline k2 = Some k3" "effect (tx (banner ''type = interrupt: '' ?n)) k k3" by auto
  have "banner ''type = interrupt: '' ?n = fatal_text tf"
    using True by (simp add: fatal_text_def Let_def names_are_titles mcause_code_take)
  with b True assms(2) [OF True] show ?thesis
    by (auto simp: trap_handle_def Let_def mcause_is_interrupt_bit mcause_code_take)
next
  case False
  let ?c = "tf_mcause tf" and ?n = "exception_name (tf_mcause tf)"
  have int: "\<not> mcause_is_interrupt ?c" using False by (simp add: mcause_is_interrupt_bit)
  note code = mcause_code_exception [OF int]
  from banner_run [OF assms(1) _ names_NUL_free(1), of "''type = exception: ''" ?c]
  obtain k1 k2 k3 where b: "kputs ''type = exception: '' k = Some k1" "kputs ?n k1 = Some k2"
    "kputc newline k2 = Some k3" "effect (tx (banner ''type = exception: '' ?n)) k k3" "console_ready k3" by auto
  let ?rest = "\<lambda>k. (if ?c = 2 then kputs ''Excpetion: Illegal instruction\<newline>'' k else Some k) \<bind>
      (\<lambda>k. (if ?c = 12 then report_fault ''\<newline>=== Instruction Page Fault ===\<newline>'' tf k else Some k) \<bind>
      (\<lambda>k. (if ?c = 13 then report_fault ''\<newline>=== Load Page Fault ===\<newline>'' tf k else Some k) \<bind>
      (\<lambda>k. if ?c = 15 then report_fault ''\<newline>=== Store/Amo Page Fault ===\<newline>'' tf k else Some k :: kernel option)))"
  let ?cs = "(if ?c = 2 then line_text ''Excpetion: Illegal instruction\<newline>'' else []) @
      (if ?c = 12 then fault_text ''\<newline>=== Instruction Page Fault ===\<newline>'' tf else []) @
      (if ?c = 13 then fault_text ''\<newline>=== Load Page Fault ===\<newline>'' tf else []) @
      (if ?c = 15 then fault_text ''\<newline>=== Store/Amo Page Fault ===\<newline>'' tf else [])"
  have "drives (tx ?cs) ?rest"
    unfolding map_append by (intro drives_bind drives_cond drives_kputs drives_report_fault) simp_all
  from drivesD [OF this b(5)] obtain k4 where rest: "?rest k3 = Some k4" "effect (tx ?cs) k3 k4" by blast
  have "trap_handle y mem tf k = Some (Halted, k4)"
    using b(1,2,3) rest(1) assms(3) [OF False] int
    by (simp add: trap_handle_def Let_def code bind_eq_Some_conv)
  moreover have "banner ''type = exception: '' ?n @ ?cs = fatal_text tf"
    using False by (simp add: fatal_text_def Let_def names_are_titles)
  then have "effect (tx (fatal_text tf)) k k4"
    using effect_append [OF b(4) rest(2)] by (metis map_append)
  ultimately show ?thesis by blast
qed

lemma other_traps_halt_witness:
  "\<exists>k'. trap_handle demo_symbols (\<lambda>_. None) (zero_frame\<lparr>tf_mcause := 13, tf_mtval := 0x40000000\<rparr>) demo_kernel =
      Some (Halted, k') \<and>
    effect (tx (banner ''type = exception: '' ''load page fault'' @ fault_text ''\<newline>=== Load Page Fault ===\<newline>''
      (zero_frame\<lparr>tf_mcause := 13, tf_mtval := 0x40000000\<rparr>))) demo_kernel k'"
proof -
  let ?tf = "zero_frame\<lparr>tf_mcause := 13, tf_mtval := 0x40000000\<rparr>"
  have c: "tf_mcause ?tf = 13" "\<not> bit (13 :: u64) 63" by simp_all
  have "fatal_text ?tf = banner ''type = exception: '' ''load page fault'' @ fault_text ''\<newline>=== Load Page Fault ===\<newline>'' ?tf"
    using c by (simp add: fatal_text_def Let_def title_of_def exception_titles_def)
  moreover have "\<exists>k'. trap_handle demo_symbols (\<lambda>_. None) ?tf demo_kernel = Some (Halted, k') \<and>
      effect (tx (fatal_text ?tf)) demo_kernel k'"
    by (rule other_traps_halt [OF demo_kernel_ready]) (simp_all add: c)
  ultimately show ?thesis by metis
qed

text \<open>Breakpoints. On a responsive console a breakpoint exception returns the frame with
  mepc advanced by 4 modulo 2^64 and every register as it was, and transmits its banner and
  one line; no other state changes.\<close>

lemma breakpoint_resumes:
  assumes "console_ready k" and "tf_mcause tf = 3"
  shows "\<exists>k'. trap_handle y mem tf k = Some (Return (tf\<lparr>tf_mepc := tf_mepc tf + 4\<rparr>), k') \<and>
    effect (tx (banner ''type = exception: '' ''breakpoint'' @ line_text ''resume after breakpoint\<newline>'')) k k'"
proof -
  have cause: "\<not> mcause_is_interrupt 3" "mcause_code 3 = 3"
    by (simp_all add: mcause_is_interrupt_def mcause_code_def kMcauseInterruptBit_def)
  have name: "exception_name 3 = ''breakpoint''" by (simp add: exception_name_def)
  from banner_run [OF assms(1), of "''type = exception: ''" "''breakpoint''"] obtain k1 k2 k3 where
    b: "kputs ''type = exception: '' k = Some k1" "kputs ''breakpoint'' k1 = Some k2"
      "kputc newline k2 = Some k3" "effect (tx (banner ''type = exception: '' ''breakpoint'')) k k3"
      "console_ready k3" by auto
  have "CHR 0x00 \<notin> set ''resume after breakpoint\<newline>''" by simp
  from drivesD [OF drives_kputs [OF this] b(5)] obtain k4 where
    k4: "kputs ''resume after breakpoint\<newline>'' k3 = Some k4"
      "effect (tx (line_text ''resume after breakpoint\<newline>'')) k3 k4" by blast
  have "trap_handle y mem tf k = Some (Return (tf\<lparr>tf_mepc := tf_mepc tf + 4\<rparr>), k4)"
    using b(1,2,3) k4(1) by (simp add: trap_handle_def Let_def assms(2) cause name handle_breakpoint_def kInsnBytes32_def)
  with effect_append [OF b(4) k4(2)] show ?thesis unfolding map_append by blast
qed

lemma breakpoint_resumes_witness:
  "\<exists>k'. trap_handle demo_symbols (\<lambda>_. None) (zero_frame\<lparr>tf_mcause := 3, tf_mepc := 0x2000\<rparr>) demo_kernel =
      Some (Return (zero_frame\<lparr>tf_mcause := 3, tf_mepc := 0x2004\<rparr>), k')"
  using breakpoint_resumes [OF demo_kernel_ready, of "zero_frame\<lparr>tf_mcause := 3, tf_mepc := 0x2000\<rparr>"] by auto

end
