(* ===== verification/Multitasking.thy ===== *)
theory Multitasking
  imports Programs Trap
begin

text \<open>
  The running system: what tasks and interrupts do to the kernel state after
  \<^verbatim>\<open>Scheduler::start\<close>, as a step relation over the operations of the scheduler and the system
  calls. \<open>quiet\<close> is everything that leaves the scheduler's data alone: computation (the
  registers change arbitrarily) and device accesses; that the idle task, the interrupt handler and
  the tick are quiet is proved from their code. The invariant \<open>sched_inv\<close> says that exactly one task runs, that the ready queue holds exactly the
  ready tasks, and which tasks those are.
\<close>

section \<open>Steps\<close>

definition quiet :: "kernel \<Rightarrow> kernel \<Rightarrow> bool" where
  "quiet k k' \<longleftrightarrow> nodes k' = nodes k \<and> s_tasks k' = s_tasks k \<and> s_current k' = s_current k \<and>
     s_idle_task k' = s_idle_task k"

text \<open>
  The idle task executes the code of \<^verbatim>\<open>idle_task_entry\<close>, in which it may stand at any position; the
  tasks that others create are arbitrary code, which may yield, exit and create and push tasks.
  Whichever task runs, an interrupt may go to the trap handler and the tick function of the
  scheduler may be called.
\<close>

inductive task_step :: "symbols \<Rightarrow> kernel \<Rightarrow> kernel \<Rightarrow> bool" for y where
  quietly: "quiet k k' \<Longrightarrow> task_step y k k'"
| idle: "s_current k = s_idle_task k \<Longrightarrow> perform y (task_entry_trampoline idle_task_entry n) k = Some k' \<Longrightarrow> task_step y k k'"
| yield: "s_current k \<noteq> s_idle_task k \<Longrightarrow> sched_yield y k = Some (f, k') \<Longrightarrow> task_step y k k'"
| exit: "s_current k \<noteq> s_idle_task k \<Longrightarrow> sys_exit y code k = Some (r, k') \<Longrightarrow> task_step y k k'"
| spawn: "s_current k \<noteq> s_idle_task k \<Longrightarrow> create_kernel_task y entry base sz k = Some (t, k1) \<Longrightarrow>
    rq_push y t k1 = Some (ok, k') \<Longrightarrow> task_step y k k'"
| interrupt: "mcause_is_interrupt (tf_mcause tf) \<Longrightarrow> trap_handle y mem tf k = Some (r, k') \<Longrightarrow> task_step y k k'"
| tick: "task_step y k (on_tick k)"

inductive task_steps :: "symbols \<Rightarrow> kernel \<Rightarrow> kernel \<Rightarrow> bool" for y where
  start: "task_steps y k k"
| more: "task_steps y k k1 \<Longrightarrow> task_step y k1 k2 \<Longrightarrow> task_steps y k k2"

section \<open>The invariant\<close>

definition sched_inv :: "symbols \<Rightarrow> kernel \<Rightarrow> nat \<Rightarrow> nat list \<Rightarrow> bool" where
  "sched_inv y k c q \<longleftrightarrow> sched_rep y k c q \<and> task_state (s_tasks k ! c) = Running \<and>
     (\<forall>i < 32. i \<noteq> 0 \<longrightarrow> (task_state (s_tasks k ! i) = Running \<longleftrightarrow> i = c) \<and>
                        (task_state (s_tasks k ! i) = Ready \<longleftrightarrow> i \<in> set q))"

lemma quiet_inv: "quiet k k' \<Longrightarrow> sched_inv y k' c q = sched_inv y k c q"
  using sched_rep_cong [of k' k] by (simp add: quiet_def sched_inv_def)

lemma sched_inv_current: "sched_inv y k c q \<Longrightarrow> s_current k = s_idle_task k \<longleftrightarrow> c = 0"
  using sched_repD(2,4,7,8) [of y k c q] slot_addr_inj [of y c 0] by (auto simp: sched_inv_def)

lemma rescheduled_state:
  assumes "length (s_tasks k) = 32" "i < 32"
  shows "task_state (s_tasks (rescheduled y k c n s) ! i) =
    (if i = n then Running else if i = c \<and> c \<noteq> 0 \<and> runs_again k c then Ready else task_state (s_tasks k ! i))"
  using assms by (simp add: rescheduled_def resched_tasks_nth resched_task_def)

lemma yield_inv:
  assumes inv: "sched_inv y k c q" and step: "abs_reschedule c True q = (n, q')"
  shows "\<exists>s. sched_yield y k = Some (Switched, rescheduled y k c n s) \<and> sched_inv y (rescheduled y k c n s) n q'"
proof -
  have rep: "sched_rep y k c q" and run: "runs_again k c" using inv by (simp_all add: sched_inv_def runs_again_def)
  with step have step': "abs_reschedule c (runs_again k c) q = (n, q')" by simp
  from reschedule_refines [OF rep step'] obtain s where
    s: "reschedule y k = Some (Switched, rescheduled y k c n s)" "sched_rep y (rescheduled y k c n s) n q'" by blast
  note nx = next_slot [OF rep step'] and f = sched_repD [OF rep]
  have q': "q' = (if c \<noteq> 0 then tl q @ [c] else tl q)" "n = (case q of [] \<Rightarrow> 0 | n # _ \<Rightarrow> n)"
    using step by (simp_all add: abs_reschedule_eq split: list.splits)
  have "set q' = (if c \<noteq> 0 then insert c (set (tl q)) else set (tl q))" using q' by simp
  moreover have "set q = (if q = [] then {} else insert n (set (tl q)))" using q'(2) by (cases q) auto
  ultimately have "sched_inv y (rescheduled y k c n s) n q'"
    using inv s(2) nx(1,2,3) f(3,4) run
    by (auto simp: sched_inv_def rescheduled_state q'(2) split: if_splits list.splits)
  with s(1) show ?thesis by (auto simp: sched_yield_def)
qed

lemma io_quiet: "io f k = Some k' \<Longrightarrow> quiet k k'"
  by (auto simp: io_def quiet_def split: bind_splits)

lemma quiet_trans: "quiet k k1 \<Longrightarrow> quiet k1 k2 \<Longrightarrow> quiet k k2"
  by (simp add: quiet_def)

text \<open>What the code of the idle task, the handler of an interrupt and the tick do is quiet.\<close>

lemma quiet_refl: "quiet k k"
  by (simp add: quiet_def)

lemma idle_quiet:
  assumes "perform y (task_entry_trampoline idle_task_entry n) k = Some k'"
  shows "quiet k k'"
proof -
  have "(\<exists>s. task_entry_trampoline idle_task_entry n = Print s) \<or> task_entry_trampoline idle_task_entry n = Wait"
    by (simp add: trampoline_never_loops task_bootstrap_entry_def idle_task_entry_def)
  then show ?thesis using assms io_quiet quiet_refl by (auto simp: perform_def)
qed

lemma read_mtime_quiet: "quiet k (snd (read_mtime k))" "quiet k (interrupt_after v k)"
  by (simp_all add: quiet_def interrupt_after_def read_mtime_effect write_mtimecmp0_def)

lemma on_interrupt_quiet:
  assumes "on_interrupt k = Some k'"
  shows "quiet k k'"
proof -
  have t: "quiet k (k\<lparr>s_ticks := s_ticks k + 1\<rparr>)" by (simp add: quiet_def)
  from assms obtain k1 k2 k3 k4 k5 k6 where p:
    "kputs ''current timer count: '' (k\<lparr>s_ticks := s_ticks k + 1\<rparr>) = Some k1"
    "kput_dec (fst (read_mtime k1)) (snd (read_mtime k1)) = Some k2" "kputc newline k2 = Some k3"
    "kputs ''current ticks count: '' k3 = Some k4" "kput_dec (ticks k4) k4 = Some k5" "kputc newline k5 = Some k6"
    and k': "k' = interrupt_after (s_interval k6) k6"
    unfolding on_interrupt_def Let_def split_beta bind_eq_Some_conv by blast
  have "quiet k k1" using t io_quiet [OF p(1)] by (rule quiet_trans)
  then have "quiet k (snd (read_mtime k1))" using read_mtime_quiet(1) by (rule quiet_trans)
  then have "quiet k k2" using io_quiet [OF p(2)] by (rule quiet_trans)
  then have "quiet k k3" using io_quiet [OF p(3)] by (rule quiet_trans)
  then have "quiet k k4" using io_quiet [OF p(4)] by (rule quiet_trans)
  then have "quiet k k5" using io_quiet [OF p(5)] by (rule quiet_trans)
  then have "quiet k k6" using io_quiet [OF p(6)] by (rule quiet_trans)
  then show ?thesis unfolding k' using read_mtime_quiet(2) by (rule quiet_trans)
qed

lemma interrupt_quiet:
  assumes "mcause_is_interrupt (tf_mcause tf)" "trap_handle y mem tf k = Some (r, k')"
  shows "quiet k k'"
proof -
  let ?c = "mcause_code (tf_mcause tf)"
  from assms(2) obtain k1 k2 k3 where p: "kputs ''type = interrupt: '' k = Some k1"
    "kputs (interrupt_name ?c) k1 = Some k2" "kputc newline k2 = Some k3"
    and rest: "(if ?c = interrupt_number MachineTimer then do {
           k \<leftarrow> kputs ''catch a timer interrupt\<newline>'' k3; k \<leftarrow> on_interrupt k; Some (Return tf, k) }
         else Some (Halted, k3)) = Some (r, k')"
    unfolding trap_handle_def Let_def if_P [OF assms(1)] bind_eq_Some_conv by blast
  have "quiet k k2" using io_quiet [OF p(1)] io_quiet [OF p(2)] by (rule quiet_trans)
  then have q3: "quiet k k3" using io_quiet [OF p(3)] by (rule quiet_trans)
  show ?thesis
  proof (cases "?c = interrupt_number MachineTimer")
    case True
    then obtain k4 where k4: "kputs ''catch a timer interrupt\<newline>'' k3 = Some k4" "on_interrupt k4 = Some k'"
      using rest unfolding if_P [OF True] bind_eq_Some_conv by blast
    have "quiet k k4" using q3 io_quiet [OF k4(1)] by (rule quiet_trans)
    then show ?thesis using on_interrupt_quiet [OF k4(2)] by (rule quiet_trans)
  qed (use rest q3 in simp)
qed

lemma tick_quiet: "quiet k (on_tick k)"
  by (simp add: on_tick_def quiet_refl)

lemma exit_inv:
  assumes inv: "sched_inv y k c q" and c: "c \<noteq> 0" and run: "sys_exit y code k = Some (r, k')"
  shows "\<exists>n k1 s. quiet k k1 \<and> k' = rescheduled y (dead c k1) c n s \<and> r = SwitchedAway \<and>
    abs_reschedule c False q = (n, tl q) \<and> sched_inv y k' n (tl q)"
proof -
  from run obtain ka kb k1 where p: "io (puts g_uart0 (Some (cstr ''sys_exit, code = ''))) k = Some ka"
      "kput_dec code ka = Some kb" "kputc newline kb = Some k1"
    and rest: "do { k \<leftarrow> (if rq_current k1 \<noteq> nullptr
           then upd_task y (rq_current k1) (\<lambda>t. t\<lparr>task_state := Dead\<rparr>) k1 else Some k1);
         (f, k) \<leftarrow> reschedule y k;
         Some (case f of Returned \<Rightarrow> Halted | Switched \<Rightarrow> SwitchedAway, k) } = Some (r, k')"
    unfolding sys_exit_def Let_def bind_eq_Some_conv by blast
  have quiet: "quiet k k1" using p io_quiet quiet_trans by meson
  with inv have inv1: "sched_inv y k1 c q" by (simp add: quiet_inv)
  then have rep1: "sched_rep y k1 c q" by (simp add: sched_inv_def)
  note f = sched_repD [OF rep1]
  obtain n q' where n: "abs_reschedule c False q = (n, q')" by fastforce
  have rep2: "sched_rep y (dead c k1) c q" unfolding dead_def by (rule sched_rep_state [OF rep1]) simp
  have again: "\<not> runs_again (dead c k1) c" using f(3,4) by (simp add: runs_again_def dead_def)
  with n have "abs_reschedule c (runs_again (dead c k1) c) q = (n, q')" by simp
  from reschedule_refines [OF rep2 this] obtain s where
    s: "reschedule y (dead c k1) = Some (Switched, rescheduled y (dead c k1) c n s)"
      "sched_rep y (rescheduled y (dead c k1) c n s) n q'" by blast
  from rest s(1) f(7) slot_addr_nonnull [OF f(2,4)] upd_task_slot [OF f(2,4,3), of "\<lambda>t. t\<lparr>task_state := Dead\<rparr>"]
  have k': "k' = rescheduled y (dead c k1) c n s" "r = SwitchedAway"
    by (simp_all add: rq_current_def dead_def)
  note nx = next_slot [OF rep1 n]
  have q': "q' = tl q" "n = (case q of [] \<Rightarrow> 0 | n # _ \<Rightarrow> n)" using n by (simp_all add: abs_reschedule_eq)
  have "set q = (if q = [] then {} else insert n (set (tl q)))" using q'(2) by (cases q) auto
  then have "sched_inv y k' n (tl q)"
    using inv1 s(2) nx(1,2,3) f(3,4) again c unfolding k' q'(1) [symmetric]
    by (auto simp: sched_inv_def rescheduled_state dead_def nth_list_update q'(1) q'(2) split: if_splits list.splits)
  with quiet k' n q'(1) show ?thesis by blast
qed

lemma spawn_inv:
  assumes inv: "sched_inv y k c q"
    and create: "create_kernel_task y entry base sz k = Some (t, k1)" and push: "rq_push y t k1 = Some (ok, k')"
  shows "sched_inv y k' c q \<or> (\<exists>i. i \<noteq> c \<and> sched_inv y k' c (q @ [i]))"
proof (cases "base = nullptr \<or> sz = 0 \<or> find_empty (s_tasks k) = None")
  case True
  then have "create_kernel_task y entry base sz k = Some (nullptr, k)"
    using create_kernel_task_full [of base sz k] by (auto simp: find_empty_None)
  with create push inv show ?thesis by (simp add: rq_push_def)
next
  case False
  then obtain i where i: "find_empty (s_tasks k) = Some i" and arg: "base \<noteq> nullptr" "sz \<noteq> 0" by auto
  have rep: "sched_rep y k c q" using inv by (simp add: sched_inv_def)
  note f = sched_repD [OF rep]
  have free: "i < 32" "task_state (s_tasks k ! i) = Empty" using i f(3) by (simp_all add: find_empty_Some)
  then have ne: "i \<noteq> 0" "i \<noteq> c" "i \<notin> set q"
    using rep by (auto simp: sched_rep_def intro!: gr0I)
  from spawn_correct [OF f(1) arg i ne(3), of entry] create push obtain s where
    k': "k' = spawned y entry base sz i k s" and q: "queue_rep y k' (q @ [i])" by auto
  have "sched_inv y k' c (q @ [i])"
    using inv q ne free f(3,4)
    by (auto simp: k' sched_inv_def sched_rep_def spawned_def new_task_def nth_list_update)
  with ne(2) show ?thesis by blast
qed

section \<open>The abstract system\<close>

text \<open>What can happen to the running slot and the ready list.\<close>

inductive abs_step :: "nat \<times> nat list \<Rightarrow> nat \<times> nat list \<Rightarrow> bool" where
  stays: "abs_step (c, q) (c, q)"
| yields: "c \<noteq> 0 \<Longrightarrow> abs_step (c, q) (abs_reschedule c True q)"
| exits: "c \<noteq> 0 \<Longrightarrow> abs_step (c, q) (abs_reschedule c False q)"
| spawns: "c \<noteq> 0 \<Longrightarrow> i \<noteq> 0 \<Longrightarrow> i \<noteq> c \<Longrightarrow> i \<notin> set q \<Longrightarrow> abs_step (c, q) (c, q @ [i])"

inductive_simps abs_step_idle: "abs_step (0, q) x"

lemma sched_inv_facts:
  assumes "sched_inv y k c q"
  shows "c \<notin> set q" "0 \<notin> set q" "distinct q" "i \<in> set q \<Longrightarrow> i < 32" "c < 32"
  using assms sched_repD [of y k c q] queue_repD(5) [of y k q] sched_rep_distinct [of y k c q]
  by (auto simp: sched_inv_def)

lemma task_step_simulates:
  assumes step: "task_step y k k'" and inv: "sched_inv y k c q"
  shows "\<exists>c' q'. abs_step (c, q) (c', q') \<and> sched_inv y k' c' q'"
  using step
proof cases
  case quietly
  then show ?thesis using inv quiet_inv abs_step.stays by blast
next
  case (idle n)
  then show ?thesis using inv quiet_inv idle_quiet abs_step.stays by blast
next
  case (interrupt tf mem r)
  then show ?thesis using inv quiet_inv interrupt_quiet abs_step.stays by blast
next
  case tick
  then show ?thesis using inv quiet_inv tick_quiet abs_step.stays by blast
next
  case (yield f)
  then have c: "c \<noteq> 0" using sched_inv_current [OF inv] by simp
  obtain n q' where n: "abs_reschedule c True q = (n, q')" by fastforce
  from yield_inv [OF inv n] yield(2) have "sched_inv y k' n q'" by auto
  with abs_step.yields [OF c, of q] n show ?thesis by auto
next
  case (exit code r)
  then have c: "c \<noteq> 0" using sched_inv_current [OF inv] by simp
  from exit_inv [OF inv c exit(2)] obtain n where
    n: "abs_reschedule c False q = (n, tl q)" "sched_inv y k' n (tl q)" by blast
  with abs_step.exits [OF c, of q] show ?thesis by auto
next
  case (spawn entry base sz t k1 ok)
  then have c: "c \<noteq> 0" using sched_inv_current [OF inv] by simp
  from spawn_inv [OF inv spawn(2,3)] show ?thesis
  proof
    assume "\<exists>i. i \<noteq> c \<and> sched_inv y k' c (q @ [i])"
    then obtain i where i: "i \<noteq> c" "sched_inv y k' c (q @ [i])" by blast
    with sched_inv_facts(2,3) [OF i(2)] abs_step.spawns [OF c, of i q] show ?thesis by auto
  qed (use abs_step.stays in blast)
qed

lemma task_steps_inv:
  "task_steps y k k' \<Longrightarrow> sched_inv y k c q \<Longrightarrow> \<exists>c' q'. sched_inv y k' c' q'"
proof (induction rule: task_steps.induct)
  case (more k k1 k2)
  then show ?case using task_step_simulates by blast
qed blast

text \<open>Once the idle task runs it runs for ever, and the ready list is frozen.\<close>

lemma idle_steps:
  "task_steps y k k' \<Longrightarrow> sched_inv y k 0 q \<Longrightarrow> sched_inv y k' 0 q"
proof (induction rule: task_steps.induct)
  case (more k k1 k2)
  from task_step_simulates [OF more.hyps(2) more.IH [OF more.prems]] show ?case
    by (auto simp: abs_step_idle)
qed

section \<open>A started system\<close>

lemma started_inv:
  assumes st: "startable y k q" and fresh: "only_ready k q" and step: "abs_next q = (n, q')"
  shows "\<exists>s. sched_start y k = Some (started y k n s) \<and> sched_inv y (started y k n s) n q'"
proof -
  from sched_start_correct [OF st step] obtain s where
    s: "sched_start y k = Some (started y k n s)" "sched_rep y (started y k n s) n q'" by blast
  have "queue_rep y k q" using st by (simp add: startable_def)
  then have "length (s_tasks k) = 32" by (rule queue_repD(3))
  moreover have "set q = (if q = [] then {} else insert n (set q'))" "q = [] \<longrightarrow> n = 0 \<and> q' = []" "n \<notin> set q'"
    using step s(2) by (cases q; auto simp: sched_rep_def)+
  ultimately have "sched_inv y (started y k n s) n q'"
    using s(2) fresh sched_repD(4) [OF s(2)]
    by (auto simp: sched_inv_def only_ready_def started_def nth_list_update split: if_splits)
  with s(1) show ?thesis by blast
qed

lemma demo_inv: "\<exists>k. console_ready k \<and> sched_inv demo_symbols k 1 [2]"
proof -
  obtain k where k: "startable demo_symbols k [1, 2]" "only_ready k [1, 2]" using demo_startable by blast
  from started_inv [OF this, of 1 "[2]"] obtain k1 where "sched_inv demo_symbols k1 1 [2]" by auto
  then have "sched_inv demo_symbols (k1\<lparr>dev := demo_bus\<rparr>) 1 [2]"
    using quiet_inv [of k1 "k1\<lparr>dev := demo_bus\<rparr>"] by (simp add: quiet_def)
  moreover have "console_ready (k1\<lparr>dev := demo_bus\<rparr>)" by (simp add: console_ready_def demo_responsive)
  ultimately show ?thesis by blast
qed

section \<open>Turns\<close>

text \<open>\<open>turns y j k k'\<close>: from \<open>k\<close> to \<open>k'\<close> with \<open>j\<close> yields, and any quiet steps in between.\<close>

inductive turns :: "symbols \<Rightarrow> nat \<Rightarrow> kernel \<Rightarrow> kernel \<Rightarrow> bool" for y where
  zero: "turns y 0 k k"
| pause: "turns y j k k1 \<Longrightarrow> quiet k1 k2 \<Longrightarrow> turns y j k k2"
| turn: "turns y j k k1 \<Longrightarrow> sched_yield y k1 = Some (f, k2) \<Longrightarrow> turns y (Suc j) k k2"

definition after_turns :: "nat \<Rightarrow> nat \<Rightarrow> nat list \<Rightarrow> nat \<times> nat list" where
  "after_turns j c q = (hd (rotate j (c # q)), tl (rotate j (c # q)))"

lemma after_turns_Suc:
  assumes "q \<noteq> []" "0 \<notin> set (c # q)"
  shows "after_turns (Suc j) c q = (case after_turns j c q of (c', q') \<Rightarrow> abs_reschedule c' True q')"
proof -
  let ?r = "rotate j (c # q)"
  have len: "length ?r = Suc (length q)" and "set ?r = set (c # q)" by simp_all
  moreover obtain c' q' where e: "?r = c' # q'" using len by (cases ?r) simp_all
  ultimately have "length q' = length q" "c' \<in> set (c # q)" by auto
  with e assms have r: "?r = c' # q'" "q' \<noteq> []" "c' \<noteq> 0" by (auto intro!: gr0I)
  then obtain n q2 where q': "q' = n # q2" by (cases q') auto
  with r show ?thesis by (simp add: after_turns_def abs_reschedule_eq)
qed

lemma turns_inv:
  assumes "turns y j k k'" "sched_inv y k c q" "q \<noteq> []" "c \<noteq> 0"
  shows "\<exists>c' q'. after_turns j c q = (c', q') \<and> sched_inv y k' c' q'"
  using assms
proof (induction rule: turns.induct)
  case (zero k)
  then show ?case by (simp add: after_turns_def)
next
  case (pause j k k1 k2)
  then show ?case using quiet_inv by blast
next
  case (turn j k k1 f k2)
  then obtain c' q' where i: "after_turns j c q = (c', q')" "sched_inv y k1 c' q'" by blast
  obtain n q2 where n: "abs_reschedule c' True q' = (n, q2)" by fastforce
  have "0 \<notin> set (c # q)" using sched_inv_facts(2) [OF turn.prems(1)] turn.prems(3) by simp
  with i(1) n turn.prems(2) have "after_turns (Suc j) c q = (n, q2)" by (simp add: after_turns_Suc)
  moreover from yield_inv [OF i(2) n] turn.hyps(2) have "sched_inv y k2 n q2" by auto
  ultimately show ?case by blast
qed

lemma turns_exist:
  assumes "sched_inv y k c q" "q \<noteq> []" "c \<noteq> 0"
  shows "\<exists>k'. turns y j k k'"
proof (induction j)
  case (Suc j)
  then obtain k' where k': "turns y j k k'" by blast
  from turns_inv [OF this assms] obtain c' q' where i: "sched_inv y k' c' q'" by blast
  obtain n q2 where "abs_reschedule c' True q' = (n, q2)" by fastforce
  from yield_inv [OF i this] k' show ?case by (blast intro: turns.turn)
qed (blast intro: turns.zero)

text \<open>A task that does not run keeps its saved context.\<close>

lemma yield_context:
  assumes inv: "sched_inv y k c q" and y: "sched_yield y k = Some (f, k')"
  shows "i < 32 \<Longrightarrow> i \<noteq> c \<Longrightarrow> task_context (s_tasks k' ! i) = task_context (s_tasks k ! i)"
    and "task_context (s_tasks k' ! c) = live k"
    and "s_current k' \<noteq> s_current k \<Longrightarrow> sched_inv y k' n q' \<Longrightarrow> live k' = task_context (s_tasks k ! n)"
proof -
  obtain m q2 where m: "abs_reschedule c True q = (m, q2)" by fastforce
  from yield_inv [OF inv m] y obtain s where k': "k' = rescheduled y k c m s" and inv': "sched_inv y k' m q2" by auto
  have rep: "sched_rep y k c q" "sched_rep y k' m q2" using inv inv' by (simp_all add: sched_inv_def)
  note f = sched_repD [OF rep(1)] and f' = sched_repD [OF rep(2)]
  show "i < 32 \<Longrightarrow> i \<noteq> c \<Longrightarrow> task_context (s_tasks k' ! i) = task_context (s_tasks k ! i)"
    and "task_context (s_tasks k' ! c) = live k"
    using f(3,4) by (simp_all add: k' rescheduled_def resched_tasks_nth resched_task_def)
  assume ne: "s_current k' \<noteq> s_current k" and "sched_inv y k' n q'"
  then have "slot_addr y n = slot_addr y m" "n < 32"
    using f'(7) sched_repD(4,7) [of y k' n q'] by (auto simp: sched_inv_def)
  then have "n = m" using slot_addr_inj [OF f(2)] f'(4) by blast
  moreover have "m \<noteq> c" using ne f(7) f'(7) by auto
  ultimately show "live k' = task_context (s_tasks k ! n)" by (simp add: k' rescheduled_def)
qed

lemma turns_context:
  assumes "turns y j k k'" "sched_inv y k c q" "q \<noteq> []" "c \<noteq> 0"
    and "i < 32" "\<forall>m < j. hd (rotate m (c # q)) \<noteq> i"
  shows "task_context (s_tasks k' ! i) = task_context (s_tasks k ! i)"
  using assms
proof (induction rule: turns.induct)
  case (pause j k k1 k2)
  then show ?case by (simp add: quiet_def)
next
  case (turn j k k1 f k2)
  from turns_inv [OF turn.hyps(1) turn.prems(1,2,3)] obtain c' q' where
    i: "after_turns j c q = (c', q')" "sched_inv y k1 c' q'" by blast
  then have "c' \<noteq> i" using turn.prems(5) by (auto simp: after_turns_def)
  with yield_context(1) [OF i(2) turn.hyps(2) turn.prems(4)] turn show ?case by simp
qed simp

section \<open>Properties\<close>

text \<open>Property (C6): the invariant of the running system. Whatever tasks and interrupts do after the
  start - compute, use devices, yield, exit, create tasks, in any order and number - every
  reachable state has exactly one running task (apart from idle), the current one, and its
  ready list holds every ready task exactly once and nothing else: no task is lost or
  scheduled twice, and no dead task is ever scheduled.\<close>

theorem one_task_runs:
  assumes "sched_inv y k c q" and "task_steps y k k'"
  shows "\<exists>c' q'. sched_rep y k' c' q' \<and> s_current k' = slot_addr y c' \<and>
    task_state (s_tasks k' ! c') = Running \<and> distinct (c' # q') \<and>
    (\<forall>i < 32. i \<noteq> 0 \<longrightarrow> (task_state (s_tasks k' ! i) = Running \<longleftrightarrow> i = c') \<and>
       (task_state (s_tasks k' ! i) = Ready \<longleftrightarrow> i \<in> set q'))"
proof -
  from task_steps_inv [OF assms(2,1)] obtain c' q' where "sched_inv y k' c' q'" by blast
  with sched_inv_facts [OF this] sched_repD(7) [of y k' c' q'] show ?thesis
    by (intro exI [of _ c'] exI [of _ q']) (simp add: sched_inv_def)
qed

lemma one_task_runs_witness:
  "\<exists>k k' c' q'. sched_inv demo_symbols k 1 [2] \<and> task_steps demo_symbols k k' \<and>
    sched_rep demo_symbols k' c' q' \<and> task_state (s_tasks k' ! c') = Running \<and> distinct (c' # q')"
proof -
  obtain k where k: "sched_inv demo_symbols k 1 [2]" using demo_inv by blast
  from one_task_runs [OF k task_steps.start] k task_steps.start [of demo_symbols k] show ?thesis by blast
qed

text \<open>Property (C9): yielding tasks share the processor fairly. While the tasks only yield (and compute
  and take interrupts in between), no yield fails, and after \<open>j\<close> of them the running task is
  number \<open>j mod n\<close> of the \<open>n\<close> tasks that were running or ready at the start: each of them
  runs once in every \<open>n\<close> turns, in the order of the queue.\<close>

theorem yields_are_fair:
  assumes "sched_inv y k c q" and "c \<noteq> 0" and "q \<noteq> []"
  shows "(\<exists>k'. turns y j k k') \<and>
    (\<forall>k'. turns y j k k' \<longrightarrow> s_current k' = slot_addr y ((c # q) ! (j mod length (c # q))) \<and>
      task_state (s_tasks k' ! ((c # q) ! (j mod length (c # q)))) = Running)"
proof (intro conjI allI impI)
  show "\<exists>k'. turns y j k k'" by (rule turns_exist [OF assms(1,3,2)])
  fix k'
  assume "turns y j k k'"
  from turns_inv [OF this assms(1,3,2)] obtain c' q' where
    i: "after_turns j c q = (c', q')" "sched_inv y k' c' q'" by blast
  have "c' = (c # q) ! (j mod length (c # q))"
    using i(1) hd_rotate_conv_nth [of "c # q" j] by (simp add: after_turns_def)
  with i(2) sched_repD(7) [of y k' c' q']
  show "s_current k' = slot_addr y ((c # q) ! (j mod length (c # q)))"
    and "task_state (s_tasks k' ! ((c # q) ! (j mod length (c # q)))) = Running"
    by (simp_all add: sched_inv_def)
qed

lemma yields_are_fair_witness:
  "\<exists>k k'. sched_inv demo_symbols k 1 [2] \<and> turns demo_symbols 5 k k' \<and> s_current k' = slot_addr demo_symbols 2"
proof -
  obtain k where k: "sched_inv demo_symbols k 1 [2]" using demo_inv by blast
  have "([1, 2 :: nat] ! (5 mod length [1, 2 :: nat])) = 2" by code_simp
  with yields_are_fair [OF k, of 5] k show ?thesis by auto
qed

text \<open>Property (C25): a yield returns with the registers it was called with. A task that yields while
  others are ready, and is switched to again after each of them has had its turn, continues
  with exactly the callee-saved registers, stack pointer and return address it had, whatever
  the other tasks did to the registers in the meantime.\<close>

theorem yield_restores_registers:
  assumes "sched_inv y k c q" and "c \<noteq> 0" and "q \<noteq> []"
    and "sched_yield y k = Some (f, k1)" and "turns y (length q - 1) k1 k2" and "sched_yield y k2 = Some (g, k3)"
  shows "s_current k3 = slot_addr y c \<and> live k3 = live k"
proof -
  obtain n q' where q: "q = n # q'" using assms(3) by (cases q) auto
  have step: "abs_reschedule c True q = (n, q' @ [c])" using assms(2) by (simp add: q abs_reschedule_eq)
  from yield_inv [OF assms(1) step] assms(4) have inv1: "sched_inv y k1 n (q' @ [c])" by auto
  have n0: "n \<noteq> 0" "c \<noteq> n" "c \<notin> set q'" and c32: "c < 32"
    using sched_inv_facts [OF assms(1)] by (auto simp: q)
  have rot: "hd (rotate m (n # q' @ [c])) = (n # q' @ [c]) ! m" if "m \<le> length q'" for m
    using that hd_rotate_conv_nth [of "n # q' @ [c]" m] by simp
  have not_c: "\<forall>m < length q - 1. hd (rotate m (n # q' @ [c])) \<noteq> c"
    using n0 rot by (auto simp: q nth_Cons nth_append split: nat.splits)
  have saved: "task_context (s_tasks k2 ! c) = live k"
    using turns_context [OF assms(5) inv1 _ n0(1) c32 not_c] yield_context(2) [OF assms(1,4)] by simp
  from turns_inv [OF assms(5) inv1] n0 obtain c' q2 where
    i2: "after_turns (length q - 1) n (q' @ [c]) = (c', q2)" "sched_inv y k2 c' q2" by auto
  define b l where "b = butlast (n # q')" and "l = last (n # q')"
  have bl: "n # q' = b @ [l]" unfolding b_def l_def by (simp only: append_butlast_last_id list.distinct not_False_eq_True)
  then have e: "n # q' @ [c] = b @ [l, c]" by simp
  have "length q' = length b" by (simp add: b_def)
  then have "rotate (length q') (n # q' @ [c]) = l # c # b"
    unfolding e using rotate_append [of b "[l, c]"] by simp
  then have "c' = l" "q2 = c # b" using i2(1) by (simp_all add: after_turns_def q)
  with i2(2) have inv2: "sched_inv y k2 l (c # b)" by simp
  have "l \<noteq> c" using sched_inv_facts(1) [OF inv2] by simp
  obtain q3 where step3: "abs_reschedule l True (c # b) = (c, q3)" by (simp add: abs_reschedule_eq)
  from yield_inv [OF inv2 step3] assms(6) have inv3: "sched_inv y k3 c q3" by auto
  have cur: "s_current k3 = slot_addr y c" "s_current k2 = slot_addr y l" "symbols_ok y" "l < 32"
    using inv2 inv3 sched_repD [of y k3 c q3] sched_repD [of y k2 l "c # b"] by (simp_all add: sched_inv_def)
  then have "s_current k3 \<noteq> s_current k2" using slot_addr_inj [OF cur(3) c32 cur(4)] \<open>l \<noteq> c\<close> by simp
  from yield_context(3) [OF inv2 assms(6) this inv3] saved cur(1) show ?thesis by simp
qed

lemma yield_restores_registers_witness:
  "\<exists>k k1 k2 k3 f g. sched_inv demo_symbols k 1 [2] \<and> sched_yield demo_symbols k = Some (f, k1) \<and> quiet k1 k2 \<and>
    live k2 \<noteq> live k1 \<and> sched_yield demo_symbols k2 = Some (g, k3) \<and> live k3 = live k"
proof -
  obtain k where k: "sched_inv demo_symbols k 1 [2]" using demo_inv by blast
  from yield_inv [OF k, of 2 "[1]"] obtain k1 where
    k1: "sched_yield demo_symbols k = Some (Switched, k1)" "sched_inv demo_symbols k1 2 [1]"
    by (auto simp: abs_reschedule_eq)
  let ?k2 = "k1\<lparr>live := (live k1)\<lparr>ctx_ra := ctx_ra (live k1) + 1\<rparr>\<rparr>"
  have q: "quiet k1 ?k2" by (simp add: quiet_def)
  have ne: "live ?k2 \<noteq> live k1" by (cases "live k1") simp
  have "sched_inv demo_symbols ?k2 2 [1]" using k1(2) quiet_inv [OF q] by simp
  from yield_inv [OF this, of 1 "[2]"] obtain k3 where k3: "sched_yield demo_symbols ?k2 = Some (Switched, k3)"
    by (auto simp: abs_reschedule_eq)
  have "turns demo_symbols (length [2 :: nat] - 1) k1 ?k2" using turns.pause [OF turns.zero q] by simp
  from yield_restores_registers [OF k _ _ k1(1) this k3] have "live k3 = live k" by simp
  with k k1(1) q ne k3 show ?thesis by blast
qed

text \<open>Property (C26): a task that yields alone never runs again. When the last runnable task yields,
  the idle task is switched to; from then on, whatever the code of the idle task does from any of its
  positions, and whatever interrupts and scheduler ticks come, every reachable state has the idle
  task as the current one while the task that yielded stays ready in the queue: neither
  \<^verbatim>\<open>idle_task_entry\<close> nor the interrupt handler nor \<^verbatim>\<open>on_tick\<close> reschedules.\<close>

theorem lone_yield_starves:
  assumes "sched_inv y k c []" and "c \<noteq> 0" and "sched_yield y k = Some (f, k1)" and "task_steps y k1 k'"
  shows "s_current k' = s_idle_task k' \<and> task_state (s_tasks k' ! c) = Ready \<and> queue_rep y k' [c]"
proof -
  have "abs_reschedule c True [] = (0, [c])" using assms(2) by (simp add: abs_reschedule_eq)
  from yield_inv [OF assms(1) this] assms(3) have "sched_inv y k1 0 [c]" by auto
  from idle_steps [OF assms(4) this] have inv: "sched_inv y k' 0 [c]" .
  then have "sched_rep y k' 0 [c]" by (simp add: sched_inv_def)
  with sched_repD(1,7,8) [OF this] show ?thesis by (simp add: sched_rep_def)
qed

lemma lone_yield_starves_witness:
  "\<exists>k k1 f. sched_inv demo_symbols k 2 [] \<and> sched_yield demo_symbols k = Some (f, k1) \<and>
    s_current k1 = s_idle_task k1 \<and> queue_rep demo_symbols k1 [2]"
proof -
  obtain k0 where k0: "console_ready k0" "sched_inv demo_symbols k0 1 [2]" using demo_inv by blast
  then have "sched_rep demo_symbols k0 1 [2]" by (simp add: sched_inv_def)
  from sys_exit_correct [OF k0(1) this, of 2 "[]" 0] obtain k where "sys_exit demo_symbols 0 k0 = Some (SwitchedAway, k)"
    by (auto simp: abs_reschedule_eq)
  from exit_inv [OF k0(2) _ this] have k: "sched_inv demo_symbols k 2 []" by (auto simp: abs_reschedule_eq)
  from yield_inv [OF k, of 0 "[2]"] obtain k1 where k1: "sched_yield demo_symbols k = Some (Switched, k1)"
    by (auto simp: abs_reschedule_eq)
  from lone_yield_starves [OF k _ k1 task_steps.start] k k1 show ?thesis by auto
qed

end
