(* ===== verification/Boot.thy ===== *)
theory Boot
  imports Address_Space Multitasking Trap
begin

text \<open>
  \<^verbatim>\<open>kernel/kernel.cpp\<close> and \<^verbatim>\<open>kernel/core/init/bootstrap.cpp\<close>: \<open>kmain\<close> composes the other
  components in the order of the code, on the kernel state and the address space state. The
  record \<open>app\<close> holds the link addresses of the two demo tasks and their stacks.
\<close>

record app =
  task_A_at :: Entry
  task_B_at :: Entry
  g_task_A_stack_at :: addr
  g_task_B_stack_at :: addr

definition bootstrap_scheduler :: "symbols \<Rightarrow> kernel \<Rightarrow> kernel option" where
  "bootstrap_scheduler y k = do {
     k \<leftarrow> kputs ''Hello from bootstrap_scheduler\<newline>'' k;
     k \<leftarrow> task_manager_init y k;
     sched_init y k
   }"

definition kmain ::
  "linker_symbols \<Rightarrow> symbols \<Rightarrow> app \<Rightarrow> kernel \<Rightarrow> kspace \<Rightarrow> (kernel \<times> kspace) option" where
  "kmain L y p k S = do {
     let k = k\<lparr>dev := uart_init g_uart0 (dev k)\<rparr>;
     k \<leftarrow> kputs ''uart ok\<newline>'' k;
     pm \<leftarrow> pmm_init L (pmm_of (kmem_of S));
     let S = S\<lparr>kmem_of := (kmem_of S)\<lparr>pmm_of := pm\<rparr>\<rparr>;
     k \<leftarrow> kputs ''pmm ok\<newline>'' k;
     S \<leftarrow> kernel_address_space_init S;
     k \<leftarrow> kputs ''kernel page table ok\<newline>'' k;
     let k = k\<lparr>csr := enable_sv39 (kernel_page_table S) (csr k)\<rparr>;
     k \<leftarrow> kputs ''paging enabled\<newline>'' k;
     k \<leftarrow> kputs ''trap installed\<newline>'' k;
     let k = timer_init 10000000 k;
     k \<leftarrow> kputs ''current ticks count: '' k;
     k \<leftarrow> kput_dec (ticks k) k;
     k \<leftarrow> kputc newline k;
     k \<leftarrow> kputs ''start tasks scheduler\<newline>'' k;
     k \<leftarrow> bootstrap_scheduler y k;
     k \<leftarrow> kputs ''Task manager and scheduler inited\<newline>'' k;
     (task_a_tcb, k) \<leftarrow> create_kernel_task y (task_A_at p) (g_task_A_stack_at p) 1024 k;
     (task_b_tcb, k) \<leftarrow> create_kernel_task y (task_B_at p) (g_task_B_stack_at p) 1024 k;
     k \<leftarrow> kputs ''Creating task A&B\<newline>'' k;
     (_, k) \<leftarrow> rq_push y task_a_tcb k;
     (_, k) \<leftarrow> rq_push y task_b_tcb k;
     k \<leftarrow> kputs ''Start scheduler\<newline>'' k;
     k \<leftarrow> sched_start y k;
     Some (k, S)
   }"

section \<open>Tasks and devices do not interfere\<close>

lemma dev_swap:
  "k\<lparr>dev := d, s_tasks := ts\<rparr> = (k :: kernel)\<lparr>s_tasks := ts, dev := d\<rparr>"
  "k\<lparr>dev := d, nodes := s\<rparr> = (k :: kernel)\<lparr>nodes := s, dev := d\<rparr>"
  by (cases k; simp)+

lemma get_task_dev: "get_task y t (k\<lparr>dev := d\<rparr>) = get_task y t k"
  by (simp add: get_task_def cong: if_cong)

lemma upd_task_dev: "upd_task y t f (k\<lparr>dev := d\<rparr>) = map_option (dev_update (\<lambda>_. d)) (upd_task y t f k)"
  by (cases "slot_of_ptr y t"; cases "get_task y t k") (simp_all add: upd_task_def get_task_dev dev_swap)

lemma on_nodes_dev: "on_nodes f (k\<lparr>dev := d\<rparr>) = map_option (dev_update (\<lambda>_. d)) (on_nodes f k)"
  by (cases "f (nodes k)") (simp_all add: on_nodes_def dev_swap)

lemma rq_push_dev:
  "rq_push y t k = Some (b, k') \<Longrightarrow> rq_push y t (k\<lparr>dev := d\<rparr>) = Some (b, k'\<lparr>dev := d\<rparr>)"
  by (auto simp: rq_push_def upd_task_dev on_nodes_dev bind_eq_Some_conv split: if_splits)

lemma startable_dev: "startable y (k\<lparr>dev := d\<rparr>) q = startable y k q"
  using queue_rep_cong [of "k\<lparr>dev := d\<rparr>" k] by (simp add: startable_def)

lemma only_ready_dev: "only_ready (k\<lparr>dev := d\<rparr>) q = only_ready k q"
  by (simp add: only_ready_def)

lemma effect_dev: "effect ws k k' \<Longrightarrow> k' = k\<lparr>dev := dev k'\<rparr> \<and> logs ws (dev k) (dev k')"
  by (simp add: effect_def)

lemma dev_frame:
  "upd_task y t f k = Some k' \<Longrightarrow> dev k' = dev k"
  "on_nodes g k = Some k' \<Longrightarrow> dev k' = dev k"
  by (auto simp: upd_task_def on_nodes_def bind_eq_Some_conv)

lemma create_dev: "create_kernel_task y e b sz k = Some (t, k') \<Longrightarrow> dev k' = dev k"
  by (auto simp: create_kernel_task_def bind_eq_Some_conv Let_def dest!: dev_frame split: if_splits option.splits)

text \<open>Two tasks created, something printed, and both pushed.\<close>

lemma spawn_pair:
  assumes "startable y k []" and "\<forall>i. 1 \<le> i \<and> i < 32 \<longrightarrow> task_state (s_tasks k ! i) = Empty"
    and "a \<noteq> nullptr" "asz \<noteq> 0" and "b \<noteq> nullptr" "bsz \<noteq> 0"
  shows "\<exists>k1 k2 k3 s1 s2. create_kernel_task y ea a asz k = Some (slot_addr y 1, k1) \<and>
    create_kernel_task y eb b bsz k1 = Some (slot_addr y 2, k2) \<and> dev k2 = dev k \<and>
    (\<forall>d. rq_push y (slot_addr y 1) (k2\<lparr>dev := d\<rparr>) = Some (True, k3\<lparr>dev := d\<rparr>)) \<and>
    (\<forall>d. rq_push y (slot_addr y 2) (k3\<lparr>dev := d\<rparr>) =
       Some (True, (spawned y eb b bsz 2 (spawned y ea a asz 1 k s1) s2)\<lparr>dev := d\<rparr>)) \<and>
    startable y (spawned y eb b bsz 2 (spawned y ea a asz 1 k s1) s2) [1, 2]"
proof -
  from two_spawns [OF assms, of ea eb] obtain k1 k2 k3 s1 s2 where
    k: "create_kernel_task y ea a asz k = Some (slot_addr y 1, k1)"
      "create_kernel_task y eb b bsz k1 = Some (slot_addr y 2, k2)"
      "rq_push y (slot_addr y 1) k2 = Some (True, k3)"
      "rq_push y (slot_addr y 2) k3 = Some (True, spawned y eb b bsz 2 (spawned y ea a asz 1 k s1) s2)"
    and st: "startable y (spawned y eb b bsz 2 (spawned y ea a asz 1 k s1) s2) [1, 2]" by blast
  from create_dev [OF k(1)] create_dev [OF k(2)] have "dev k2 = dev k" by simp
  with k(1,2) rq_push_dev [OF k(3)] rq_push_dev [OF k(4)] st show ?thesis by blast
qed

section \<open>The boot sequence\<close>

lemma print_step:
  assumes "console_ready k" "CHR 0x00 \<notin> set s"
  shows "\<exists>k'. kputs s k = Some k' \<and> effect (tx (line_text s)) k k' \<and> console_ready k'"
  using drivesD [OF drives_kputs [OF assms(2)] assms(1)] by blast

text \<open>\<open>booted ws k k'\<close>: the writes, and the fields that the steps before the tasks may change.\<close>

definition booted :: "bus_write list \<Rightarrow> kernel \<Rightarrow> kernel \<Rightarrow> bool" where
  "booted ws k k' \<longleftrightarrow> logs ws (dev k) (dev k') \<and>
     k' = k\<lparr>csr := csr k', s_interval := s_interval k', dev := dev k'\<rparr>"

lemma booted_nil: "booted [] k k"
  by (simp add: booted_def logs_def)

lemma booted_print:
  assumes "booted ws k k1" "effect vs k1 k2"
  shows "booted (ws @ vs) k k2 \<and> csr k2 = csr k1 \<and> s_interval k2 = s_interval k1"
  using assms logs_append [of ws "dev k" "dev k1" vs "dev k2"]
  by (cases k; cases k1; cases k2) (auto simp: booted_def effect_def)

lemma booted_csr: "booted ws k k1 \<Longrightarrow> booted ws k (k1\<lparr>csr := c\<rparr>)"
  by (cases k; cases k1) (auto simp: booted_def)

lemma booted_timer:
  assumes "booted ws k k1"
  shows "booted (ws @ [Dword 0x2004000 (mtime_at k1 (bus_reads (dev k1)) + v)]) k (timer_init v k1) \<and>
    csr (timer_init v k1) = (csr k1)\<lparr>mie := mie (csr k1) OR kMieMtie, mstatus := mstatus (csr k1) OR kMstatusMie\<rparr> \<and>
    s_interval (timer_init v k1) = v \<and> console_ready (timer_init v k1) = console_ready k1"
proof -
  let ?k = "k1\<lparr>s_interval := v\<rparr>"
  have e: "effect [Dword 0x2004000 (mtime_at k1 (bus_reads (dev k1)) + v)] ?k (interrupt_after v ?k)"
    using interrupt_after_effect [of v ?k] by (simp add: mtime_at_def clint_addresses)
  have b: "booted ws k ?k" using assms by (cases k; cases k1) (auto simp: booted_def)
  have "timer_init v k1 = (interrupt_after v ?k)\<lparr>csr := (csr k1)\<lparr>mie := mie (csr k1) OR kMieMtie, mstatus := mstatus (csr k1) OR kMstatusMie\<rparr>\<rparr>"
    using effect_fields [OF e]
    by (simp add: timer_init_def Let_def set_mie_bits_def set_mstatus_bits_def kMieMtie_def kMstatusMie_def)
  then show ?thesis
    using booted_csr [of _ k "interrupt_after v ?k"] booted_print [OF b e] effect_ready [OF e]
    by (simp add: console_ready_def)
qed

lemma booted_fields:
  "booted ws k k' \<Longrightarrow> s_tasks k' = s_tasks k \<and> nodes k' = nodes k \<and> s_ticks k' = s_ticks k"
  by (cases k; cases k') (auto simp: booted_def)

lemma booted_reads:
  "booted ws k k' \<Longrightarrow> bus_reads (dev k) \<le> bus_reads (dev k') \<and> dword_in (dev k') = dword_in (dev k)"
  unfolding booted_def logs_def by (cases "dev k"; cases "dev k'") simp

text \<open>Up to the start of the scheduler, the translation being switched on between the prints.\<close>

definition boot_csr :: "addr \<Rightarrow> csrs \<Rightarrow> csrs" where
  "boot_csr root c = c\<lparr>satp := make_satp root, tlb_synced := True,
     mie := mie c OR kMieMtie, mstatus := mstatus c OR kMstatusMie\<rparr>"

definition lines_text :: "string list \<Rightarrow> u8 list" where
  "lines_text ls = concat (map line_text ls)"

definition device_log :: "u64 \<Rightarrow> u64 \<Rightarrow> bus_write list" where
  "device_log deadline count =
     tx (lines_text [''uart ok\<newline>'', ''pmm ok\<newline>'', ''kernel page table ok\<newline>'', ''paging enabled\<newline>'', ''trap installed\<newline>'']) @
     [Dword 0x2004000 deadline] @
     tx (count_line ''current ticks count: '' count @ line_text ''start tasks scheduler\<newline>'')"

lemma boot_devices:
  assumes r: "console_ready k"
  shows "\<exists>k1 k2 k3 k5 k6 k7 k8 k9 k10 n. bus_reads (dev k) \<le> n \<and> kputs ''uart ok\<newline>'' k = Some k1 \<and>
    kputs ''pmm ok\<newline>'' k1 = Some k2 \<and> kputs ''kernel page table ok\<newline>'' k2 = Some k3 \<and>
    kputs ''paging enabled\<newline>'' (k3\<lparr>csr := enable_sv39 root (csr k3)\<rparr>) = Some k5 \<and>
    kputs ''trap installed\<newline>'' k5 = Some k6 \<and> kputs ''current ticks count: '' (timer_init 10000000 k6) = Some k7 \<and>
    kput_dec (ticks k7) k7 = Some k8 \<and> kputc newline k8 = Some k9 \<and>
    kputs ''start tasks scheduler\<newline>'' k9 = Some k10 \<and> booted (device_log (mtime_at k n + 10000000) (s_ticks k)) k k10 \<and>
    csr k10 = boot_csr root (csr k) \<and> s_interval k10 = 10000000 \<and> console_ready k10"
proof -
  obtain k1 where k1: "kputs ''uart ok\<newline>'' k = Some k1" "effect (tx (line_text ''uart ok\<newline>'')) k k1" "console_ready k1"
    using print_step [OF r, of "''uart ok\<newline>''"] by auto
  obtain k2 where k2: "kputs ''pmm ok\<newline>'' k1 = Some k2" "effect (tx (line_text ''pmm ok\<newline>'')) k1 k2" "console_ready k2"
    using print_step [OF k1(3), of "''pmm ok\<newline>''"] by auto
  obtain k3 where k3: "kputs ''kernel page table ok\<newline>'' k2 = Some k3"
    "effect (tx (line_text ''kernel page table ok\<newline>'')) k2 k3" "console_ready k3" using print_step [OF k2(3), of "''kernel page table ok\<newline>''"] by auto
  let ?k4 = "k3\<lparr>csr := enable_sv39 root (csr k3)\<rparr>"
  have "console_ready ?k4" using k3(3) by (simp add: console_ready_def)
  then obtain k5 where k5: "kputs ''paging enabled\<newline>'' ?k4 = Some k5"
    "effect (tx (line_text ''paging enabled\<newline>'')) ?k4 k5" "console_ready k5" using print_step [of _ "''paging enabled\<newline>''"] by auto
  obtain k6 where k6: "kputs ''trap installed\<newline>'' k5 = Some k6"
    "effect (tx (line_text ''trap installed\<newline>'')) k5 k6" "console_ready k6" using print_step [OF k5(3), of "''trap installed\<newline>''"] by auto
  note b1 = booted_print [OF booted_nil k1(2)]
  note b2 = booted_print [OF conjunct1 [OF b1] k2(2)]
  note b3 = booted_print [OF conjunct1 [OF b2] k3(2)]
  note b5 = booted_print [OF booted_csr [OF conjunct1 [OF b3], of "enable_sv39 root (csr k3)"] k5(2)]
  note b6 = booted_print [OF conjunct1 [OF b5] k6(2)]
  let ?t = "mtime_at k6 (bus_reads (dev k6))" and ?kt = "timer_init 10000000 k6"
  note bt = booted_timer [OF conjunct1 [OF b6], of 10000000]
  then have rt: "console_ready ?kt" using k6(3) by simp
  have "CHR 0x00 \<notin> set ''current ticks count: ''" by simp
  from drivesD [OF drives_count_line [OF this, of "s_ticks k"] rt] obtain k7 k8 k9 where
    k9: "kputs ''current ticks count: '' ?kt = Some k7" "kput_dec (s_ticks k) k7 = Some k8" "kputc newline k8 = Some k9"
      "effect (tx (count_line ''current ticks count: '' (s_ticks k))) ?kt k9" "console_ready k9"
    unfolding bind_eq_Some_conv by blast
  note b9 = booted_print [OF conjunct1 [OF bt] k9(4)]
  obtain k10 where k10: "kputs ''start tasks scheduler\<newline>'' k9 = Some k10"
    "effect (tx (line_text ''start tasks scheduler\<newline>'')) k9 k10" "console_ready k10" using print_step [OF k9(5), of "''start tasks scheduler\<newline>''"] by auto
  note b10 = booted_print [OF conjunct1 [OF b9] k10(2)]
  have "kput_dec (ticks k7) k7 = Some k8"
    using k9(2) io_fields [OF k9(1)] booted_fields [OF conjunct1 [OF bt]] by (simp add: ticks_def)
  moreover have "booted (device_log (?t + 10000000) (s_ticks k)) k k10"
    using b10 by (simp add: device_log_def lines_text_def)
  moreover have "csr k10 = boot_csr root (csr k)" and "s_interval k10 = 10000000"
    using b1 b2 b3 b5 b6 bt b9 b10 by (simp_all add: boot_csr_def enable_sv39_def write_satp_def sfence_vma_def)
  moreover have "bus_reads (dev k) \<le> bus_reads (dev k6)" "?t = mtime_at k (bus_reads (dev k6))"
    using booted_reads [OF conjunct1 [OF b6]] by (simp_all add: mtime_at_def)
  ultimately show ?thesis
    using k1(1) k2(1) k3(1) k5(1) k6(1) k9(1,3) k10(1,3) by metis
qed

text \<open>From \<^verbatim>\<open>bootstrap_scheduler\<close> to the switch to the first task.\<close>

definition boot_tasks :: "symbols \<Rightarrow> app \<Rightarrow> Task list \<Rightarrow> Task list" where
  "boot_tasks y p ts = (map cleared ts)
     [0 := new_task y 1 (idle_task_entry_at y) (s_idle_stack_at y) 256,
      1 := (new_task y 2 (task_A_at p) (g_task_A_stack_at p) 1024)\<lparr>task_state := Running\<rparr>,
      2 := new_task y 3 (task_B_at p) (g_task_B_stack_at p) 1024]"

lemma pool_ok_effect:
  assumes "effect ws k k'"
  shows "pool_ok y k' = pool_ok y k"
  by (simp add: pool_ok_def effect_kernel_fields [OF assms])

lemma startable_effect:
  assumes "effect ws k k'"
  shows "startable y k' q = startable y k q \<and> only_ready k' q = only_ready k q"
  using effect_dev [OF assms] startable_dev [where k = k and d = "dev k'"] only_ready_dev [where k = k and d = "dev k'"] by metis

lemma bootstrap_correct:
  assumes r: "console_ready k" and ok: "pool_ok y k"
  shows "\<exists>k' s. bootstrap_scheduler y k = Some k' \<and> startable y k' [] \<and> console_ready k' \<and>
    logs (tx (line_text ''Hello from bootstrap_scheduler\<newline>'')) (dev k) (dev k') \<and>
    k' = k\<lparr>s_next_id := 2,
      s_tasks := (map cleared (s_tasks k))[0 := new_task y 1 (idle_task_entry_at y) (s_idle_stack_at y) 256],
      nodes := s, s_idle_task := slot_addr y 0, s_current := nullptr, dev := dev k'\<rparr>"
proof -
  obtain k1 where k1: "kputs ''Hello from bootstrap_scheduler\<newline>'' k = Some k1"
    "effect (tx (line_text ''Hello from bootstrap_scheduler\<newline>'')) k k1" "console_ready k1"
    using print_step [OF r, of "''Hello from bootstrap_scheduler\<newline>''"] by auto
  note d = effect_dev [OF k1(2)]
  have "pool_ok y k1" using ok pool_ok_effect [OF k1(2)] by simp
  from fresh_scheduler [OF this] obtain k2 k' s where
    k': "task_manager_init y k1 = Some k2" "sched_init y k2 = Some k'" "startable y k' []"
      "k' = k1\<lparr>s_next_id := 2,
        s_tasks := (map cleared (s_tasks k1))[0 := new_task y 1 (idle_task_entry_at y) (s_idle_stack_at y) 256],
        nodes := s, s_idle_task := slot_addr y 0, s_current := nullptr\<rparr>" by blast
  have "dev k' = dev k1" by (simp add: k'(4))
  moreover have "k' = k\<lparr>s_next_id := 2,
      s_tasks := (map cleared (s_tasks k))[0 := new_task y 1 (idle_task_entry_at y) (s_idle_stack_at y) 256],
      nodes := s, s_idle_task := slot_addr y 0, s_current := nullptr, dev := dev k1\<rparr>"
    using d k'(4) by (cases k; cases k1) simp
  ultimately show ?thesis
    using k1 k'(1-3) d by (auto simp: bootstrap_scheduler_def console_ready_def)
qed

definition schedule_log :: "bus_write list" where
  "schedule_log = tx (lines_text [''Task manager and scheduler inited\<newline>'', ''Creating task A&B\<newline>'', ''Start scheduler\<newline>''])"

lemma started_pair:
  assumes "length (s_tasks k) = 32" "s_next_id k = 2"
    and "kf = (spawned y eb b bsz 2 (spawned y ea a asz 1 k s1) s2)\<lparr>dev := d\<rparr>"
  shows "s_tasks (started y kf 1 s) = (s_tasks k)[1 := (new_task y 2 ea a asz)\<lparr>task_state := Running\<rparr>,
      2 := new_task y 3 eb b bsz]"
    "live (started y kf 1 s) = first_context y a asz" "dev (started y kf 1 s) = d"
    "hart.truncate (started y kf 1 s) = (hart.truncate k)\<lparr>dev := d\<rparr>"
proof -
  have "xs[1 := u, 2 := v, 1 := w] = xs[1 := w, 2 := v]" for xs :: "Task list" and u v w
    using list_update_swap [of 2 1 "xs[1 := u]" v w] by simp
  then show "s_tasks (started y kf 1 s) = (s_tasks k)[1 := (new_task y 2 ea a asz)\<lparr>task_state := Running\<rparr>,
      2 := new_task y 3 eb b bsz]"
    using assms by (simp add: started_def spawned_def)
qed (use assms in \<open>simp_all add: started_def spawned_def new_task_def first_context_def hart.defs\<close>)

lemma tasks_started:
  assumes st: "startable y k []" and free: "\<forall>i. 1 \<le> i \<and> i < 32 \<longrightarrow> task_state (s_tasks k ! i) = Empty"
    and r: "console_ready k" and len: "length (s_tasks k) = 32" and id: "s_next_id k = 2"
    and stacks: "g_task_A_stack_at p \<noteq> nullptr" "g_task_B_stack_at p \<noteq> nullptr"
  shows "\<exists>k1 ka kb kc kd ke kf k'. kputs ''Task manager and scheduler inited\<newline>'' k = Some k1 \<and>
    create_kernel_task y (task_A_at p) (g_task_A_stack_at p) 1024 k1 = Some (slot_addr y 1, ka) \<and>
    create_kernel_task y (task_B_at p) (g_task_B_stack_at p) 1024 ka = Some (slot_addr y 2, kb) \<and>
    kputs ''Creating task A&B\<newline>'' kb = Some kc \<and> rq_push y (slot_addr y 1) kc = Some (True, kd) \<and>
    rq_push y (slot_addr y 2) kd = Some (True, ke) \<and> kputs ''Start scheduler\<newline>'' ke = Some kf \<and>
    sched_start y kf = Some k' \<and> sched_inv y k' 1 [2] \<and> console_ready k' \<and>
    live k' = first_context y (g_task_A_stack_at p) 1024 \<and>
    s_tasks k' = (s_tasks k)[1 := (new_task y 2 (task_A_at p) (g_task_A_stack_at p) 1024)\<lparr>task_state := Running\<rparr>,
      2 := new_task y 3 (task_B_at p) (g_task_B_stack_at p) 1024] \<and>
    hart.truncate k' = (hart.truncate k)\<lparr>dev := dev k'\<rparr> \<and> logs schedule_log (dev k) (dev k')"
proof -
  obtain k1 where k1: "kputs ''Task manager and scheduler inited\<newline>'' k = Some k1"
    "effect (tx (line_text ''Task manager and scheduler inited\<newline>'')) k k1" "console_ready k1"
    using print_step [OF r, of "''Task manager and scheduler inited\<newline>''"] by auto
  note d1 = effect_dev [OF k1(2)] and f1 = effect_kernel_fields [OF k1(2)]
  have st1: "startable y k1 []" using st startable_effect [OF k1(2)] by simp
  have free1: "\<forall>i. 1 \<le> i \<and> i < 32 \<longrightarrow> task_state (s_tasks k1 ! i) = Empty" using free f1 by simp
  have "(1024 :: u64) \<noteq> 0" by simp
  from spawn_pair [OF st1 free1 stacks(1) this stacks(2) this, of "task_A_at p" "task_B_at p"]
  obtain ka kb kd s1 s2 where
    sp: "create_kernel_task y (task_A_at p) (g_task_A_stack_at p) 1024 k1 = Some (slot_addr y 1, ka)"
      "create_kernel_task y (task_B_at p) (g_task_B_stack_at p) 1024 ka = Some (slot_addr y 2, kb)" "dev kb = dev k1"
      "\<And>d. rq_push y (slot_addr y 1) (kb\<lparr>dev := d\<rparr>) = Some (True, kd\<lparr>dev := d\<rparr>)" and
    sp2: "\<And>d. rq_push y (slot_addr y 2) (kd\<lparr>dev := d\<rparr>) = Some (True, (spawned y (task_B_at p) (g_task_B_stack_at p) 1024 2
         (spawned y (task_A_at p) (g_task_A_stack_at p) 1024 1 k1 s1) s2)\<lparr>dev := d\<rparr>)" and
    sp3: "startable y (spawned y (task_B_at p) (g_task_B_stack_at p) 1024 2
         (spawned y (task_A_at p) (g_task_A_stack_at p) 1024 1 k1 s1) s2) [1, 2]" by blast
  let ?s = "spawned y (task_B_at p) (g_task_B_stack_at p) 1024 2 (spawned y (task_A_at p) (g_task_A_stack_at p) 1024 1 k1 s1) s2"
  have "console_ready kb" using k1(3) sp(3) by (simp add: console_ready_def)
  then obtain kc where kc: "kputs ''Creating task A&B\<newline>'' kb = Some kc"
    "effect (tx (line_text ''Creating task A&B\<newline>'')) kb kc" "console_ready kc"
    using print_step [of kb "''Creating task A&B\<newline>''"] by auto
  note dc = effect_dev [OF kc(2)]
  let ?ke = "?s\<lparr>dev := dev kc\<rparr>"
  have "console_ready ?ke" using kc(3) by (simp add: console_ready_def)
  then obtain kf where kf: "kputs ''Start scheduler\<newline>'' ?ke = Some kf"
    "effect (tx (line_text ''Start scheduler\<newline>'')) ?ke kf" "console_ready kf"
    using print_step [of ?ke "''Start scheduler\<newline>''"] by auto
  note df = effect_dev [OF kf(2)]
  have "startable y kf [1, 2]" "only_ready kf [1, 2]"
    using sp3 two_spawned_ready [OF free1, of y] f1 len startable_effect [OF kf(2)]
    by (simp_all add: startable_dev only_ready_dev)
  from started_inv [OF this, of 1 "[2]"] obtain s where
    s: "sched_start y kf = Some (started y kf 1 s)" "sched_inv y (started y kf 1 s) 1 [2]" by auto
  have "logs (tx (line_text ''Creating task A&B\<newline>'')) (dev k1) (dev kc)" using dc sp(3) by simp
  moreover have "logs (tx (line_text ''Start scheduler\<newline>'')) (dev kc) (dev kf)" using df by simp
  ultimately have "logs schedule_log (dev k) (dev kf)"
    using logs_append [OF logs_append [OF conjunct2 [OF d1]]] by (simp add: schedule_log_def lines_text_def)
  have kf': "kf = ?s\<lparr>dev := dev kf\<rparr>" by (rule trans [OF conjunct1 [OF df]]) simp
  have "length (s_tasks k1) = 32" "s_next_id k1 = 2" using len id f1 by simp_all
  note fin = started_pair [OF this kf', of s]
  have h1: "hart.truncate (started y kf 1 s) = (hart.truncate k)\<lparr>dev := dev (started y kf 1 s)\<rparr>"
    unfolding fin(3,4) by (subst conjunct1 [OF d1]) (simp add: hart.defs)
  have push: "rq_push y (slot_addr y 1) kc = Some (True, kd\<lparr>dev := dev kc\<rparr>)"
    by (subst conjunct1 [OF dc]) (rule sp(4))
  have "console_ready (started y kf 1 s)" "logs schedule_log (dev k) (dev (started y kf 1 s))"
    using kf(3) \<open>logs schedule_log (dev k) (dev kf)\<close> unfolding fin(3) console_ready_def by simp_all
  moreover have "s_tasks (started y kf 1 s) = (s_tasks k)[1 := (new_task y 2 (task_A_at p) (g_task_A_stack_at p) 1024)\<lparr>task_state := Running\<rparr>,
      2 := new_task y 3 (task_B_at p) (g_task_B_stack_at p) 1024]" using fin(1) f1 by simp
  ultimately show ?thesis
    by (intro exI conjI) (rule k1(1) sp(1,2) kc(1) push sp2 kf(1) s h1 fin(2) | assumption)+
qed

text \<open>All writes of the boot.\<close>

definition boot_log :: "u64 \<Rightarrow> u64 \<Rightarrow> bus_write list" where
  "boot_log deadline count = device_log deadline count @
     tx (line_text ''Hello from bootstrap_scheduler\<newline>'') @ schedule_log"

definition static_space :: "(addr \<Rightarrow> u64 option) \<Rightarrow> kspace" where
  "static_space m = \<lparr>kmem_of = \<lparr>pmm_of = pmm_static, mem = m\<rparr>, g_kernel_page_table = nullptr\<rparr>"

lemma kmain_correct:
  assumes z: "image_size z + 0x9000 < 64 * 1024 * 1024" and m: "dram_readable m"
    and r: "console_ready k" and ok: "pool_ok y k"
    and stacks: "g_task_A_stack_at p \<noteq> nullptr" "g_task_B_stack_at p \<noteq> nullptr"
  shows "\<exists>k' S root n. kmain (link_layout z) y p k (static_space m) = Some (k', S) \<and>
    kernel_page_table S = root \<and> root \<noteq> nullptr \<and>
    (\<forall>va. unat va < 2 ^ 39 \<longrightarrow> virt_to_phys root va (kmem_of S) = Some (if boot_mapped va then va else 0)) \<and>
    (\<forall>a. unat a < unat (kernel_end_addr (link_layout z)) \<longrightarrow> mem (kmem_of S) a = m a) \<and>
    csr k' = boot_csr root (csr k) \<and> s_interval k' = 10000000 \<and> s_ticks k' = s_ticks k \<and>
    sched_inv y k' 1 [2] \<and> s_tasks k' = boot_tasks y p (s_tasks k) \<and>
    live k' = first_context y (g_task_A_stack_at p) 1024 \<and>
    console_ready k' \<and> bus_reads (dev k) \<le> n \<and>
    logs (boot_log (mtime_at k n + 10000000) (s_ticks k)) (dev k) (dev k')"
proof -
  obtain s0 S root where S: "pmm_init (link_layout z) pmm_static = Some s0"
    "kernel_address_space_init \<lparr>kmem_of = \<lparr>pmm_of = s0, mem = m\<rparr>, g_kernel_page_table = nullptr\<rparr> = Some S"
    "kernel_page_table S = root" "root \<noteq> nullptr"
    "\<forall>va. unat va < 2 ^ 39 \<longrightarrow> virt_to_phys root va (kmem_of S) = Some (if boot_mapped va then va else 0)"
    "\<forall>a. unat a < unat (kernel_end_addr (link_layout z)) \<longrightarrow> mem (kmem_of S) a = m a"
    using boot_space_identity [OF z m] by blast
  from boot_devices [OF r, of root] obtain k1 k2 k3 k5 k6 k7 k8 k9 k10 n where n: "bus_reads (dev k) \<le> n" and
    d: "kputs ''uart ok\<newline>'' k = Some k1" "kputs ''pmm ok\<newline>'' k1 = Some k2" "kputs ''kernel page table ok\<newline>'' k2 = Some k3"
      "kputs ''paging enabled\<newline>'' (k3\<lparr>csr := enable_sv39 root (csr k3)\<rparr>) = Some k5"
      "kputs ''trap installed\<newline>'' k5 = Some k6" "kputs ''current ticks count: '' (timer_init 10000000 k6) = Some k7"
      "kput_dec (ticks k7) k7 = Some k8" "kputc newline k8 = Some k9" "kputs ''start tasks scheduler\<newline>'' k9 = Some k10"
      "booted (device_log (mtime_at k n + 10000000) (s_ticks k)) k k10" "csr k10 = boot_csr root (csr k)" "s_interval k10 = 10000000" "console_ready k10"
    by blast
  note f10 = booted_fields [OF d(10)]
  have "pool_ok y k10" using ok f10 by (simp add: pool_ok_def)
  from bootstrap_correct [OF d(13) this] obtain k11 s where
    b: "bootstrap_scheduler y k10 = Some k11" "startable y k11 []" "console_ready k11"
      "logs (tx (line_text ''Hello from bootstrap_scheduler\<newline>'')) (dev k10) (dev k11)"
      "k11 = k10\<lparr>s_next_id := 2,
        s_tasks := (map cleared (s_tasks k10))[0 := new_task y 1 (idle_task_entry_at y) (s_idle_stack_at y) 256],
        nodes := s, s_idle_task := slot_addr y 0, s_current := nullptr, dev := dev k11\<rparr>" by blast
  have len: "length (s_tasks k) = 32" using pool_okD(2) [OF ok] .
  have t11: "s_tasks k11 = (map cleared (s_tasks k))[0 := new_task y 1 (idle_task_entry_at y) (s_idle_stack_at y) 256]"
    "s_next_id k11 = 2" "csr k11 = csr k10" "s_interval k11 = s_interval k10" "s_ticks k11 = s_ticks k10"
    using f10 by (subst b(5); simp)+
  have "\<forall>i. 1 \<le> i \<and> i < 32 \<longrightarrow> task_state (s_tasks k11 ! i) = Empty" "length (s_tasks k11) = 32"
    using len by (simp_all add: t11 cleared_def)
  from tasks_started [OF b(2) this(1) b(3) this(2) t11(2) stacks] obtain kl ka kb kc kd ke kf k' where
    c: "kputs ''Task manager and scheduler inited\<newline>'' k11 = Some kl"
      "create_kernel_task y (task_A_at p) (g_task_A_stack_at p) 1024 kl = Some (slot_addr y 1, ka)"
      "create_kernel_task y (task_B_at p) (g_task_B_stack_at p) 1024 ka = Some (slot_addr y 2, kb)"
      "kputs ''Creating task A&B\<newline>'' kb = Some kc" "rq_push y (slot_addr y 1) kc = Some (True, kd)"
      "rq_push y (slot_addr y 2) kd = Some (True, ke)" "kputs ''Start scheduler\<newline>'' ke = Some kf"
      "sched_start y kf = Some k'" and e: "sched_inv y k' 1 [2]" "console_ready k'" "live k' = first_context y (g_task_A_stack_at p) 1024"
      "s_tasks k' = (s_tasks k11)[1 := (new_task y 2 (task_A_at p) (g_task_A_stack_at p) 1024)\<lparr>task_state := Running\<rparr>,
         2 := new_task y 3 (task_B_at p) (g_task_B_stack_at p) 1024]"
      "hart.truncate k' = (hart.truncate k11)\<lparr>dev := dev k'\<rparr>" "logs schedule_log (dev k11) (dev k')" by blast
  have run: "kmain (link_layout z) y p k (static_space m) = Some (k', S)"
    using S(1-3) d(1-9) b(1) c by (simp add: kmain_def uart_init_def static_space_def Let_def)
  have "logs (boot_log (mtime_at k n + 10000000) (s_ticks k)) (dev k) (dev k')"
    using logs_append [OF logs_append [OF _ b(4)] e(6)] d(10) by (simp add: boot_log_def booted_def)
  moreover have "csr k' = csr k11 \<and> s_interval k' = s_interval k11 \<and> s_ticks k' = s_ticks k11"
    using e(5) by (cases k'; cases k11) (simp add: hart.defs)
  ultimately show ?thesis
    using run n S(3-6) d(11,12) f10 t11 e(1-4) unfolding boot_tasks_def by (intro exI conjI) (assumption | simp)+
qed

section \<open>Properties\<close>

text \<open>Property (C3): the boot. For every kernel image below 64 MiB, on a responsive console and from
  zeroed static data, \<^verbatim>\<open>kmain\<close> runs to the switch into the first task without an invalid access.
  It leaves the words of the kernel image as they were and the identity mapping of DRAM, UART and CLINT selected in satp, the timer interrupt
  enabled with the first deadline ten million ticks after a reading of mtime, idle in slot 0,
  task A running in slot 1 on its own stack and task B ready in slot 2, and has written the
  boot messages and that deadline to the devices and nothing else.\<close>

theorem kmain_boots:
  assumes "image_size z + 0x9000 < 64 * 1024 * 1024" and "dram_readable m"
    and "console_ready k" and "pool_ok y k" and "g_task_A_stack_at p \<noteq> nullptr" and "g_task_B_stack_at p \<noteq> nullptr"
  shows "\<exists>k' S root n. kmain (link_layout z) y p k (static_space m) = Some (k', S) \<and>
    kernel_page_table S = root \<and> root \<noteq> nullptr \<and>
    (\<forall>va. unat va < 2 ^ 39 \<longrightarrow> virt_to_phys root va (kmem_of S) = Some (if boot_mapped va then va else 0)) \<and>
    (\<forall>a. unat a < unat (kernel_end_addr (link_layout z)) \<longrightarrow> mem (kmem_of S) a = m a) \<and>
    csr k' = boot_csr root (csr k) \<and> s_interval k' = 10000000 \<and> s_ticks k' = s_ticks k \<and>
    sched_inv y k' 1 [2] \<and> s_tasks k' = boot_tasks y p (s_tasks k) \<and>
    live k' = first_context y (g_task_A_stack_at p) 1024 \<and> bus_reads (dev k) \<le> n \<and>
    logs (boot_log (mtime_at k n + 10000000) (s_ticks k)) (dev k) (dev k')"
  using kmain_correct [OF assms] by blast

text \<open>The demo image, tasks and stacks.\<close>

definition demo_app :: app where
  "demo_app = \<lparr>task_A_at = 0x80000400, task_B_at = 0x80000500,
     g_task_A_stack_at = 0x80020000, g_task_B_stack_at = 0x80021000\<rparr>"

lemma demo_boot:
  "image_size demo_image + 0x9000 < 64 * 1024 * 1024" "dram_readable (\<lambda>_. Some 7)" "console_ready demo_kernel"
  "pool_ok demo_symbols demo_kernel" "g_task_A_stack_at demo_app \<noteq> nullptr" "g_task_B_stack_at demo_app \<noteq> nullptr"
  using demo_kernel_ready demo_pool_ok
  by (simp_all add: image_size_def demo_image_def dram_readable_def demo_app_def)

lemma kmain_boots_witness:
  "\<exists>k' S. kmain (link_layout demo_image) demo_symbols demo_app demo_kernel (static_space (\<lambda>_. Some 7)) = Some (k', S) \<and>
    virt_to_phys (kernel_page_table S) 0x10000000 (kmem_of S) = Some 0x10000000 \<and>
    ctx_sp (live k') = 0x80020400 \<and> s_current k' = slot_addr demo_symbols 1"
proof -
  have u: "unat (0x10000000 :: u64) < 2 ^ 39" "boot_mapped 0x10000000" by (simp_all add: boot_mapped_def in_range_def)
  from kmain_boots [OF demo_boot] obtain k' S where
    k': "kmain (link_layout demo_image) demo_symbols demo_app demo_kernel (static_space (\<lambda>_. Some 7)) = Some (k', S)"
      "virt_to_phys (kernel_page_table S) 0x10000000 (kmem_of S) = Some 0x10000000"
      "sched_inv demo_symbols k' 1 [2]" "live k' = first_context demo_symbols (g_task_A_stack_at demo_app) 1024"
    using u by metis
  moreover have "s_current k' = slot_addr demo_symbols 1" using k'(3) sched_repD(7) unfolding sched_inv_def by blast
  ultimately show ?thesis by (auto simp: first_context_def demo_app_def)
qed

text \<open>Property (C28): the boot enables an interrupt it cannot handle. \<^verbatim>\<open>kmain\<close> prints that the trap
  handler is installed and enables the machine timer interrupt, but leaves mtvec as the reset
  value was: unless that already was the address of \<^verbatim>\<open>trap_entry\<close>, the first timer interrupt
  does not reach the handler.\<close>

theorem kmain_installs_no_trap_vector:
  assumes "image_size z + 0x9000 < 64 * 1024 * 1024" and "dram_readable m"
    and "console_ready k" and "pool_ok y k" and "g_task_A_stack_at p \<noteq> nullptr" and "g_task_B_stack_at p \<noteq> nullptr"
    and "mtvec (csr k) \<noteq> trap_entry_at y"
  shows "\<exists>k' S. kmain (link_layout z) y p k (static_space m) = Some (k', S) \<and>
    mtvec (csr k') \<noteq> trap_entry_at y \<and>
    mtvec (csr (trap_init y k')) = trap_entry_at y \<and>
    mstatus (csr k') AND kMstatusMie \<noteq> 0 \<and> mie (csr k') AND kMieMtie \<noteq> 0 \<and>
    (\<exists>ws vs. bus_writes (dev k') = ws @ tx (line_text ''trap installed\<newline>'') @ vs)"
proof -
  obtain k' S root n where
    k': "kmain (link_layout z) y p k (static_space m) = Some (k', S)" "csr k' = boot_csr root (csr k)"
      "logs (boot_log (mtime_at k n + 10000000) (s_ticks k)) (dev k) (dev k')"
    using kmain_correct [OF assms(1-6)] by metis
  have w: "bus_writes (dev k') = bus_writes (dev k) @ boot_log (mtime_at k n + 10000000) (s_ticks k)"
    using k'(3) unfolding logs_def by (cases "dev k"; cases "dev k'") simp
  have "\<exists>ws vs. boot_log d c = ws @ tx (line_text ''trap installed\<newline>'') @ vs" for d c
    unfolding boot_log_def device_log_def lines_text_def list.map concat.simps map_append append_Nil2 append_assoc
    by (metis append_assoc)
  then have "\<exists>ws vs. bus_writes (dev k') = ws @ tx (line_text ''trap installed\<newline>'') @ vs"
    unfolding w by (metis append_assoc)
  moreover have "(c OR b) AND b = (b :: u64)" for b c by (rule bit_word_eqI) (auto simp: bit_simps)
  ultimately show ?thesis
    using k'(1,2) assms(7)
    by (simp add: boot_csr_def trap_init_def write_mtvec_def kMstatusMie_def kMieMtie_def)
qed

lemma kmain_installs_no_trap_vector_witness:
  "\<exists>k' S. kmain (link_layout demo_image) demo_symbols demo_app demo_kernel (static_space (\<lambda>_. Some 7)) = Some (k', S) \<and>
    mtvec (csr k') \<noteq> 0x80000300"
proof -
  have "mtvec (csr demo_kernel) \<noteq> trap_entry_at demo_symbols"
    by (simp add: demo_kernel_def demo_hart_def demo_csrs_def demo_symbols_def hart.defs kernel.defs)
  from kmain_installs_no_trap_vector [OF demo_boot this] show ?thesis by (auto simp: demo_symbols_def)
qed

end
