(* ===== verification/Demo.thy ===== *)
theory Demo
  imports Boot
begin

text \<open>
  The tasks (Programs) run under the scheduler from the end of \<^verbatim>\<open>kmain\<close> on, with the timer
  interrupt that \<^verbatim>\<open>kmain\<close> has enabled. What the environment decides is given for every turn of a task:
  how late it is when the turn ends, whether a \<^verbatim>\<open>wfi\<close> ends without an interrupt, as the
  architecture permits, and how far the turn has come when an interrupt is taken. An interrupt is
  taken in the turn in which the timer reaches the deadline the kernel wrote last; the hart then
  goes to the address in mtvec, and no more code of the kernel runs unless trap_entry is there. No
  other interrupt is raised: the kernel enables none in a device.
\<close>

definition entry_code :: "symbols \<Rightarrow> app \<Rightarrow> Entry \<Rightarrow> (nat \<Rightarrow> action) option" where
  "entry_code y p e =
     (if e = task_A_at p then Some task_A
      else if e = task_B_at p then Some task_B
      else if e = idle_task_entry_at y then Some idle_task_entry else None)"

section \<open>The timer interrupt\<close>

record moment =
  mtime_now :: u64
  wfi_ends :: bool
  before_irq :: nat

text \<open>A hart executes the kernel, or has gone to the vector at an address, leaving the devices as they are.\<close>

datatype machine = Executing "nat list" kernel | Vectored addr bus

text \<open>The log up to the last write of mtimecmp, the last write first, and the value written.\<close>

definition is_deadline :: "bus_write \<Rightarrow> bool" where
  "is_deadline w = (case w of Dword a v \<Rightarrow> a = region_base CLINT_MTIMECMP | Byte a v \<Rightarrow> False)"

definition up_to_deadline :: "bus_write list \<Rightarrow> bus_write list" where
  "up_to_deadline ws = dropWhile (\<lambda>w. \<not> is_deadline w) (rev ws)"

definition mtimecmp :: "bus_write list \<Rightarrow> u64 option" where
  "mtimecmp ws = (case up_to_deadline ws of Dword a v # _ \<Rightarrow> Some v | _ \<Rightarrow> None)"

definition irq_enabled :: "csrs \<Rightarrow> bool" where
  "irq_enabled c \<longleftrightarrow> mstatus c AND kMstatusMie \<noteq> 0 \<and> mie c AND kMieMtie \<noteq> 0"

text \<open>Before the first write of mtimecmp its value is unknown; the kernel has interrupts disabled then.\<close>

definition fires :: "moment \<Rightarrow> kernel \<Rightarrow> bool" where
  "fires e k \<longleftrightarrow> irq_enabled (csr k) \<and>
     (case mtimecmp (bus_writes (dev k)) of None \<Rightarrow> False | Some t \<Rightarrow> t \<le> mtime_now e)"

text \<open>The address a machine timer interrupt goes to, by the mode bits of mtvec.\<close>

definition vector_of :: "u64 \<Rightarrow> addr" where
  "vector_of v = (v AND NOT 3) + (if v AND 3 = 1 then 4 * 7 else 0)"

text \<open>The devices when code that would lead from \<open>b\<close> to \<open>b'\<close> is interrupted: \<open>n\<close> writes later than \<open>b\<close>,
  or than the write of the deadline if that is among them.\<close>

definition cut_bus :: "nat \<Rightarrow> bus \<Rightarrow> bus \<Rightarrow> bus" where
  "cut_bus n b b' = b'\<lparr>bus_writes :=
     take (max (length (bus_writes b)) (length (up_to_deadline (bus_writes b'))) + n) (bus_writes b')\<rparr>"

definition unless_interrupted :: "moment \<Rightarrow> kernel \<Rightarrow> kernel \<Rightarrow> machine \<Rightarrow> machine" where
  "unless_interrupted e k k' s =
     (if fires e k' then Vectored (vector_of (mtvec (csr k'))) (cut_bus (before_irq e) (dev k) (dev k')) else s)"

section \<open>Running the tasks\<close>

definition turn :: "symbols \<Rightarrow> app \<Rightarrow> moment \<Rightarrow> nat list \<Rightarrow> kernel \<Rightarrow> machine option" where
  "turn y p e pcs k = do {
     c \<leftarrow> slot_of_ptr y (rq_current k);
     t \<leftarrow> get_task y (rq_current k) k;
     code \<leftarrow> entry_code y p (task_entry t);
     let a = task_entry_trampoline code (pcs ! c);
     k' \<leftarrow> perform y a k;
     Some (unless_interrupted e k k'
       (if a = Wait \<and> \<not> wfi_ends e then Executing pcs k else Executing (pcs[c := pcs ! c + 1]) k'))
   }"

fun run :: "symbols \<Rightarrow> app \<Rightarrow> moment list \<Rightarrow> machine \<Rightarrow> machine option" where
  "run y p [] s = Some s"
| "run y p (e # es) (Executing pcs k) = turn y p e pcs k \<bind> run y p es"
| "run y p (e # es) (Vectored pc b) = Some (Vectored pc b)"

section \<open>The same run on slots\<close>

text \<open>The state is the running slot, the ready list and the positions; the output is symbolic.\<close>

datatype line = Said string | Exited u64

fun line_bytes :: "line \<Rightarrow> u8 list" where
  "line_bytes (Said s) = line_text s"
| "line_bytes (Exited code) = exit_line code"

definition slot_code :: "nat \<Rightarrow> nat \<Rightarrow> action" where
  "slot_code c = (if c = 1 then task_A else if c = 2 then task_B else idle_task_entry)"

fun abs_perform :: "action \<Rightarrow> nat \<Rightarrow> nat list \<Rightarrow> line list \<times> nat \<times> nat list" where
  "abs_perform (Print s) c q = ([Said s], c, q)"
| "abs_perform Call_yield c q = ([], abs_reschedule c True q)"
| "abs_perform (Call_exit code) c q = ([Exited code], abs_reschedule c False q)"
| "abs_perform Wait c q = ([], c, q)"
| "abs_perform Finish c q = ([], c, q)"

fun abs_run :: "nat \<Rightarrow> nat \<times> nat list \<times> nat list \<Rightarrow> line list \<times> nat \<times> nat list \<times> nat list" where
  "abs_run 0 s = ([], s)"
| "abs_run (Suc n) (c, q, pcs) =
     (let (out, c', q') = abs_perform (slot_code c (pcs ! c)) c q;
          (outs, s) = abs_run n (c', q', pcs[c := pcs ! c + 1])
      in (out @ outs, s))"

lemma code_actions:
  "task_bootstrap_entry (slot_code c) n = slot_code c n"
  "slot_code c n \<noteq> Finish"
  "c \<noteq> 1 \<Longrightarrow> c \<noteq> 2 \<Longrightarrow> slot_code c n \<noteq> Call_yield \<and> slot_code c n \<noteq> Call_exit code"
  "slot_code c n = Print s \<Longrightarrow> CHR 0x00 \<notin> set s"
  by (auto simp: task_bootstrap_entry_def slot_code_def task_A_def task_B_def idle_task_entry_def Let_def
      split: if_splits action.splits)

section \<open>The simulation\<close>

definition entries_ok :: "symbols \<Rightarrow> app \<Rightarrow> Task list \<Rightarrow> bool" where
  "entries_ok y p ts \<longleftrightarrow> task_entry (ts ! 0) = idle_task_entry_at y \<and>
     task_entry (ts ! 1) = task_A_at p \<and> task_entry (ts ! 2) = task_B_at p"

definition demo_rep :: "symbols \<Rightarrow> app \<Rightarrow> kernel \<Rightarrow> nat \<Rightarrow> nat list \<Rightarrow> bool" where
  "demo_rep y p k c q \<longleftrightarrow> sched_inv y k c q \<and> console_ready k \<and> set (c # q) \<subseteq> {0, 1, 2} \<and>
     entries_ok y p (s_tasks k)"

definition app_ok :: "symbols \<Rightarrow> app \<Rightarrow> bool" where
  "app_ok y p \<longleftrightarrow> distinct [task_A_at p, task_B_at p, idle_task_entry_at y]"

lemma entries_kept:
  assumes "length ts = 32"
  shows "entries_ok y p (resched_tasks c again n regs ts) = entries_ok y p ts"
    "entries_ok y p (ts[c := (ts ! c)\<lparr>task_state := st\<rparr>]) = entries_ok y p ts"
proof -
  have "task_entry (resched_tasks c again n regs ts ! i) = task_entry (ts ! i)" if "i < 3" for i
    using that assms by (simp add: resched_tasks_nth resched_task_def)
  then show "entries_ok y p (resched_tasks c again n regs ts) = entries_ok y p ts"
    by (simp add: entries_ok_def)
  have "task_entry (ts[c := (ts ! c)\<lparr>task_state := st\<rparr>] ! i) = task_entry (ts ! i)" if "i < 3" for i
  proof -
    have "i < length ts" using that assms by simp
    then show ?thesis by (cases "c = i") simp_all
  qed
  then show "entries_ok y p (ts[c := (ts ! c)\<lparr>task_state := st\<rparr>]) = entries_ok y p ts"
    by (simp add: entries_ok_def)
qed

lemma abs_reschedule_slots:
  "abs_reschedule c again q = (n, q') \<Longrightarrow> set (c # q) \<subseteq> {0, 1, 2} \<Longrightarrow> set (n # q') \<subseteq> {0, 1, 2}"
  by (cases q) (auto simp: abs_reschedule_def split: if_splits)

lemma rescheduled_fields:
  "dev (rescheduled y k c n s) = dev k" "console_ready (rescheduled y k c n s) = console_ready k"
  "s_tasks (rescheduled y k c n s) = resched_tasks c (runs_again k c) n (live k) (s_tasks k)"
  "csr (rescheduled y k c n s) = csr k"
  by (simp_all add: rescheduled_def console_ready_def)

lemma logs_nil: "logs [] b b"
  by (simp add: logs_def)

lemma print_sim:
  assumes rep: "demo_rep y p k c q" and s: "CHR 0x00 \<notin> set s"
  shows "\<exists>k'. kputs s k = Some k' \<and> demo_rep y p k' c q \<and> logs (tx (line_text s)) (dev k) (dev k') \<and> csr k' = csr k"
proof -
  have r: "console_ready k" using rep by (simp add: demo_rep_def)
  from print_step [OF r s] obtain k' where k': "kputs s k = Some k'" "effect (tx (line_text s)) k k'" "console_ready k'" by blast
  have "quiet k k'" using io_quiet [OF k'(1)] .
  then have "demo_rep y p k' c q"
    using rep k'(3) quiet_inv [of k k' y c q] by (simp add: demo_rep_def quiet_def)
  with k' effect_dev [OF k'(2)] effect_fields [OF k'(2)] show ?thesis by blast
qed

lemma yield_sim:
  assumes rep: "demo_rep y p k c q" and step: "abs_reschedule c True q = (n, q')"
  shows "\<exists>k'. map_option snd (sched_yield y k) = Some k' \<and> demo_rep y p k' n q' \<and> dev k' = dev k \<and> csr k' = csr k"
proof -
  have inv: "sched_inv y k c q" using rep by (simp add: demo_rep_def)
  from yield_inv [OF inv step] obtain s where
    s: "sched_yield y k = Some (Switched, rescheduled y k c n s)" "sched_inv y (rescheduled y k c n s) n q'" by blast
  have "length (s_tasks k) = 32" using sched_repD(3) [of y k c q] inv by (simp add: sched_inv_def)
  then have "demo_rep y p (rescheduled y k c n s) n q'"
    using rep s(2) abs_reschedule_slots [OF step]
    by (simp add: demo_rep_def rescheduled_fields entries_kept)
  with s(1) show ?thesis by (simp add: rescheduled_fields)
qed

lemma exit_sim:
  assumes rep: "demo_rep y p k c q" and c: "c \<noteq> 0" and step: "abs_reschedule c False q = (n, q')"
  shows "\<exists>k'. sys_exit y code k = Some (SwitchedAway, k') \<and> demo_rep y p k' n q' \<and>
    logs (tx (exit_line code)) (dev k) (dev k') \<and> csr k' = csr k"
proof -
  have inv: "sched_inv y k c q" and r: "console_ready k" using rep by (simp_all add: demo_rep_def)
  then have rep': "sched_rep y k c q" by (simp add: sched_inv_def)
  from sys_exit_correct [OF r rep' step [symmetric]] obtain k1 s where
    x: "effect (tx (exit_line code)) k k1" "sys_exit y code k = Some (SwitchedAway, rescheduled y (dead c k1) c n s)"
    by blast
  let ?k' = "rescheduled y (dead c k1) c n s"
  from exit_inv [OF inv c x(2)] step have inv': "sched_inv y ?k' n q'" by auto
  note f = effect_kernel_fields [OF x(1)]
  have len: "length (s_tasks k1) = 32" using sched_repD(3) [OF rep'] f by simp
  have d: "dev ?k' = dev k1" "s_tasks (dead c k1) = (s_tasks k1)[c := (s_tasks k1 ! c)\<lparr>task_state := Dead\<rparr>]"
    by (simp_all add: rescheduled_fields dead_def)
  have "console_ready ?k'" using effect_ready [OF x(1)] r d(1) by (simp add: console_ready_def)
  moreover have "entries_ok y p (s_tasks ?k')"
    using rep len f(3) by (simp add: rescheduled_fields d(2) entries_kept demo_rep_def)
  ultimately have "demo_rep y p ?k' n q'"
    using rep inv' abs_reschedule_slots [OF step] by (simp add: demo_rep_def)
  moreover have "csr ?k' = csr k" using effect_fields [OF x(1)] by (simp add: rescheduled_fields dead_def)
  ultimately show ?thesis using x d(1) effect_dev [OF x(1)] by auto
qed

lemma slot_entry_code:
  assumes "app_ok y p" "entries_ok y p ts" "c \<in> {0, 1, 2}"
  shows "entry_code y p (task_entry (ts ! c)) = Some (slot_code c)"
  using assms by (auto simp: app_ok_def entries_ok_def entry_code_def slot_code_def)

lemma perform_sim:
  assumes rep: "demo_rep y p k c q" and step: "abs_perform (slot_code c n) c q = (out, c', q')"
  shows "\<exists>k'. perform y (slot_code c n) k = Some k' \<and> demo_rep y p k' c' q' \<and>
    logs (tx (concat (map line_bytes out))) (dev k) (dev k') \<and> csr k' = csr k"
proof (cases "slot_code c n")
  case (Print s)
  have "out = [Said s]" "c' = c" "q' = q" using step Print by simp_all
  with print_sim [OF rep code_actions(4) [OF Print]] Print show ?thesis by (fastforce simp: perform_def)
next
  case Call_yield
  then have "out = []" "abs_reschedule c True q = (c', q')" using step by simp_all
  with yield_sim [OF rep this(2)] Call_yield show ?thesis by (fastforce simp: perform_def logs_nil)
next
  case (Call_exit code)
  then have c: "c \<noteq> 0" using code_actions(3) [of c n code] by force
  have "out = [Exited code]" "abs_reschedule c False q = (c', q')" using step Call_exit by simp_all
  with exit_sim [OF rep c this(2), of code] Call_exit show ?thesis by (fastforce simp: perform_def)
next
  case Wait
  with step have "out = []" "c' = c" "q' = q" by simp_all
  with Wait rep show ?thesis by (simp add: perform_def logs_nil)
next
  case Finish
  then show ?thesis using code_actions(2) by blast
qed

text \<open>A turn is the action of the running task, and what the moment makes of it.\<close>

lemma turn_eq:
  assumes app: "app_ok y p" and rep: "demo_rep y p k c q"
  shows "turn y p e pcs k = map_option (\<lambda>k'. unless_interrupted e k k'
    (if slot_code c (pcs ! c) = Wait \<and> \<not> wfi_ends e then Executing pcs k else Executing (pcs[c := pcs ! c + 1]) k'))
    (perform y (slot_code c (pcs ! c)) k)"
proof -
  have r: "sched_rep y k c q" and en: "entries_ok y p (s_tasks k)" and c: "c \<in> {0, 1, 2}"
    using rep by (simp_all add: demo_rep_def sched_inv_def)
  note f = sched_repD [OF r]
  have "slot_of_ptr y (rq_current k) = Some c" "get_task y (rq_current k) k = Some (s_tasks k ! c)"
    using f by (simp_all add: rq_current_def slot_of_slot_addr get_task_slot)
  then show ?thesis
    using slot_entry_code [OF app en c]
    by (cases "perform y (slot_code c (pcs ! c)) k") (simp_all add: turn_def Let_def trampoline_never_loops code_actions(1))
qed

section \<open>The output of the demo\<close>

definition demo_lines :: "line list" where
  "demo_lines =
     [Said ''task A init.\<newline>'', Said ''Hello from task_A\<newline>'', Said ''task B init.\<newline>'', Said ''Hello from task_B\<newline>''] @
     concat (replicate 4 [Said ''Hello from task_A\<newline>'', Said ''Hello from task_B\<newline>'']) @
     [Exited 233, Exited 137, Said ''enter idle task\<newline>'']"

lemma demo_abs: "abs_run 25 (1, [2], replicate 32 0) = (demo_lines, 0, [], (replicate 32 0)[0 := 1, 1 := 12, 2 := 12])"
  by code_simp

lemma abs_run_add:
  "abs_run (m + n) s = (case abs_run m s of (o1, s1) \<Rightarrow> case abs_run n s1 of (o2, s2) \<Rightarrow> (o1 @ o2, s2))"
  by (induction m s rule: abs_run.induct) (auto simp: Let_def split: prod.splits)

lemma abs_run_Suc:
  assumes "abs_run m s = (out, c, q, pcs)" "abs_perform (slot_code c (pcs ! c)) c q = (out1, c', q')"
  shows "abs_run (Suc m) s = (out @ out1, c', q', pcs[c := pcs ! c + 1])"
  using abs_run_add [of m 1 s] assms by simp

text \<open>What has been said after \<open>m\<close> turns is a prefix of the complete text, and from turn 25 on all of it.\<close>

abbreviation first_turn :: "nat \<times> nat list \<times> nat list" where
  "first_turn \<equiv> (1, [2], replicate 32 0)"

definition spoken :: "nat \<Rightarrow> u8 list" where
  "spoken m = concat (map line_bytes (fst (abs_run m first_turn)))"

definition demo_text :: "nat \<Rightarrow> u8 list" where
  "demo_text j = concat (map line_bytes (demo_lines @ replicate j (Said ''idle task\<newline>'')))"

lemma idle_abs:
  "0 < length pcs \<Longrightarrow> odd (pcs ! 0) \<Longrightarrow>
   abs_run i (0, [], pcs) = (replicate ((i + 1) div 2) (Said ''idle task\<newline>''), 0, [], pcs[0 := pcs ! 0 + i])"
proof (induction i rule: less_induct)
  case (less i)
  show ?case
  proof (cases i)
    case 0
    then show ?thesis by simp
  next
    case (Suc j)
    have IH: "abs_run j (0, [], pcs) = (replicate ((j + 1) div 2) (Said ''idle task\<newline>''), 0, [], pcs[0 := pcs ! 0 + j])"
      by (rule less.IH) (use less.prems Suc in simp_all)
    have at: "pcs[0 := pcs ! 0 + j] ! 0 = pcs ! 0 + j" using less.prems(1) by simp
    have code: "slot_code 0 (pcs ! 0 + j) = (if even j then Print ''idle task\<newline>'' else Wait)"
      using less.prems(2) by (auto simp: slot_code_def idle_task_entry_def odd_pos)
    have out: "replicate ((j + 1) div 2) x @ (if even j then [x] else []) = replicate ((Suc j + 1) div 2) x" for x :: line
      by (auto simp: replicate_append_same elim!: evenE oddE)
    have "abs_perform (slot_code 0 (pcs[0 := pcs ! 0 + j] ! 0)) 0 [] =
        (if even j then [Said ''idle task\<newline>''] else [], 0, [])" unfolding at code by simp
    from abs_run_Suc [OF IH this] show ?thesis unfolding Suc out at by simp
  qed
qed

lemma late_turns:
  assumes "25 \<le> m"
  shows "\<exists>pcs. abs_run m first_turn = (demo_lines @ replicate ((m - 24) div 2) (Said ''idle task\<newline>''), 0, [], pcs)"
proof -
  let ?pcs = "(replicate 32 0)[0 := 1, 1 := 12, 2 := (12 :: nat)]"
  have "0 < length ?pcs" "odd (?pcs ! 0)" by simp_all
  note i = idle_abs [OF this, of "m - 25"]
  have "m - 25 + 1 = m - 24" "25 + (m - 25) = m" using assms by simp_all
  then show ?thesis using abs_run_add [of 25 "m - 25" first_turn] i unfolding demo_abs by simp
qed

lemma spoken_late: "25 \<le> m \<Longrightarrow> spoken m = demo_text ((m - 24) div 2)"
  using late_turns [of m] by (auto simp: spoken_def demo_text_def)

lemma spoken_add: "\<exists>v. spoken (m + n) = spoken m @ v"
  by (auto simp: spoken_def abs_run_add split: prod.splits)

lemma spoken_prefix: "\<exists>v. demo_text ((m - 24) div 2) = spoken m @ v"
proof (cases "25 \<le> m")
  case False
  then have "(m - 24) div 2 = 0" "25 = m + (25 - m)" by simp_all
  then show ?thesis using spoken_add [of m "25 - m"] spoken_late [of 25] by simp
qed (simp add: spoken_late)

text \<open>No task waits before its twenty-sixth turn.\<close>

lemma early_actions: "list_all (\<lambda>m. case abs_run m first_turn of (out, c, q, pcs) \<Rightarrow> slot_code c (pcs ! c) \<noteq> Wait) [0..<26]"
  by code_simp

lemma waits_late:
  assumes "abs_run m first_turn = (out, c, q, pcs)" "slot_code c (pcs ! c) = Wait"
  shows "26 \<le> m"
proof (rule ccontr)
  assume "\<not> 26 \<le> m"
  then have "m \<in> set [0..<26]" by simp
  with early_actions have "case abs_run m first_turn of (out, c, q, pcs) \<Rightarrow> slot_code c (pcs ! c) \<noteq> Wait"
    unfolding list_all_iff by (rule bspec)
  then show False unfolding assms(1) prod.case using assms(2) by (rule notE)
qed

lemma booted_demo_rep:
  assumes "sched_inv y k 1 [2]" "console_ready k" "s_tasks k = boot_tasks y p ts" "length ts = 32"
  shows "demo_rep y p k 1 [2]"
  using assms by (simp add: demo_rep_def entries_ok_def boot_tasks_def new_task_def)

lemma all_idle: "sched_inv y k 0 [] \<Longrightarrow> s_current k = s_idle_task k \<and>
    (\<forall>i < 32. i \<noteq> 0 \<longrightarrow> task_state (s_tasks k ! i) \<noteq> Ready \<and> task_state (s_tasks k ! i) \<noteq> Running)"
  using sched_inv_current [of y k 0 "[]"] by (auto simp: sched_inv_def)

section \<open>The machine\<close>

text \<open>The state after \<open>m\<close> turns, starting from \<open>k1\<close>.\<close>

definition after_turn :: "symbols \<Rightarrow> app \<Rightarrow> kernel \<Rightarrow> nat \<Rightarrow> nat list \<Rightarrow> kernel \<Rightarrow> bool" where
  "after_turn y p k1 m pcs k \<longleftrightarrow> (\<exists>out c q. abs_run m first_turn = (out, c, q, pcs) \<and> demo_rep y p k c q) \<and>
     logs (tx (spoken m)) (dev k1) (dev k) \<and> csr k = csr k1"

lemma up_to_deadline_tx: "up_to_deadline (ws @ tx cs) = up_to_deadline ws"
  by (induction cs rule: rev_induct) (simp_all add: up_to_deadline_def is_deadline_def flip: append_assoc)

lemma up_to_deadline_Dword:
  "up_to_deadline (ws @ Dword 0x2004000 t # tx cs) = Dword 0x2004000 t # rev ws"
  using up_to_deadline_tx [of "ws @ [Dword 0x2004000 t]" cs]
  by (simp add: up_to_deadline_def is_deadline_def clint_addresses)

lemma logs_writes: "logs ws b b' \<Longrightarrow> bus_writes b' = bus_writes b @ ws"
  unfolding logs_def by (cases b; cases b') simp

lemma logs_cut:
  assumes "logs ws b b'" "logs vs b b''" "bus_writes c = bus_writes b @ us" "c = b''\<lparr>bus_writes := bus_writes c\<rparr>"
  shows "logs us b c"
  using assms unfolding logs_def by (cases b; cases b'; cases b''; cases c) auto

lemma cut_turn:
  assumes w: "logs (tx a) b0 b" and o: "logs (tx o1) b b'"
  shows "logs (tx (a @ take n o1)) b0 (cut_bus n b b')"
proof -
  have bw: "bus_writes b = bus_writes b0 @ tx a" "bus_writes b' = bus_writes b @ tx o1"
    using logs_writes [OF w] logs_writes [OF o] by simp_all
  have "length (up_to_deadline (bus_writes b')) \<le> length (bus_writes b)"
    unfolding bw(2) up_to_deadline_tx unfolding up_to_deadline_def
    using length_dropWhile_le [of _ "rev (bus_writes b)"] by simp
  then have "bus_writes (cut_bus n b b') = bus_writes b0 @ tx (a @ take n o1)"
    by (simp add: cut_bus_def bw max_absorb1 take_map)
  moreover have "cut_bus n b b' = b'\<lparr>bus_writes := bus_writes (cut_bus n b b')\<rparr>" by (simp add: cut_bus_def)
  ultimately show ?thesis using logs_cut [OF w logs_append [OF w o]] by blast
qed

lemma turn_step:
  assumes app: "app_ok y p" and at: "after_turn y p k1 m pcs k"
    and irq: "irq_enabled (csr k1)" and D: "mtimecmp (bus_writes (dev k1)) = Some D"
  shows "\<exists>s. turn y p e pcs k = Some s \<and>
    (if D \<le> mtime_now e
     then \<exists>b. s = Vectored (vector_of (mtvec (csr k1))) b \<and>
       (\<exists>u v. spoken (Suc m) = spoken m @ u @ v \<and> logs (tx (spoken m @ u)) (dev k1) b)
     else \<exists>pcs' k'. s = Executing pcs' k' \<and>
       (after_turn y p k1 (Suc m) pcs' k' \<or> after_turn y p k1 m pcs' k' \<and> 26 \<le> m \<and> \<not> wfi_ends e))"
proof -
  obtain out c q where m: "abs_run m first_turn = (out, c, q, pcs)" "demo_rep y p k c q"
    and l: "logs (tx (spoken m)) (dev k1) (dev k)" "csr k = csr k1"
    using at unfolding after_turn_def by blast
  let ?a = "slot_code c (pcs ! c)"
  obtain o1 c' q' where step: "abs_perform ?a c q = (o1, c', q')" by (metis prod_cases3)
  from perform_sim [OF m(2) step] obtain k' where
    k': "perform y ?a k = Some k'" "demo_rep y p k' c' q'"
      "logs (tx (concat (map line_bytes o1))) (dev k) (dev k')" "csr k' = csr k" by blast
  note next' = abs_run_Suc [OF m(1) step]
  have sp: "spoken (Suc m) = spoken m @ concat (map line_bytes o1)" by (simp only: spoken_def next' m(1) fst_conv map_append concat_append)
  have log: "logs (tx (spoken (Suc m))) (dev k1) (dev k')"
    using logs_append [OF l(1) k'(3)] by (simp add: sp)
  have "mtimecmp (bus_writes (dev k')) = Some D"
    using D unfolding mtimecmp_def logs_writes [OF log] up_to_deadline_tx .
  then have fires: "fires e k' \<longleftrightarrow> D \<le> mtime_now e" using irq by (simp add: fires_def k'(4) l(2))
  note t = turn_eq [OF app m(2), of e pcs, unfolded k'(1)]
  show ?thesis
  proof (cases "D \<le> mtime_now e")
    case True
    let ?u = "take (before_irq e) (concat (map line_bytes o1))" and ?v = "drop (before_irq e) (concat (map line_bytes o1))"
    have "spoken (Suc m) = spoken m @ ?u @ ?v" by (simp add: sp)
    moreover note cut_turn [OF l(1) k'(3), of "before_irq e"]
    moreover have "turn y p e pcs k = Some (Vectored (vector_of (mtvec (csr k1))) (cut_bus (before_irq e) (dev k) (dev k')))"
      using True t by (simp add: unless_interrupted_def fires k'(4) l(2))
    ultimately show ?thesis using True by (simp only: if_True option.inject) blast
  next
    case False
    have go: "after_turn y p k1 (Suc m) (pcs[c := pcs ! c + 1]) k'"
      using next' k'(2) log k'(4) l(2) by (auto simp: after_turn_def)
    show ?thesis
    proof (cases "?a = Wait \<and> \<not> wfi_ends e")
      case True
      with waits_late [OF m(1)] at False t show ?thesis by (auto simp: unless_interrupted_def fires)
    qed (use go False t in \<open>auto simp: unless_interrupted_def fires\<close>)
  qed
qed

text \<open>
  In the moments \<open>es\<close>, after \<open>m\<close> turns before, there were \<open>n\<close> turns altogether: one in every moment,
  unless a \<^verbatim>\<open>wfi\<close> was waiting, which is possible after turn 26 only. The machine is still executing
  the kernel, or in the first moment whose time reached the deadline it went to the vector.
\<close>

definition turns_in :: "nat \<Rightarrow> moment list \<Rightarrow> nat \<Rightarrow> bool" where
  "turns_in m es n \<longleftrightarrow> n \<le> m + length es \<and> (n < m + length es \<longrightarrow> 26 \<le> n \<and> (\<exists>e \<in> set es. \<not> wfi_ends e))"

definition ended :: "symbols \<Rightarrow> app \<Rightarrow> kernel \<Rightarrow> u64 \<Rightarrow> nat \<Rightarrow> moment list \<Rightarrow> machine \<Rightarrow> bool" where
  "ended y p k1 D m es s \<longleftrightarrow>
    (case s of
       Executing pcs k \<Rightarrow> (\<forall>e \<in> set es. mtime_now e < D) \<and> (\<exists>n. turns_in m es n \<and> after_turn y p k1 n pcs k)
     | Vectored pc b \<Rightarrow> pc = vector_of (mtvec (csr k1)) \<and>
         (\<exists>es1 e es2 n u v. es = es1 @ e # es2 \<and> (\<forall>e \<in> set es1. mtime_now e < D) \<and> D \<le> mtime_now e \<and>
           turns_in m es1 n \<and> spoken (Suc n) = spoken n @ u @ v \<and> logs (tx (spoken n @ u)) (dev k1) b))"

lemma turns_in_Nil: "turns_in m [] m"
  by (simp add: turns_in_def)

lemma turns_in_go: "turns_in (Suc m) es n \<Longrightarrow> turns_in m (e # es) n"
  by (auto simp: turns_in_def)

lemma turns_in_sleep:
  assumes "turns_in m es n" "26 \<le> m" "\<not> wfi_ends e"
  shows "turns_in m (e # es) n"
proof -
  have "26 \<le> n" using assms(1,2) by (cases "n < m + length es") (auto simp: turns_in_def)
  then show ?thesis using assms(1,3) by (auto simp: turns_in_def)
qed

text \<open>One more moment in front.\<close>

lemma ended_Cons:
  assumes "ended y p k1 D m' es s" "mtime_now e < D" "\<And>es n. turns_in m' es n \<Longrightarrow> turns_in m (e # es) n"
  shows "ended y p k1 D m (e # es) s"
proof (cases s)
  case (Executing pcs k)
  with assms show ?thesis by (auto simp: ended_def)
next
  case (Vectored pc b)
  from assms(1) obtain es1 e1 es2 n u v where x: "es = es1 @ e1 # es2" "\<forall>e \<in> set es1. mtime_now e < D"
    "D \<le> mtime_now e1" "turns_in m' es1 n" "spoken (Suc n) = spoken n @ u @ v" "logs (tx (spoken n @ u)) (dev k1) b"
    and pc: "pc = vector_of (mtvec (csr k1))" unfolding ended_def Vectored machine.case by blast
  have "e # es = (e # es1) @ e1 # es2" "\<forall>e \<in> set (e # es1). mtime_now e < D" using x(1,2) assms(2) by simp_all
  then show ?thesis
    using pc x(3,5,6) assms(3) [OF x(4)] unfolding ended_def Vectored machine.case by blast
qed

lemma run_machine:
  assumes app: "app_ok y p" and irq: "irq_enabled (csr k1)" and D: "mtimecmp (bus_writes (dev k1)) = Some D"
  shows "after_turn y p k1 m pcs k \<Longrightarrow> \<exists>s. run y p es (Executing pcs k) = Some s \<and> ended y p k1 D m es s"
proof (induction es arbitrary: m pcs k)
  case Nil
  then show ?case using turns_in_Nil by (auto simp: ended_def)
next
  case (Cons e es)
  from turn_step [OF app Cons.prems irq D, of e] obtain s where s: "turn y p e pcs k = Some s"
    "if D \<le> mtime_now e
     then \<exists>b. s = Vectored (vector_of (mtvec (csr k1))) b \<and>
       (\<exists>u v. spoken (Suc m) = spoken m @ u @ v \<and> logs (tx (spoken m @ u)) (dev k1) b)
     else \<exists>pcs' k'. s = Executing pcs' k' \<and>
       (after_turn y p k1 (Suc m) pcs' k' \<or> after_turn y p k1 m pcs' k' \<and> 26 \<le> m \<and> \<not> wfi_ends e)" by blast
  show ?case
  proof (cases "D \<le> mtime_now e")
    case True
    with s(2) obtain b u v where b: "s = Vectored (vector_of (mtvec (csr k1))) b"
      "spoken (Suc m) = spoken m @ u @ v" "logs (tx (spoken m @ u)) (dev k1) b" by auto
    have "run y p (e # es) (Executing pcs k) = Some s" using s(1) b(1) by (cases es) simp_all
    moreover have "e # es = [] @ e # es" "\<forall>e \<in> set []. mtime_now e < D" by simp_all
    then have "ended y p k1 D m (e # es) s"
      unfolding b(1) ended_def machine.case using True b(2,3) turns_in_Nil by blast
    ultimately show ?thesis by blast
  next
    case False
    then have lt: "mtime_now e < D" by simp
    from False s(2) obtain pcs' k' where k': "s = Executing pcs' k'"
      "after_turn y p k1 (Suc m) pcs' k' \<or> after_turn y p k1 m pcs' k' \<and> 26 \<le> m \<and> \<not> wfi_ends e" by auto
    have run: "run y p (e # es) (Executing pcs k) = run y p es (Executing pcs' k')" using s(1) k'(1) by simp
    from k'(2) show ?thesis
    proof
      assume "after_turn y p k1 (Suc m) pcs' k'"
      from Cons.IH [OF this] ended_Cons [OF _ lt turns_in_go] show ?thesis unfolding run by blast
    next
      assume w: "after_turn y p k1 m pcs' k' \<and> 26 \<le> m \<and> \<not> wfi_ends e"
      then have "turns_in m (e # es) n" if "turns_in m es n" for es n using turns_in_sleep that by blast
      with w Cons.IH [of m pcs' k'] ended_Cons [OF _ lt] show ?thesis unfolding run by blast
    qed
  qed
qed

section \<open>From kmain on\<close>

lemma boot_deadline: "\<exists>ws cs. boot_log D c = ws @ Dword 0x2004000 D # tx cs"
  unfolding boot_log_def device_log_def schedule_log_def
  by (intro exI) (simp only: append_assoc append_Cons append_Nil map_append [symmetric])

text \<open>An interrupt during \<^verbatim>\<open>kmain\<close> comes after the write of the deadline.\<close>

lemma cut_boot:
  assumes "logs (boot_log D c) b b'"
  shows "\<exists>w v. boot_log D c = w @ v \<and> Dword 0x2004000 D \<in> set w \<and> logs w b (cut_bus n b b')"
proof -
  obtain ws cs where l: "boot_log D c = (ws @ [Dword 0x2004000 D]) @ tx cs" using boot_deadline [of D c] by auto
  let ?lo = "max (length (bus_writes b)) (length (bus_writes b @ ws) + 1)" and ?w = "ws @ [Dword 0x2004000 D]"
  have lo: "?lo = length (bus_writes b @ ?w)" by simp
  have bw: "bus_writes b' = (bus_writes b @ ws) @ Dword 0x2004000 D # tx cs"
    using logs_writes [OF assms] l by simp
  have "bus_writes (cut_bus n b b') = take (?lo + n) (bus_writes b')"
    unfolding cut_bus_def bw up_to_deadline_Dword by simp
  also have "\<dots> = bus_writes b @ ?w @ take n (tx cs)" unfolding lo bw by simp
  finally have c: "bus_writes (cut_bus n b b') = bus_writes b @ ?w @ take n (tx cs)" .
  have "cut_bus n b b' = b'\<lparr>bus_writes := bus_writes (cut_bus n b b')\<rparr>" by (simp add: cut_bus_def)
  then have "logs (?w @ take n (tx cs)) b (cut_bus n b b')" by (rule logs_cut [OF assms assms c])
  moreover have "boot_log D c = (?w @ take n (tx cs)) @ drop n (tx cs)" by (simp add: l)
  ultimately show ?thesis by (intro exI [of _ "?w @ take n (tx cs)"] exI [of _ "drop n (tx cs)"]) simp
qed

text \<open>
  What becomes of the system in the moment \<open>t\<close> of \<^verbatim>\<open>kmain\<close> and the moments \<open>es\<close> of the tasks, given the
  deadline \<open>D\<close> that \<^verbatim>\<open>kmain\<close> wrote, the devices \<open>d\<close> and the count of ticks before, and the vector \<open>vec\<close>.
\<close>

definition system_end :: "u64 \<Rightarrow> u64 \<Rightarrow> bus \<Rightarrow> addr \<Rightarrow> moment \<Rightarrow> moment list \<Rightarrow> machine \<Rightarrow> bool" where
  "system_end D c d vec t es s \<longleftrightarrow>
    (case s of
       Executing pcs k \<Rightarrow> (\<forall>e \<in> set (t # es). mtime_now e < D) \<and>
         (\<exists>n. turns_in 0 es n \<and> logs (boot_log D c @ tx (spoken n)) d (dev k) \<and>
           (25 \<le> n \<longrightarrow> s_current k = s_idle_task k \<and>
             (\<forall>i < 32. i \<noteq> 0 \<longrightarrow> task_state (s_tasks k ! i) \<noteq> Ready \<and> task_state (s_tasks k ! i) \<noteq> Running)))
     | Vectored pc b \<Rightarrow> pc = vec \<and>
         (D \<le> mtime_now t \<and> (\<exists>w v. boot_log D c = w @ v \<and> Dword 0x2004000 D \<in> set w \<and> logs w d b) \<or>
          mtime_now t < D \<and> (\<exists>es1 e es2 n u v. es = es1 @ e # es2 \<and> (\<forall>e \<in> set es1. mtime_now e < D) \<and>
            D \<le> mtime_now e \<and> turns_in 0 es1 n \<and> spoken (Suc n) = spoken n @ u @ v \<and>
            logs (boot_log D c @ tx (spoken n @ u)) d b)))"

lemma after_turn_idle:
  assumes "after_turn y p k1 n pcs k" "25 \<le> n"
  shows "s_current k = s_idle_task k \<and>
    (\<forall>i < 32. i \<noteq> 0 \<longrightarrow> task_state (s_tasks k ! i) \<noteq> Ready \<and> task_state (s_tasks k ! i) \<noteq> Running)"
proof -
  from late_turns [OF assms(2)] assms(1) have "demo_rep y p k 0 []" by (auto simp: after_turn_def)
  then show ?thesis using all_idle unfolding demo_rep_def by blast
qed

lemma ended_system:
  assumes "ended y p k1 D 0 es s" "logs (boot_log D c) d (dev k1)" "mtime_now t < D" "vec = vector_of (mtvec (csr k1))"
  shows "system_end D c d vec t es s"
proof (cases s)
  case (Executing pcs k)
  with assms(1) obtain n where n: "turns_in 0 es n" "after_turn y p k1 n pcs k" "\<forall>e \<in> set es. mtime_now e < D"
    by (auto simp: ended_def)
  from n(2) have "logs (tx (spoken n)) (dev k1) (dev k)" by (simp add: after_turn_def)
  with logs_append [OF assms(2)] n after_turn_idle [OF n(2)] assms(3) Executing show ?thesis
    unfolding system_end_def machine.case by (auto intro!: exI [of _ n])
next
  case (Vectored pc b)
  from assms(1) obtain es1 e es2 n u v where x: "es = es1 @ e # es2" "\<forall>e \<in> set es1. mtime_now e < D"
    "D \<le> mtime_now e" "turns_in 0 es1 n" "spoken (Suc n) = spoken n @ u @ v" "logs (tx (spoken n @ u)) (dev k1) b"
    and pc: "pc = vec" unfolding ended_def Vectored machine.case assms(4) by blast
  have "logs (boot_log D c @ tx (spoken n @ u)) d b" using logs_append [OF assms(2) x(6)] by simp
  then show ?thesis using x(1-5) pc assms(3) unfolding system_end_def Vectored machine.case by blast
qed

text \<open>Under the assumptions of the boot and with distinct entry points, the tasks that \<^verbatim>\<open>kmain\<close> starts run
  without an invalid access until the timer reaches the deadline.\<close>

lemma demo_run:
  assumes "image_size z + 0x9000 < 64 * 1024 * 1024" and "dram_readable m"
    and "console_ready k" and "pool_ok y k" and "g_task_A_stack_at p \<noteq> nullptr" and "g_task_B_stack_at p \<noteq> nullptr"
    and "app_ok y p"
  shows "\<exists>k1 S n. kmain (link_layout z) y p k (static_space m) = Some (k1, S) \<and>
    (\<forall>a. unat a < unat (kernel_end_addr (link_layout z)) \<longrightarrow> mem (kmem_of S) a = m a) \<and>
    (\<forall>t es. \<exists>s. run y p es (unless_interrupted t k k1 (Executing (replicate 32 0) k1)) = Some s \<and>
      system_end (mtime_at k n + 10000000) (s_ticks k) (dev k) (vector_of (mtvec (csr k))) t es s)"
proof -
  from kmain_correct [OF assms(1-6)] obtain k1 S root n where
    k1: "kmain (link_layout z) y p k (static_space m) = Some (k1, S)"
      "\<forall>a. unat a < unat (kernel_end_addr (link_layout z)) \<longrightarrow> mem (kmem_of S) a = m a" "sched_inv y k1 1 [2]"
      "s_tasks k1 = boot_tasks y p (s_tasks k)" "console_ready k1" "csr k1 = boot_csr root (csr k)"
      "logs (boot_log (mtime_at k n + 10000000) (s_ticks k)) (dev k) (dev k1)" by metis
  let ?D = "mtime_at k n + 10000000"
  have "demo_rep y p k1 1 [2]" using booted_demo_rep [OF k1(3,5,4)] pool_okD(2) [OF assms(4)] by simp
  then have at: "after_turn y p k1 0 (replicate 32 0) k1"
    by (auto simp: after_turn_def spoken_def logs_nil)
  have set_bit: "(x OR b) AND b = b" for x b :: u64 by (rule bit_word_eqI) (auto simp: bit_simps)
  have irq: "irq_enabled (csr k1)"
    by (simp add: irq_enabled_def k1(6) boot_csr_def set_bit kMstatusMie_def kMieMtie_def)
  have vec: "vector_of (mtvec (csr k)) = vector_of (mtvec (csr k1))" by (simp add: k1(6) boot_csr_def)
  obtain ws cs where "boot_log ?D (s_ticks k) = ws @ Dword 0x2004000 ?D # tx cs" using boot_deadline by blast
  then have "up_to_deadline (bus_writes (dev k1)) = Dword 0x2004000 ?D # rev (bus_writes (dev k) @ ws)"
    using logs_writes [OF k1(7)] up_to_deadline_Dword [of "bus_writes (dev k) @ ws" ?D cs] by simp
  then have D: "mtimecmp (bus_writes (dev k1)) = Some ?D" by (simp add: mtimecmp_def)
  have "\<exists>s. run y p es (unless_interrupted t k k1 (Executing (replicate 32 0) k1)) = Some s \<and>
      system_end ?D (s_ticks k) (dev k) (vector_of (mtvec (csr k))) t es s" for t es
  proof (cases "?D \<le> mtime_now t")
    case True
    let ?s = "Vectored (vector_of (mtvec (csr k))) (cut_bus (before_irq t) (dev k) (dev k1))"
    have "unless_interrupted t k k1 (Executing (replicate 32 0) k1) = ?s"
      using True irq by (simp add: unless_interrupted_def fires_def D vec)
    moreover have "run y p es ?s = Some ?s" by (cases es) simp_all
    moreover have "system_end ?D (s_ticks k) (dev k) (vector_of (mtvec (csr k))) t es ?s"
      using True cut_boot [OF k1(7)] by (simp add: system_end_def)
    ultimately show ?thesis by simp
  next
    case False
    have "unless_interrupted t k k1 (Executing (replicate 32 0) k1) = Executing (replicate 32 0) k1"
      using False by (simp add: unless_interrupted_def fires_def D)
    with run_machine [OF assms(7) irq D at, of es] ended_system [OF _ k1(7) _ vec] False show ?thesis by fastforce
  qed
  with k1(1,2) show ?thesis by blast
qed

end
