(* ===== verification/Byte_Memory.thy ===== *)
theory Byte_Memory
  imports Prelude
begin

text \<open>
  Memory as bytes: the little-endian value of \<open>n\<close> bytes at an address, and the memory after such a
  value is stored. The memory of an interrupted program and the image the loader leaves are read
  through these functions.
\<close>

fun get_bytes :: "nat \<Rightarrow> addr \<Rightarrow> (addr \<Rightarrow> u8) \<Rightarrow> u64" where
  "get_bytes 0 p m = 0"
| "get_bytes (Suc n) p m = ucast (m p) OR push_bit 8 (get_bytes n (p + 1) m)"

fun put_bytes :: "nat \<Rightarrow> addr \<Rightarrow> u64 \<Rightarrow> (addr \<Rightarrow> u8) \<Rightarrow> addr \<Rightarrow> u8" where
  "put_bytes 0 p val m = m"
| "put_bytes (Suc n) p val m = put_bytes n (p + 1) (drop_bit 8 val) (m(p := ucast val))"

lemma get_bytes_small: "bit (get_bytes n p m) i \<Longrightarrow> i < 8 * n"
proof (induction n arbitrary: p i)
  case (Suc n)
  have "bit (ucast (m p) :: u64) i \<Longrightarrow> i < 8" by (auto simp: bit_simps dest: bit_imp_le_length)
  with Suc show ?case by (fastforce simp: bit_simps)
qed simp

lemma get_put_bytes:
  assumes "n \<le> 8"
  shows "get_bytes n p (put_bytes n p val m) = take_bit (8 * n) val"
proof -
  have other: "put_bytes n q val m x = m x" if "\<And>i. i < n \<Longrightarrow> x \<noteq> q + of_nat i" for n q val m x
    using that
  proof (induction n arbitrary: q val m)
    case (Suc n)
    have "x \<noteq> q" using Suc.prems [of 0] by simp
    moreover have "x \<noteq> (q + 1) + of_nat i" if "i < n" for i using Suc.prems [of "Suc i"] that by (simp add: add_ac)
    ultimately show ?case using Suc.IH [of "q + 1"] by simp
  qed simp
  show ?thesis using assms
  proof (induction n arbitrary: p val m)
    case (Suc n)
    have "p \<noteq> p + 1 + of_nat i" if "i < n" for i
    proof
      assume "p = p + 1 + of_nat i"
      then have "of_nat (Suc i) = (0 :: u64)" by (simp add: add.assoc)
      then show False using that Suc.prems unat_of_nat64 [of "Suc i"] by simp
    qed
    then have first: "put_bytes n (p + 1) (drop_bit 8 val) (m(p := ucast val)) p = ucast val" by (simp add: other)
    show ?case using Suc
      by (intro bit_word_eqI) (auto simp: first bit_simps)
  qed simp
qed

text \<open>Zeroed memory reads as zero.\<close>

lemma get_bytes_zero: "(\<And>i. i < n \<Longrightarrow> m (p + of_nat i) = 0) \<Longrightarrow> get_bytes n p m = 0"
proof (induction n arbitrary: p)
  case (Suc n)
  have "m p = 0" using Suc.prems [of 0] by simp
  moreover have "get_bytes n (p + 1) m = 0"
    by (rule Suc.IH) (use Suc.prems [of "Suc i" for i] in \<open>simp add: add.assoc\<close>)
  ultimately show ?case by simp
qed simp

end
