(* ===== verification/Reset.thy ===== *)
theory Reset
  imports Entry Demo Byte_Memory
begin

text \<open>
  From the first instruction to the complete output. \<^verbatim>\<open>boot/entry.S\<close> works on the bytes of memory,
  \<^verbatim>\<open>kmain\<close> on the static objects of the kernel. Here the static objects are read from the bytes at
  the addresses the linker gave them: \<open>kernel_from\<close> and \<open>kspace_from\<close> are the state of the kernel
  that a memory holds, by the layout of the structs on RV64. After the entry code every object of
  the bss section reads as its initial value, whatever memory held before, so the theorems about
  \<^verbatim>\<open>kmain\<close> and the tasks apply to the state that the entry code leaves.
\<close>

section \<open>The static objects\<close>

text \<open>The addresses of the objects that are not in \<open>symbols\<close> or \<open>app\<close>.\<close>

record statics =
  g_used_bitmap_at :: addr
  g_managed_base_at :: addr
  g_total_pages_at :: addr
  g_free_pages_at :: addr
  g_kernel_page_table_at :: addr
  s_idle_task_at :: addr
  s_next_id_at :: addr
  s_current_at :: addr
  s_interval_at :: addr
  s_ticks_at :: addr

abbreviation dword :: "addr \<Rightarrow> (addr \<Rightarrow> u8) \<Rightarrow> u64" where
  "dword a m \<equiv> get_bytes 8 a m"

fun state_of_number :: "u64 \<Rightarrow> State" where
  "state_of_number n =
     (if n = 1 then Ready else if n = 2 then Running else if n = 3 then Blocked
      else if n = 4 then Dead else Empty)"

definition context_from :: "addr \<Rightarrow> (addr \<Rightarrow> u8) \<Rightarrow> Context" where
  "context_from a m = \<lparr>ctx_ra = dword a m, ctx_sp = dword (a + 8) m, ctx_s0 = dword (a + 16) m,
     ctx_s1 = dword (a + 24) m, ctx_s2 = dword (a + 32) m, ctx_s3 = dword (a + 40) m,
     ctx_s4 = dword (a + 48) m, ctx_s5 = dword (a + 56) m, ctx_s6 = dword (a + 64) m,
     ctx_s7 = dword (a + 72) m, ctx_s8 = dword (a + 80) m, ctx_s9 = dword (a + 88) m,
     ctx_s10 = dword (a + 96) m, ctx_s11 = dword (a + 104) m\<rparr>"

text \<open>\<^verbatim>\<open>struct Task\<close>: id at 0, state at 4, run_node at 8, context at 24, entry at 136, stack_base at
  144, stack_size at 152.\<close>

definition task_from :: "addr \<Rightarrow> (addr \<Rightarrow> u8) \<Rightarrow> Task" where
  "task_from a m = \<lparr>task_id = ucast (get_bytes 4 a m), task_state = state_of_number (get_bytes 4 (a + 4) m),
     task_context = context_from (a + 24) m, task_entry = dword (a + 136) m,
     stack_base = dword (a + 144) m, stack_size = dword (a + 152) m\<rparr>"

definition nodes_from :: "symbols \<Rightarrow> (addr \<Rightarrow> u8) \<Rightarrow> node_store" where
  "nodes_from y m = (\<lambda>a. if a \<in> set (s_ready_queue_at y # map (node_at y) [0..<32])
     then Some \<lparr>prev_ptr = dword a m, next_ptr = dword (a + 8) m\<rparr> else None)"

text \<open>The devices, the registers and the uninitialised local context of \<^verbatim>\<open>Scheduler::start\<close> are not in
  static memory.\<close>

definition kernel_from ::
  "symbols \<Rightarrow> statics \<Rightarrow> bus \<Rightarrow> csrs \<Rightarrow> Context \<Rightarrow> Context \<Rightarrow> (addr \<Rightarrow> u8) \<Rightarrow> kernel" where
  "kernel_from y st d c regs boot m =
     \<lparr>csr = c, dev = d, s_interval = dword (s_interval_at st) m, s_ticks = dword (s_ticks_at st) m,
      live = regs, boot_ctx = boot,
      s_tasks = map (\<lambda>i. task_from (slot_addr y i) m) [0..<32],
      nodes = nodes_from y m, s_idle_task = dword (s_idle_task_at st) m,
      s_next_id = ucast (get_bytes 4 (s_next_id_at st) m), s_current = dword (s_current_at st) m\<rparr>"

definition pmm_from :: "statics \<Rightarrow> (addr \<Rightarrow> u8) \<Rightarrow> pmm" where
  "pmm_from st m =
     \<lparr>g_used_bitmap = map (\<lambda>i. dword (g_used_bitmap_at st + of_nat (8 * i)) m) [0..<512],
      g_managed_base = dword (g_managed_base_at st) m, g_total_pages = dword (g_total_pages_at st) m,
      g_free_pages = dword (g_free_pages_at st) m\<rparr>"

definition dram_words :: "(addr \<Rightarrow> u8) \<Rightarrow> addr \<Rightarrow> u64 option" where
  "dram_words m = (\<lambda>a. if 0x80000000 \<le> a \<and> a < 0x88000000 then Some (dword a m) else None)"

definition kspace_from :: "statics \<Rightarrow> (addr \<Rightarrow> u8) \<Rightarrow> kspace" where
  "kspace_from st m = \<lparr>kmem_of = \<lparr>pmm_of = pmm_from st m, mem = dram_words m\<rparr>,
     g_kernel_page_table = dword (g_kernel_page_table_at st) m\<rparr>"

section \<open>Where the linker puts them\<close>

definition in_bss :: "linker_symbols \<Rightarrow> addr \<Rightarrow> nat \<Rightarrow> bool" where
  "in_bss L a n \<longleftrightarrow> unat (bss_start_addr L) \<le> unat a \<and> unat a + n \<le> unat (bss_end_addr L)"

definition statics_linked :: "linker_symbols \<Rightarrow> symbols \<Rightarrow> statics \<Rightarrow> app \<Rightarrow> bool" where
  "statics_linked L y st p \<longleftrightarrow>
     in_bss L (g_used_bitmap_at st) 4096 \<and>
     (\<forall>a \<in> {g_managed_base_at st, g_total_pages_at st, g_free_pages_at st, g_kernel_page_table_at st,
        s_idle_task_at st, s_current_at st, s_interval_at st, s_ticks_at st}. in_bss L a 8) \<and>
     in_bss L (s_next_id_at st) 4 \<and>
     in_bss L (s_tasks_at y) (32 * 160) \<and> in_bss L (s_ready_queue_at y) 16 \<and>
     in_bss L (s_idle_stack_at y) 256 \<and>
     in_bss L (g_task_A_stack_at p) 1024 \<and> in_bss L (g_task_B_stack_at p) 1024 \<and>
     (unat (s_ready_queue_at y) + 16 \<le> unat (s_tasks_at y) \<or>
      unat (s_tasks_at y) + 32 * 160 \<le> unat (s_ready_queue_at y))"

definition bss_zero :: "linker_symbols \<Rightarrow> (addr \<Rightarrow> u8) \<Rightarrow> bool" where
  "bss_zero L m \<longleftrightarrow> (\<forall>a. bss_start_addr L \<le> a \<and> a < bss_end_addr L \<longrightarrow> m a = 0)"

section \<open>Reading cleared objects\<close>

lemma get_bytes_bss:
  assumes "bss_zero L m" "in_bss L a k" "off + n \<le> k"
  shows "get_bytes n (a + of_nat off) m = 0"
proof (rule get_bytes_zero)
  fix i assume "i < n"
  have lt: "unat a + (off + i) < unat (bss_end_addr L)"
    using assms(2,3) \<open>i < n\<close> by (simp add: in_bss_def)
  also have "\<dots> < 18446744073709551616" by (rule unat_less_2p64)
  finally have top: "unat a + (off + i) < 18446744073709551616" .
  then have "unat (of_nat (off + i) :: u64) = off + i" by (intro unat_of_nat64) simp
  then have "unat (a + of_nat (off + i)) = unat a + (off + i)"
    using top by (simp add: unat_word_ariths del: of_nat_add)
  then have "unat (a + of_nat off + of_nat i) = unat a + (off + i)" by (simp add: add.assoc)
  then show "m (a + of_nat off + of_nat i) = 0"
    using assms(1,2) lt by (simp add: bss_zero_def in_bss_def word_le_nat_alt word_less_nat_alt)
qed

lemma get_bytes_bss_0: "bss_zero L m \<Longrightarrow> in_bss L a n \<Longrightarrow> get_bytes n a m = 0"
  using get_bytes_bss [of L m a n 0 n] by simp

lemma static_scalars:
  assumes "statics_linked L y st p" "bss_zero L m"
  shows "dword (g_managed_base_at st) m = 0" "dword (g_total_pages_at st) m = 0" "dword (g_free_pages_at st) m = 0"
    "dword (g_kernel_page_table_at st) m = 0" "dword (s_idle_task_at st) m = 0" "dword (s_current_at st) m = 0"
    "dword (s_interval_at st) m = 0" "dword (s_ticks_at st) m = 0" "get_bytes 4 (s_next_id_at st) m = 0"
  by (rule get_bytes_bss_0 [OF assms(2)]; use assms(1) in \<open>simp add: statics_linked_def\<close>)+

lemma pmm_from_bss:
  assumes "statics_linked L y st p" "bss_zero L m"
  shows "pmm_from st m = pmm_static"
proof -
  have "dword (g_used_bitmap_at st + of_nat (8 * i)) m = 0" if "i < 512" for i
    by (rule get_bytes_bss [OF assms(2), of _ 4096]) (use assms(1) that in \<open>simp_all add: statics_linked_def\<close>)
  then have "map (\<lambda>i. dword (g_used_bitmap_at st + of_nat (8 * i)) m) [0..<512] = replicate 512 0"
    by (intro nth_equalityI) simp_all
  then show ?thesis
    by (simp add: pmm_from_def pmm_static_def static_scalars [OF assms] kBitmapWords_def kMaxManagedPages_def
        kBitsPerWord_def)
qed

lemma kspace_from_bss:
  assumes "statics_linked L y st p" "bss_zero L m"
  shows "kspace_from st m = static_space (dram_words m)"
  by (simp add: kspace_from_def static_space_def pmm_from_bss [OF assms] static_scalars [OF assms])

text \<open>The cleared table: thirty-two empty tasks, as a kernel whose static data are zero.\<close>

lemma task_from_bss:
  assumes "bss_zero L m" "in_bss L a 160"
  shows "task_from a m = zero_task"
proof -
  have g: "get_bytes n (a + of_nat off) m = 0" if "off + n \<le> 160" for off n
    using get_bytes_bss [OF assms that] .
  have c: "dword (a + 24 + of_nat off) m = 0" if "off \<le> 104" for off
    using g [of "24 + off" 8] that by (simp add: add.assoc)
  show ?thesis
    using g [of 0 4] g [of 4 4] g [of 136 8] g [of 144 8] g [of 152 8]
      c [of 0] c [of 8] c [of 16] c [of 24] c [of 32] c [of 40] c [of 48] c [of 56] c [of 64] c [of 72] c [of 80] c [of 88] c [of 96] c [of 104]
    by (simp add: task_from_def zero_task_def context_from_def zero_context_def)
qed

lemma symbols_linked:
  assumes "layout_ok L" "statics_linked L y st p"
  shows "symbols_ok y" "g_task_A_stack_at p \<noteq> nullptr" "g_task_B_stack_at p \<noteq> nullptr"
proof -
  have b: "0x80000000 \<le> unat (bss_start_addr L)" "unat (bss_end_addr L) < 0x88000000"
    using assms(1) by (auto simp: layout_ok_def kDram_def word_less_nat_alt word_le_nat_alt)
  have nz: "unat a \<noteq> 0" if "in_bss L a n" for a n using that b(1) by (simp add: in_bss_def)
  show "symbols_ok y" "g_task_A_stack_at p \<noteq> nullptr" "g_task_B_stack_at p \<noteq> nullptr"
    using assms(2) b nz [of "s_tasks_at y"] nz [of "s_ready_queue_at y"] nz [of "s_idle_stack_at y"]
      nz [of "g_task_A_stack_at p"] nz [of "g_task_B_stack_at p"]
    by (auto simp: statics_linked_def symbols_ok_def in_bss_def)
qed

lemma kernel_from_bss:
  assumes "layout_ok L" "statics_linked L y st p" "bss_zero L m"
  shows "pool_ok y (kernel_from y st d c regs boot m)" "s_ticks (kernel_from y st d c regs boot m) = 0"
    "s_tasks (kernel_from y st d c regs boot m) = replicate 32 zero_task"
proof -
  note y = symbols_linked(1) [OF assms(1,2)]
  have "node_at y i \<noteq> nullptr" if "i < 32" for i using node_at_nat [OF y that] by auto
  moreover have "s_ready_queue_at y \<noteq> nullptr" using y by (simp add: symbols_ok_def)
  ultimately show "pool_ok y (kernel_from y st d c regs boot m)"
    using y by (auto simp: pool_ok_def kernel_from_def valid_def nodes_from_def)
  show "s_ticks (kernel_from y st d c regs boot m) = 0"
    by (simp add: kernel_from_def static_scalars [OF assms(2,3)])
  have "task_from (slot_addr y i) m = zero_task" if "i < 32" for i
  proof (rule task_from_bss [OF assms(3)])
    show "in_bss L (slot_addr y i) 160"
      using assms(2) slot_addr_nat [OF y that] that by (auto simp: statics_linked_def in_bss_def)
  qed
  then show "s_tasks (kernel_from y st d c regs boot m) = replicate 32 zero_task"
    by (intro nth_equalityI) (simp_all add: kernel_from_def)
qed

section \<open>Properties\<close>

text \<open>Property (C2): from the first instruction to the last line of the kernel. For every image below
  64 MiB whose static objects the linker placed in the bss section, whatever memory and the
  registers held at reset, the entry code returns and the static objects then read as their initial
  values; \<^verbatim>\<open>kmain\<close> on that state starts the tasks without an invalid access, and no word below the end
  of the kernel has been changed by the construction of the page tables. \<^verbatim>\<open>kmain\<close> arms the timer for
  one interval (ten million ticks) after a reading of mtime, the deadline \<open>D\<close>. Then, for every moment \<open>t\<close> of \<^verbatim>\<open>kmain\<close>
  and every sequence \<open>es\<close> of moments of the tasks: while mtime stays below \<open>D\<close>, the tasks run
  without an invalid access, one turn in every moment (a waiting \<^verbatim>\<open>wfi\<close> of idle apart), and the
  devices have received the boot log and what the tasks say, nothing else; in the moment mtime has
  reached \<open>D\<close> the hart takes the interrupt and goes, after a part of that turn's output, or of the
  boot log behind the write of the deadline, to the vector in mtvec, which is still the one from
  before the reset code: the kernel runs no more. What the tasks say is a prefix of this text, and
  all of it from turn 25 on: the greeting of each task, their ten messages strictly alternating
  from A to B, the exit lines with codes 233 and 137 and the messages of idle, one for every second
  turn from then on. No task but idle is ready or running then.\<close>

theorem reset_to_output:
  assumes "image_size z + 0x9000 < 64 * 1024 * 1024" and "statics_linked (link_layout z) y st p"
    and "app_ok y p" and "responsive g_uart0 d"
  shows "\<exists>e k k1 S n D. start (link_layout z) s = Some e \<and>
    k = kernel_from y st d (entry_csr e) regs boot (entry_mem e) \<and>
    s_tasks k = replicate 32 zero_task \<and> kspace_from st (entry_mem e) = static_space (dram_words (entry_mem e)) \<and>
    kmain (link_layout z) y p k (kspace_from st (entry_mem e)) = Some (k1, S) \<and>
    (\<forall>a. unat a < unat (kernel_end_addr (link_layout z)) \<longrightarrow> mem (kmem_of S) a = dram_words (entry_mem e) a) \<and>
    D = mtime_at k n + 10000000 \<and>
    (\<forall>t es. \<exists>r. run y p es (unless_interrupted t k k1 (Executing (replicate 32 0) k1)) = Some r \<and>
      (case r of
         Executing pcs k' \<Rightarrow> (\<forall>e \<in> set (t # es). mtime_now e < D) \<and>
           (\<exists>i. turns_in 0 es i \<and> logs (boot_log D 0 @ tx (spoken i)) d (dev k') \<and>
             (25 \<le> i \<longrightarrow> s_current k' = s_idle_task k' \<and>
               (\<forall>j < 32. j \<noteq> 0 \<longrightarrow> task_state (s_tasks k' ! j) \<noteq> Ready \<and> task_state (s_tasks k' ! j) \<noteq> Running)))
       | Vectored pc b \<Rightarrow> pc = vector_of (mtvec (entry_csr s)) \<and>
           (D \<le> mtime_now t \<and> (\<exists>w v. boot_log D 0 = w @ v \<and> Dword 0x2004000 D \<in> set w \<and> logs w d b) \<or>
            mtime_now t < D \<and> (\<exists>es1 e es2 i u v. es = es1 @ e # es2 \<and> (\<forall>e \<in> set es1. mtime_now e < D) \<and>
              D \<le> mtime_now e \<and> turns_in 0 es1 i \<and> spoken (Suc i) = spoken i @ u @ v \<and>
              logs (boot_log D 0 @ tx (spoken i @ u)) d b)))) \<and>
    (\<forall>i. (\<exists>v. demo_text ((i - 24) div 2) = spoken i @ v) \<and> (25 \<le> i \<longrightarrow> spoken i = demo_text ((i - 24) div 2)))"
proof -
  let ?L = "link_layout z"
  have z: "image_size z + 0x9000 < 128 * 1024 * 1024" using assms(1) by simp
  note L = link_layout_ok [OF z]
  obtain e where e: "start ?L s = Some e" "bss_zero ?L (entry_mem e)"
    using start_clears [OF z refl] unfolding bss_zero_def by blast
  let ?k = "kernel_from y st d (entry_csr e) regs boot (entry_mem e)" and ?m = "dram_words (entry_mem e)"
  note k = kernel_from_bss [OF L assms(2) e(2), of d "entry_csr e" regs boot]
  note S0 = kspace_from_bss [OF assms(2) e(2)]
  have "console_ready ?k" using assms(4) by (simp add: console_ready_def kernel_from_def)
  moreover have "dram_readable ?m" by (simp add: dram_readable_def dram_words_def)
  ultimately have a: "dram_readable ?m" "console_ready ?k" "pool_ok y ?k"
    "g_task_A_stack_at p \<noteq> nullptr" "g_task_B_stack_at p \<noteq> nullptr"
    using k(1) symbols_linked(2,3) [OF L assms(2)] by blast+
  have f: "dev ?k = d" "mtvec (csr ?k) = mtvec (entry_csr s)"
    using start_csr [OF e(1)] by (simp_all add: kernel_from_def write_satp_def)
  from demo_run [OF assms(1) a assms(3)] obtain k1 S n where
    r: "kmain ?L y p ?k (static_space ?m) = Some (k1, S)"
    "\<forall>a. unat a < unat (kernel_end_addr ?L) \<longrightarrow> mem (kmem_of S) a = ?m a"
    "\<forall>t es. \<exists>r. run y p es (unless_interrupted t ?k k1 (Executing (replicate 32 0) k1)) = Some r \<and>
      system_end (mtime_at ?k n + 10000000) 0 d (vector_of (mtvec (entry_csr s))) t es r"
    unfolding f k(2) by blast
  show ?thesis
    using e(1) k(3) S0 r(1,2) r(3) [unfolded system_end_def] spoken_prefix spoken_late
    by (intro exI [of _ e] exI [of _ ?k] exI [of _ k1] exI [of _ S] exI [of _ n] exI [of _ "mtime_at ?k n + 10000000"]) simp
qed

text \<open>An image whose bss section holds the objects of the other witnesses, over memory full of ones.\<close>

definition linked_image :: section_sizes where
  "linked_image = \<lparr>text_size = 0x8000, rodata_size = 0x1000, data_size = 0x1000, bss_size = 0x18000\<rparr>"

definition linked_statics :: statics where
  "linked_statics = \<lparr>g_used_bitmap_at = 0x8000A000, g_managed_base_at = 0x8000B000, g_total_pages_at = 0x8000B008,
     g_free_pages_at = 0x8000B010, g_kernel_page_table_at = 0x8000B018, s_idle_task_at = 0x8000B020,
     s_next_id_at = 0x8000B028, s_current_at = 0x8000B030, s_interval_at = 0x8000B038, s_ticks_at = 0x8000B040\<rparr>"

lemma linked_statics: "statics_linked (link_layout linked_image) demo_symbols linked_statics demo_app"
proof -
  have "bss_start_addr (link_layout linked_image) = 0x8000A000" "bss_end_addr (link_layout linked_image) = 0x80022000"
    by (simp_all add: link_layout_def ld_align_def linked_image_def)
  then show ?thesis
    by (simp add: statics_linked_def in_bss_def linked_statics_def demo_symbols_def demo_app_def)
qed

text \<open>Witness: on this image the clock stands at \<open>x\<close>. Below the deadline the tasks reach idle and say
  everything; from the deadline on the hart is at the vector 0 that mtvec held at reset.\<close>

lemma reset_to_output_witness:
  "\<exists>e k k1 S D. start (link_layout linked_image) loaded_state = Some e \<and>
    k = kernel_from demo_symbols linked_statics demo_bus (entry_csr e) zero_context zero_context (entry_mem e) \<and>
    kmain (link_layout linked_image) demo_symbols demo_app k (kspace_from linked_statics (entry_mem e)) = Some (k1, S) \<and>
    (\<forall>x b n. \<exists>r. run demo_symbols demo_app (replicate 26 \<lparr>mtime_now = x, wfi_ends = b, before_irq = n\<rparr>)
        (unless_interrupted \<lparr>mtime_now = 0, wfi_ends = b, before_irq = n\<rparr> k k1 (Executing (replicate 32 0) k1)) = Some r \<and>
      (x < D \<longrightarrow> (\<exists>pcs k'. r = Executing pcs k' \<and> s_current k' = s_idle_task k' \<and>
         logs (boot_log D 0 @ tx (demo_text 1)) demo_bus (dev k'))) \<and>
      (D \<le> x \<longrightarrow> (\<exists>c. r = Vectored 0 c)))"
proof -
  have z: "image_size linked_image + 0x9000 < 64 * 1024 * 1024" by (simp add: image_size_def linked_image_def)
  have a: "app_ok demo_symbols demo_app" by (simp add: app_ok_def demo_symbols_def demo_app_def)
  have vec: "vector_of (mtvec (entry_csr loaded_state)) = 0" by (simp add: vector_of_def loaded_state_def)
  from reset_to_output [OF z linked_statics a demo_responsive, of loaded_state zero_context zero_context, folded system_end_def, unfolded vec]
  obtain e k k1 S D where
    k: "start (link_layout linked_image) loaded_state = Some e"
      "k = kernel_from demo_symbols linked_statics demo_bus (entry_csr e) zero_context zero_context (entry_mem e)"
      "kmain (link_layout linked_image) demo_symbols demo_app k (kspace_from linked_statics (entry_mem e)) = Some (k1, S)"
    and run: "\<forall>t es. \<exists>r. run demo_symbols demo_app es (unless_interrupted t k k1 (Executing (replicate 32 0) k1)) = Some r \<and>
      system_end D 0 demo_bus 0 t es r"
    and said: "\<forall>i. 25 \<le> i \<longrightarrow> spoken i = demo_text ((i - 24) div 2)" by blast
  have "\<exists>r. run demo_symbols demo_app (replicate 26 \<lparr>mtime_now = x, wfi_ends = b, before_irq = n\<rparr>)
        (unless_interrupted \<lparr>mtime_now = 0, wfi_ends = b, before_irq = n\<rparr> k k1 (Executing (replicate 32 0) k1)) = Some r \<and>
      (x < D \<longrightarrow> (\<exists>pcs k'. r = Executing pcs k' \<and> s_current k' = s_idle_task k' \<and>
         logs (boot_log D 0 @ tx (demo_text 1)) demo_bus (dev k'))) \<and>
      (D \<le> x \<longrightarrow> (\<exists>c. r = Vectored 0 c))" for x b n
  proof -
    let ?e = "\<lparr>mtime_now = x, wfi_ends = b, before_irq = n\<rparr>" and ?t = "\<lparr>mtime_now = 0, wfi_ends = b, before_irq = n\<rparr>"
    have e: "e' = ?e" if "replicate 26 ?e = es1 @ e' # es2" for es1 e' es2
    proof -
      have "e' \<in> set (replicate 26 ?e)" unfolding that by simp
      then show ?thesis by simp
    qed
    obtain r where r: "run demo_symbols demo_app (replicate 26 ?e) (unless_interrupted ?t k k1 (Executing (replicate 32 0) k1)) = Some r"
      and se: "system_end D 0 demo_bus 0 ?t (replicate 26 ?e) r" using run by blast
    show ?thesis
    proof (cases r)
      case (Executing pcs k')
      with se obtain i where i: "turns_in 0 (replicate 26 ?e) i" "logs (boot_log D 0 @ tx (spoken i)) demo_bus (dev k')"
        "25 \<le> i \<longrightarrow> s_current k' = s_idle_task k'" "x < D" by (auto simp: system_end_def)
      have "i = 26" using i(1) by (auto simp: turns_in_def)
      moreover have "spoken 26 = demo_text 1" using said by simp
      ultimately show ?thesis using r i Executing by auto
    next
      case (Vectored pc c)
      have "D \<le> x" using se e unfolding Vectored system_end_def machine.case
        by (auto dest!: e intro: order_trans)
      with r Vectored se show ?thesis by (auto simp: system_end_def)
    qed
  qed
  with k show ?thesis by blast
qed

end
