(* ===== verification/Encoding.thy ===== *)
theory Encoding
  imports Prelude "HOL-Library.Multiset"
begin

text \<open>
  The constants of \<^verbatim>\<open>tools/riscv64-pk/include/riscv-pk/encoding.h\<close> apart from the instruction
  table: the fields of the control and status registers, interrupt and exception numbers, page
  table entry bits, CSR addresses and instruction fields. A group of object-like macros is a
  list of names and values in the order of the file; function-like macros are functions.
\<close>

section \<open>Interrupt numbers and the bits of mip\<close>

definition irqs :: "(string \<times> nat) list" where
  "irqs = [(''IRQ_U_SOFT'', 0), (''IRQ_S_SOFT'', 1), (''IRQ_VS_SOFT'', 2), (''IRQ_M_SOFT'', 3),
     (''IRQ_U_TIMER'', 4), (''IRQ_S_TIMER'', 5), (''IRQ_VS_TIMER'', 6), (''IRQ_M_TIMER'', 7),
     (''IRQ_U_EXT'', 8), (''IRQ_S_EXT'', 9), (''IRQ_VS_EXT'', 10), (''IRQ_M_EXT'', 11),
     (''IRQ_S_GEXT'', 12), (''IRQ_COP'', 12), (''IRQ_LCOF'', 13), (''IRQ_RAS_LOW_PRIO'', 35),
     (''IRQ_RAS_HIGH_PRIO'', 43)]"

definition irq :: "string \<Rightarrow> nat" where
  "irq n = the (map_of irqs n)"

definition mip_bits :: "(string \<times> u64) list" where
  "mip_bits = [(''MIP_USIP'', push_bit (irq ''IRQ_U_SOFT'') 1),
     (''MIP_SSIP'', push_bit (irq ''IRQ_S_SOFT'') 1), (''MIP_VSSIP'', push_bit (irq ''IRQ_VS_SOFT'') 1),
     (''MIP_MSIP'', push_bit (irq ''IRQ_M_SOFT'') 1), (''MIP_UTIP'', push_bit (irq ''IRQ_U_TIMER'') 1),
     (''MIP_STIP'', push_bit (irq ''IRQ_S_TIMER'') 1),
     (''MIP_VSTIP'', push_bit (irq ''IRQ_VS_TIMER'') 1),
     (''MIP_MTIP'', push_bit (irq ''IRQ_M_TIMER'') 1), (''MIP_UEIP'', push_bit (irq ''IRQ_U_EXT'') 1),
     (''MIP_SEIP'', push_bit (irq ''IRQ_S_EXT'') 1), (''MIP_VSEIP'', push_bit (irq ''IRQ_VS_EXT'') 1),
     (''MIP_MEIP'', push_bit (irq ''IRQ_M_EXT'') 1), (''MIP_SGEIP'', push_bit (irq ''IRQ_S_GEXT'') 1),
     (''MIP_LCOFIP'', push_bit (irq ''IRQ_LCOF'') 1),
     (''MIP_RAS_LOW_PRIO'', push_bit (irq ''IRQ_RAS_LOW_PRIO'') 1),
     (''MIP_RAS_HIGH_PRIO'', push_bit (irq ''IRQ_RAS_HIGH_PRIO'') 1)]"

definition mip :: "string \<Rightarrow> u64" where
  "mip n = the (map_of mip_bits n)"

definition mip_masks :: "(string \<times> u64) list" where
  "mip_masks =
    (let s = mip ''MIP_SSIP'' OR mip ''MIP_STIP'' OR mip ''MIP_SEIP'';
         vs = mip ''MIP_VSSIP'' OR mip ''MIP_VSTIP'' OR mip ''MIP_VSEIP'';
         hs = vs OR mip ''MIP_SGEIP''
     in [(''MIP_S_MASK'', s), (''MIP_VS_MASK'', vs), (''MIP_HS_MASK'', hs), (''MIDELEG_FORCED_MASK'', hs)])"

definition sip_bits :: "(string \<times> u64) list" where
  "sip_bits = [(''SIP_SSIP'', mip ''MIP_SSIP''), (''SIP_STIP'', mip ''MIP_STIP'')]"

section \<open>Fields of the control and status registers\<close>

definition mstatus_fields :: "(string \<times> u64) list" where
  "mstatus_fields = [(''MSTATUS_UIE'', 0x00000001), (''MSTATUS_SIE'', 0x00000002),
     (''MSTATUS_HIE'', 0x00000004), (''MSTATUS_MIE'', 0x00000008), (''MSTATUS_UPIE'', 0x00000010),
     (''MSTATUS_SPIE'', 0x00000020), (''MSTATUS_UBE'', 0x00000040), (''MSTATUS_MPIE'', 0x00000080),
     (''MSTATUS_SPP'', 0x00000100), (''MSTATUS_VS'', 0x00000600), (''MSTATUS_MPP'', 0x00001800),
     (''MSTATUS_FS'', 0x00006000), (''MSTATUS_XS'', 0x00018000), (''MSTATUS_MPRV'', 0x00020000),
     (''MSTATUS_SUM'', 0x00040000), (''MSTATUS_MXR'', 0x00080000), (''MSTATUS_TVM'', 0x00100000),
     (''MSTATUS_TW'', 0x00200000), (''MSTATUS_TSR'', 0x00400000), (''MSTATUS_SPELP'', 0x00800000),
     (''MSTATUS_SDT'', 0x01000000), (''MSTATUS32_SD'', 0x80000000),
     (''MSTATUS_UXL'', 0x0000000300000000), (''MSTATUS_SXL'', 0x0000000c00000000),
     (''MSTATUS_SBE'', 0x0000001000000000), (''MSTATUS_MBE'', 0x0000002000000000),
     (''MSTATUS_GVA'', 0x0000004000000000), (''MSTATUS_MPV'', 0x0000008000000000),
     (''MSTATUS_MPELP'', 0x0000020000000000), (''MSTATUS_MDT'', 0x0000040000000000),
     (''MSTATUS64_SD'', 0x8000000000000000)]"

definition mstatush_fields :: "(string \<times> u64) list" where
  "mstatush_fields = [(''MSTATUSH_SBE'', 0x00000010), (''MSTATUSH_MBE'', 0x00000020),
     (''MSTATUSH_GVA'', 0x00000040), (''MSTATUSH_MPV'', 0x00000080), (''MSTATUSH_MDT'', 0x00000400)]"

definition sstatus_fields :: "(string \<times> u64) list" where
  "sstatus_fields = [(''SSTATUS_UIE'', 0x00000001), (''SSTATUS_SIE'', 0x00000002),
     (''SSTATUS_UPIE'', 0x00000010), (''SSTATUS_SPIE'', 0x00000020), (''SSTATUS_UBE'', 0x00000040),
     (''SSTATUS_SPP'', 0x00000100), (''SSTATUS_VS'', 0x00000600), (''SSTATUS_FS'', 0x00006000),
     (''SSTATUS_XS'', 0x00018000), (''SSTATUS_SUM'', 0x00040000), (''SSTATUS_MXR'', 0x00080000),
     (''SSTATUS_SPELP'', 0x00800000), (''SSTATUS_SDT'', 0x01000000), (''SSTATUS32_SD'', 0x80000000),
     (''SSTATUS_UXL'', 0x0000000300000000), (''SSTATUS64_SD'', 0x8000000000000000)]"

definition hstatus_fields :: "(string \<times> u64) list" where
  "hstatus_fields = [(''HSTATUS_VSXL'', 0x300000000), (''HSTATUS_VTSR'', 0x00400000),
     (''HSTATUS_VTW'', 0x00200000), (''HSTATUS_VTVM'', 0x00100000), (''HSTATUS_VGEIN'', 0x0003f000),
     (''HSTATUS_HU'', 0x00000200), (''HSTATUS_SPVP'', 0x00000100), (''HSTATUS_SPV'', 0x00000080),
     (''HSTATUS_GVA'', 0x00000040), (''HSTATUS_VSBE'', 0x00000020)]"

definition ustatus_fields :: "(string \<times> u64) list" where
  "ustatus_fields = [(''USTATUS_UIE'', 0x00000001), (''USTATUS_UPIE'', 0x00000010)]"

definition mnstatus_fields :: "(string \<times> u64) list" where
  "mnstatus_fields = [(''MNSTATUS_NMIE'', 0x00000008), (''MNSTATUS_MNPP'', 0x00001800),
     (''MNSTATUS_MNPV'', 0x00000080)]"

definition dcsr_fields :: "(string \<times> u64) list" where
  "dcsr_fields = [(''DCSR_XDEBUGVER'', push_bit 28 15), (''DCSR_EXTCAUSE'', push_bit 24 7),
     (''DCSR_CETRIG'', push_bit 19 1), (''DCSR_PELP'', push_bit 18 1),
     (''DCSR_EBREAKVS'', push_bit 17 1), (''DCSR_EBREAKVU'', push_bit 16 1),
     (''DCSR_EBREAKM'', push_bit 15 1), (''DCSR_EBREAKS'', push_bit 13 1),
     (''DCSR_EBREAKU'', push_bit 12 1), (''DCSR_STEPIE'', push_bit 11 1),
     (''DCSR_STOPCOUNT'', push_bit 10 1), (''DCSR_STOPTIME'', push_bit 9 1),
     (''DCSR_CAUSE'', push_bit 6 7), (''DCSR_V'', push_bit 5 1), (''DCSR_MPRVEN'', push_bit 4 1),
     (''DCSR_NMIP'', push_bit 3 1), (''DCSR_STEP'', push_bit 2 1), (''DCSR_PRV'', push_bit 0 3)]"

definition dcsr_causes :: "(string \<times> u64) list" where
  "dcsr_causes = [(''DCSR_CAUSE_NONE'', 0), (''DCSR_CAUSE_SWBP'', 1), (''DCSR_CAUSE_HWBP'', 2),
     (''DCSR_CAUSE_DEBUGINT'', 3), (''DCSR_CAUSE_STEP'', 4), (''DCSR_CAUSE_HALT'', 5),
     (''DCSR_CAUSE_GROUP'', 6)]"

definition mcontrol_fields :: "(string \<times> u64) list" where
  "mcontrol_fields = [(''MCONTROL_SELECT'', push_bit 19 1), (''MCONTROL_TIMING'', push_bit 18 1),
     (''MCONTROL_ACTION'', push_bit 12 0x3f), (''MCONTROL_CHAIN'', push_bit 11 1),
     (''MCONTROL_MATCH'', push_bit 7 0xf), (''MCONTROL_M'', push_bit 6 1),
     (''MCONTROL_H'', push_bit 5 1), (''MCONTROL_S'', push_bit 4 1), (''MCONTROL_U'', push_bit 3 1),
     (''MCONTROL_EXECUTE'', push_bit 2 1), (''MCONTROL_STORE'', push_bit 1 1),
     (''MCONTROL_LOAD'', push_bit 0 1)]"

definition mcontrol_types :: "(string \<times> u64) list" where
  "mcontrol_types = [(''MCONTROL_TYPE_NONE'', 0), (''MCONTROL_TYPE_MATCH'', 2)]"

definition mcontrol_actions :: "(string \<times> u64) list" where
  "mcontrol_actions = [(''MCONTROL_ACTION_DEBUG_EXCEPTION'', 0), (''MCONTROL_ACTION_DEBUG_MODE'', 1),
     (''MCONTROL_ACTION_TRACE_START'', 2), (''MCONTROL_ACTION_TRACE_STOP'', 3),
     (''MCONTROL_ACTION_TRACE_EMIT'', 4)]"

definition mcontrol_matches :: "(string \<times> u64) list" where
  "mcontrol_matches = [(''MCONTROL_MATCH_EQUAL'', 0), (''MCONTROL_MATCH_NAPOT'', 1),
     (''MCONTROL_MATCH_GE'', 2), (''MCONTROL_MATCH_LT'', 3), (''MCONTROL_MATCH_MASK_LOW'', 4),
     (''MCONTROL_MATCH_MASK_HIGH'', 5)]"

definition menvcfg_fields :: "(string \<times> u64) list" where
  "menvcfg_fields = [(''MENVCFG_FIOM'', 0x00000001), (''MENVCFG_LPE'', 0x00000004),
     (''MENVCFG_SSE'', 0x00000008), (''MENVCFG_CBIE'', 0x00000030), (''MENVCFG_CBCFE'', 0x00000040),
     (''MENVCFG_CBZE'', 0x00000080), (''MENVCFG_DTE'', 0x0800000000000000),
     (''MENVCFG_ADUE'', 0x2000000000000000), (''MENVCFG_PBMTE'', 0x4000000000000000),
     (''MENVCFG_STCE'', 0x8000000000000000)]"

definition menvcfgh_fields :: "(string \<times> u64) list" where
  "menvcfgh_fields = [(''MENVCFGH_DTE'', 0x08000000), (''MENVCFGH_ADUE'', 0x20000000),
     (''MENVCFGH_PBMTE'', 0x40000000), (''MENVCFGH_STCE'', 0x80000000)]"

definition mstateen_fields :: "(string \<times> u64) list" where
  "mstateen_fields = [(''MSTATEEN0_CS'', 0x00000001), (''MSTATEEN0_FCSR'', 0x00000002),
     (''MSTATEEN0_JVT'', 0x00000004), (''MSTATEEN0_PRIV114'', 0x0080000000000000),
     (''MSTATEEN0_HCONTEXT'', 0x0200000000000000), (''MSTATEEN0_AIA'', 0x0800000000000000),
     (''MSTATEEN0_CSRIND'', 0x1000000000000000), (''MSTATEEN0_HENVCFG'', 0x4000000000000000),
     (''MSTATEEN_HSTATEEN'', 0x8000000000000000)]"

definition mstateenh_fields :: "(string \<times> u64) list" where
  "mstateenh_fields = [(''MSTATEEN0H_PRIV114'', 0x00800000), (''MSTATEEN0H_HCONTEXT'', 0x02000000),
     (''MSTATEEN0H_AIA'', 0x08000000), (''MSTATEEN0H_CSRIND'', 0x10000000),
     (''MSTATEEN0H_HENVCFG'', 0x40000000), (''MSTATEENH_HSTATEEN'', 0x80000000)]"

definition mhpmevent_fields :: "(string \<times> u64) list" where
  "mhpmevent_fields = [(''MHPMEVENT_VUINH'', 0x0400000000000000),
     (''MHPMEVENT_VSINH'', 0x0800000000000000), (''MHPMEVENT_UINH'', 0x1000000000000000),
     (''MHPMEVENT_SINH'', 0x2000000000000000), (''MHPMEVENT_MINH'', 0x4000000000000000),
     (''MHPMEVENT_OF'', 0x8000000000000000)]"

definition mhpmeventh_fields :: "(string \<times> u64) list" where
  "mhpmeventh_fields = [(''MHPMEVENTH_VUINH'', 0x04000000), (''MHPMEVENTH_VSINH'', 0x08000000),
     (''MHPMEVENTH_UINH'', 0x10000000), (''MHPMEVENTH_SINH'', 0x20000000),
     (''MHPMEVENTH_MINH'', 0x40000000), (''MHPMEVENTH_OF'', 0x80000000)]"

definition henvcfg_fields :: "(string \<times> u64) list" where
  "henvcfg_fields = [(''HENVCFG_FIOM'', 0x00000001), (''HENVCFG_LPE'', 0x00000004),
     (''HENVCFG_SSE'', 0x00000008), (''HENVCFG_CBIE'', 0x00000030), (''HENVCFG_CBCFE'', 0x00000040),
     (''HENVCFG_CBZE'', 0x00000080), (''HENVCFG_DTE'', 0x0800000000000000),
     (''HENVCFG_ADUE'', 0x2000000000000000), (''HENVCFG_PBMTE'', 0x4000000000000000),
     (''HENVCFG_STCE'', 0x8000000000000000)]"

definition henvcfgh_fields :: "(string \<times> u64) list" where
  "henvcfgh_fields = [(''HENVCFGH_DTE'', 0x08000000), (''HENVCFGH_ADUE'', 0x20000000),
     (''HENVCFGH_PBMTE'', 0x40000000), (''HENVCFGH_STCE'', 0x80000000)]"

definition siselect_values :: "(string \<times> u64) list" where
  "siselect_values = [(''SISELECT_SMCDELEG_START'', 0x40), (''SISELECT_SMCDELEG_UNUSED'', 0x41),
     (''SISELECT_SMCDELEG_INSTRET'', 0x42), (''SISELECT_SMCDELEG_INSTRETCFG'', 0x42),
     (''SISELECT_SMCDELEG_HPMCOUNTER_3'', 0x43), (''SISELECT_SMCDELEG_HPMEVENT_3'', 0x43),
     (''SISELECT_SMCDELEG_END'', 0x5f)]"

definition hstateen_fields :: "(string \<times> u64) list" where
  "hstateen_fields = [(''HSTATEEN0_CS'', 0x00000001), (''HSTATEEN0_FCSR'', 0x00000002),
     (''HSTATEEN0_JVT'', 0x00000004), (''HSTATEEN0_SCONTEXT'', 0x0200000000000000),
     (''HSTATEEN0_AIA'', 0x0800000000000000), (''HSTATEEN0_CSRIND'', 0x1000000000000000),
     (''HSTATEEN0_SENVCFG'', 0x4000000000000000), (''HSTATEEN_SSTATEEN'', 0x8000000000000000)]"

definition hstateenh_fields :: "(string \<times> u64) list" where
  "hstateenh_fields = [(''HSTATEEN0H_SCONTEXT'', 0x02000000), (''HSTATEEN0H_AIA'', 0x08000000),
     (''HSTATEEN0H_CSRIND'', 0x10000000), (''HSTATEEN0H_SENVCFG'', 0x40000000),
     (''HSTATEENH_SSTATEEN'', 0x80000000)]"

definition senvcfg_fields :: "(string \<times> u64) list" where
  "senvcfg_fields = [(''SENVCFG_FIOM'', 0x00000001), (''SENVCFG_LPE'', 0x00000004),
     (''SENVCFG_SSE'', 0x00000008), (''SENVCFG_CBIE'', 0x00000030), (''SENVCFG_CBCFE'', 0x00000040),
     (''SENVCFG_CBZE'', 0x00000080)]"

definition sstateen_fields :: "(string \<times> u64) list" where
  "sstateen_fields = [(''SSTATEEN0_CS'', 0x00000001), (''SSTATEEN0_FCSR'', 0x00000002),
     (''SSTATEEN0_JVT'', 0x00000004)]"

definition mseccfg_fields :: "(string \<times> u64) list" where
  "mseccfg_fields = [(''MSECCFG_MML'', 0x00000001), (''MSECCFG_MMWP'', 0x00000002),
     (''MSECCFG_RLB'', 0x00000004), (''MSECCFG_USEED'', 0x00000100), (''MSECCFG_SSEED'', 0x00000200),
     (''MSECCFG_MLPE'', 0x00000400)]"

definition jvt_fields :: "(string \<times> u64) list" where
  "jvt_fields = [(''JVT_MODE'', 0x3f), (''JVT_BASE'', NOT 0x3f)]"

definition hvictl_fields :: "(string \<times> u64) list" where
  "hvictl_fields = [(''HVICTL_VTI'', 0x40000000), (''HVICTL_IID'', 0x003f0000),
     (''HVICTL_DPR'', 0x00000200), (''HVICTL_IPRIOM'', 0x00000100), (''HVICTL_IPRIO'', 0x000000ff)]"

definition mtopi_fields :: "(string \<times> u64) list" where
  "mtopi_fields = [(''MTOPI_IID'', 0x0fff0000), (''MTOPI_IPRIO'', 0x000000ff)]"

definition satp_fields :: "(string \<times> u64) list" where
  "satp_fields = [(''SATP32_MODE'', 0x80000000), (''SATP32_ASID'', 0x7fc00000),
     (''SATP32_PPN'', 0x003fffff), (''SATP64_MODE'', 0xf000000000000000),
     (''SATP64_ASID'', 0x0ffff00000000000), (''SATP64_PPN'', 0x00000fffffffffff)]"

definition satp_modes :: "(string \<times> u64) list" where
  "satp_modes = [(''SATP_MODE_OFF'', 0), (''SATP_MODE_SV32'', 1), (''SATP_MODE_SV39'', 8),
     (''SATP_MODE_SV48'', 9), (''SATP_MODE_SV57'', 10), (''SATP_MODE_SV64'', 11)]"

definition hgatp32_fields :: "(string \<times> u64) list" where
  "hgatp32_fields = [(''HGATP32_MODE'', 0x80000000), (''HGATP32_VMID'', 0x1fc00000),
     (''HGATP32_PPN'', 0x003fffff)]"

definition hgatp64_fields :: "(string \<times> u64) list" where
  "hgatp64_fields = [(''HGATP64_MODE'', 0xf000000000000000), (''HGATP64_VMID'', 0x03fff00000000000),
     (''HGATP64_PPN'', 0x00000fffffffffff)]"

definition hgatp_modes :: "(string \<times> u64) list" where
  "hgatp_modes = [(''HGATP_MODE_OFF'', 0), (''HGATP_MODE_SV32X4'', 1), (''HGATP_MODE_SV39X4'', 8),
     (''HGATP_MODE_SV48X4'', 9), (''HGATP_MODE_SV57X4'', 10)]"

definition pmp_fields :: "(string \<times> u64) list" where
  "pmp_fields = [(''PMP_R'', 0x01), (''PMP_W'', 0x02), (''PMP_X'', 0x04), (''PMP_A'', 0x18),
     (''PMP_L'', 0x80), (''PMP_SHIFT'', 2)]"

definition pmp_modes :: "(string \<times> u64) list" where
  "pmp_modes = [(''PMP_TOR'', 0x08), (''PMP_NA4'', 0x10), (''PMP_NAPOT'', 0x18)]"

definition srmcfg_fields :: "(string \<times> u64) list" where
  "srmcfg_fields = [(''SRMCFG_RCID'', 0x00000fff), (''SRMCFG_MCID'', 0x0fff0000)]"

definition software_check_codes :: "(string \<times> u64) list" where
  "software_check_codes = [(''LANDING_PAD_FAULT'', 2), (''SHADOW_STACK_FAULT'', 3)]"

definition MCONTROL_TYPE :: "nat \<Rightarrow> u64" where
  "MCONTROL_TYPE xlen = push_bit (xlen - 4) 0xf"

definition MCONTROL_DMODE :: "nat \<Rightarrow> u64" where
  "MCONTROL_DMODE xlen = push_bit (xlen - 5) 1"

definition MCONTROL_MASKMAX :: "nat \<Rightarrow> u64" where
  "MCONTROL_MASKMAX xlen = push_bit (xlen - 11) 0x3f"

definition PRV_U :: nat where "PRV_U = 0"
definition PRV_S :: nat where "PRV_S = 1"
definition PRV_M :: nat where "PRV_M = 3"
definition PRV_HS :: nat where "PRV_HS = PRV_S + 1"

section \<open>Page table entries\<close>

definition pte_fields :: "(string \<times> u64) list" where
  "pte_fields = [(''PTE_V'', 0x001), (''PTE_R'', 0x002), (''PTE_W'', 0x004), (''PTE_X'', 0x008),
     (''PTE_U'', 0x010), (''PTE_G'', 0x020), (''PTE_A'', 0x040), (''PTE_D'', 0x080),
     (''PTE_SOFT'', 0x300), (''PTE_RSVD'', 0x1fc0000000000000), (''PTE_PBMT'', 0x6000000000000000),
     (''PTE_N'', 0x8000000000000000), (''PTE_ATTR'', 0xffc0000000000000)]"

definition PTE_PPN_SHIFT :: nat where "PTE_PPN_SHIFT = 10"

definition pte_bit :: "string \<Rightarrow> u64" where
  "pte_bit n = the (map_of pte_fields n)"

definition PTE_TABLE :: "u64 \<Rightarrow> bool" where
  "PTE_TABLE e \<longleftrightarrow> e AND (pte_bit ''PTE_V'' OR pte_bit ''PTE_R'' OR pte_bit ''PTE_W'' OR pte_bit ''PTE_X'') = pte_bit ''PTE_V''"

text \<open>The definitions for \<^verbatim>\<open>__riscv_xlen == 64\<close>.\<close>

definition MSTATUS_SD :: u64 where "MSTATUS_SD = the (map_of mstatus_fields ''MSTATUS64_SD'')"
definition SSTATUS_SD :: u64 where "SSTATUS_SD = the (map_of sstatus_fields ''SSTATUS64_SD'')"
definition RISCV_PGLEVEL_BITS :: nat where "RISCV_PGLEVEL_BITS = 9"
definition SATP_MODE :: u64 where "SATP_MODE = the (map_of satp_fields ''SATP64_MODE'')"
definition RISCV_PGSHIFT :: nat where "RISCV_PGSHIFT = 12"
definition RISCV_PGSIZE :: u64 where "RISCV_PGSIZE = push_bit RISCV_PGSHIFT 1"

text \<open>The CSR access macros on the value of the register: the result of the instruction and the
  new value.\<close>

definition read_csr :: "u64 \<Rightarrow> u64 \<times> u64" where "read_csr v = (v, v)"
definition write_csr :: "u64 \<Rightarrow> u64 \<Rightarrow> u64" where "write_csr val v = val"
definition swap_csr :: "u64 \<Rightarrow> u64 \<Rightarrow> u64 \<times> u64" where "swap_csr val v = (v, val)"
definition set_csr :: "u64 \<Rightarrow> u64 \<Rightarrow> u64 \<times> u64" where "set_csr bits v = (v, v OR bits)"
definition clear_csr :: "u64 \<Rightarrow> u64 \<Rightarrow> u64 \<times> u64" where "clear_csr bits v = (v, v AND NOT bits)"

section \<open>CSR addresses\<close>

definition csrs_1 :: "(string \<times> u32) list" where
  "csrs_1 = [(''FFLAGS'', 0x1), (''FRM'', 0x2), (''FCSR'', 0x3), (''VSTART'', 0x8), (''VXSAT'', 0x9),
     (''VXRM'', 0xa), (''VCSR'', 0xf), (''SSP'', 0x11), (''SEED'', 0x15), (''JVT'', 0x17),
     (''CYCLE'', 0xc00), (''TIME'', 0xc01), (''INSTRET'', 0xc02), (''HPMCOUNTER3'', 0xc03),
     (''HPMCOUNTER4'', 0xc04), (''HPMCOUNTER5'', 0xc05), (''HPMCOUNTER6'', 0xc06),
     (''HPMCOUNTER7'', 0xc07), (''HPMCOUNTER8'', 0xc08), (''HPMCOUNTER9'', 0xc09),
     (''HPMCOUNTER10'', 0xc0a), (''HPMCOUNTER11'', 0xc0b), (''HPMCOUNTER12'', 0xc0c),
     (''HPMCOUNTER13'', 0xc0d), (''HPMCOUNTER14'', 0xc0e), (''HPMCOUNTER15'', 0xc0f),
     (''HPMCOUNTER16'', 0xc10), (''HPMCOUNTER17'', 0xc11), (''HPMCOUNTER18'', 0xc12),
     (''HPMCOUNTER19'', 0xc13), (''HPMCOUNTER20'', 0xc14), (''HPMCOUNTER21'', 0xc15),
     (''HPMCOUNTER22'', 0xc16), (''HPMCOUNTER23'', 0xc17), (''HPMCOUNTER24'', 0xc18),
     (''HPMCOUNTER25'', 0xc19), (''HPMCOUNTER26'', 0xc1a), (''HPMCOUNTER27'', 0xc1b),
     (''HPMCOUNTER28'', 0xc1c), (''HPMCOUNTER29'', 0xc1d), (''HPMCOUNTER30'', 0xc1e),
     (''HPMCOUNTER31'', 0xc1f), (''VL'', 0xc20), (''VTYPE'', 0xc21), (''VLENB'', 0xc22),
     (''SSTATUS'', 0x100), (''SEDELEG'', 0x102), (''SIDELEG'', 0x103), (''SIE'', 0x104),
     (''STVEC'', 0x105), (''SCOUNTEREN'', 0x106), (''SENVCFG'', 0x10a), (''SSTATEEN0'', 0x10c),
     (''SSTATEEN1'', 0x10d), (''SSTATEEN2'', 0x10e), (''SSTATEEN3'', 0x10f), (''SCOUNTINHIBIT'', 0x120),
     (''SSCRATCH'', 0x140), (''SEPC'', 0x141), (''SCAUSE'', 0x142), (''STVAL'', 0x143),
     (''SIP'', 0x144), (''STIMECMP'', 0x14d), (''SISELECT'', 0x150), (''SIREG'', 0x151),
     (''SIREG2'', 0x152), (''SIREG3'', 0x153), (''SIREG4'', 0x155), (''SIREG5'', 0x156),
     (''SIREG6'', 0x157), (''STOPEI'', 0x15c), (''SATP'', 0x180), (''SRMCFG'', 0x181),
     (''SCONTEXT'', 0x5a8), (''VSSTATUS'', 0x200), (''VSIE'', 0x204), (''VSTVEC'', 0x205),
     (''VSSCRATCH'', 0x240), (''VSEPC'', 0x241), (''VSCAUSE'', 0x242), (''VSTVAL'', 0x243),
     (''VSIP'', 0x244), (''VSTIMECMP'', 0x24d), (''VSISELECT'', 0x250), (''VSIREG'', 0x251),
     (''VSIREG2'', 0x252), (''VSIREG3'', 0x253), (''VSIREG4'', 0x255), (''VSIREG5'', 0x256),
     (''VSIREG6'', 0x257), (''VSTOPEI'', 0x25c), (''VSATP'', 0x280), (''HSTATUS'', 0x600),
     (''HEDELEG'', 0x602), (''HIDELEG'', 0x603), (''HIE'', 0x604), (''HTIMEDELTA'', 0x605),
     (''HCOUNTEREN'', 0x606), (''HGEIE'', 0x607), (''HVIEN'', 0x608), (''HVICTL'', 0x609),
     (''HENVCFG'', 0x60a), (''HSTATEEN0'', 0x60c), (''HSTATEEN1'', 0x60d), (''HSTATEEN2'', 0x60e),
     (''HSTATEEN3'', 0x60f), (''HTVAL'', 0x643), (''HIP'', 0x644), (''HVIP'', 0x645),
     (''HVIPRIO1'', 0x646), (''HVIPRIO2'', 0x647), (''HTINST'', 0x64a), (''HGATP'', 0x680)]"

definition csrs_2 :: "(string \<times> u32) list" where
  "csrs_2 = [(''HCONTEXT'', 0x6a8), (''HGEIP'', 0xe12), (''VSTOPI'', 0xeb0), (''SCOUNTOVF'', 0xda0),
     (''STOPI'', 0xdb0), (''UTVT'', 0x7), (''UNXTI'', 0x45), (''UINTSTATUS'', 0x46),
     (''USCRATCHCSW'', 0x48), (''USCRATCHCSWL'', 0x49), (''STVT'', 0x107), (''SNXTI'', 0x145),
     (''SINTSTATUS'', 0x146), (''SSCRATCHCSW'', 0x148), (''SSCRATCHCSWL'', 0x149), (''MTVT'', 0x307),
     (''MNXTI'', 0x345), (''MINTSTATUS'', 0x346), (''MSCRATCHCSW'', 0x348), (''MSCRATCHCSWL'', 0x349),
     (''MSTATUS'', 0x300), (''MISA'', 0x301), (''MEDELEG'', 0x302), (''MIDELEG'', 0x303),
     (''MIE'', 0x304), (''MTVEC'', 0x305), (''MCOUNTEREN'', 0x306), (''MVIEN'', 0x308),
     (''MVIP'', 0x309), (''MENVCFG'', 0x30a), (''MSTATEEN0'', 0x30c), (''MSTATEEN1'', 0x30d),
     (''MSTATEEN2'', 0x30e), (''MSTATEEN3'', 0x30f), (''MCOUNTINHIBIT'', 0x320), (''MSCRATCH'', 0x340),
     (''MEPC'', 0x341), (''MCAUSE'', 0x342), (''MTVAL'', 0x343), (''MIP'', 0x344), (''MTINST'', 0x34a),
     (''MTVAL2'', 0x34b), (''MISELECT'', 0x350), (''MIREG'', 0x351), (''MIREG2'', 0x352),
     (''MIREG3'', 0x353), (''MIREG4'', 0x355), (''MIREG5'', 0x356), (''MIREG6'', 0x357),
     (''MTOPEI'', 0x35c), (''PMPCFG0'', 0x3a0), (''PMPCFG1'', 0x3a1), (''PMPCFG2'', 0x3a2),
     (''PMPCFG3'', 0x3a3), (''PMPCFG4'', 0x3a4), (''PMPCFG5'', 0x3a5), (''PMPCFG6'', 0x3a6),
     (''PMPCFG7'', 0x3a7), (''PMPCFG8'', 0x3a8), (''PMPCFG9'', 0x3a9), (''PMPCFG10'', 0x3aa),
     (''PMPCFG11'', 0x3ab), (''PMPCFG12'', 0x3ac), (''PMPCFG13'', 0x3ad), (''PMPCFG14'', 0x3ae),
     (''PMPCFG15'', 0x3af), (''PMPADDR0'', 0x3b0), (''PMPADDR1'', 0x3b1), (''PMPADDR2'', 0x3b2),
     (''PMPADDR3'', 0x3b3), (''PMPADDR4'', 0x3b4), (''PMPADDR5'', 0x3b5), (''PMPADDR6'', 0x3b6),
     (''PMPADDR7'', 0x3b7), (''PMPADDR8'', 0x3b8), (''PMPADDR9'', 0x3b9), (''PMPADDR10'', 0x3ba),
     (''PMPADDR11'', 0x3bb), (''PMPADDR12'', 0x3bc), (''PMPADDR13'', 0x3bd), (''PMPADDR14'', 0x3be),
     (''PMPADDR15'', 0x3bf), (''PMPADDR16'', 0x3c0), (''PMPADDR17'', 0x3c1), (''PMPADDR18'', 0x3c2),
     (''PMPADDR19'', 0x3c3), (''PMPADDR20'', 0x3c4), (''PMPADDR21'', 0x3c5), (''PMPADDR22'', 0x3c6),
     (''PMPADDR23'', 0x3c7), (''PMPADDR24'', 0x3c8), (''PMPADDR25'', 0x3c9), (''PMPADDR26'', 0x3ca),
     (''PMPADDR27'', 0x3cb), (''PMPADDR28'', 0x3cc), (''PMPADDR29'', 0x3cd), (''PMPADDR30'', 0x3ce),
     (''PMPADDR31'', 0x3cf), (''PMPADDR32'', 0x3d0), (''PMPADDR33'', 0x3d1), (''PMPADDR34'', 0x3d2),
     (''PMPADDR35'', 0x3d3), (''PMPADDR36'', 0x3d4), (''PMPADDR37'', 0x3d5), (''PMPADDR38'', 0x3d6),
     (''PMPADDR39'', 0x3d7), (''PMPADDR40'', 0x3d8), (''PMPADDR41'', 0x3d9), (''PMPADDR42'', 0x3da),
     (''PMPADDR43'', 0x3db), (''PMPADDR44'', 0x3dc), (''PMPADDR45'', 0x3dd), (''PMPADDR46'', 0x3de)]"

definition csrs_3 :: "(string \<times> u32) list" where
  "csrs_3 = [(''PMPADDR47'', 0x3df), (''PMPADDR48'', 0x3e0), (''PMPADDR49'', 0x3e1),
     (''PMPADDR50'', 0x3e2), (''PMPADDR51'', 0x3e3), (''PMPADDR52'', 0x3e4), (''PMPADDR53'', 0x3e5),
     (''PMPADDR54'', 0x3e6), (''PMPADDR55'', 0x3e7), (''PMPADDR56'', 0x3e8), (''PMPADDR57'', 0x3e9),
     (''PMPADDR58'', 0x3ea), (''PMPADDR59'', 0x3eb), (''PMPADDR60'', 0x3ec), (''PMPADDR61'', 0x3ed),
     (''PMPADDR62'', 0x3ee), (''PMPADDR63'', 0x3ef), (''MSECCFG'', 0x747), (''TSELECT'', 0x7a0),
     (''TDATA1'', 0x7a1), (''TDATA2'', 0x7a2), (''TDATA3'', 0x7a3), (''TINFO'', 0x7a4),
     (''TCONTROL'', 0x7a5), (''MCONTEXT'', 0x7a8), (''MSCONTEXT'', 0x7aa), (''DCSR'', 0x7b0),
     (''DPC'', 0x7b1), (''DSCRATCH0'', 0x7b2), (''DSCRATCH1'', 0x7b3), (''MCYCLE'', 0xb00),
     (''MINSTRET'', 0xb02), (''MHPMCOUNTER3'', 0xb03), (''MHPMCOUNTER4'', 0xb04),
     (''MHPMCOUNTER5'', 0xb05), (''MHPMCOUNTER6'', 0xb06), (''MHPMCOUNTER7'', 0xb07),
     (''MHPMCOUNTER8'', 0xb08), (''MHPMCOUNTER9'', 0xb09), (''MHPMCOUNTER10'', 0xb0a),
     (''MHPMCOUNTER11'', 0xb0b), (''MHPMCOUNTER12'', 0xb0c), (''MHPMCOUNTER13'', 0xb0d),
     (''MHPMCOUNTER14'', 0xb0e), (''MHPMCOUNTER15'', 0xb0f), (''MHPMCOUNTER16'', 0xb10),
     (''MHPMCOUNTER17'', 0xb11), (''MHPMCOUNTER18'', 0xb12), (''MHPMCOUNTER19'', 0xb13),
     (''MHPMCOUNTER20'', 0xb14), (''MHPMCOUNTER21'', 0xb15), (''MHPMCOUNTER22'', 0xb16),
     (''MHPMCOUNTER23'', 0xb17), (''MHPMCOUNTER24'', 0xb18), (''MHPMCOUNTER25'', 0xb19),
     (''MHPMCOUNTER26'', 0xb1a), (''MHPMCOUNTER27'', 0xb1b), (''MHPMCOUNTER28'', 0xb1c),
     (''MHPMCOUNTER29'', 0xb1d), (''MHPMCOUNTER30'', 0xb1e), (''MHPMCOUNTER31'', 0xb1f),
     (''MCYCLECFG'', 0x321), (''MINSTRETCFG'', 0x322), (''MHPMEVENT3'', 0x323), (''MHPMEVENT4'', 0x324),
     (''MHPMEVENT5'', 0x325), (''MHPMEVENT6'', 0x326), (''MHPMEVENT7'', 0x327), (''MHPMEVENT8'', 0x328),
     (''MHPMEVENT9'', 0x329), (''MHPMEVENT10'', 0x32a), (''MHPMEVENT11'', 0x32b),
     (''MHPMEVENT12'', 0x32c), (''MHPMEVENT13'', 0x32d), (''MHPMEVENT14'', 0x32e),
     (''MHPMEVENT15'', 0x32f), (''MHPMEVENT16'', 0x330), (''MHPMEVENT17'', 0x331),
     (''MHPMEVENT18'', 0x332), (''MHPMEVENT19'', 0x333), (''MHPMEVENT20'', 0x334),
     (''MHPMEVENT21'', 0x335), (''MHPMEVENT22'', 0x336), (''MHPMEVENT23'', 0x337),
     (''MHPMEVENT24'', 0x338), (''MHPMEVENT25'', 0x339), (''MHPMEVENT26'', 0x33a),
     (''MHPMEVENT27'', 0x33b), (''MHPMEVENT28'', 0x33c), (''MHPMEVENT29'', 0x33d),
     (''MHPMEVENT30'', 0x33e), (''MHPMEVENT31'', 0x33f), (''MVENDORID'', 0xf11), (''MARCHID'', 0xf12),
     (''MIMPID'', 0xf13), (''MHARTID'', 0xf14), (''MCONFIGPTR'', 0xf15), (''MTOPI'', 0xfb0),
     (''SIEH'', 0x114), (''SIPH'', 0x154), (''STIMECMPH'', 0x15d), (''VSIEH'', 0x214),
     (''VSIPH'', 0x254), (''VSTIMECMPH'', 0x25d), (''HTIMEDELTAH'', 0x615), (''HIDELEGH'', 0x613),
     (''HVIENH'', 0x618), (''HENVCFGH'', 0x61a), (''HVIPH'', 0x655), (''HVIPRIO1H'', 0x656),
     (''HVIPRIO2H'', 0x657), (''HSTATEEN0H'', 0x61c), (''HSTATEEN1H'', 0x61d)]"

definition csrs_4 :: "(string \<times> u32) list" where
  "csrs_4 = [(''HSTATEEN2H'', 0x61e), (''HSTATEEN3H'', 0x61f), (''CYCLEH'', 0xc80), (''TIMEH'', 0xc81),
     (''INSTRETH'', 0xc82), (''HPMCOUNTER3H'', 0xc83), (''HPMCOUNTER4H'', 0xc84),
     (''HPMCOUNTER5H'', 0xc85), (''HPMCOUNTER6H'', 0xc86), (''HPMCOUNTER7H'', 0xc87),
     (''HPMCOUNTER8H'', 0xc88), (''HPMCOUNTER9H'', 0xc89), (''HPMCOUNTER10H'', 0xc8a),
     (''HPMCOUNTER11H'', 0xc8b), (''HPMCOUNTER12H'', 0xc8c), (''HPMCOUNTER13H'', 0xc8d),
     (''HPMCOUNTER14H'', 0xc8e), (''HPMCOUNTER15H'', 0xc8f), (''HPMCOUNTER16H'', 0xc90),
     (''HPMCOUNTER17H'', 0xc91), (''HPMCOUNTER18H'', 0xc92), (''HPMCOUNTER19H'', 0xc93),
     (''HPMCOUNTER20H'', 0xc94), (''HPMCOUNTER21H'', 0xc95), (''HPMCOUNTER22H'', 0xc96),
     (''HPMCOUNTER23H'', 0xc97), (''HPMCOUNTER24H'', 0xc98), (''HPMCOUNTER25H'', 0xc99),
     (''HPMCOUNTER26H'', 0xc9a), (''HPMCOUNTER27H'', 0xc9b), (''HPMCOUNTER28H'', 0xc9c),
     (''HPMCOUNTER29H'', 0xc9d), (''HPMCOUNTER30H'', 0xc9e), (''HPMCOUNTER31H'', 0xc9f),
     (''MSTATUSH'', 0x310), (''MIDELEGH'', 0x313), (''MIEH'', 0x314), (''MVIENH'', 0x318),
     (''MVIPH'', 0x319), (''MENVCFGH'', 0x31a), (''MSTATEEN0H'', 0x31c), (''MSTATEEN1H'', 0x31d),
     (''MSTATEEN2H'', 0x31e), (''MSTATEEN3H'', 0x31f), (''MIPH'', 0x354), (''MCYCLECFGH'', 0x721),
     (''MINSTRETCFGH'', 0x722), (''MHPMEVENT3H'', 0x723), (''MHPMEVENT4H'', 0x724),
     (''MHPMEVENT5H'', 0x725), (''MHPMEVENT6H'', 0x726), (''MHPMEVENT7H'', 0x727),
     (''MHPMEVENT8H'', 0x728), (''MHPMEVENT9H'', 0x729), (''MHPMEVENT10H'', 0x72a),
     (''MHPMEVENT11H'', 0x72b), (''MHPMEVENT12H'', 0x72c), (''MHPMEVENT13H'', 0x72d),
     (''MHPMEVENT14H'', 0x72e), (''MHPMEVENT15H'', 0x72f), (''MHPMEVENT16H'', 0x730),
     (''MHPMEVENT17H'', 0x731), (''MHPMEVENT18H'', 0x732), (''MHPMEVENT19H'', 0x733),
     (''MHPMEVENT20H'', 0x734), (''MHPMEVENT21H'', 0x735), (''MHPMEVENT22H'', 0x736),
     (''MHPMEVENT23H'', 0x737), (''MHPMEVENT24H'', 0x738), (''MHPMEVENT25H'', 0x739),
     (''MHPMEVENT26H'', 0x73a), (''MHPMEVENT27H'', 0x73b), (''MHPMEVENT28H'', 0x73c),
     (''MHPMEVENT29H'', 0x73d), (''MHPMEVENT30H'', 0x73e), (''MHPMEVENT31H'', 0x73f),
     (''MNSCRATCH'', 0x740), (''MNEPC'', 0x741), (''MNCAUSE'', 0x742), (''MNSTATUS'', 0x744),
     (''MSECCFGH'', 0x757), (''MCYCLEH'', 0xb80), (''MINSTRETH'', 0xb82), (''MHPMCOUNTER3H'', 0xb83),
     (''MHPMCOUNTER4H'', 0xb84), (''MHPMCOUNTER5H'', 0xb85), (''MHPMCOUNTER6H'', 0xb86),
     (''MHPMCOUNTER7H'', 0xb87), (''MHPMCOUNTER8H'', 0xb88), (''MHPMCOUNTER9H'', 0xb89),
     (''MHPMCOUNTER10H'', 0xb8a), (''MHPMCOUNTER11H'', 0xb8b), (''MHPMCOUNTER12H'', 0xb8c),
     (''MHPMCOUNTER13H'', 0xb8d), (''MHPMCOUNTER14H'', 0xb8e), (''MHPMCOUNTER15H'', 0xb8f),
     (''MHPMCOUNTER16H'', 0xb90), (''MHPMCOUNTER17H'', 0xb91), (''MHPMCOUNTER18H'', 0xb92),
     (''MHPMCOUNTER19H'', 0xb93), (''MHPMCOUNTER20H'', 0xb94), (''MHPMCOUNTER21H'', 0xb95),
     (''MHPMCOUNTER22H'', 0xb96), (''MHPMCOUNTER23H'', 0xb97), (''MHPMCOUNTER24H'', 0xb98),
     (''MHPMCOUNTER25H'', 0xb99), (''MHPMCOUNTER26H'', 0xb9a), (''MHPMCOUNTER27H'', 0xb9b),
     (''MHPMCOUNTER28H'', 0xb9c), (''MHPMCOUNTER29H'', 0xb9d), (''MHPMCOUNTER30H'', 0xb9e),
     (''MHPMCOUNTER31H'', 0xb9f)]"

definition csr_table :: "(string \<times> u32) list" where
  "csr_table = concat [csrs_1, csrs_2, csrs_3, csrs_4]"

section \<open>Exceptions and instruction fields\<close>

definition causes :: "(string \<times> u64) list" where
  "causes = [(''CAUSE_MISALIGNED_FETCH'', 0x0), (''CAUSE_FETCH_ACCESS'', 0x1),
     (''CAUSE_ILLEGAL_INSTRUCTION'', 0x2), (''CAUSE_BREAKPOINT'', 0x3),
     (''CAUSE_MISALIGNED_LOAD'', 0x4), (''CAUSE_LOAD_ACCESS'', 0x5), (''CAUSE_MISALIGNED_STORE'', 0x6),
     (''CAUSE_STORE_ACCESS'', 0x7), (''CAUSE_USER_ECALL'', 0x8), (''CAUSE_SUPERVISOR_ECALL'', 0x9),
     (''CAUSE_VIRTUAL_SUPERVISOR_ECALL'', 0xa), (''CAUSE_MACHINE_ECALL'', 0xb),
     (''CAUSE_FETCH_PAGE_FAULT'', 0xc), (''CAUSE_LOAD_PAGE_FAULT'', 0xd),
     (''CAUSE_STORE_PAGE_FAULT'', 0xf), (''CAUSE_SOFTWARE_CHECK_FAULT'', 0x12),
     (''CAUSE_HARDWARE_ERROR_FAULT'', 0x13), (''CAUSE_FETCH_GUEST_PAGE_FAULT'', 0x14),
     (''CAUSE_LOAD_GUEST_PAGE_FAULT'', 0x15), (''CAUSE_VIRTUAL_INSTRUCTION'', 0x16),
     (''CAUSE_STORE_GUEST_PAGE_FAULT'', 0x17)]"

text \<open>The names that \<^verbatim>\<open>DECLARE_CAUSE\<close> gives them.\<close>

definition cause_names :: "(string \<times> string) list" where
  "cause_names = [(''CAUSE_MISALIGNED_FETCH'', ''misaligned fetch''),
     (''CAUSE_FETCH_ACCESS'', ''fetch access''),
     (''CAUSE_ILLEGAL_INSTRUCTION'', ''illegal instruction''), (''CAUSE_BREAKPOINT'', ''breakpoint''),
     (''CAUSE_MISALIGNED_LOAD'', ''misaligned load''), (''CAUSE_LOAD_ACCESS'', ''load access''),
     (''CAUSE_MISALIGNED_STORE'', ''misaligned store''), (''CAUSE_STORE_ACCESS'', ''store access''),
     (''CAUSE_USER_ECALL'', ''user_ecall''), (''CAUSE_SUPERVISOR_ECALL'', ''supervisor_ecall''),
     (''CAUSE_VIRTUAL_SUPERVISOR_ECALL'', ''virtual_supervisor_ecall''),
     (''CAUSE_MACHINE_ECALL'', ''machine_ecall''), (''CAUSE_FETCH_PAGE_FAULT'', ''fetch page fault''),
     (''CAUSE_LOAD_PAGE_FAULT'', ''load page fault''),
     (''CAUSE_STORE_PAGE_FAULT'', ''store page fault''),
     (''CAUSE_SOFTWARE_CHECK_FAULT'', ''software check fault''),
     (''CAUSE_HARDWARE_ERROR_FAULT'', ''hardware error fault''),
     (''CAUSE_FETCH_GUEST_PAGE_FAULT'', ''fetch guest page fault''),
     (''CAUSE_LOAD_GUEST_PAGE_FAULT'', ''load guest page fault''),
     (''CAUSE_VIRTUAL_INSTRUCTION'', ''virtual instruction''),
     (''CAUSE_STORE_GUEST_PAGE_FAULT'', ''store guest page fault'')]"

definition insn_fields :: "(string \<times> u64) list" where
  "insn_fields = [(''INSN_FIELD_RD'', 0xf80), (''INSN_FIELD_RT'', 0xf8000),
     (''INSN_FIELD_RS1'', 0xf8000), (''INSN_FIELD_RS2'', 0x1f00000), (''INSN_FIELD_RS3'', 0xf8000000),
     (''INSN_FIELD_AQRL'', 0x6000000), (''INSN_FIELD_AQ'', 0x4000000), (''INSN_FIELD_RL'', 0x2000000),
     (''INSN_FIELD_FM'', 0xf0000000), (''INSN_FIELD_PRED'', 0xf000000), (''INSN_FIELD_SUCC'', 0xf00000),
     (''INSN_FIELD_RM'', 0x7000), (''INSN_FIELD_FUNCT3'', 0x7000), (''INSN_FIELD_FUNCT2'', 0x6000000),
     (''INSN_FIELD_IMM20'', 0xfffff000), (''INSN_FIELD_JIMM20'', 0xfffff000),
     (''INSN_FIELD_IMM12'', 0xfff00000), (''INSN_FIELD_CSR'', 0xfff00000),
     (''INSN_FIELD_IMM12HI'', 0xfe000000), (''INSN_FIELD_BIMM12HI'', 0xfe000000),
     (''INSN_FIELD_IMM12LO'', 0xf80), (''INSN_FIELD_BIMM12LO'', 0xf80),
     (''INSN_FIELD_SHAMTQ'', 0x7f00000), (''INSN_FIELD_SHAMTW'', 0x1f00000),
     (''INSN_FIELD_SHAMTW4'', 0xf00000), (''INSN_FIELD_SHAMTD'', 0x3f00000),
     (''INSN_FIELD_BS'', 0xc0000000), (''INSN_FIELD_RNUM'', 0xf00000), (''INSN_FIELD_RC'', 0x3e000000),
     (''INSN_FIELD_IMM2'', 0x300000), (''INSN_FIELD_IMM3'', 0x700000), (''INSN_FIELD_IMM4'', 0xf00000),
     (''INSN_FIELD_IMM5'', 0x1f00000), (''INSN_FIELD_IMM6'', 0x3f00000), (''INSN_FIELD_ZIMM'', 0xf8000),
     (''INSN_FIELD_OPCODE'', 0x7f), (''INSN_FIELD_FUNCT7'', 0xfe000000), (''INSN_FIELD_VD'', 0xf80),
     (''INSN_FIELD_VS3'', 0xf80), (''INSN_FIELD_VS1'', 0xf8000), (''INSN_FIELD_VS2'', 0x1f00000),
     (''INSN_FIELD_VM'', 0x2000000), (''INSN_FIELD_WD'', 0x4000000), (''INSN_FIELD_AMOOP'', 0xf8000000),
     (''INSN_FIELD_NF'', 0xe0000000), (''INSN_FIELD_SIMM5'', 0xf8000), (''INSN_FIELD_ZIMM5'', 0xf8000),
     (''INSN_FIELD_ZIMM10'', 0x3ff00000), (''INSN_FIELD_ZIMM11'', 0x7ff00000),
     (''INSN_FIELD_ZIMM6HI'', 0x4000000), (''INSN_FIELD_ZIMM6LO'', 0xf8000),
     (''INSN_FIELD_C_NZUIMM10'', 0x1fe0), (''INSN_FIELD_C_UIMM7LO'', 0x60),
     (''INSN_FIELD_C_UIMM7HI'', 0x1c00), (''INSN_FIELD_C_UIMM8LO'', 0x60),
     (''INSN_FIELD_C_UIMM8HI'', 0x1c00), (''INSN_FIELD_C_UIMM9LO'', 0x60),
     (''INSN_FIELD_C_UIMM9HI'', 0x1c00), (''INSN_FIELD_C_NZIMM6LO'', 0x7c),
     (''INSN_FIELD_C_NZIMM6HI'', 0x1000), (''INSN_FIELD_C_IMM6LO'', 0x7c),
     (''INSN_FIELD_C_IMM6HI'', 0x1000), (''INSN_FIELD_C_NZIMM10HI'', 0x1000),
     (''INSN_FIELD_C_NZIMM10LO'', 0x7c), (''INSN_FIELD_C_NZIMM18HI'', 0x1000),
     (''INSN_FIELD_C_NZIMM18LO'', 0x7c), (''INSN_FIELD_C_IMM12'', 0x1ffc),
     (''INSN_FIELD_C_BIMM9LO'', 0x7c), (''INSN_FIELD_C_BIMM9HI'', 0x1c00),
     (''INSN_FIELD_C_NZUIMM5'', 0x7c), (''INSN_FIELD_C_NZUIMM6LO'', 0x7c),
     (''INSN_FIELD_C_NZUIMM6HI'', 0x1000), (''INSN_FIELD_C_UIMM8SPLO'', 0x7c),
     (''INSN_FIELD_C_UIMM8SPHI'', 0x1000), (''INSN_FIELD_C_UIMM8SP_S'', 0x1f80),
     (''INSN_FIELD_C_UIMM10SPLO'', 0x7c), (''INSN_FIELD_C_UIMM10SPHI'', 0x1000),
     (''INSN_FIELD_C_UIMM9SPLO'', 0x7c), (''INSN_FIELD_C_UIMM9SPHI'', 0x1000),
     (''INSN_FIELD_C_UIMM10SP_S'', 0x1f80), (''INSN_FIELD_C_UIMM9SP_S'', 0x1f80),
     (''INSN_FIELD_C_UIMM2'', 0x60), (''INSN_FIELD_C_UIMM1'', 0x20), (''INSN_FIELD_C_RLIST'', 0xf0),
     (''INSN_FIELD_C_SPIMM'', 0xc), (''INSN_FIELD_C_INDEX'', 0x3fc), (''INSN_FIELD_RS1_P'', 0x380),
     (''INSN_FIELD_RS2_P'', 0x1c), (''INSN_FIELD_RD_P'', 0x1c), (''INSN_FIELD_RD_RS1_N0'', 0xf80),
     (''INSN_FIELD_RD_RS1_P'', 0x380), (''INSN_FIELD_RD_RS1'', 0xf80), (''INSN_FIELD_RD_N2'', 0xf80),
     (''INSN_FIELD_RD_N0'', 0xf80), (''INSN_FIELD_RS1_N0'', 0xf80), (''INSN_FIELD_C_RS2_N0'', 0x7c),
     (''INSN_FIELD_C_RS1_N0'', 0xf80), (''INSN_FIELD_C_RS2'', 0x7c), (''INSN_FIELD_C_SREG1'', 0x380),
     (''INSN_FIELD_C_SREG2'', 0x1c), (''INSN_FIELD_MOP_R_T_30'', 0x40000000),
     (''INSN_FIELD_MOP_R_T_27_26'', 0xc000000), (''INSN_FIELD_MOP_R_T_21_20'', 0x300000),
     (''INSN_FIELD_MOP_RR_T_30'', 0x40000000), (''INSN_FIELD_MOP_RR_T_27_26'', 0xc000000),
     (''INSN_FIELD_C_MOP_T'', 0x700)]"

section \<open>Consistency\<close>

text \<open>A group of fields is a layout if its names are distinct and no two fields share a bit.\<close>

fun disjoint_from :: "u64 \<Rightarrow> (string \<times> u64) list \<Rightarrow> bool" where
  "disjoint_from v fs \<longleftrightarrow> list_all (\<lambda>(_, u). v AND u = 0) fs"

fun layout :: "(string \<times> u64) list \<Rightarrow> bool" where
  "layout [] \<longleftrightarrow> True"
| "layout ((n, v) # fs) \<longleftrightarrow> v \<noteq> 0 \<and> n \<notin> fst ` set fs \<and> disjoint_from v fs \<and> layout fs"

text \<open>\<open>upper_half hs fs\<close>: every field \<^verbatim>\<open>XH_F\<close> of the RV32 register for the upper half is the field
  \<^verbatim>\<open>X_F\<close> of the RV64 register, 32 bits lower. \<open>view s fs\<close>: every field of \<open>s\<close> is the field of \<open>fs\<close>
  whose name differs in the first letter.\<close>

definition full_name :: "string \<Rightarrow> string" where
  "full_name n = butlast (takeWhile (\<lambda>c. c \<noteq> CHR ''_'') n) @ dropWhile (\<lambda>c. c \<noteq> CHR ''_'') n"

definition upper_half :: "(string \<times> u64) list \<Rightarrow> (string \<times> u64) list \<Rightarrow> bool" where
  "upper_half hs fs \<longleftrightarrow> list_all (\<lambda>(n, v). map_of fs (full_name n) = Some (push_bit 32 v)) hs"

definition view :: "(string \<times> u64) list \<Rightarrow> (string \<times> u64) list \<Rightarrow> bool" where
  "view s fs \<longleftrightarrow> list_all (\<lambda>(n, v). map_of fs (CHR ''M'' # tl n) = Some v) s"

lemma layouts:
  "layout mstatus_fields" "layout mstatush_fields" "layout sstatus_fields" "layout hstatus_fields"
  "layout mnstatus_fields" "layout dcsr_fields" "layout mcontrol_fields" "layout menvcfg_fields"
  "layout mstateen_fields" "layout mhpmevent_fields" "layout henvcfg_fields" "layout hstateen_fields"
  "layout senvcfg_fields" "layout mseccfg_fields" "layout hvictl_fields" "layout jvt_fields"
  by code_simp+

lemma halves:
  "upper_half mstatush_fields mstatus_fields" "upper_half menvcfgh_fields menvcfg_fields"
  "upper_half mstateenh_fields mstateen_fields" "upper_half mhpmeventh_fields mhpmevent_fields"
  "upper_half henvcfgh_fields henvcfg_fields" "upper_half hstateenh_fields hstateen_fields"
  by code_simp+

lemma views:
  "view sstatus_fields mstatus_fields" "view henvcfg_fields menvcfg_fields" "view senvcfg_fields menvcfg_fields"
  by code_simp+

text \<open>CSR addresses: twelve bits, every address once.\<close>

lemma csr_small: "list_all (\<lambda>(_, a). a < 4096) csr_table"
  by code_simp

text \<open>Distinctness of a long list that consists of a few ascending runs, by merging the runs.\<close>

fun add_run :: "'a :: linorder \<Rightarrow> 'a list list \<Rightarrow> 'a list list" where
  "add_run x ((y # r) # rs) = (if x < y then (x # y # r) # rs else [x] # (y # r) # rs)"
| "add_run x rs = [x] # rs"

fun merge_runs :: "'a :: linorder list \<Rightarrow> 'a list \<Rightarrow> 'a list" where
  "merge_runs [] ys = ys"
| "merge_runs xs [] = xs"
| "merge_runs (x # xs) (y # ys) = (if x < y then x # merge_runs xs (y # ys) else y # merge_runs (x # xs) ys)"

definition merge_all :: "'a :: linorder list \<Rightarrow> 'a list" where
  "merge_all xs = foldr merge_runs (foldr add_run xs []) []"

lemma mset_merge_runs: "mset (merge_runs xs ys) = mset xs + mset ys"
  by (induction xs ys rule: merge_runs.induct) auto

lemma concat_add_run: "concat (add_run x rs) = x # concat rs"
  by (cases "(x, rs)" rule: add_run.cases) auto

lemma mset_merge_all: "mset (merge_all xs) = mset xs"
proof -
  have "mset (foldr merge_runs rs []) = mset (concat rs)" for rs :: "'a list list"
    by (induction rs) (simp_all add: mset_merge_runs)
  moreover have "concat (foldr add_run xs []) = xs" by (induction xs) (simp_all add: concat_add_run)
  ultimately show ?thesis by (simp add: merge_all_def)
qed

fun ascending :: "'a :: linorder list \<Rightarrow> bool" where
  "ascending (x # y # zs) \<longleftrightarrow> x < y \<and> ascending (y # zs)"
| "ascending _ \<longleftrightarrow> True"

lemma ascending_sorted: "ascending xs \<Longrightarrow> sorted_wrt (<) xs"
  by (induction xs rule: ascending.induct) auto

lemma csr_sorted: "ascending (merge_all (map snd csr_table))"
  by code_simp

lemma csr_distinct: "distinct (map snd csr_table)"
proof -
  have "distinct (merge_all (map snd csr_table))" using ascending_sorted [OF csr_sorted] by (simp add: strict_sorted_iff)
  then show ?thesis using mset_eq_imp_distinct_iff [OF mset_merge_all] by blast
qed

section \<open>Properties\<close>

text \<open>The register layouts are consistent. In each of sixteen registers the fields are
  pairwise disjoint and their names distinct; the fields of the six RV32 upper-half registers
  are those of the RV64 register 32 bits higher; sstatus, henvcfg and senvcfg are views of
  mstatus and menvcfg; the 451 CSR addresses are distinct and fit in twelve bits.\<close>

lemma csr_layout_consistent:
  "(layout mstatus_fields \<and> layout mstatush_fields \<and> layout sstatus_fields \<and> layout hstatus_fields \<and>
    layout mnstatus_fields \<and> layout dcsr_fields \<and> layout mcontrol_fields \<and> layout menvcfg_fields \<and>
    layout mstateen_fields \<and> layout mhpmevent_fields \<and> layout henvcfg_fields \<and> layout hstateen_fields \<and>
    layout senvcfg_fields \<and> layout mseccfg_fields \<and> layout hvictl_fields \<and> layout jvt_fields) \<and>
   (upper_half mstatush_fields mstatus_fields \<and> upper_half menvcfgh_fields menvcfg_fields \<and>
    upper_half mstateenh_fields mstateen_fields \<and> upper_half mhpmeventh_fields mhpmevent_fields \<and>
    upper_half henvcfgh_fields henvcfg_fields \<and> upper_half hstateenh_fields hstateen_fields) \<and>
   (view sstatus_fields mstatus_fields \<and> view henvcfg_fields menvcfg_fields \<and> view senvcfg_fields menvcfg_fields) \<and>
   length csr_table = 451 \<and> distinct (map snd csr_table) \<and> list_all (\<lambda>(_, a). a < 4096) csr_table"
  by (intro conjI layouts halves views csr_distinct csr_small) code_simp

end
