(* ===== verification/Riscv_Pk.thy ===== *)
theory Riscv_Pk
  imports Encoding
begin

text \<open>
  The inline functions and function-like macros of the proxy kernel headers
  (\<^verbatim>\<open>tools/riscv64-pk/include/riscv-pk\<close>): \<^verbatim>\<open>bits.h\<close>, \<^verbatim>\<open>emulation.h\<close>, \<^verbatim>\<open>vm.h\<close>, \<^verbatim>\<open>mmap.h\<close>, \<^verbatim>\<open>pk.h\<close> and
  \<^verbatim>\<open>htif.h\<close>, for \<^verbatim>\<open>__riscv_xlen == 64\<close>. Arguments of macros are 64-bit words.
\<close>

section \<open>bits.h\<close>

definition ROUNDUP :: "u64 \<Rightarrow> u64 \<Rightarrow> u64" where
  "ROUNDUP a b = ((a - 1) div b + 1) * b"

definition ROUNDDOWN :: "u64 \<Rightarrow> u64 \<Rightarrow> u64" where
  "ROUNDDOWN a b = a div b * b"

definition C_MAX :: "u64 \<Rightarrow> u64 \<Rightarrow> u64" where "C_MAX a b = (if a > b then a else b)"
definition C_MIN :: "u64 \<Rightarrow> u64 \<Rightarrow> u64" where "C_MIN a b = (if a < b then a else b)"
definition CLAMP :: "u64 \<Rightarrow> u64 \<Rightarrow> u64 \<Rightarrow> u64" where "CLAMP a lo hi = C_MIN (C_MAX a lo) hi"

definition EXTRACT_FIELD :: "u64 \<Rightarrow> u64 \<Rightarrow> u64" where
  "EXTRACT_FIELD val which = (val AND which) div (which AND NOT (which - 1))"

definition INSERT_FIELD :: "u64 \<Rightarrow> u64 \<Rightarrow> u64 \<Rightarrow> u64" where
  "INSERT_FIELD val which fieldval = (val AND NOT which) OR (fieldval * (which AND NOT (which - 1)))"

definition LOG_REGBYTES :: nat where "LOG_REGBYTES = 3"
definition REGBYTES :: u64 where "REGBYTES = push_bit LOG_REGBYTES 1"

section \<open>emulation.h\<close>

definition SH_RD :: nat where "SH_RD = 7"
definition SH_RS1 :: nat where "SH_RS1 = 15"
definition SH_RS2 :: nat where "SH_RS2 = 20"
definition SH_RS2C :: nat where "SH_RS2C = 2"

definition RV_X :: "u64 \<Rightarrow> nat \<Rightarrow> nat \<Rightarrow> u64" where
  "RV_X x s n = drop_bit s x AND (push_bit n 1 - 1)"

definition RVC_LW_IMM :: "u64 \<Rightarrow> u64" where
  "RVC_LW_IMM x = push_bit 2 (RV_X x 6 1) OR push_bit 3 (RV_X x 10 3) OR push_bit 6 (RV_X x 5 1)"

definition RVC_LD_IMM :: "u64 \<Rightarrow> u64" where
  "RVC_LD_IMM x = push_bit 3 (RV_X x 10 3) OR push_bit 6 (RV_X x 5 2)"

definition RVC_LWSP_IMM :: "u64 \<Rightarrow> u64" where
  "RVC_LWSP_IMM x = push_bit 2 (RV_X x 4 3) OR push_bit 5 (RV_X x 12 1) OR push_bit 6 (RV_X x 2 2)"

definition RVC_LDSP_IMM :: "u64 \<Rightarrow> u64" where
  "RVC_LDSP_IMM x = push_bit 3 (RV_X x 5 2) OR push_bit 5 (RV_X x 12 1) OR push_bit 6 (RV_X x 2 3)"

definition RVC_SWSP_IMM :: "u64 \<Rightarrow> u64" where
  "RVC_SWSP_IMM x = push_bit 2 (RV_X x 9 4) OR push_bit 6 (RV_X x 7 2)"

definition RVC_SDSP_IMM :: "u64 \<Rightarrow> u64" where
  "RVC_SDSP_IMM x = push_bit 3 (RV_X x 10 3) OR push_bit 6 (RV_X x 7 3)"

definition RVC_RS1S :: "u64 \<Rightarrow> u64" where "RVC_RS1S insn = 8 + RV_X insn SH_RD 3"
definition RVC_RS2S :: "u64 \<Rightarrow> u64" where "RVC_RS2S insn = 8 + RV_X insn SH_RS2C 3"
definition RVC_RS2 :: "u64 \<Rightarrow> u64" where "RVC_RS2 insn = RV_X insn SH_RS2C 5"

definition SHIFT_RIGHT :: "u64 \<Rightarrow> int \<Rightarrow> u64" where
  "SHIFT_RIGHT x y = (if y < 0 then push_bit (nat (- y)) x else drop_bit (nat y) x)"

definition GET_REG :: "u64 \<Rightarrow> nat \<Rightarrow> addr \<Rightarrow> addr" where
  "GET_REG insn pos regs =
     (let mask = push_bit (5 + LOG_REGBYTES) 1 - push_bit LOG_REGBYTES 1
      in regs + (SHIFT_RIGHT insn (int pos - int LOG_REGBYTES) AND mask))"

text \<open>The register file is a function of addresses; the macros read and write it.\<close>

definition GET_RS1 :: "u64 \<Rightarrow> addr \<Rightarrow> (addr \<Rightarrow> u64) \<Rightarrow> u64" where
  "GET_RS1 insn regs m = m (GET_REG insn SH_RS1 regs)"

definition GET_RS2 :: "u64 \<Rightarrow> addr \<Rightarrow> (addr \<Rightarrow> u64) \<Rightarrow> u64" where
  "GET_RS2 insn regs m = m (GET_REG insn SH_RS2 regs)"

definition GET_RS1S :: "u64 \<Rightarrow> addr \<Rightarrow> (addr \<Rightarrow> u64) \<Rightarrow> u64" where
  "GET_RS1S insn regs m = m (GET_REG (RVC_RS1S insn) 0 regs)"

definition GET_RS2S :: "u64 \<Rightarrow> addr \<Rightarrow> (addr \<Rightarrow> u64) \<Rightarrow> u64" where
  "GET_RS2S insn regs m = m (GET_REG (RVC_RS2S insn) 0 regs)"

definition GET_RS2C :: "u64 \<Rightarrow> addr \<Rightarrow> (addr \<Rightarrow> u64) \<Rightarrow> u64" where
  "GET_RS2C insn regs m = m (GET_REG insn SH_RS2C regs)"

definition GET_SP :: "addr \<Rightarrow> (addr \<Rightarrow> u64) \<Rightarrow> u64" where
  "GET_SP regs m = m (GET_REG 2 0 regs)"

definition SET_RD :: "u64 \<Rightarrow> addr \<Rightarrow> u64 \<Rightarrow> (addr \<Rightarrow> u64) \<Rightarrow> addr \<Rightarrow> u64" where
  "SET_RD insn regs val m = m(GET_REG insn SH_RD regs := val)"

definition IMM_I :: "u64 \<Rightarrow> 32 word" where
  "IMM_I insn = signed_drop_bit 20 (ucast insn)"

definition IMM_S :: "u64 \<Rightarrow> 32 word" where
  "IMM_S insn = push_bit 5 (signed_drop_bit 25 (ucast insn)) OR ucast (drop_bit 7 insn AND 0x1f)"

definition MASK_FUNCT3 :: u64 where "MASK_FUNCT3 = 0x7000"

section \<open>vm.h and mmap.h\<close>

definition MEGAPAGE_SIZE :: u64 where "MEGAPAGE_SIZE = push_bit RISCV_PGLEVEL_BITS RISCV_PGSIZE"
definition VA_BITS :: nat where "VA_BITS = 39"
definition GIGAPAGE_SIZE :: u64 where "GIGAPAGE_SIZE = push_bit RISCV_PGLEVEL_BITS MEGAPAGE_SIZE"

definition SATP_MODE_CHOICE :: u64 where
  "SATP_MODE_CHOICE = INSERT_FIELD 0 (the (map_of satp_fields ''SATP64_MODE'')) (the (map_of satp_modes ''SATP_MODE_SV39''))"

text \<open>The type of an entry is an \<^verbatim>\<open>int\<close>: its sign is extended to the width of the entry.\<close>

definition pte_create :: "u64 \<Rightarrow> u32 \<Rightarrow> u64" where
  "pte_create ppn type = push_bit PTE_PPN_SHIFT ppn OR pte_bit ''PTE_V'' OR scast type"

definition ptd_create :: "u64 \<Rightarrow> u64" where
  "ptd_create ppn = pte_create ppn (ucast (pte_bit ''PTE_V''))"

definition KVA_START :: addr where "KVA_START = push_bit (VA_BITS - 1) (- 1)"

definition kva2pa :: "u64 \<Rightarrow> addr \<Rightarrow> addr" where "kva2pa kva2pa_offset va = va - kva2pa_offset"
definition pa2kva :: "u64 \<Rightarrow> addr \<Rightarrow> addr" where "pa2kva kva2pa_offset pa = pa + kva2pa_offset"

definition kva2pa_maybe :: "u64 \<Rightarrow> addr \<Rightarrow> addr" where
  "kva2pa_maybe kva2pa_offset va = (if va \<ge> KVA_START then kva2pa kva2pa_offset va else va)"

definition is_uva :: "addr \<Rightarrow> bool" where "is_uva va \<longleftrightarrow> va < KVA_START"

section \<open>pk.h and htif.h\<close>

definition lfsr63 :: "u64 \<Rightarrow> u64" where
  "lfsr63 x = (let b = (x XOR drop_bit 1 x) AND 1 in drop_bit 1 x OR push_bit 62 b)"

definition TOHOST_CMD :: "u64 \<Rightarrow> u64 \<Rightarrow> u64 \<Rightarrow> u64" where
  "TOHOST_CMD dev cmd payload = push_bit 56 dev OR push_bit 48 cmd OR payload"

definition FROMHOST_DEV :: "u64 \<Rightarrow> u64" where "FROMHOST_DEV v = drop_bit 56 v"
definition FROMHOST_CMD :: "u64 \<Rightarrow> u64" where "FROMHOST_CMD v = drop_bit 56 (push_bit 8 v)"
definition FROMHOST_DATA :: "u64 \<Rightarrow> u64" where "FROMHOST_DATA v = drop_bit 16 (push_bit 16 v)"

section \<open>Bit fields\<close>

lemma RV_X_eq: "n \<le> 64 \<Longrightarrow> RV_X x s n = take_bit n (drop_bit s x)"
  unfolding RV_X_def by (simp add: take_bit_eq_mask mask_eq_exp_minus_1)

lemma bit_RV_X: "n \<le> 64 \<Longrightarrow> bit (RV_X x s n) i \<longleftrightarrow> i < n \<and> bit x (s + i)"
  by (simp add: RV_X_eq bit_simps)

lemma low_bit:
  fixes y :: u64
  shows "push_bit s (2 * z + 1) AND NOT (push_bit s (2 * z + 1) - 1) = (push_bit s 1 :: u64)"
proof -
  let ?z = "push_bit (Suc s) z :: u64"
  have d: "?z AND push_bit s 1 = 0" "?z AND mask s = 0"
    by (rule bit_word_eqI, auto simp: bit_simps simp del: push_bit_Suc)+
  have x: "push_bit s (2 * z + 1) = ?z OR push_bit s 1"
    using disjunctive_add_eq_or [OF d(1)] by (simp add: push_bit_eq_mult algebra_simps)
  have "push_bit s (2 * z + 1) - 1 = ?z + mask s"
    by (simp add: push_bit_eq_mult mask_eq_exp_minus_1 algebra_simps)
  then have "push_bit s (2 * z + 1) - 1 = ?z OR mask s"
    using disjunctive_add_eq_or [OF d(2)] by simp
  then show ?thesis
    unfolding x by (intro bit_word_eqI) (auto simp: bit_simps simp del: push_bit_Suc)
qed

lemma field_low_bit:
  assumes "0 < n"
  shows "push_bit s (mask n) AND NOT (push_bit s (mask n) - 1) = (push_bit s 1 :: u64)"
proof -
  obtain m where "n = Suc m" using assms gr0_implies_Suc by blast
  then have "(mask n :: u64) = 2 * mask m + 1" by (simp add: mask_Suc_double one_or_eq)
  then show ?thesis using low_bit [of s "mask m"] by simp
qed

lemma field_roundtrip:
  assumes n: "0 < n" "s + n \<le> 64" and v: "take_bit n v = v" and f: "f = push_bit s (mask n)"
  shows "EXTRACT_FIELD (INSERT_FIELD val f v) f = v" "INSERT_FIELD val f v AND NOT f = val AND NOT f"
proof -
  have ins: "INSERT_FIELD val f v = (val AND NOT f) OR push_bit s v"
    using field_low_bit [OF n(1), of s] by (simp add: INSERT_FIELD_def f push_bit_eq_mult)
  have ext: "EXTRACT_FIELD w f = drop_bit s (w AND f)" for w
    using field_low_bit [OF n(1), of s] by (simp add: EXTRACT_FIELD_def f drop_bit_eq_div push_bit_eq_mult)
  have vb: "bit v i \<longleftrightarrow> i < n \<and> bit v i" for i
    using v by (metis bit_take_bit_iff)
  show "EXTRACT_FIELD (INSERT_FIELD val f v) f = v"
    unfolding ins ext using n(2) by (intro bit_word_eqI) (auto simp: f bit_simps dest: vb [THEN iffD1])
  show "INSERT_FIELD val f v AND NOT f = val AND NOT f"
    unfolding ins by (intro bit_word_eqI) (auto simp: f bit_simps dest: vb [THEN iffD1])
qed

section \<open>Instruction fields\<close>

lemma GET_REG_eq: "GET_REG insn pos regs = regs + 8 * take_bit 5 (drop_bit pos insn)"
proof -
  have m: "push_bit (5 + 3) 1 - push_bit 3 1 = (push_bit 3 (mask 5) :: u64)"
    by (simp add: mask_eq_exp_minus_1)
  have "SHIFT_RIGHT insn (int pos - 3) AND push_bit 3 (mask 5) = push_bit 3 (take_bit 5 (drop_bit pos insn))"
  proof (cases "pos < 3")
    case True
    then have sh: "nat (3 - int pos) = 3 - pos" by arith
    have eq: "n - (3 - pos) = pos + n - 3" if "3 \<le> n" for n using that True by arith
    show ?thesis
      using True by (intro bit_word_eqI) (auto simp: SHIFT_RIGHT_def sh eq bit_simps add.commute)
  next
    case False
    then show ?thesis
      by (intro bit_word_eqI) (auto simp: SHIFT_RIGHT_def bit_simps nat_diff_distrib)
  qed
  then show ?thesis
    unfolding GET_REG_def LOG_REGBYTES_def Let_def m by (simp add: push_bit_eq_mult)
qed

text \<open>The offsets of \<open>n\<close> bits, scaled by \<open>2 ^ a\<close>.\<close>

definition offsets :: "nat \<Rightarrow> nat \<Rightarrow> u64 set" where
  "offsets a n = push_bit a ` {u. u < push_bit n 1}"

lemma offsetsI:
  assumes "\<And>i. bit v i \<Longrightarrow> a \<le> i \<and> i < a + n" "n < 64"
  shows "v \<in> offsets a n"
proof -
  have lt: "bit v i \<Longrightarrow> a \<le> i \<and> i - a < n" for i using assms(1) [of i] by auto
  have "v = push_bit a (take_bit n (drop_bit a v))"
  proof (rule bit_word_eqI)
    show "bit v i \<longleftrightarrow> bit (push_bit a (take_bit n (drop_bit a v))) i" if "i < LENGTH(64)" for i
      using that lt [of i] by (cases "a \<le> i") (auto simp: bit_simps)
  qed
  moreover have "unat (take_bit n (drop_bit a v)) < 2 ^ n" by (simp add: unsigned_take_bit_eq)
  moreover have "unat (2 ^ n :: u64) = 2 ^ n"
    using unat_of_nat64 [of "2 ^ n"] power_strict_increasing [OF assms(2), of "2 :: nat"] by simp
  ultimately have "take_bit n (drop_bit a v) < push_bit n 1" "v = push_bit a (take_bit n (drop_bit a v))"
    by (simp_all add: word_less_nat_alt push_bit_eq_mult)
  then show ?thesis unfolding offsets_def by blast
qed

text \<open>The encoders: a word of the instruction that has the scaled offset.\<close>

definition offset_words :: "nat \<Rightarrow> u64 \<Rightarrow> u64" where
  "offset_words i u =
     (if i = 0 then push_bit 6 (take_bit 1 u) OR push_bit 10 (take_bit 3 (drop_bit 1 u)) OR push_bit 5 (drop_bit 4 u)
      else if i = 1 then push_bit 10 (take_bit 3 u) OR push_bit 5 (drop_bit 3 u)
      else if i = 2 then push_bit 4 (take_bit 3 u) OR push_bit 12 (take_bit 1 (drop_bit 3 u)) OR push_bit 2 (drop_bit 4 u)
      else if i = 3 then push_bit 5 (take_bit 2 u) OR push_bit 12 (take_bit 1 (drop_bit 2 u)) OR push_bit 2 (drop_bit 3 u)
      else if i = 4 then push_bit 9 (take_bit 4 u) OR push_bit 7 (drop_bit 4 u)
      else push_bit 10 (take_bit 3 u) OR push_bit 7 (drop_bit 3 u))"

definition small_words :: "nat \<Rightarrow> u64 list" where
  "small_words N = map of_nat [0..<N]"

lemma small_words: "u < of_nat N \<Longrightarrow> N < 2 ^ 64 \<Longrightarrow> u \<in> set (small_words N)"
  unfolding small_words_def set_map image_iff
  by (rule bexI [of _ "unat u"]) (simp_all add: word_less_nat_alt unat_of_nat64)

lemma encoders:
  "list_all (\<lambda>u. RVC_LW_IMM (offset_words 0 u) = push_bit 2 u) (small_words 32)"
  "list_all (\<lambda>u. RVC_LD_IMM (offset_words 1 u) = push_bit 3 u) (small_words 32)"
  "list_all (\<lambda>u. RVC_LWSP_IMM (offset_words 2 u) = push_bit 2 u) (small_words 64)"
  "list_all (\<lambda>u. RVC_LDSP_IMM (offset_words 3 u) = push_bit 3 u) (small_words 64)"
  "list_all (\<lambda>u. RVC_SWSP_IMM (offset_words 4 u) = push_bit 2 u) (small_words 64)"
  "list_all (\<lambda>u. RVC_SDSP_IMM (offset_words 5 u) = push_bit 3 u) (small_words 64)"
  by code_simp+

lemma range_offsets:
  assumes "\<And>x i. bit (f x) i \<Longrightarrow> a \<le> i \<and> i < a + n" "n < 64"
    and "list_all (\<lambda>u. f (e u) = push_bit a u) (small_words N)" "of_nat N = (push_bit n 1 :: u64)" "N < 2 ^ 64"
  shows "range f = offsets a n"
proof
  show "range f \<subseteq> offsets a n" using offsetsI [of _ a n] assms(1,2) by blast
  show "offsets a n \<subseteq> range f"
    using assms(3) small_words [of _ N] assms(4,5) unfolding offsets_def list_all_iff by (metis (mono_tags) image_subsetI mem_Collect_eq rangeI)
qed

lemma rvc_offsets:
  "range RVC_LW_IMM = offsets 2 5" "range RVC_LD_IMM = offsets 3 5" "range RVC_LWSP_IMM = offsets 2 6"
  "range RVC_LDSP_IMM = offsets 3 6" "range RVC_SWSP_IMM = offsets 2 6" "range RVC_SDSP_IMM = offsets 3 6"
proof -
  note bits = bit_RV_X bit_or_iff bit_push_bit_iff
  show "range RVC_LW_IMM = offsets 2 5"
    by (rule range_offsets [where e = "offset_words 0" and N = 32]) (use encoders(1) in \<open>auto simp: RVC_LW_IMM_def bits\<close>)
  show "range RVC_LD_IMM = offsets 3 5"
    by (rule range_offsets [where e = "offset_words 1" and N = 32]) (use encoders(2) in \<open>auto simp: RVC_LD_IMM_def bits\<close>)
  show "range RVC_LWSP_IMM = offsets 2 6"
    by (rule range_offsets [where e = "offset_words 2" and N = 64]) (use encoders(3) in \<open>auto simp: RVC_LWSP_IMM_def bits\<close>)
  show "range RVC_LDSP_IMM = offsets 3 6"
    by (rule range_offsets [where e = "offset_words 3" and N = 64]) (use encoders(4) in \<open>auto simp: RVC_LDSP_IMM_def bits\<close>)
  show "range RVC_SWSP_IMM = offsets 2 6"
    by (rule range_offsets [where e = "offset_words 4" and N = 64]) (use encoders(5) in \<open>auto simp: RVC_SWSP_IMM_def bits\<close>)
  show "range RVC_SDSP_IMM = offsets 3 6"
    by (rule range_offsets [where e = "offset_words 5" and N = 64]) (use encoders(6) in \<open>auto simp: RVC_SDSP_IMM_def bits\<close>)
qed

section \<open>Random numbers and host commands\<close>

lemma bit_lfsr63: "bit (lfsr63 x) i \<longleftrightarrow> i < 64 \<and> (bit x (Suc i) \<or> i = 62 \<and> bit x 0 \<noteq> bit x 1)"
  unfolding lfsr63_def Let_def bit_or_iff bit_push_bit_iff bit_drop_bit_eq bit_and_iff bit_1_iff bit_xor_iff comp_def
  using bit_imp_le_length [of x "Suc i"] by auto

lemma lfsr63_bound: "\<not> bit (lfsr63 x) 63"
  using bit_imp_le_length [of x 64] by (auto simp: bit_lfsr63)

lemma lfsr63_inj:
  assumes "\<not> bit x 63" "\<not> bit y 63" "lfsr63 x = lfsr63 y"
  shows "x = y"
proof -
  have eq: "bit (lfsr63 x) i = bit (lfsr63 y) i" for i using assms(3) by simp
  have suc: "bit x (Suc i) = bit y (Suc i)" for i
    using eq [of i] assms(1,2) bit_imp_le_length [of x "Suc i"] bit_imp_le_length [of y "Suc i"]
    by (cases "i = 62") (auto simp: bit_lfsr63)
  moreover have "bit x 0 = bit y 0"
    using eq [of 62] assms(1,2) suc [of 0] by (auto simp: bit_lfsr63)
  ultimately show ?thesis by (intro bit_word_eqI) (metis not0_implies_Suc)
qed

lemma host_roundtrip:
  assumes "take_bit 8 dev = dev" "take_bit 8 cmd = cmd" "take_bit 48 payload = payload"
  shows "FROMHOST_DEV (TOHOST_CMD dev cmd payload) = dev" "FROMHOST_CMD (TOHOST_CMD dev cmd payload) = cmd"
    "FROMHOST_DATA (TOHOST_CMD dev cmd payload) = payload"
proof -
  have b: "bit dev i \<Longrightarrow> i < 8" "bit cmd i \<Longrightarrow> i < 8" "bit payload i \<Longrightarrow> i < 48" for i
    using assms by (metis bit_take_bit_iff)+
  show "FROMHOST_DEV (TOHOST_CMD dev cmd payload) = dev" "FROMHOST_CMD (TOHOST_CMD dev cmd payload) = cmd"
    "FROMHOST_DATA (TOHOST_CMD dev cmd payload) = payload"
    by (intro bit_word_eqI, auto simp: FROMHOST_DEV_def FROMHOST_CMD_def FROMHOST_DATA_def TOHOST_CMD_def bit_simps dest: b)+
qed

end
