(* ===== verification/Insn_Table.thy ===== *)
theory Insn_Table
  imports Prelude
begin

text \<open>
  The instruction table of \<^verbatim>\<open>tools/riscv64-pk/include/riscv-pk/encoding.h\<close>: for every instruction
  the macros \<^verbatim>\<open>MATCH_X\<close> and \<^verbatim>\<open>MASK_X\<close>, in the order of the file. An instruction word \<open>w\<close> is an
  \<open>X\<close> iff \<open>w AND MASK_X = MATCH_X\<close>. The table is split into parts of 75 instructions.
\<close>

type_synonym insn_entry = "string \<times> u32 \<times> u32"

definition insns_1 :: "insn_entry list" where
  "insns_1 = [(''ADD'', 0x33, 0xfe00707f), (''ADD_UW'', 0x800003b, 0xfe00707f),
     (''ADDI'', 0x13, 0x707f), (''ADDIW'', 0x1b, 0x707f), (''ADDW'', 0x3b, 0xfe00707f),
     (''AES32DSI'', 0x2a000033, 0x3e00707f), (''AES32DSMI'', 0x2e000033, 0x3e00707f),
     (''AES32ESI'', 0x22000033, 0x3e00707f), (''AES32ESMI'', 0x26000033, 0x3e00707f),
     (''AES64DS'', 0x3a000033, 0xfe00707f), (''AES64DSM'', 0x3e000033, 0xfe00707f),
     (''AES64ES'', 0x32000033, 0xfe00707f), (''AES64ESM'', 0x36000033, 0xfe00707f),
     (''AES64IM'', 0x30001013, 0xfff0707f), (''AES64KS1I'', 0x31001013, 0xff00707f),
     (''AES64KS2'', 0x7e000033, 0xfe00707f), (''AMOADD_B'', 0x2f, 0xf800707f),
     (''AMOADD_D'', 0x302f, 0xf800707f), (''AMOADD_H'', 0x102f, 0xf800707f),
     (''AMOADD_W'', 0x202f, 0xf800707f), (''AMOAND_B'', 0x6000002f, 0xf800707f),
     (''AMOAND_D'', 0x6000302f, 0xf800707f), (''AMOAND_H'', 0x6000102f, 0xf800707f),
     (''AMOAND_W'', 0x6000202f, 0xf800707f), (''AMOCAS_B'', 0x2800002f, 0xf800707f),
     (''AMOCAS_D'', 0x2800302f, 0xf800707f), (''AMOCAS_H'', 0x2800102f, 0xf800707f),
     (''AMOCAS_Q'', 0x2800402f, 0xf800707f), (''AMOCAS_W'', 0x2800202f, 0xf800707f),
     (''AMOMAX_B'', 0xa000002f, 0xf800707f), (''AMOMAX_D'', 0xa000302f, 0xf800707f),
     (''AMOMAX_H'', 0xa000102f, 0xf800707f), (''AMOMAX_W'', 0xa000202f, 0xf800707f),
     (''AMOMAXU_B'', 0xe000002f, 0xf800707f), (''AMOMAXU_D'', 0xe000302f, 0xf800707f),
     (''AMOMAXU_H'', 0xe000102f, 0xf800707f), (''AMOMAXU_W'', 0xe000202f, 0xf800707f),
     (''AMOMIN_B'', 0x8000002f, 0xf800707f), (''AMOMIN_D'', 0x8000302f, 0xf800707f),
     (''AMOMIN_H'', 0x8000102f, 0xf800707f), (''AMOMIN_W'', 0x8000202f, 0xf800707f),
     (''AMOMINU_B'', 0xc000002f, 0xf800707f), (''AMOMINU_D'', 0xc000302f, 0xf800707f),
     (''AMOMINU_H'', 0xc000102f, 0xf800707f), (''AMOMINU_W'', 0xc000202f, 0xf800707f),
     (''AMOOR_B'', 0x4000002f, 0xf800707f), (''AMOOR_D'', 0x4000302f, 0xf800707f),
     (''AMOOR_H'', 0x4000102f, 0xf800707f), (''AMOOR_W'', 0x4000202f, 0xf800707f),
     (''AMOSWAP_B'', 0x800002f, 0xf800707f), (''AMOSWAP_D'', 0x800302f, 0xf800707f),
     (''AMOSWAP_H'', 0x800102f, 0xf800707f), (''AMOSWAP_W'', 0x800202f, 0xf800707f),
     (''AMOXOR_B'', 0x2000002f, 0xf800707f), (''AMOXOR_D'', 0x2000302f, 0xf800707f),
     (''AMOXOR_H'', 0x2000102f, 0xf800707f), (''AMOXOR_W'', 0x2000202f, 0xf800707f),
     (''AND'', 0x7033, 0xfe00707f), (''ANDI'', 0x7013, 0x707f), (''ANDN'', 0x40007033, 0xfe00707f),
     (''AUIPC'', 0x17, 0x7f), (''BCLR'', 0x48001033, 0xfe00707f), (''BCLRI'', 0x48001013, 0xfc00707f),
     (''BEQ'', 0x63, 0x707f), (''BEXT'', 0x48005033, 0xfe00707f), (''BEXTI'', 0x48005013, 0xfc00707f),
     (''BGE'', 0x5063, 0x707f), (''BGEU'', 0x7063, 0x707f), (''BINV'', 0x68001033, 0xfe00707f),
     (''BINVI'', 0x68001013, 0xfc00707f), (''BLT'', 0x4063, 0x707f), (''BLTU'', 0x6063, 0x707f),
     (''BNE'', 0x1063, 0x707f), (''BSET'', 0x28001033, 0xfe00707f),
     (''BSETI'', 0x28001013, 0xfc00707f)]"

definition insns_2 :: "insn_entry list" where
  "insns_2 = [(''C_ADD'', 0x9002, 0xf003), (''C_ADDI'', 0x1, 0xe003), (''C_ADDI16SP'', 0x6101, 0xef83),
     (''C_ADDI4SPN'', 0x0, 0xe003), (''C_ADDIW'', 0x2001, 0xe003), (''C_ADDW'', 0x9c21, 0xfc63),
     (''C_AND'', 0x8c61, 0xfc63), (''C_ANDI'', 0x8801, 0xec03), (''C_BEQZ'', 0xc001, 0xe003),
     (''C_BNEZ'', 0xe001, 0xe003), (''C_EBREAK'', 0x9002, 0xffff), (''C_FLD'', 0x2000, 0xe003),
     (''C_FLDSP'', 0x2002, 0xe003), (''C_FLW'', 0x6000, 0xe003), (''C_FLWSP'', 0x6002, 0xe003),
     (''C_FSD'', 0xa000, 0xe003), (''C_FSDSP'', 0xa002, 0xe003), (''C_FSW'', 0xe000, 0xe003),
     (''C_FSWSP'', 0xe002, 0xe003), (''C_J'', 0xa001, 0xe003), (''C_JAL'', 0x2001, 0xe003),
     (''C_JALR'', 0x9002, 0xf07f), (''C_JR'', 0x8002, 0xf07f), (''C_LBU'', 0x8000, 0xfc03),
     (''C_LD'', 0x6000, 0xe003), (''C_LDSP'', 0x6002, 0xe003), (''C_LH'', 0x8440, 0xfc43),
     (''C_LHU'', 0x8400, 0xfc43), (''C_LI'', 0x4001, 0xe003), (''C_LUI'', 0x6001, 0xe003),
     (''C_LW'', 0x4000, 0xe003), (''C_LWSP'', 0x4002, 0xe003), (''C_MOP_1'', 0x6081, 0xffff),
     (''C_MOP_11'', 0x6581, 0xffff), (''C_MOP_13'', 0x6681, 0xffff), (''C_MOP_15'', 0x6781, 0xffff),
     (''C_MOP_3'', 0x6181, 0xffff), (''C_MOP_5'', 0x6281, 0xffff), (''C_MOP_7'', 0x6381, 0xffff),
     (''C_MOP_9'', 0x6481, 0xffff), (''C_MOP_N'', 0x6081, 0xf8ff), (''C_MUL'', 0x9c41, 0xfc63),
     (''C_MV'', 0x8002, 0xf003), (''C_NOP'', 0x1, 0xef83), (''C_NOT'', 0x9c75, 0xfc7f),
     (''C_OR'', 0x8c41, 0xfc63), (''C_SB'', 0x8800, 0xfc03), (''C_SD'', 0xe000, 0xe003),
     (''C_SDSP'', 0xe002, 0xe003), (''C_SEXT_B'', 0x9c65, 0xfc7f), (''C_SEXT_H'', 0x9c6d, 0xfc7f),
     (''C_SH'', 0x8c00, 0xfc43), (''C_SLLI'', 0x2, 0xe003), (''C_SRAI'', 0x8401, 0xec03),
     (''C_SRLI'', 0x8001, 0xec03), (''C_SSPOPCHK_X5'', 0x6281, 0xffff),
     (''C_SSPUSH_X1'', 0x6081, 0xffff), (''C_SUB'', 0x8c01, 0xfc63), (''C_SUBW'', 0x9c01, 0xfc63),
     (''C_SW'', 0xc000, 0xe003), (''C_SWSP'', 0xc002, 0xe003), (''C_XOR'', 0x8c21, 0xfc63),
     (''C_ZEXT_B'', 0x9c61, 0xfc7f), (''C_ZEXT_H'', 0x9c69, 0xfc7f), (''C_ZEXT_W'', 0x9c71, 0xfc7f),
     (''CBO_CLEAN'', 0x10200f, 0xfff07fff), (''CBO_FLUSH'', 0x20200f, 0xfff07fff),
     (''CBO_INVAL'', 0x200f, 0xfff07fff), (''CBO_ZERO'', 0x40200f, 0xfff07fff),
     (''CLMUL'', 0xa001033, 0xfe00707f), (''CLMULH'', 0xa003033, 0xfe00707f),
     (''CLMULR'', 0xa002033, 0xfe00707f), (''CLZ'', 0x60001013, 0xfff0707f),
     (''CLZW'', 0x6000101b, 0xfff0707f), (''CM_JALT'', 0xa002, 0xfc03)]"

definition insns_3 :: "insn_entry list" where
  "insns_3 = [(''CM_MVA01S'', 0xac62, 0xfc63), (''CM_MVSA01'', 0xac22, 0xfc63),
     (''CM_POP'', 0xba02, 0xff03), (''CM_POPRET'', 0xbe02, 0xff03), (''CM_POPRETZ'', 0xbc02, 0xff03),
     (''CM_PUSH'', 0xb802, 0xff03), (''CPOP'', 0x60201013, 0xfff0707f),
     (''CPOPW'', 0x6020101b, 0xfff0707f), (''CSRRC'', 0x3073, 0x707f), (''CSRRCI'', 0x7073, 0x707f),
     (''CSRRS'', 0x2073, 0x707f), (''CSRRSI'', 0x6073, 0x707f), (''CSRRW'', 0x1073, 0x707f),
     (''CSRRWI'', 0x5073, 0x707f), (''CTZ'', 0x60101013, 0xfff0707f),
     (''CTZW'', 0x6010101b, 0xfff0707f), (''CZERO_EQZ'', 0xe005033, 0xfe00707f),
     (''CZERO_NEZ'', 0xe007033, 0xfe00707f), (''DIV'', 0x2004033, 0xfe00707f),
     (''DIVU'', 0x2005033, 0xfe00707f), (''DIVUW'', 0x200503b, 0xfe00707f),
     (''DIVW'', 0x200403b, 0xfe00707f), (''DRET'', 0x7b200073, 0xffffffff),
     (''EBREAK'', 0x100073, 0xffffffff), (''ECALL'', 0x73, 0xffffffff),
     (''FADD_D'', 0x2000053, 0xfe00007f), (''FADD_H'', 0x4000053, 0xfe00007f),
     (''FADD_Q'', 0x6000053, 0xfe00007f), (''FADD_S'', 0x53, 0xfe00007f),
     (''FCLASS_D'', 0xe2001053, 0xfff0707f), (''FCLASS_H'', 0xe4001053, 0xfff0707f),
     (''FCLASS_Q'', 0xe6001053, 0xfff0707f), (''FCLASS_S'', 0xe0001053, 0xfff0707f),
     (''FCVT_BF16_S'', 0x44800053, 0xfff0007f), (''FCVT_D_H'', 0x42200053, 0xfff0007f),
     (''FCVT_D_L'', 0xd2200053, 0xfff0007f), (''FCVT_D_LU'', 0xd2300053, 0xfff0007f),
     (''FCVT_D_Q'', 0x42300053, 0xfff0007f), (''FCVT_D_S'', 0x42000053, 0xfff0007f),
     (''FCVT_D_W'', 0xd2000053, 0xfff0007f), (''FCVT_D_WU'', 0xd2100053, 0xfff0007f),
     (''FCVT_H_D'', 0x44100053, 0xfff0007f), (''FCVT_H_L'', 0xd4200053, 0xfff0007f),
     (''FCVT_H_LU'', 0xd4300053, 0xfff0007f), (''FCVT_H_Q'', 0x44300053, 0xfff0007f),
     (''FCVT_H_S'', 0x44000053, 0xfff0007f), (''FCVT_H_W'', 0xd4000053, 0xfff0007f),
     (''FCVT_H_WU'', 0xd4100053, 0xfff0007f), (''FCVT_L_D'', 0xc2200053, 0xfff0007f),
     (''FCVT_L_H'', 0xc4200053, 0xfff0007f), (''FCVT_L_Q'', 0xc6200053, 0xfff0007f),
     (''FCVT_L_S'', 0xc0200053, 0xfff0007f), (''FCVT_LU_D'', 0xc2300053, 0xfff0007f),
     (''FCVT_LU_H'', 0xc4300053, 0xfff0007f), (''FCVT_LU_Q'', 0xc6300053, 0xfff0007f),
     (''FCVT_LU_S'', 0xc0300053, 0xfff0007f), (''FCVT_Q_D'', 0x46100053, 0xfff0007f),
     (''FCVT_Q_H'', 0x46200053, 0xfff0007f), (''FCVT_Q_L'', 0xd6200053, 0xfff0007f),
     (''FCVT_Q_LU'', 0xd6300053, 0xfff0007f), (''FCVT_Q_S'', 0x46000053, 0xfff0007f),
     (''FCVT_Q_W'', 0xd6000053, 0xfff0007f), (''FCVT_Q_WU'', 0xd6100053, 0xfff0007f),
     (''FCVT_S_BF16'', 0x40600053, 0xfff0007f), (''FCVT_S_D'', 0x40100053, 0xfff0007f),
     (''FCVT_S_H'', 0x40200053, 0xfff0007f), (''FCVT_S_L'', 0xd0200053, 0xfff0007f),
     (''FCVT_S_LU'', 0xd0300053, 0xfff0007f), (''FCVT_S_Q'', 0x40300053, 0xfff0007f),
     (''FCVT_S_W'', 0xd0000053, 0xfff0007f), (''FCVT_S_WU'', 0xd0100053, 0xfff0007f),
     (''FCVT_W_D'', 0xc2000053, 0xfff0007f), (''FCVT_W_H'', 0xc4000053, 0xfff0007f),
     (''FCVT_W_Q'', 0xc6000053, 0xfff0007f), (''FCVT_W_S'', 0xc0000053, 0xfff0007f)]"

definition insns_4 :: "insn_entry list" where
  "insns_4 = [(''FCVT_WU_D'', 0xc2100053, 0xfff0007f), (''FCVT_WU_H'', 0xc4100053, 0xfff0007f),
     (''FCVT_WU_Q'', 0xc6100053, 0xfff0007f), (''FCVT_WU_S'', 0xc0100053, 0xfff0007f),
     (''FCVTMOD_W_D'', 0xc2801053, 0xfff0707f), (''FDIV_D'', 0x1a000053, 0xfe00007f),
     (''FDIV_H'', 0x1c000053, 0xfe00007f), (''FDIV_Q'', 0x1e000053, 0xfe00007f),
     (''FDIV_S'', 0x18000053, 0xfe00007f), (''FENCE'', 0xf, 0x707f), (''FENCE_I'', 0x100f, 0x707f),
     (''FEQ_D'', 0xa2002053, 0xfe00707f), (''FEQ_H'', 0xa4002053, 0xfe00707f),
     (''FEQ_Q'', 0xa6002053, 0xfe00707f), (''FEQ_S'', 0xa0002053, 0xfe00707f),
     (''FLD'', 0x3007, 0x707f), (''FLE_D'', 0xa2000053, 0xfe00707f),
     (''FLE_H'', 0xa4000053, 0xfe00707f), (''FLE_Q'', 0xa6000053, 0xfe00707f),
     (''FLE_S'', 0xa0000053, 0xfe00707f), (''FLEQ_D'', 0xa2004053, 0xfe00707f),
     (''FLEQ_H'', 0xa4004053, 0xfe00707f), (''FLEQ_Q'', 0xa6004053, 0xfe00707f),
     (''FLEQ_S'', 0xa0004053, 0xfe00707f), (''FLH'', 0x1007, 0x707f),
     (''FLI_D'', 0xf2100053, 0xfff0707f), (''FLI_H'', 0xf4100053, 0xfff0707f),
     (''FLI_Q'', 0xf6100053, 0xfff0707f), (''FLI_S'', 0xf0100053, 0xfff0707f),
     (''FLQ'', 0x4007, 0x707f), (''FLT_D'', 0xa2001053, 0xfe00707f),
     (''FLT_H'', 0xa4001053, 0xfe00707f), (''FLT_Q'', 0xa6001053, 0xfe00707f),
     (''FLT_S'', 0xa0001053, 0xfe00707f), (''FLTQ_D'', 0xa2005053, 0xfe00707f),
     (''FLTQ_H'', 0xa4005053, 0xfe00707f), (''FLTQ_Q'', 0xa6005053, 0xfe00707f),
     (''FLTQ_S'', 0xa0005053, 0xfe00707f), (''FLW'', 0x2007, 0x707f),
     (''FMADD_D'', 0x2000043, 0x600007f), (''FMADD_H'', 0x4000043, 0x600007f),
     (''FMADD_Q'', 0x6000043, 0x600007f), (''FMADD_S'', 0x43, 0x600007f),
     (''FMAX_D'', 0x2a001053, 0xfe00707f), (''FMAX_H'', 0x2c001053, 0xfe00707f),
     (''FMAX_Q'', 0x2e001053, 0xfe00707f), (''FMAX_S'', 0x28001053, 0xfe00707f),
     (''FMAXM_D'', 0x2a003053, 0xfe00707f), (''FMAXM_H'', 0x2c003053, 0xfe00707f),
     (''FMAXM_Q'', 0x2e003053, 0xfe00707f), (''FMAXM_S'', 0x28003053, 0xfe00707f),
     (''FMIN_D'', 0x2a000053, 0xfe00707f), (''FMIN_H'', 0x2c000053, 0xfe00707f),
     (''FMIN_Q'', 0x2e000053, 0xfe00707f), (''FMIN_S'', 0x28000053, 0xfe00707f),
     (''FMINM_D'', 0x2a002053, 0xfe00707f), (''FMINM_H'', 0x2c002053, 0xfe00707f),
     (''FMINM_Q'', 0x2e002053, 0xfe00707f), (''FMINM_S'', 0x28002053, 0xfe00707f),
     (''FMSUB_D'', 0x2000047, 0x600007f), (''FMSUB_H'', 0x4000047, 0x600007f),
     (''FMSUB_Q'', 0x6000047, 0x600007f), (''FMSUB_S'', 0x47, 0x600007f),
     (''FMUL_D'', 0x12000053, 0xfe00007f), (''FMUL_H'', 0x14000053, 0xfe00007f),
     (''FMUL_Q'', 0x16000053, 0xfe00007f), (''FMUL_S'', 0x10000053, 0xfe00007f),
     (''FMV_D_X'', 0xf2000053, 0xfff0707f), (''FMV_H_X'', 0xf4000053, 0xfff0707f),
     (''FMV_W_X'', 0xf0000053, 0xfff0707f), (''FMV_X_D'', 0xe2000053, 0xfff0707f),
     (''FMV_X_H'', 0xe4000053, 0xfff0707f), (''FMV_X_W'', 0xe0000053, 0xfff0707f),
     (''FMVH_X_D'', 0xe2100053, 0xfff0707f), (''FMVH_X_Q'', 0xe6100053, 0xfff0707f)]"

definition insns_5 :: "insn_entry list" where
  "insns_5 = [(''FMVP_D_X'', 0xb2000053, 0xfe00707f), (''FMVP_Q_X'', 0xb6000053, 0xfe00707f),
     (''FNMADD_D'', 0x200004f, 0x600007f), (''FNMADD_H'', 0x400004f, 0x600007f),
     (''FNMADD_Q'', 0x600004f, 0x600007f), (''FNMADD_S'', 0x4f, 0x600007f),
     (''FNMSUB_D'', 0x200004b, 0x600007f), (''FNMSUB_H'', 0x400004b, 0x600007f),
     (''FNMSUB_Q'', 0x600004b, 0x600007f), (''FNMSUB_S'', 0x4b, 0x600007f),
     (''FROUND_D'', 0x42400053, 0xfff0007f), (''FROUND_H'', 0x44400053, 0xfff0007f),
     (''FROUND_Q'', 0x46400053, 0xfff0007f), (''FROUND_S'', 0x40400053, 0xfff0007f),
     (''FROUNDNX_D'', 0x42500053, 0xfff0007f), (''FROUNDNX_H'', 0x44500053, 0xfff0007f),
     (''FROUNDNX_Q'', 0x46500053, 0xfff0007f), (''FROUNDNX_S'', 0x40500053, 0xfff0007f),
     (''FSD'', 0x3027, 0x707f), (''FSGNJ_D'', 0x22000053, 0xfe00707f),
     (''FSGNJ_H'', 0x24000053, 0xfe00707f), (''FSGNJ_Q'', 0x26000053, 0xfe00707f),
     (''FSGNJ_S'', 0x20000053, 0xfe00707f), (''FSGNJN_D'', 0x22001053, 0xfe00707f),
     (''FSGNJN_H'', 0x24001053, 0xfe00707f), (''FSGNJN_Q'', 0x26001053, 0xfe00707f),
     (''FSGNJN_S'', 0x20001053, 0xfe00707f), (''FSGNJX_D'', 0x22002053, 0xfe00707f),
     (''FSGNJX_H'', 0x24002053, 0xfe00707f), (''FSGNJX_Q'', 0x26002053, 0xfe00707f),
     (''FSGNJX_S'', 0x20002053, 0xfe00707f), (''FSH'', 0x1027, 0x707f), (''FSQ'', 0x4027, 0x707f),
     (''FSQRT_D'', 0x5a000053, 0xfff0007f), (''FSQRT_H'', 0x5c000053, 0xfff0007f),
     (''FSQRT_Q'', 0x5e000053, 0xfff0007f), (''FSQRT_S'', 0x58000053, 0xfff0007f),
     (''FSUB_D'', 0xa000053, 0xfe00007f), (''FSUB_H'', 0xc000053, 0xfe00007f),
     (''FSUB_Q'', 0xe000053, 0xfe00007f), (''FSUB_S'', 0x8000053, 0xfe00007f),
     (''FSW'', 0x2027, 0x707f), (''GORCI'', 0x28005013, 0xfc00707f),
     (''GREVI'', 0x68005013, 0xfc00707f), (''HFENCE_GVMA'', 0x62000073, 0xfe007fff),
     (''HFENCE_VVMA'', 0x22000073, 0xfe007fff), (''HINVAL_GVMA'', 0x66000073, 0xfe007fff),
     (''HINVAL_VVMA'', 0x26000073, 0xfe007fff), (''HLV_B'', 0x60004073, 0xfff0707f),
     (''HLV_BU'', 0x60104073, 0xfff0707f), (''HLV_D'', 0x6c004073, 0xfff0707f),
     (''HLV_H'', 0x64004073, 0xfff0707f), (''HLV_HU'', 0x64104073, 0xfff0707f),
     (''HLV_W'', 0x68004073, 0xfff0707f), (''HLV_WU'', 0x68104073, 0xfff0707f),
     (''HLVX_HU'', 0x64304073, 0xfff0707f), (''HLVX_WU'', 0x68304073, 0xfff0707f),
     (''HSV_B'', 0x62004073, 0xfe007fff), (''HSV_D'', 0x6e004073, 0xfe007fff),
     (''HSV_H'', 0x66004073, 0xfe007fff), (''HSV_W'', 0x6a004073, 0xfe007fff), (''JAL'', 0x6f, 0x7f),
     (''JALR'', 0x67, 0x707f), (''LB'', 0x3, 0x707f), (''LB_AQ'', 0x3400002f, 0xfdf0707f),
     (''LBU'', 0x4003, 0x707f), (''LD'', 0x3003, 0x707f), (''LD_AQ'', 0x3400302f, 0xfdf0707f),
     (''LH'', 0x1003, 0x707f), (''LH_AQ'', 0x3400102f, 0xfdf0707f), (''LHU'', 0x5003, 0x707f),
     (''LPAD'', 0x17, 0xfff), (''LR_D'', 0x1000302f, 0xf9f0707f), (''LR_W'', 0x1000202f, 0xf9f0707f),
     (''LUI'', 0x37, 0x7f)]"

definition insns_6 :: "insn_entry list" where
  "insns_6 = [(''LW'', 0x2003, 0x707f), (''LW_AQ'', 0x3400202f, 0xfdf0707f), (''LWU'', 0x6003, 0x707f),
     (''MAX'', 0xa006033, 0xfe00707f), (''MAXU'', 0xa007033, 0xfe00707f),
     (''MIN'', 0xa004033, 0xfe00707f), (''MINU'', 0xa005033, 0xfe00707f),
     (''MNRET'', 0x70200073, 0xffffffff), (''MOP_R_0'', 0x81c04073, 0xfff0707f),
     (''MOP_R_1'', 0x81d04073, 0xfff0707f), (''MOP_R_10'', 0x89e04073, 0xfff0707f),
     (''MOP_R_11'', 0x89f04073, 0xfff0707f), (''MOP_R_12'', 0x8dc04073, 0xfff0707f),
     (''MOP_R_13'', 0x8dd04073, 0xfff0707f), (''MOP_R_14'', 0x8de04073, 0xfff0707f),
     (''MOP_R_15'', 0x8df04073, 0xfff0707f), (''MOP_R_16'', 0xc1c04073, 0xfff0707f),
     (''MOP_R_17'', 0xc1d04073, 0xfff0707f), (''MOP_R_18'', 0xc1e04073, 0xfff0707f),
     (''MOP_R_19'', 0xc1f04073, 0xfff0707f), (''MOP_R_2'', 0x81e04073, 0xfff0707f),
     (''MOP_R_20'', 0xc5c04073, 0xfff0707f), (''MOP_R_21'', 0xc5d04073, 0xfff0707f),
     (''MOP_R_22'', 0xc5e04073, 0xfff0707f), (''MOP_R_23'', 0xc5f04073, 0xfff0707f),
     (''MOP_R_24'', 0xc9c04073, 0xfff0707f), (''MOP_R_25'', 0xc9d04073, 0xfff0707f),
     (''MOP_R_26'', 0xc9e04073, 0xfff0707f), (''MOP_R_27'', 0xc9f04073, 0xfff0707f),
     (''MOP_R_28'', 0xcdc04073, 0xfff0707f), (''MOP_R_29'', 0xcdd04073, 0xfff0707f),
     (''MOP_R_3'', 0x81f04073, 0xfff0707f), (''MOP_R_30'', 0xcde04073, 0xfff0707f),
     (''MOP_R_31'', 0xcdf04073, 0xfff0707f), (''MOP_R_4'', 0x85c04073, 0xfff0707f),
     (''MOP_R_5'', 0x85d04073, 0xfff0707f), (''MOP_R_6'', 0x85e04073, 0xfff0707f),
     (''MOP_R_7'', 0x85f04073, 0xfff0707f), (''MOP_R_8'', 0x89c04073, 0xfff0707f),
     (''MOP_R_9'', 0x89d04073, 0xfff0707f), (''MOP_R_N'', 0x81c04073, 0xb3c0707f),
     (''MOP_RR_0'', 0x82004073, 0xfe00707f), (''MOP_RR_1'', 0x86004073, 0xfe00707f),
     (''MOP_RR_2'', 0x8a004073, 0xfe00707f), (''MOP_RR_3'', 0x8e004073, 0xfe00707f),
     (''MOP_RR_4'', 0xc2004073, 0xfe00707f), (''MOP_RR_5'', 0xc6004073, 0xfe00707f),
     (''MOP_RR_6'', 0xca004073, 0xfe00707f), (''MOP_RR_7'', 0xce004073, 0xfe00707f),
     (''MOP_RR_N'', 0x82004073, 0xb200707f), (''MRET'', 0x30200073, 0xffffffff),
     (''MUL'', 0x2000033, 0xfe00707f), (''MULH'', 0x2001033, 0xfe00707f),
     (''MULHSU'', 0x2002033, 0xfe00707f), (''MULHU'', 0x2003033, 0xfe00707f),
     (''MULW'', 0x200003b, 0xfe00707f), (''OR'', 0x6033, 0xfe00707f), (''ORI'', 0x6013, 0x707f),
     (''ORN'', 0x40006033, 0xfe00707f), (''PACK'', 0x8004033, 0xfe00707f),
     (''PACKH'', 0x8007033, 0xfe00707f), (''PACKW'', 0x800403b, 0xfe00707f),
     (''PAUSE'', 0x100000f, 0xffffffff), (''PREFETCH_I'', 0x6013, 0x1f07fff),
     (''PREFETCH_R'', 0x106013, 0x1f07fff), (''PREFETCH_W'', 0x306013, 0x1f07fff),
     (''REM'', 0x2006033, 0xfe00707f), (''REMU'', 0x2007033, 0xfe00707f),
     (''REMUW'', 0x200703b, 0xfe00707f), (''REMW'', 0x200603b, 0xfe00707f),
     (''ROL'', 0x60001033, 0xfe00707f), (''ROLW'', 0x6000103b, 0xfe00707f),
     (''ROR'', 0x60005033, 0xfe00707f), (''RORI'', 0x60005013, 0xfc00707f),
     (''RORIW'', 0x6000501b, 0xfe00707f)]"

definition insns_7 :: "insn_entry list" where
  "insns_7 = [(''RORW'', 0x6000503b, 0xfe00707f), (''SB'', 0x23, 0x707f),
     (''SB_RL'', 0x3a00002f, 0xfa007fff), (''SC_D'', 0x1800302f, 0xf800707f),
     (''SC_W'', 0x1800202f, 0xf800707f), (''SD'', 0x3023, 0x707f), (''SD_RL'', 0x3a00302f, 0xfa007fff),
     (''SEXT_B'', 0x60401013, 0xfff0707f), (''SEXT_H'', 0x60501013, 0xfff0707f),
     (''SFENCE_INVAL_IR'', 0x18100073, 0xffffffff), (''SFENCE_VMA'', 0x12000073, 0xfe007fff),
     (''SFENCE_W_INVAL'', 0x18000073, 0xffffffff), (''SH'', 0x1023, 0x707f),
     (''SH1ADD'', 0x20002033, 0xfe00707f), (''SH1ADD_UW'', 0x2000203b, 0xfe00707f),
     (''SH2ADD'', 0x20004033, 0xfe00707f), (''SH2ADD_UW'', 0x2000403b, 0xfe00707f),
     (''SH3ADD'', 0x20006033, 0xfe00707f), (''SH3ADD_UW'', 0x2000603b, 0xfe00707f),
     (''SH_RL'', 0x3a00102f, 0xfa007fff), (''SHA256SIG0'', 0x10201013, 0xfff0707f),
     (''SHA256SIG1'', 0x10301013, 0xfff0707f), (''SHA256SUM0'', 0x10001013, 0xfff0707f),
     (''SHA256SUM1'', 0x10101013, 0xfff0707f), (''SHA512SIG0'', 0x10601013, 0xfff0707f),
     (''SHA512SIG0H'', 0x5c000033, 0xfe00707f), (''SHA512SIG0L'', 0x54000033, 0xfe00707f),
     (''SHA512SIG1'', 0x10701013, 0xfff0707f), (''SHA512SIG1H'', 0x5e000033, 0xfe00707f),
     (''SHA512SIG1L'', 0x56000033, 0xfe00707f), (''SHA512SUM0'', 0x10401013, 0xfff0707f),
     (''SHA512SUM0R'', 0x50000033, 0xfe00707f), (''SHA512SUM1'', 0x10501013, 0xfff0707f),
     (''SHA512SUM1R'', 0x52000033, 0xfe00707f), (''SHFLI'', 0x8001013, 0xfe00707f),
     (''SINVAL_VMA'', 0x16000073, 0xfe007fff), (''SLL'', 0x1033, 0xfe00707f),
     (''SLLI'', 0x1013, 0xfc00707f), (''SLLI_RV32'', 0x1013, 0xfe00707f),
     (''SLLI_UW'', 0x800101b, 0xfc00707f), (''SLLIW'', 0x101b, 0xfe00707f),
     (''SLLW'', 0x103b, 0xfe00707f), (''SLT'', 0x2033, 0xfe00707f), (''SLTI'', 0x2013, 0x707f),
     (''SLTIU'', 0x3013, 0x707f), (''SLTU'', 0x3033, 0xfe00707f), (''SM3P0'', 0x10801013, 0xfff0707f),
     (''SM3P1'', 0x10901013, 0xfff0707f), (''SM4ED'', 0x30000033, 0x3e00707f),
     (''SM4KS'', 0x34000033, 0x3e00707f), (''SRA'', 0x40005033, 0xfe00707f),
     (''SRAI'', 0x40005013, 0xfc00707f), (''SRAI_RV32'', 0x40005013, 0xfe00707f),
     (''SRAIW'', 0x4000501b, 0xfe00707f), (''SRAW'', 0x4000503b, 0xfe00707f),
     (''SRET'', 0x10200073, 0xffffffff), (''SRL'', 0x5033, 0xfe00707f), (''SRLI'', 0x5013, 0xfc00707f),
     (''SRLI_RV32'', 0x5013, 0xfe00707f), (''SRLIW'', 0x501b, 0xfe00707f),
     (''SRLW'', 0x503b, 0xfe00707f), (''SSAMOSWAP_D'', 0x4800302f, 0xf800707f),
     (''SSAMOSWAP_W'', 0x4800202f, 0xf800707f), (''SSPOPCHK_X1'', 0xcdc0c073, 0xffffffff),
     (''SSPOPCHK_X5'', 0xcdc2c073, 0xffffffff), (''SSPUSH_X1'', 0xce104073, 0xffffffff),
     (''SSPUSH_X5'', 0xce504073, 0xffffffff), (''SSRDP'', 0xcdc04073, 0xfffff07f),
     (''SUB'', 0x40000033, 0xfe00707f), (''SUBW'', 0x4000003b, 0xfe00707f), (''SW'', 0x2023, 0x707f),
     (''SW_RL'', 0x3a00202f, 0xfa007fff), (''UNSHFLI'', 0x8005013, 0xfe00707f),
     (''VAADD_VV'', 0x24002057, 0xfc00707f), (''VAADD_VX'', 0x24006057, 0xfc00707f)]"

definition insns_8 :: "insn_entry list" where
  "insns_8 = [(''VAADDU_VV'', 0x20002057, 0xfc00707f), (''VAADDU_VX'', 0x20006057, 0xfc00707f),
     (''VADC_VIM'', 0x40003057, 0xfe00707f), (''VADC_VVM'', 0x40000057, 0xfe00707f),
     (''VADC_VXM'', 0x40004057, 0xfe00707f), (''VADD_VI'', 0x3057, 0xfc00707f),
     (''VADD_VV'', 0x57, 0xfc00707f), (''VADD_VX'', 0x4057, 0xfc00707f),
     (''VAESDF_VS'', 0xa600a077, 0xfe0ff07f), (''VAESDF_VV'', 0xa200a077, 0xfe0ff07f),
     (''VAESDM_VS'', 0xa6002077, 0xfe0ff07f), (''VAESDM_VV'', 0xa2002077, 0xfe0ff07f),
     (''VAESEF_VS'', 0xa601a077, 0xfe0ff07f), (''VAESEF_VV'', 0xa201a077, 0xfe0ff07f),
     (''VAESEM_VS'', 0xa6012077, 0xfe0ff07f), (''VAESEM_VV'', 0xa2012077, 0xfe0ff07f),
     (''VAESKF1_VI'', 0x8a002077, 0xfe00707f), (''VAESKF2_VI'', 0xaa002077, 0xfe00707f),
     (''VAESZ_VS'', 0xa603a077, 0xfe0ff07f), (''VAND_VI'', 0x24003057, 0xfc00707f),
     (''VAND_VV'', 0x24000057, 0xfc00707f), (''VAND_VX'', 0x24004057, 0xfc00707f),
     (''VANDN_VV'', 0x4000057, 0xfc00707f), (''VANDN_VX'', 0x4004057, 0xfc00707f),
     (''VASUB_VV'', 0x2c002057, 0xfc00707f), (''VASUB_VX'', 0x2c006057, 0xfc00707f),
     (''VASUBU_VV'', 0x28002057, 0xfc00707f), (''VASUBU_VX'', 0x28006057, 0xfc00707f),
     (''VBREV8_V'', 0x48042057, 0xfc0ff07f), (''VBREV_V'', 0x48052057, 0xfc0ff07f),
     (''VCLMUL_VV'', 0x30002057, 0xfc00707f), (''VCLMUL_VX'', 0x30006057, 0xfc00707f),
     (''VCLMULH_VV'', 0x34002057, 0xfc00707f), (''VCLMULH_VX'', 0x34006057, 0xfc00707f),
     (''VCLZ_V'', 0x48062057, 0xfc0ff07f), (''VCOMPRESS_VM'', 0x5e002057, 0xfe00707f),
     (''VCPOP_M'', 0x40082057, 0xfc0ff07f), (''VCPOP_V'', 0x48072057, 0xfc0ff07f),
     (''VCTZ_V'', 0x4806a057, 0xfc0ff07f), (''VDIV_VV'', 0x84002057, 0xfc00707f),
     (''VDIV_VX'', 0x84006057, 0xfc00707f), (''VDIVU_VV'', 0x80002057, 0xfc00707f),
     (''VDIVU_VX'', 0x80006057, 0xfc00707f), (''VFADD_VF'', 0x5057, 0xfc00707f),
     (''VFADD_VV'', 0x1057, 0xfc00707f), (''VFCLASS_V'', 0x4c081057, 0xfc0ff07f),
     (''VFCVT_F_X_V'', 0x48019057, 0xfc0ff07f), (''VFCVT_F_XU_V'', 0x48011057, 0xfc0ff07f),
     (''VFCVT_RTZ_X_F_V'', 0x48039057, 0xfc0ff07f), (''VFCVT_RTZ_XU_F_V'', 0x48031057, 0xfc0ff07f),
     (''VFCVT_X_F_V'', 0x48009057, 0xfc0ff07f), (''VFCVT_XU_F_V'', 0x48001057, 0xfc0ff07f),
     (''VFDIV_VF'', 0x80005057, 0xfc00707f), (''VFDIV_VV'', 0x80001057, 0xfc00707f),
     (''VFIRST_M'', 0x4008a057, 0xfc0ff07f), (''VFMACC_VF'', 0xb0005057, 0xfc00707f),
     (''VFMACC_VV'', 0xb0001057, 0xfc00707f), (''VFMADD_VF'', 0xa0005057, 0xfc00707f),
     (''VFMADD_VV'', 0xa0001057, 0xfc00707f), (''VFMAX_VF'', 0x18005057, 0xfc00707f),
     (''VFMAX_VV'', 0x18001057, 0xfc00707f), (''VFMERGE_VFM'', 0x5c005057, 0xfe00707f),
     (''VFMIN_VF'', 0x10005057, 0xfc00707f), (''VFMIN_VV'', 0x10001057, 0xfc00707f),
     (''VFMSAC_VF'', 0xb8005057, 0xfc00707f), (''VFMSAC_VV'', 0xb8001057, 0xfc00707f),
     (''VFMSUB_VF'', 0xa8005057, 0xfc00707f), (''VFMSUB_VV'', 0xa8001057, 0xfc00707f),
     (''VFMUL_VF'', 0x90005057, 0xfc00707f), (''VFMUL_VV'', 0x90001057, 0xfc00707f),
     (''VFMV_F_S'', 0x42001057, 0xfe0ff07f), (''VFMV_S_F'', 0x42005057, 0xfff0707f),
     (''VFMV_V_F'', 0x5e005057, 0xfff0707f), (''VFNCVT_F_F_W'', 0x480a1057, 0xfc0ff07f),
     (''VFNCVT_F_X_W'', 0x48099057, 0xfc0ff07f)]"

definition insns_9 :: "insn_entry list" where
  "insns_9 = [(''VFNCVT_F_XU_W'', 0x48091057, 0xfc0ff07f),
     (''VFNCVT_ROD_F_F_W'', 0x480a9057, 0xfc0ff07f), (''VFNCVT_RTZ_X_F_W'', 0x480b9057, 0xfc0ff07f),
     (''VFNCVT_RTZ_XU_F_W'', 0x480b1057, 0xfc0ff07f), (''VFNCVT_X_F_W'', 0x48089057, 0xfc0ff07f),
     (''VFNCVT_XU_F_W'', 0x48081057, 0xfc0ff07f), (''VFNCVTBF16_F_F_W'', 0x480e9057, 0xfc0ff07f),
     (''VFNMACC_VF'', 0xb4005057, 0xfc00707f), (''VFNMACC_VV'', 0xb4001057, 0xfc00707f),
     (''VFNMADD_VF'', 0xa4005057, 0xfc00707f), (''VFNMADD_VV'', 0xa4001057, 0xfc00707f),
     (''VFNMSAC_VF'', 0xbc005057, 0xfc00707f), (''VFNMSAC_VV'', 0xbc001057, 0xfc00707f),
     (''VFNMSUB_VF'', 0xac005057, 0xfc00707f), (''VFNMSUB_VV'', 0xac001057, 0xfc00707f),
     (''VFRDIV_VF'', 0x84005057, 0xfc00707f), (''VFREC7_V'', 0x4c029057, 0xfc0ff07f),
     (''VFREDMAX_VS'', 0x1c001057, 0xfc00707f), (''VFREDMIN_VS'', 0x14001057, 0xfc00707f),
     (''VFREDOSUM_VS'', 0xc001057, 0xfc00707f), (''VFREDUSUM_VS'', 0x4001057, 0xfc00707f),
     (''VFRSQRT7_V'', 0x4c021057, 0xfc0ff07f), (''VFRSUB_VF'', 0x9c005057, 0xfc00707f),
     (''VFSGNJ_VF'', 0x20005057, 0xfc00707f), (''VFSGNJ_VV'', 0x20001057, 0xfc00707f),
     (''VFSGNJN_VF'', 0x24005057, 0xfc00707f), (''VFSGNJN_VV'', 0x24001057, 0xfc00707f),
     (''VFSGNJX_VF'', 0x28005057, 0xfc00707f), (''VFSGNJX_VV'', 0x28001057, 0xfc00707f),
     (''VFSLIDE1DOWN_VF'', 0x3c005057, 0xfc00707f), (''VFSLIDE1UP_VF'', 0x38005057, 0xfc00707f),
     (''VFSQRT_V'', 0x4c001057, 0xfc0ff07f), (''VFSUB_VF'', 0x8005057, 0xfc00707f),
     (''VFSUB_VV'', 0x8001057, 0xfc00707f), (''VFWADD_VF'', 0xc0005057, 0xfc00707f),
     (''VFWADD_VV'', 0xc0001057, 0xfc00707f), (''VFWADD_WF'', 0xd0005057, 0xfc00707f),
     (''VFWADD_WV'', 0xd0001057, 0xfc00707f), (''VFWCVT_F_F_V'', 0x48061057, 0xfc0ff07f),
     (''VFWCVT_F_X_V'', 0x48059057, 0xfc0ff07f), (''VFWCVT_F_XU_V'', 0x48051057, 0xfc0ff07f),
     (''VFWCVT_RTZ_X_F_V'', 0x48079057, 0xfc0ff07f), (''VFWCVT_RTZ_XU_F_V'', 0x48071057, 0xfc0ff07f),
     (''VFWCVT_X_F_V'', 0x48049057, 0xfc0ff07f), (''VFWCVT_XU_F_V'', 0x48041057, 0xfc0ff07f),
     (''VFWCVTBF16_F_F_V'', 0x48069057, 0xfc0ff07f), (''VFWMACC_VF'', 0xf0005057, 0xfc00707f),
     (''VFWMACC_VV'', 0xf0001057, 0xfc00707f), (''VFWMACCBF16_VF'', 0xec005057, 0xfc00707f),
     (''VFWMACCBF16_VV'', 0xec001057, 0xfc00707f), (''VFWMSAC_VF'', 0xf8005057, 0xfc00707f),
     (''VFWMSAC_VV'', 0xf8001057, 0xfc00707f), (''VFWMUL_VF'', 0xe0005057, 0xfc00707f),
     (''VFWMUL_VV'', 0xe0001057, 0xfc00707f), (''VFWNMACC_VF'', 0xf4005057, 0xfc00707f),
     (''VFWNMACC_VV'', 0xf4001057, 0xfc00707f), (''VFWNMSAC_VF'', 0xfc005057, 0xfc00707f),
     (''VFWNMSAC_VV'', 0xfc001057, 0xfc00707f), (''VFWREDOSUM_VS'', 0xcc001057, 0xfc00707f),
     (''VFWREDUSUM_VS'', 0xc4001057, 0xfc00707f), (''VFWSUB_VF'', 0xc8005057, 0xfc00707f),
     (''VFWSUB_VV'', 0xc8001057, 0xfc00707f), (''VFWSUB_WF'', 0xd8005057, 0xfc00707f),
     (''VFWSUB_WV'', 0xd8001057, 0xfc00707f), (''VGHSH_VV'', 0xb2002077, 0xfe00707f),
     (''VGMUL_VV'', 0xa208a077, 0xfe0ff07f), (''VID_V'', 0x5008a057, 0xfdfff07f),
     (''VIOTA_M'', 0x50082057, 0xfc0ff07f), (''VL1RE16_V'', 0x2805007, 0xfff0707f),
     (''VL1RE32_V'', 0x2806007, 0xfff0707f), (''VL1RE64_V'', 0x2807007, 0xfff0707f),
     (''VL1RE8_V'', 0x2800007, 0xfff0707f), (''VL2RE16_V'', 0x22805007, 0xfff0707f),
     (''VL2RE32_V'', 0x22806007, 0xfff0707f), (''VL2RE64_V'', 0x22807007, 0xfff0707f)]"

definition insns_10 :: "insn_entry list" where
  "insns_10 = [(''VL2RE8_V'', 0x22800007, 0xfff0707f), (''VL4RE16_V'', 0x62805007, 0xfff0707f),
     (''VL4RE32_V'', 0x62806007, 0xfff0707f), (''VL4RE64_V'', 0x62807007, 0xfff0707f),
     (''VL4RE8_V'', 0x62800007, 0xfff0707f), (''VL8RE16_V'', 0xe2805007, 0xfff0707f),
     (''VL8RE32_V'', 0xe2806007, 0xfff0707f), (''VL8RE64_V'', 0xe2807007, 0xfff0707f),
     (''VL8RE8_V'', 0xe2800007, 0xfff0707f), (''VLE16_V'', 0x5007, 0x1df0707f),
     (''VLE16FF_V'', 0x1005007, 0x1df0707f), (''VLE32_V'', 0x6007, 0x1df0707f),
     (''VLE32FF_V'', 0x1006007, 0x1df0707f), (''VLE64_V'', 0x7007, 0x1df0707f),
     (''VLE64FF_V'', 0x1007007, 0x1df0707f), (''VLE8_V'', 0x7, 0x1df0707f),
     (''VLE8FF_V'', 0x1000007, 0x1df0707f), (''VLM_V'', 0x2b00007, 0xfff0707f),
     (''VLOXEI16_V'', 0xc005007, 0x1c00707f), (''VLOXEI32_V'', 0xc006007, 0x1c00707f),
     (''VLOXEI64_V'', 0xc007007, 0x1c00707f), (''VLOXEI8_V'', 0xc000007, 0x1c00707f),
     (''VLSE16_V'', 0x8005007, 0x1c00707f), (''VLSE32_V'', 0x8006007, 0x1c00707f),
     (''VLSE64_V'', 0x8007007, 0x1c00707f), (''VLSE8_V'', 0x8000007, 0x1c00707f),
     (''VLUXEI16_V'', 0x4005007, 0x1c00707f), (''VLUXEI32_V'', 0x4006007, 0x1c00707f),
     (''VLUXEI64_V'', 0x4007007, 0x1c00707f), (''VLUXEI8_V'', 0x4000007, 0x1c00707f),
     (''VMACC_VV'', 0xb4002057, 0xfc00707f), (''VMACC_VX'', 0xb4006057, 0xfc00707f),
     (''VMADC_VI'', 0x46003057, 0xfe00707f), (''VMADC_VIM'', 0x44003057, 0xfe00707f),
     (''VMADC_VV'', 0x46000057, 0xfe00707f), (''VMADC_VVM'', 0x44000057, 0xfe00707f),
     (''VMADC_VX'', 0x46004057, 0xfe00707f), (''VMADC_VXM'', 0x44004057, 0xfe00707f),
     (''VMADD_VV'', 0xa4002057, 0xfc00707f), (''VMADD_VX'', 0xa4006057, 0xfc00707f),
     (''VMAND_MM'', 0x66002057, 0xfe00707f), (''VMANDN_MM'', 0x62002057, 0xfe00707f),
     (''VMAX_VV'', 0x1c000057, 0xfc00707f), (''VMAX_VX'', 0x1c004057, 0xfc00707f),
     (''VMAXU_VV'', 0x18000057, 0xfc00707f), (''VMAXU_VX'', 0x18004057, 0xfc00707f),
     (''VMERGE_VIM'', 0x5c003057, 0xfe00707f), (''VMERGE_VVM'', 0x5c000057, 0xfe00707f),
     (''VMERGE_VXM'', 0x5c004057, 0xfe00707f), (''VMFEQ_VF'', 0x60005057, 0xfc00707f),
     (''VMFEQ_VV'', 0x60001057, 0xfc00707f), (''VMFGE_VF'', 0x7c005057, 0xfc00707f),
     (''VMFGT_VF'', 0x74005057, 0xfc00707f), (''VMFLE_VF'', 0x64005057, 0xfc00707f),
     (''VMFLE_VV'', 0x64001057, 0xfc00707f), (''VMFLT_VF'', 0x6c005057, 0xfc00707f),
     (''VMFLT_VV'', 0x6c001057, 0xfc00707f), (''VMFNE_VF'', 0x70005057, 0xfc00707f),
     (''VMFNE_VV'', 0x70001057, 0xfc00707f), (''VMIN_VV'', 0x14000057, 0xfc00707f),
     (''VMIN_VX'', 0x14004057, 0xfc00707f), (''VMINU_VV'', 0x10000057, 0xfc00707f),
     (''VMINU_VX'', 0x10004057, 0xfc00707f), (''VMNAND_MM'', 0x76002057, 0xfe00707f),
     (''VMNOR_MM'', 0x7a002057, 0xfe00707f), (''VMOR_MM'', 0x6a002057, 0xfe00707f),
     (''VMORN_MM'', 0x72002057, 0xfe00707f), (''VMSBC_VV'', 0x4e000057, 0xfe00707f),
     (''VMSBC_VVM'', 0x4c000057, 0xfe00707f), (''VMSBC_VX'', 0x4e004057, 0xfe00707f),
     (''VMSBC_VXM'', 0x4c004057, 0xfe00707f), (''VMSBF_M'', 0x5000a057, 0xfc0ff07f),
     (''VMSEQ_VI'', 0x60003057, 0xfc00707f), (''VMSEQ_VV'', 0x60000057, 0xfc00707f),
     (''VMSEQ_VX'', 0x60004057, 0xfc00707f)]"

definition insns_11 :: "insn_entry list" where
  "insns_11 = [(''VMSGT_VI'', 0x7c003057, 0xfc00707f), (''VMSGT_VX'', 0x7c004057, 0xfc00707f),
     (''VMSGTU_VI'', 0x78003057, 0xfc00707f), (''VMSGTU_VX'', 0x78004057, 0xfc00707f),
     (''VMSIF_M'', 0x5001a057, 0xfc0ff07f), (''VMSLE_VI'', 0x74003057, 0xfc00707f),
     (''VMSLE_VV'', 0x74000057, 0xfc00707f), (''VMSLE_VX'', 0x74004057, 0xfc00707f),
     (''VMSLEU_VI'', 0x70003057, 0xfc00707f), (''VMSLEU_VV'', 0x70000057, 0xfc00707f),
     (''VMSLEU_VX'', 0x70004057, 0xfc00707f), (''VMSLT_VV'', 0x6c000057, 0xfc00707f),
     (''VMSLT_VX'', 0x6c004057, 0xfc00707f), (''VMSLTU_VV'', 0x68000057, 0xfc00707f),
     (''VMSLTU_VX'', 0x68004057, 0xfc00707f), (''VMSNE_VI'', 0x64003057, 0xfc00707f),
     (''VMSNE_VV'', 0x64000057, 0xfc00707f), (''VMSNE_VX'', 0x64004057, 0xfc00707f),
     (''VMSOF_M'', 0x50012057, 0xfc0ff07f), (''VMUL_VV'', 0x94002057, 0xfc00707f),
     (''VMUL_VX'', 0x94006057, 0xfc00707f), (''VMULH_VV'', 0x9c002057, 0xfc00707f),
     (''VMULH_VX'', 0x9c006057, 0xfc00707f), (''VMULHSU_VV'', 0x98002057, 0xfc00707f),
     (''VMULHSU_VX'', 0x98006057, 0xfc00707f), (''VMULHU_VV'', 0x90002057, 0xfc00707f),
     (''VMULHU_VX'', 0x90006057, 0xfc00707f), (''VMV1R_V'', 0x9e003057, 0xfe0ff07f),
     (''VMV2R_V'', 0x9e00b057, 0xfe0ff07f), (''VMV4R_V'', 0x9e01b057, 0xfe0ff07f),
     (''VMV8R_V'', 0x9e03b057, 0xfe0ff07f), (''VMV_S_X'', 0x42006057, 0xfff0707f),
     (''VMV_V_I'', 0x5e003057, 0xfff0707f), (''VMV_V_V'', 0x5e000057, 0xfff0707f),
     (''VMV_V_X'', 0x5e004057, 0xfff0707f), (''VMV_X_S'', 0x42002057, 0xfe0ff07f),
     (''VMXNOR_MM'', 0x7e002057, 0xfe00707f), (''VMXOR_MM'', 0x6e002057, 0xfe00707f),
     (''VNCLIP_WI'', 0xbc003057, 0xfc00707f), (''VNCLIP_WV'', 0xbc000057, 0xfc00707f),
     (''VNCLIP_WX'', 0xbc004057, 0xfc00707f), (''VNCLIPU_WI'', 0xb8003057, 0xfc00707f),
     (''VNCLIPU_WV'', 0xb8000057, 0xfc00707f), (''VNCLIPU_WX'', 0xb8004057, 0xfc00707f),
     (''VNMSAC_VV'', 0xbc002057, 0xfc00707f), (''VNMSAC_VX'', 0xbc006057, 0xfc00707f),
     (''VNMSUB_VV'', 0xac002057, 0xfc00707f), (''VNMSUB_VX'', 0xac006057, 0xfc00707f),
     (''VNSRA_WI'', 0xb4003057, 0xfc00707f), (''VNSRA_WV'', 0xb4000057, 0xfc00707f),
     (''VNSRA_WX'', 0xb4004057, 0xfc00707f), (''VNSRL_WI'', 0xb0003057, 0xfc00707f),
     (''VNSRL_WV'', 0xb0000057, 0xfc00707f), (''VNSRL_WX'', 0xb0004057, 0xfc00707f),
     (''VOR_VI'', 0x28003057, 0xfc00707f), (''VOR_VV'', 0x28000057, 0xfc00707f),
     (''VOR_VX'', 0x28004057, 0xfc00707f), (''VREDAND_VS'', 0x4002057, 0xfc00707f),
     (''VREDMAX_VS'', 0x1c002057, 0xfc00707f), (''VREDMAXU_VS'', 0x18002057, 0xfc00707f),
     (''VREDMIN_VS'', 0x14002057, 0xfc00707f), (''VREDMINU_VS'', 0x10002057, 0xfc00707f),
     (''VREDOR_VS'', 0x8002057, 0xfc00707f), (''VREDSUM_VS'', 0x2057, 0xfc00707f),
     (''VREDXOR_VS'', 0xc002057, 0xfc00707f), (''VREM_VV'', 0x8c002057, 0xfc00707f),
     (''VREM_VX'', 0x8c006057, 0xfc00707f), (''VREMU_VV'', 0x88002057, 0xfc00707f),
     (''VREMU_VX'', 0x88006057, 0xfc00707f), (''VREV8_V'', 0x4804a057, 0xfc0ff07f),
     (''VRGATHER_VI'', 0x30003057, 0xfc00707f), (''VRGATHER_VV'', 0x30000057, 0xfc00707f),
     (''VRGATHER_VX'', 0x30004057, 0xfc00707f), (''VRGATHEREI16_VV'', 0x38000057, 0xfc00707f),
     (''VROL_VV'', 0x54000057, 0xfc00707f)]"

definition insns_12 :: "insn_entry list" where
  "insns_12 = [(''VROL_VX'', 0x54004057, 0xfc00707f), (''VROR_VI'', 0x50003057, 0xf800707f),
     (''VROR_VV'', 0x50000057, 0xfc00707f), (''VROR_VX'', 0x50004057, 0xfc00707f),
     (''VRSUB_VI'', 0xc003057, 0xfc00707f), (''VRSUB_VX'', 0xc004057, 0xfc00707f),
     (''VS1R_V'', 0x2800027, 0xfff0707f), (''VS2R_V'', 0x22800027, 0xfff0707f),
     (''VS4R_V'', 0x62800027, 0xfff0707f), (''VS8R_V'', 0xe2800027, 0xfff0707f),
     (''VSADD_VI'', 0x84003057, 0xfc00707f), (''VSADD_VV'', 0x84000057, 0xfc00707f),
     (''VSADD_VX'', 0x84004057, 0xfc00707f), (''VSADDU_VI'', 0x80003057, 0xfc00707f),
     (''VSADDU_VV'', 0x80000057, 0xfc00707f), (''VSADDU_VX'', 0x80004057, 0xfc00707f),
     (''VSBC_VVM'', 0x48000057, 0xfe00707f), (''VSBC_VXM'', 0x48004057, 0xfe00707f),
     (''VSE16_V'', 0x5027, 0x1df0707f), (''VSE32_V'', 0x6027, 0x1df0707f),
     (''VSE64_V'', 0x7027, 0x1df0707f), (''VSE8_V'', 0x27, 0x1df0707f),
     (''VSETIVLI'', 0xc0007057, 0xc000707f), (''VSETVL'', 0x80007057, 0xfe00707f),
     (''VSETVLI'', 0x7057, 0x8000707f), (''VSEXT_VF2'', 0x4803a057, 0xfc0ff07f),
     (''VSEXT_VF4'', 0x4802a057, 0xfc0ff07f), (''VSEXT_VF8'', 0x4801a057, 0xfc0ff07f),
     (''VSHA2CH_VV'', 0xba002077, 0xfe00707f), (''VSHA2CL_VV'', 0xbe002077, 0xfe00707f),
     (''VSHA2MS_VV'', 0xb6002077, 0xfe00707f), (''VSLIDE1DOWN_VX'', 0x3c006057, 0xfc00707f),
     (''VSLIDE1UP_VX'', 0x38006057, 0xfc00707f), (''VSLIDEDOWN_VI'', 0x3c003057, 0xfc00707f),
     (''VSLIDEDOWN_VX'', 0x3c004057, 0xfc00707f), (''VSLIDEUP_VI'', 0x38003057, 0xfc00707f),
     (''VSLIDEUP_VX'', 0x38004057, 0xfc00707f), (''VSLL_VI'', 0x94003057, 0xfc00707f),
     (''VSLL_VV'', 0x94000057, 0xfc00707f), (''VSLL_VX'', 0x94004057, 0xfc00707f),
     (''VSM3C_VI'', 0xae002077, 0xfe00707f), (''VSM3ME_VV'', 0x82002077, 0xfe00707f),
     (''VSM4K_VI'', 0x86002077, 0xfe00707f), (''VSM4R_VS'', 0xa6082077, 0xfe0ff07f),
     (''VSM4R_VV'', 0xa2082077, 0xfe0ff07f), (''VSM_V'', 0x2b00027, 0xfff0707f),
     (''VSMUL_VV'', 0x9c000057, 0xfc00707f), (''VSMUL_VX'', 0x9c004057, 0xfc00707f),
     (''VSOXEI16_V'', 0xc005027, 0x1c00707f), (''VSOXEI32_V'', 0xc006027, 0x1c00707f),
     (''VSOXEI64_V'', 0xc007027, 0x1c00707f), (''VSOXEI8_V'', 0xc000027, 0x1c00707f),
     (''VSRA_VI'', 0xa4003057, 0xfc00707f), (''VSRA_VV'', 0xa4000057, 0xfc00707f),
     (''VSRA_VX'', 0xa4004057, 0xfc00707f), (''VSRL_VI'', 0xa0003057, 0xfc00707f),
     (''VSRL_VV'', 0xa0000057, 0xfc00707f), (''VSRL_VX'', 0xa0004057, 0xfc00707f),
     (''VSSE16_V'', 0x8005027, 0x1c00707f), (''VSSE32_V'', 0x8006027, 0x1c00707f),
     (''VSSE64_V'', 0x8007027, 0x1c00707f), (''VSSE8_V'', 0x8000027, 0x1c00707f),
     (''VSSRA_VI'', 0xac003057, 0xfc00707f), (''VSSRA_VV'', 0xac000057, 0xfc00707f),
     (''VSSRA_VX'', 0xac004057, 0xfc00707f), (''VSSRL_VI'', 0xa8003057, 0xfc00707f),
     (''VSSRL_VV'', 0xa8000057, 0xfc00707f), (''VSSRL_VX'', 0xa8004057, 0xfc00707f),
     (''VSSUB_VV'', 0x8c000057, 0xfc00707f), (''VSSUB_VX'', 0x8c004057, 0xfc00707f),
     (''VSSUBU_VV'', 0x88000057, 0xfc00707f), (''VSSUBU_VX'', 0x88004057, 0xfc00707f),
     (''VSUB_VV'', 0x8000057, 0xfc00707f), (''VSUB_VX'', 0x8004057, 0xfc00707f),
     (''VSUXEI16_V'', 0x4005027, 0x1c00707f)]"

definition insns_13 :: "insn_entry list" where
  "insns_13 = [(''VSUXEI32_V'', 0x4006027, 0x1c00707f), (''VSUXEI64_V'', 0x4007027, 0x1c00707f),
     (''VSUXEI8_V'', 0x4000027, 0x1c00707f), (''VWADD_VV'', 0xc4002057, 0xfc00707f),
     (''VWADD_VX'', 0xc4006057, 0xfc00707f), (''VWADD_WV'', 0xd4002057, 0xfc00707f),
     (''VWADD_WX'', 0xd4006057, 0xfc00707f), (''VWADDU_VV'', 0xc0002057, 0xfc00707f),
     (''VWADDU_VX'', 0xc0006057, 0xfc00707f), (''VWADDU_WV'', 0xd0002057, 0xfc00707f),
     (''VWADDU_WX'', 0xd0006057, 0xfc00707f), (''VWMACC_VV'', 0xf4002057, 0xfc00707f),
     (''VWMACC_VX'', 0xf4006057, 0xfc00707f), (''VWMACCSU_VV'', 0xfc002057, 0xfc00707f),
     (''VWMACCSU_VX'', 0xfc006057, 0xfc00707f), (''VWMACCU_VV'', 0xf0002057, 0xfc00707f),
     (''VWMACCU_VX'', 0xf0006057, 0xfc00707f), (''VWMACCUS_VX'', 0xf8006057, 0xfc00707f),
     (''VWMUL_VV'', 0xec002057, 0xfc00707f), (''VWMUL_VX'', 0xec006057, 0xfc00707f),
     (''VWMULSU_VV'', 0xe8002057, 0xfc00707f), (''VWMULSU_VX'', 0xe8006057, 0xfc00707f),
     (''VWMULU_VV'', 0xe0002057, 0xfc00707f), (''VWMULU_VX'', 0xe0006057, 0xfc00707f),
     (''VWREDSUM_VS'', 0xc4000057, 0xfc00707f), (''VWREDSUMU_VS'', 0xc0000057, 0xfc00707f),
     (''VWSLL_VI'', 0xd4003057, 0xfc00707f), (''VWSLL_VV'', 0xd4000057, 0xfc00707f),
     (''VWSLL_VX'', 0xd4004057, 0xfc00707f), (''VWSUB_VV'', 0xcc002057, 0xfc00707f),
     (''VWSUB_VX'', 0xcc006057, 0xfc00707f), (''VWSUB_WV'', 0xdc002057, 0xfc00707f),
     (''VWSUB_WX'', 0xdc006057, 0xfc00707f), (''VWSUBU_VV'', 0xc8002057, 0xfc00707f),
     (''VWSUBU_VX'', 0xc8006057, 0xfc00707f), (''VWSUBU_WV'', 0xd8002057, 0xfc00707f),
     (''VWSUBU_WX'', 0xd8006057, 0xfc00707f), (''VXOR_VI'', 0x2c003057, 0xfc00707f),
     (''VXOR_VV'', 0x2c000057, 0xfc00707f), (''VXOR_VX'', 0x2c004057, 0xfc00707f),
     (''VZEXT_VF2'', 0x48032057, 0xfc0ff07f), (''VZEXT_VF4'', 0x48022057, 0xfc0ff07f),
     (''VZEXT_VF8'', 0x48012057, 0xfc0ff07f), (''WFI'', 0x10500073, 0xffffffff),
     (''WRS_NTO'', 0xd00073, 0xffffffff), (''WRS_STO'', 0x1d00073, 0xffffffff),
     (''XNOR'', 0x40004033, 0xfe00707f), (''XOR'', 0x4033, 0xfe00707f), (''XORI'', 0x4013, 0x707f),
     (''XPERM16'', 0x28006033, 0xfe00707f), (''XPERM32'', 0x28000033, 0xfe00707f),
     (''XPERM4'', 0x28002033, 0xfe00707f), (''XPERM8'', 0x28004033, 0xfe00707f)]"

definition riscv_insns :: "insn_entry list" where
  "riscv_insns = concat [insns_1, insns_2, insns_3, insns_4, insns_5, insns_6, insns_7, insns_8, insns_9, insns_10, insns_11, insns_12, insns_13]"

lemmas insns_defs = insns_1_def insns_2_def insns_3_def insns_4_def insns_5_def insns_6_def insns_7_def insns_8_def insns_9_def insns_10_def insns_11_def insns_12_def insns_13_def

lemma riscv_insns_all: "list_all P riscv_insns \<longleftrightarrow>
    list_all P insns_1 \<and> list_all P insns_2 \<and> list_all P insns_3 \<and> list_all P insns_4 \<and> list_all P insns_5 \<and> list_all P insns_6 \<and> list_all P insns_7 \<and> list_all P insns_8 \<and> list_all P insns_9 \<and> list_all P insns_10 \<and> list_all P insns_11 \<and> list_all P insns_12 \<and> list_all P insns_13"
  by (simp add: riscv_insns_def list_all_append)

section \<open>Decoding\<close>

text \<open>\<open>insn_len\<close> is the function of \<^verbatim>\<open>tools/riscv64-pk/include/riscv-pk/pk.h\<close>: the length in bytes
  of an instruction, read from its two lowest bits.\<close>

definition insn_len :: "'a::len word \<Rightarrow> nat" where
  "insn_len insn = (if insn AND 0x3 < 0x3 then 2 else 4)"

definition decode :: "u32 \<Rightarrow> string list" where
  "decode w = map fst (filter (\<lambda>(_, m, k). w AND k = m) riscv_insns)"

text \<open>An entry is well formed if its match is within its mask, the mask fixes the length bits, and
  exactly the compressed instructions, by their name, are two bytes long and then have a mask
  of 16 bits.\<close>

definition compressed_name :: "string \<Rightarrow> bool" where
  "compressed_name n \<longleftrightarrow> take 2 n = ''C_'' \<or> take 3 n = ''CM_''"

definition well_formed :: "insn_entry \<Rightarrow> bool" where
  "well_formed = (\<lambda>(n, m, k). m AND NOT k = 0 \<and> k AND 3 = 3 \<and>
     (insn_len m = 2 \<longleftrightarrow> compressed_name n) \<and> (insn_len m = 2 \<longrightarrow> k < 0x10000))"

lemma insns_well_formed_1: "list_all well_formed insns_1"
  by code_simp

lemma insns_well_formed_2: "list_all well_formed insns_2"
  by code_simp

lemma insns_well_formed_3: "list_all well_formed insns_3"
  by code_simp

lemma insns_well_formed_4: "list_all well_formed insns_4"
  by code_simp

lemma insns_well_formed_5: "list_all well_formed insns_5"
  by code_simp

lemma insns_well_formed_6: "list_all well_formed insns_6"
  by code_simp

lemma insns_well_formed_7: "list_all well_formed insns_7"
  by code_simp

lemma insns_well_formed_8: "list_all well_formed insns_8"
  by code_simp

lemma insns_well_formed_9: "list_all well_formed insns_9"
  by code_simp

lemma insns_well_formed_10: "list_all well_formed insns_10"
  by code_simp

lemma insns_well_formed_11: "list_all well_formed insns_11"
  by code_simp

lemma insns_well_formed_12: "list_all well_formed insns_12"
  by code_simp

lemma insns_well_formed_13: "list_all well_formed insns_13"
  by code_simp

lemmas insns_well_formed = insns_well_formed_1 insns_well_formed_2 insns_well_formed_3 insns_well_formed_4 insns_well_formed_5 insns_well_formed_6 insns_well_formed_7 insns_well_formed_8 insns_well_formed_9 insns_well_formed_10 insns_well_formed_11 insns_well_formed_12 insns_well_formed_13

lemma riscv_insns_well_formed: "e \<in> set riscv_insns \<Longrightarrow> well_formed e"
  using riscv_insns_all [of well_formed] insns_well_formed by (simp add: list_all_iff)

lemma match_length:
  assumes "well_formed (n, m, k)" "w AND k = m"
  shows "insn_len w = insn_len m"
proof -
  have "k AND 3 = 3" using assms(1) by (simp add: well_formed_def)
  moreover have "m AND 3 = w AND (k AND 3)" using assms(2) by (simp add: and.assoc [symmetric])
  ultimately have "w AND 3 = m AND 3" by simp
  then show ?thesis by (simp add: insn_len_def)
qed

text \<open>Two entries clash if some word matches both.\<close>

definition clash :: "insn_entry \<Rightarrow> insn_entry \<Rightarrow> bool" where
  "clash = (\<lambda>(_, m1, k1) (_, m2, k2). (m1 XOR m2) AND (k1 AND k2) = 0)"

lemma both_match_clash: "w AND k1 = m1 \<Longrightarrow> w AND k2 = m2 \<Longrightarrow> clash (n1, m1, k1) (n2, m2, k2)"
  by (auto simp: clash_def bit_simps intro!: bit_word_eqI)

text \<open>The instructions of \<^verbatim>\<open>trap_entry.S\<close>, \<^verbatim>\<open>switch.S\<close> and the inline assembler of the kernel
  that access memory or the privileged state (csrr and csrw are forms of CSRRS and CSRRW).\<close>

definition kernel_insns :: "insn_entry list" where
  "kernel_insns =
    [(''ECALL'', 0x73, 0xffffffff),
     (''EBREAK'', 0x100073, 0xffffffff),
     (''MRET'', 0x30200073, 0xffffffff),
     (''WFI'', 0x10500073, 0xffffffff),
     (''SFENCE_VMA'', 0x12000073, 0xfe007fff),
     (''CSRRW'', 0x1073, 0x707f),
     (''CSRRS'', 0x2073, 0x707f),
     (''CSRRC'', 0x3073, 0x707f),
     (''SD'', 0x3023, 0x707f),
     (''LD'', 0x3003, 0x707f)]"

definition clashes :: "insn_entry list \<Rightarrow> string list list" where
  "clashes part = map (\<lambda>e. map fst (filter (clash e) part)) kernel_insns"

lemma clashes_1: "clashes insns_1 = [[], [], [], [], [], [], [], [], [], []]"
  by code_simp

lemma clashes_2: "clashes insns_2 = [[], [], [], [], [], [], [], [], [], []]"
  by code_simp

lemma clashes_3: "clashes insns_3 = [[''ECALL''], [''EBREAK''], [], [], [], [''CSRRW''], [''CSRRS''], [''CSRRC''], [], []]"
  by code_simp

lemma clashes_4: "clashes insns_4 = [[], [], [], [], [], [], [], [], [], []]"
  by code_simp

lemma clashes_5: "clashes insns_5 = [[], [], [], [], [], [], [], [], [], [''LD'']]"
  by code_simp

lemma clashes_6: "clashes insns_6 = [[], [], [''MRET''], [], [], [], [], [], [], []]"
  by code_simp

lemma clashes_7: "clashes insns_7 = [[], [], [], [], [''SFENCE_VMA''], [], [], [], [''SD''], []]"
  by code_simp

lemma clashes_8: "clashes insns_8 = [[], [], [], [], [], [], [], [], [], []]"
  by code_simp

lemma clashes_9: "clashes insns_9 = [[], [], [], [], [], [], [], [], [], []]"
  by code_simp

lemma clashes_10: "clashes insns_10 = [[], [], [], [], [], [], [], [], [], []]"
  by code_simp

lemma clashes_11: "clashes insns_11 = [[], [], [], [], [], [], [], [], [], []]"
  by code_simp

lemma clashes_12: "clashes insns_12 = [[], [], [], [], [], [], [], [], [], []]"
  by code_simp

lemma clashes_13: "clashes insns_13 = [[], [], [], [''WFI''], [], [], [], [], [], []]"
  by code_simp

lemma kernel_insns_in:
  "(''ECALL'', 0x73, 0xffffffff) \<in> set insns_3"
  "(''EBREAK'', 0x100073, 0xffffffff) \<in> set insns_3"
  "(''MRET'', 0x30200073, 0xffffffff) \<in> set insns_6"
  "(''WFI'', 0x10500073, 0xffffffff) \<in> set insns_13"
  "(''SFENCE_VMA'', 0x12000073, 0xfe007fff) \<in> set insns_7"
  "(''CSRRW'', 0x1073, 0x707f) \<in> set insns_3"
  "(''CSRRS'', 0x2073, 0x707f) \<in> set insns_3"
  "(''CSRRC'', 0x3073, 0x707f) \<in> set insns_3"
  "(''SD'', 0x3023, 0x707f) \<in> set insns_7"
  "(''LD'', 0x3003, 0x707f) \<in> set insns_5"
  by (simp_all add: insns_defs)

lemma kernel_insns_listed: "set kernel_insns \<subseteq> set riscv_insns"
  using kernel_insns_in by (simp add: kernel_insns_def riscv_insns_def)

lemma clashes_append: "clashes (xs @ ys) = map2 (@) (clashes xs) (clashes ys)"
  by (simp add: clashes_def zip_map1 zip_map2 comp_def) (simp add: map2_map_map [symmetric] zip_same_conv_map)

lemma clashes_all: "clashes riscv_insns = map (\<lambda>(n, _). [n]) kernel_insns"
proof -
  have nil: "clashes [] = replicate 10 []" by (simp add: clashes_def kernel_insns_def eval_nat_numeral)
  show ?thesis
    by (simp add: riscv_insns_def clashes_append nil kernel_insns_def eval_nat_numeral clashes_1 clashes_2 clashes_3 clashes_4 clashes_5 clashes_6 clashes_7 clashes_8 clashes_9 clashes_10 clashes_11 clashes_12 clashes_13)
qed

lemma only_clash:
  assumes "e \<in> set kernel_insns"
  shows "filter (clash e) riscv_insns = [e]"
proof -
  have "map (\<lambda>e. map fst (filter (clash e) riscv_insns)) kernel_insns = map (\<lambda>e. [fst e]) kernel_insns"
    using clashes_all by (simp add: clashes_def case_prod_unfold)
  with assms have one: "map fst (filter (clash e) riscv_insns) = [fst e]" by (auto dest: map_eq_conv [THEN iffD1])
  have "clash e e" by (cases e) (simp add: clash_def)
  with assms kernel_insns_listed have "e \<in> set (filter (clash e) riscv_insns)" by auto
  with one show ?thesis by (cases "filter (clash e) riscv_insns") auto
qed

section \<open>Properties\<close>

text \<open>The instruction table is consistent. Every instruction word that an entry of the
  table matches decodes to that instruction (among others), so does the match value of the
  entry itself, and the length of the word, read from its two lowest bits, is two bytes for the
  compressed instructions (those named C or CM) and four bytes for all others.\<close>

lemma insn_table_consistent:
  assumes "(n, m, k) \<in> set riscv_insns" and "w AND k = m"
  shows "n \<in> set (decode w) \<and> n \<in> set (decode m) \<and> insn_len w = (if compressed_name n then 2 else 4)"
proof -
  have wf: "well_formed (n, m, k)" by (rule riscv_insns_well_formed [OF assms(1)])
  have "m AND k = m" by (simp add: and.assoc [symmetric] flip: assms(2))
  moreover have "insn_len w = (if compressed_name n then 2 else 4)"
    using match_length [OF wf assms(2)] wf by (auto simp: well_formed_def insn_len_def split: if_splits)
  ultimately show ?thesis using assms by (force simp: decode_def)
qed

lemma insn_table_consistent_witness:
  "insn_len (0x73 :: u32) = 4 \<and> insn_len (0x34129073 :: u32) = 4 \<and> ''CSRRW'' \<in> set (decode 0x34129073)"
proof -
  have "(''ECALL'', 0x73, 0xffffffff) \<in> set riscv_insns" "(''CSRRW'', 0x1073, 0x707f) \<in> set riscv_insns"
    using kernel_insns_listed by (auto simp: kernel_insns_def)
  from insn_table_consistent [OF this(1), of "0x73"] insn_table_consistent [OF this(2), of "0x34129073"]
  show ?thesis by (simp add: compressed_name_def)
qed

text \<open>The instructions of the kernel decode uniquely. Every word that matches one of
  the memory, CSR, trap and fence instructions of the kernel's assembler code - whatever its
  registers, CSR number and immediates - matches that entry of the 953 and no other.\<close>

lemma kernel_insns_decode:
  assumes "(n, m, k) \<in> set kernel_insns" and "w AND k = m"
  shows "decode w = [n]"
proof -
  let ?M = "\<lambda>(_ :: string, m, k). w AND k = m"
  have "?M e' \<Longrightarrow> clash (n, m, k) e'" for e'
    using both_match_clash [of w k m] assms(2) by (cases e') auto
  then have "filter ?M riscv_insns = filter ?M (filter (clash (n, m, k)) riscv_insns)"
    unfolding filter_filter by (intro filter_cong refl) auto
  then show ?thesis using assms(2) by (simp add: only_clash [OF assms(1)] decode_def)
qed

lemma kernel_insns_decode_witness: "decode 0x34129073 = [''CSRRW''] \<and> decode 0x73 = [''ECALL'']"
proof -
  have "(''ECALL'', 0x73, 0xffffffff) \<in> set kernel_insns" "(''CSRRW'', 0x1073, 0x707f) \<in> set kernel_insns"
    by (simp_all add: kernel_insns_def)
  from kernel_insns_decode [OF this(1), of "0x73"] kernel_insns_decode [OF this(2), of "0x34129073"]
  show ?thesis by simp
qed

end
