(* ===== verification/Agreement.thy ===== *)
theory Agreement
  imports Riscv_Pk Insn_Table Address_Space Trap
begin

text \<open>
  The kernel defines its own constants and encoders for page tables, satp, traps and
  instructions (\<^verbatim>\<open>platform/riscv.h\<close>, \<^verbatim>\<open>sv39.h\<close>, \<^verbatim>\<open>mmu.cpp\<close>, \<^verbatim>\<open>page.h\<close>, \<^verbatim>\<open>trap_logic.h\<close>); the toolchain
  headers define the same facts of the architecture a second time. The theorems here compare the
  two models.
\<close>

section \<open>Paging\<close>

lemma pte_bits:
  "pte_bit ''PTE_V'' = PteV" "pte_bit ''PTE_R'' = PteR" "pte_bit ''PTE_W'' = PteW" "pte_bit ''PTE_X'' = PteX"
  "pte_bit ''PTE_U'' = PteU" "pte_bit ''PTE_G'' = PteG" "pte_bit ''PTE_A'' = PteA" "pte_bit ''PTE_D'' = PteD"
  by code_simp+

lemma make_pte_create: "make_pte pa (scast t OR PteV) = pte_create (pa_to_pfn pa) t"
  by (simp add: make_pte_def pte_create_def pte_bits kPtePpnShift_def PTE_PPN_SHIFT_def kSvPageShift_def
      pa_to_pfn_def kPageShift_def or.commute or.left_commute)

text \<open>Flag words that are not the sign extension of an \<^verbatim>\<open>int\<close> cannot be passed: the lost bits show.\<close>

lemma pte_create_extends: "pte_create (pa_to_pfn 0) 0x80000000 \<noteq> make_pte 0 (0x80000000 OR PteV)"
  by code_simp

lemma pte_table_valid: "PTE_TABLE e \<longleftrightarrow> pte_valid e \<and> \<not> pte_leaf e"
proof -
  have "PTE_TABLE e \<longleftrightarrow> (e AND PteV) OR (e AND (PteR OR PteW OR PteX)) = PteV"
    unfolding PTE_TABLE_def pte_bits by (simp add: bit.conj_disj_distrib or.assoc)
  also have "\<dots> \<longleftrightarrow> e AND PteV \<noteq> 0 \<and> e AND (PteR OR PteW OR PteX) = 0"
  proof -
    have v: "PteV = 1" and l: "PteR OR PteW OR PteX = 14"
      by (simp_all add: PteV_def PteR_def PteW_def PteX_def)
    show ?thesis
    proof (intro iffI conjI)
      assume eq: "(e AND PteV) OR (e AND (PteR OR PteW OR PteX)) = PteV"
      then have "((e AND 1) OR (e AND 14)) AND 14 = 1 AND 14" unfolding v l by simp
      then show rwx: "e AND (PteR OR PteW OR PteX) = 0" unfolding l by (simp add: bit.conj_disj_distrib2 and.assoc)
      show "e AND PteV \<noteq> 0" using eq unfolding rwx v by auto
    next
      assume "e AND PteV \<noteq> 0 \<and> e AND (PteR OR PteW OR PteX) = 0"
      then show "(e AND PteV) OR (e AND (PteR OR PteW OR PteX)) = PteV"
        unfolding v l by (auto simp: and_one_eq odd_iff_mod_2_eq_one)
    qed
  qed
  finally show ?thesis by (simp add: pte_valid_def pte_leaf_def)
qed

lemma satp_choice: "make_satp root = SATP_MODE_CHOICE OR drop_bit RISCV_PGSHIFT root"
proof -
  have "SATP_MODE_CHOICE = kSatpModeSv39" by code_simp
  then show ?thesis by (simp add: make_satp_def RISCV_PGSHIFT_def)
qed

lemma page_size: "RISCV_PGSIZE = kPageSize" "push_bit 12 1 = (4096 :: u64)"
  by (simp_all add: RISCV_PGSIZE_def RISCV_PGSHIFT_def kPageSize_def)

lemma round_page: "ROUNDDOWN a RISCV_PGSIZE = align_down a" "ROUNDUP a RISCV_PGSIZE = align_up a"
proof -
  have m: "kPageMask = (mask 12 :: u64)" and sz: "RISCV_PGSIZE = 2 ^ 12"
    by (simp_all add: kPageMask_def kPageSize_def mask_eq_exp_minus_1 RISCV_PGSIZE_def RISCV_PGSHIFT_def)
  have down: "x div 2 ^ 12 * 2 ^ 12 = push_bit 12 (drop_bit 12 x)" for x :: u64
    by (simp only: drop_bit_eq_div push_bit_eq_mult)
  show "ROUNDDOWN a RISCV_PGSIZE = align_down a"
    unfolding ROUNDDOWN_def sz align_down_def m and_not_mask by (rule down)
  have disj: "(push_bit 12 x + take_bit 12 b) AND NOT (mask 12) = push_bit 12 x" for x b :: u64
  proof -
    have "push_bit 12 x AND take_bit 12 b = 0" by (rule bit_word_eqI) (auto simp: bit_simps)
    then show ?thesis
      by (simp only: disjunctive_add_eq_or) (rule bit_word_eqI, auto simp: bit_simps)
  qed
  let ?b = "a - 1"
  have "?b = push_bit 12 (drop_bit 12 ?b) + take_bit 12 ?b"
    using bits_ident [of 12 ?b] by simp
  then have "a + mask 12 = push_bit 12 (drop_bit 12 ?b + 1) + take_bit 12 ?b"
    by (simp add: push_bit_add mask_eq_exp_minus_1 algebra_simps)
  then have "(a + mask 12) AND NOT (mask 12) = push_bit 12 (drop_bit 12 ?b + 1)"
    by (simp only: disj)
  then show "ROUNDUP a RISCV_PGSIZE = align_up a"
    unfolding ROUNDUP_def sz align_up_def m by (simp only: drop_bit_eq_div push_bit_eq_mult)
qed

section \<open>Traps\<close>

text \<open>The macro of \<^verbatim>\<open>encoding.h\<close> that stands for a cause of \<^verbatim>\<open>platform/riscv.h\<close>.\<close>

fun cause_macro :: "ExceptionCode \<Rightarrow> string" where
  "cause_macro InstructionAddressMisaligned = ''CAUSE_MISALIGNED_FETCH''"
| "cause_macro InstructionAccessFault = ''CAUSE_FETCH_ACCESS''"
| "cause_macro IllegalInstruction = ''CAUSE_ILLEGAL_INSTRUCTION''"
| "cause_macro Breakpoint = ''CAUSE_BREAKPOINT''"
| "cause_macro LoadAddressMisaligned = ''CAUSE_MISALIGNED_LOAD''"
| "cause_macro LoadAccessFault = ''CAUSE_LOAD_ACCESS''"
| "cause_macro StoreAmoAddressMisaligned = ''CAUSE_MISALIGNED_STORE''"
| "cause_macro StoreAmoAccessFault = ''CAUSE_STORE_ACCESS''"
| "cause_macro EcallFromUMode = ''CAUSE_USER_ECALL''"
| "cause_macro EcallFromSMode = ''CAUSE_SUPERVISOR_ECALL''"
| "cause_macro EcallFromMMode = ''CAUSE_MACHINE_ECALL''"
| "cause_macro InstructionPageFault = ''CAUSE_FETCH_PAGE_FAULT''"
| "cause_macro LoadPageFault = ''CAUSE_LOAD_PAGE_FAULT''"
| "cause_macro StoreAmoPageFault = ''CAUSE_STORE_PAGE_FAULT''"

fun irq_macro :: "InterruptCode \<Rightarrow> string" where
  "irq_macro MachineSoftware = ''IRQ_M_SOFT''"
| "irq_macro MachineTimer = ''IRQ_M_TIMER''"
| "irq_macro MachineExternal = ''IRQ_M_EXT''"

text \<open>The CSRs that the kernel accesses, by the names and numbers of \<^verbatim>\<open>encoding.h\<close>; the two top bits of the
  number say that the register is read-only.\<close>

definition used_csrs :: "(string \<times> u32) list" where
  "used_csrs = [(''SATP'', 0x180), (''MSTATUS'', 0x300), (''MIE'', 0x304), (''MTVEC'', 0x305), (''MEPC'', 0x341),
     (''MCAUSE'', 0x342), (''MTVAL'', 0x343), (''MHARTID'', 0xf14)]"

definition read_only :: "u32 \<Rightarrow> bool" where
  "read_only a \<longleftrightarrow> a AND 0xC00 = 0xC00"

lemma causes_agree: "map_of causes (cause_macro e) = Some (exception_number e)"
  by (cases e) (simp_all add: causes_def)

lemma irqs_agree: "map_of irqs (irq_macro i) = Some (unat (interrupt_number i))"
  by (cases i) (simp_all add: irqs_def)


lemma mie_bit: "map_of mstatus_fields ''MSTATUS_MIE'' = Some kMstatusMie"
  by (simp add: mstatus_fields_def kMstatusMie_def)
lemma mtip_bit: "map_of mip_bits ''MIP_MTIP'' = Some kMieMtie"
  by (simp add: mip_bits_def kMieMtie_def irq_def irqs_def)

lemma used_csrs_known: "set used_csrs \<subseteq> set csr_table"
proof -
  have "(''SATP'', 0x180) \<in> set csrs_1" by (simp add: csrs_1_def)
  moreover have "{(''MSTATUS'', 0x300), (''MIE'', 0x304), (''MTVEC'', 0x305), (''MEPC'', 0x341),
     (''MCAUSE'', 0x342), (''MTVAL'', 0x343)} \<subseteq> set csrs_2" by (simp add: csrs_2_def)
  moreover have "(''MHARTID'', 0xf14) \<in> set csrs_3" by (simp add: csrs_3_def)
  ultimately show ?thesis by (auto simp: used_csrs_def csr_table_def)
qed

lemma used_csr_modes: "list_all (\<lambda>(n, a). read_only a \<longleftrightarrow> n = ''MHARTID'') used_csrs"
  by code_simp

lemma breakpoint_length:
  assumes "(n, m, k) \<in> set riscv_insns" and "w AND k = m"
  shows "insn_len w = (if compressed_name n then 2 else 4)"
  using match_length [OF riscv_insns_well_formed [OF assms(1)] assms(2)] riscv_insns_well_formed [OF assms(1)]
  by (auto simp: well_formed_def insn_len_def split: if_splits)

section \<open>Properties\<close>

text \<open>Property (C34): the kernel's paging arithmetic agrees with the toolchain headers. For all
  addresses the kernel's rounding to pages is \<^verbatim>\<open>ROUNDDOWN\<close> and \<^verbatim>\<open>ROUNDUP\<close> to \<^verbatim>\<open>RISCV_PGSIZE\<close> (also
  where the sum wraps); for every value of the \<^verbatim>\<open>int\<close> that \<^verbatim>\<open>pte_create\<close> takes, its result is the
  kernel's valid entry with the flags that int converts to, by sign extension, and where a flag word
  is not such a conversion the two differ; the entries the kernel descends through are those of
  \<^verbatim>\<open>PTE_TABLE\<close>, and its satp values are the mode of \<^verbatim>\<open>SATP_MODE_CHOICE\<close> with the page number of
  the root.\<close>

theorem paging_encodings_agree:
  "ROUNDDOWN a RISCV_PGSIZE = align_down a \<and> ROUNDUP a RISCV_PGSIZE = align_up a \<and>
   make_pte pa (scast t OR PteV) = pte_create (pa_to_pfn pa) t \<and>
   pte_create (pa_to_pfn 0) 0x80000000 \<noteq> make_pte 0 (0x80000000 OR PteV) \<and>
   (PTE_TABLE e \<longleftrightarrow> pte_valid e \<and> \<not> pte_leaf e) \<and>
   make_satp root = SATP_MODE_CHOICE OR drop_bit RISCV_PGSHIFT root"
  using round_page make_pte_create pte_create_extends pte_table_valid satp_choice by blast

text \<open>The kernel's trap constants agree with the toolchain headers: every exception
  and interrupt number, the interrupt enable bit of mstatus and the timer bit of mie; and of the
  CSRs the kernel uses, those it writes are writable, while mhartid, which it only reads, is
  read-only.\<close>

lemma trap_encodings_agree:
  "map_of causes (cause_macro e) = Some (exception_number e) \<and>
   map_of irqs (irq_macro i) = Some (unat (interrupt_number i)) \<and>
   map_of mstatus_fields ''MSTATUS_MIE'' = Some kMstatusMie \<and> map_of mip_bits ''MIP_MTIP'' = Some kMieMtie \<and>
   set used_csrs \<subseteq> set csr_table \<and> list_all (\<lambda>(n, a). read_only a \<longleftrightarrow> n = ''MHARTID'') used_csrs"
  by (intro conjI causes_agree irqs_agree mie_bit mtip_bit used_csrs_known used_csr_modes)

text \<open>Property (C29): resuming after a breakpoint. The handler continues exactly behind the
  instruction if it was the four-byte ebreak; after the two-byte c.ebreak, which the assembler
  emits for \<^verbatim>\<open>ebreak\<close> when compressed instructions are enabled, it skips two bytes of the
  instruction that follows.\<close>

theorem breakpoint_skips_compressed:
  assumes "(n, m, k) \<in> set riscv_insns" and "n = ''EBREAK'' \<or> n = ''C_EBREAK''" and "w AND k = m"
  shows "tf_mepc (snd (handle_breakpoint tf)) =
    tf_mepc tf + of_nat (insn_len w) + (if n = ''EBREAK'' then 0 else 2)"
  using assms(2) breakpoint_length [OF assms(1,3)]
  by (auto simp: handle_breakpoint_def kInsnBytes32_def compressed_name_def)

lemma breakpoint_skips_compressed_witness:
  "tf_mepc (snd (handle_breakpoint (zero_frame\<lparr>tf_mepc := 0x80000100\<rparr>))) = 0x80000104 \<and> insn_len (0x9002 :: u32) = 2"
proof -
  have "(''C_EBREAK'', 0x9002, 0xffff) \<in> set insns_2" by (simp add: insns_defs)
  then have "(''C_EBREAK'', 0x9002, 0xffff) \<in> set riscv_insns" by (simp add: riscv_insns_def)
  from breakpoint_skips_compressed [OF this, of "0x9002" "zero_frame\<lparr>tf_mepc := 0x80000100\<rparr>"] show ?thesis
    by (simp add: insn_len_def)
qed

end
