(* ===== verification/Trap_Path.thy ===== *)
theory Trap_Path
  imports Trap
begin

text \<open>
  The whole way of a trap: the entry code of \<^verbatim>\<open>trap_entry.S\<close>, the call of \<^verbatim>\<open>trap_handle\<close> with the
  frame on the stack, and the exit code. What the compiled handler does to the registers and to the
  memory below is the parameter \<open>call\<close>, of which the code relies on the calling convention: the handler
  keeps the stack pointer and leaves the frame in memory as the C++ source changes it.
\<close>

section \<open>The way\<close>

definition trap_entry ::
  "symbols \<Rightarrow> memory \<Rightarrow> (TrapFrame \<Rightarrow> cpu \<Rightarrow> cpu) \<Rightarrow> cpu \<Rightarrow> kernel \<Rightarrow> (cpu outcome \<times> kernel) option" where
  "trap_entry y mem call s k = do {
     let s = run_insns trap_entry_save s;
     (r, k) \<leftarrow> trap_handle y mem (read_frame (dmem s) (xr s X_A0)) k;
     Some (map_outcome (\<lambda>tf. run_insns trap_entry_restore (call tf s)) r, k)
   }"

definition calling_convention :: "(TrapFrame \<Rightarrow> cpu \<Rightarrow> cpu) \<Rightarrow> bool" where
  "calling_convention call \<longleftrightarrow>
     (\<forall>tf s. xr (call tf s) X_SP = xr s X_SP \<and> read_frame (dmem (call tf s)) (xr s X_A0) = tf)"

text \<open>A handler that writes the frame and leaves zero in every other register.\<close>

definition frame_words :: "TrapFrame \<Rightarrow> u64 list" where
  "frame_words tf = [tf_ra tf, tf_gp tf, tf_tp tf, tf_t0 tf, tf_t1 tf, tf_t2 tf, tf_s0 tf, tf_s1 tf,
     tf_a0 tf, tf_a1 tf, tf_a2 tf, tf_a3 tf, tf_a4 tf, tf_a5 tf, tf_a6 tf, tf_a7 tf, tf_s2 tf, tf_s3 tf,
     tf_s4 tf, tf_s5 tf, tf_s6 tf, tf_s7 tf, tf_s8 tf, tf_s9 tf, tf_s10 tf, tf_s11 tf, tf_t3 tf, tf_t4 tf,
     tf_t5 tf, tf_t6 tf, tf_sp tf, tf_mepc tf, tf_mcause tf, tf_mtval tf, tf_mstatus tf, tf_mhartid tf]"

definition write_frame :: "addr \<Rightarrow> TrapFrame \<Rightarrow> (addr \<Rightarrow> u64) \<Rightarrow> addr \<Rightarrow> u64" where
  "write_frame p tf m a = (if unat (a - p) < 288 \<and> unat (a - p) mod 8 = 0
     then frame_words tf ! (unat (a - p) div 8) else m a)"

definition plain_call :: "TrapFrame \<Rightarrow> cpu \<Rightarrow> cpu" where
  "plain_call tf s = s\<lparr>xr := (\<lambda>r. if r = X_SP then xr s X_SP else 0), dmem := write_frame (xr s X_A0) tf (dmem s)\<rparr>"

lemma read_write_frame: "read_frame (write_frame p tf m) p = tf"
  by (cases tf) (simp add: read_frame_def write_frame_def frame_words_def)

lemma plain_call_convention: "calling_convention plain_call"
  by (simp add: calling_convention_def plain_call_def read_write_frame)

section \<open>Returning\<close>

lemma trap_entry_return:
  assumes "calling_convention call" "trap_handle y mem (frame_of s) k = Some (Return tf, k')"
  shows "\<exists>s'. trap_entry y mem call s k = Some (Return s', k') \<and>
    (\<forall>r. xr s' r = (if r = X_SP then xr s X_SP else frame_reg tf r)) \<and> cpu_pc s' = tf_mepc tf"
proof -
  let ?s1 = "run_insns trap_entry_save s"
  note save = trap_entry_save_run [of s]
  have a0: "xr ?s1 X_A0 = xr s X_SP - 288" and sp: "xr ?s1 X_SP = xr s X_SP - 288" by (simp_all add: save(2))
  have c: "xr (call tf ?s1) X_SP = xr ?s1 X_SP" "read_frame (dmem (call tf ?s1)) (xr s X_SP - 288) = tf"
    using assms(1) a0 unfolding calling_convention_def by metis+
  have "trap_entry y mem call s k = Some (Return (run_insns trap_entry_restore (call tf ?s1)), k')"
    using assms(2) by (simp add: trap_entry_def Let_def a0 save(1))
  moreover have "xr (run_insns trap_entry_restore (call tf ?s1)) r = (if r = X_SP then xr s X_SP else frame_reg tf r)" for r
    using trap_entry_restore_run(1) [of "call tf ?s1" r] c sp by simp
  moreover have "cpu_pc (run_insns trap_entry_restore (call tf ?s1)) = tf_mepc tf"
    using trap_entry_restore_run(2) [of "call tf ?s1"] c sp by simp
  ultimately show ?thesis by blast
qed

text \<open>Any frame the handler may return, and the program that continues with it.\<close>

lemma continues_with:
  assumes "calling_convention call" "trap_handle y mem (frame_of s) k = Some (Return tf, k')"
    and "effect ws k0 k'" "\<And>r. r \<noteq> X_SP \<Longrightarrow> frame_reg tf r = f r" "f X_SP = xr s X_SP"
  shows "\<exists>s'. trap_entry y mem call s k = Some (Return s', k') \<and> xr s' = f \<and> cpu_pc s' = tf_mepc tf \<and>
    s_current k' = s_current k0 \<and> s_tasks k' = s_tasks k0 \<and> nodes k' = nodes k0"
proof -
  obtain s' where s': "trap_entry y mem call s k = Some (Return s', k')"
    "\<And>r. xr s' r = (if r = X_SP then xr s X_SP else frame_reg tf r)" "cpu_pc s' = tf_mepc tf"
    using trap_entry_return [OF assms(1,2)] by blast
  have "xr s' = f" by (rule ext) (simp add: s'(2) assms(4,5))
  with s' effect_kernel_fields [OF assms(3)] show ?thesis by blast
qed

lemma trap_entry_halt:
  assumes "trap_handle y mem (frame_of s) k = Some (Halted, k')"
  shows "trap_entry y mem call s k = Some (Halted, k')"
  using assms trap_entry_save_run(1) [of s]
  by (simp add: trap_entry_def Let_def trap_entry_save_run(2))

section \<open>The property\<close>

text \<open>The traps from which the handler returns: breakpoint, ecall other than exit, machine timer.\<close>

definition returning :: "memory \<Rightarrow> (nat \<Rightarrow> u8) \<Rightarrow> cpu \<Rightarrow> bool" where
  "returning mem cs s \<longleftrightarrow> mcause (cpu_csr s) = 3 \<or> mcause (cpu_csr s) = kMcauseInterruptBit + 7 \<or>
     mcause (cpu_csr s) = 11 \<and> xr s X_A7 \<noteq> 2 \<and>
     (xr s X_A7 = 1 \<longrightarrow> (\<forall>i < unat (xr s X_A2). mem (xr s X_A1 + of_nat i) = Some (cs i)))"

text \<open>Property (C8): a trap as the interrupted program sees it. On a responsive console, and for every
  compiled handler that keeps the calling convention, the program continues after a breakpoint, an
  ecall other than exit or a machine timer interrupt with every register as it was, but for a0 after
  an ecall, which holds the result of the system call; it continues four bytes behind the
  instruction, after a timer interrupt at the interrupted instruction; and the same task is current,
  with the same run queue: the trap reschedules nothing.\<close>

theorem trap_path_returns:
  assumes "calling_convention call" and "console_ready k" and "returning mem cs s"
  shows "\<exists>s' k'. trap_entry y mem call s k = Some (Return s', k') \<and>
    xr s' = (if mcause (cpu_csr s) = 11 then (xr s)(X_A0 := syscall_result (frame_of s)) else xr s) \<and>
    cpu_pc s' = mepc (cpu_csr s) + (if mcause (cpu_csr s) = kMcauseInterruptBit + 7 then 0 else 4) \<and>
    s_current k' = s_current k \<and> s_tasks k' = s_tasks k \<and> nodes k' = nodes k"
proof -
  let ?tf = "frame_of s"
  have regs: "frame_reg (?tf\<lparr>tf_mepc := m\<rparr>) r = xr s r"
    "frame_reg (?tf\<lparr>tf_a0 := v, tf_mepc := m\<rparr>) r = (if r = X_A0 then v else xr s r)" for r m v
    by (cases r; simp add: frame_of_def)+
  have sel: "tf_mepc ?tf = mepc (cpu_csr s)" "tf_mcause ?tf = mcause (cpu_csr s)" "tf_a7 ?tf = xr s X_A7"
    "tf_a1 ?tf = xr s X_A1" "tf_a2 ?tf = xr s X_A2" by (simp_all add: frame_of_def)
  have ne: "kMcauseInterruptBit + 7 \<noteq> (11 :: u64)" "kMcauseInterruptBit + 7 \<noteq> (3 :: u64)"
    by (simp_all add: kMcauseInterruptBit_def)
  show ?thesis
    using assms(3) unfolding returning_def
  proof (elim disjE conjE)
    assume c: "mcause (cpu_csr s) = 3"
    with breakpoint_resumes [OF assms(2), of ?tf y mem] obtain k' where
      h: "trap_handle y mem ?tf k = Some (Return (?tf\<lparr>tf_mepc := tf_mepc ?tf + 4\<rparr>), k')"
      and e: "\<exists>ws. effect ws k k'" unfolding sel by blast
    from e obtain ws where "effect ws k k'" ..
    from continues_with [OF assms(1) h this, of "xr s"] c ne show ?thesis by (auto simp: regs sel)
  next
    assume c: "mcause (cpu_csr s) = kMcauseInterruptBit + 7"
    with timer_frame [OF assms(2), of ?tf y mem] obtain k' ws where
      h: "trap_handle y mem ?tf k = Some (Return ?tf, k')" and e: "effect ws (k\<lparr>s_ticks := s_ticks k + 1\<rparr>) k'"
      unfolding sel by blast
    from continues_with [OF assms(1) h e, of "xr s"] c ne show ?thesis by (auto simp: frame_reg_frame_of sel)
  next
    assume c: "mcause (cpu_csr s) = 11" and a7: "xr s X_A7 \<noteq> 2"
      and mem: "xr s X_A7 = 1 \<longrightarrow> (\<forall>i < unat (xr s X_A2). mem (xr s X_A1 + of_nat i) = Some (cs i))"
    from ecall_frame [OF assms(2), of ?tf mem cs y] c a7 mem obtain k' where
      h: "trap_handle y mem ?tf k = Some (Return (?tf\<lparr>tf_a0 := syscall_result ?tf, tf_mepc := tf_mepc ?tf + 4\<rparr>), k')"
      and e: "\<exists>ws. effect ws k k'" unfolding sel by blast
    from e obtain ws where "effect ws k k'" ..
    from continues_with [OF assms(1) h this, of "(xr s)(X_A0 := syscall_result ?tf)"] c ne show ?thesis
      by (auto simp: regs sel)
  qed
qed

text \<open>Witness: the yield system call of a task.\<close>

theorem trap_path_returns_witness:
  "\<exists>s' k'. trap_entry demo_symbols (\<lambda>_. None) plain_call
       (demo_cpu\<lparr>xr := (xr demo_cpu)(X_A7 := 3), cpu_csr := (cpu_csr demo_cpu)\<lparr>mcause := 11\<rparr>\<rparr>) demo_kernel =
     Some (Return s', k') \<and> xr s' X_A0 = 0 \<and> xr s' X_S5 = 55 \<and> cpu_pc s' = 0x80000ac0"
proof -
  let ?s = "demo_cpu\<lparr>xr := (xr demo_cpu)(X_A7 := 3), cpu_csr := (cpu_csr demo_cpu)\<lparr>mcause := 11\<rparr>\<rparr>"
  have "returning (\<lambda>_. None) undefined ?s" by (simp add: returning_def)
  moreover have "syscall_result (frame_of ?s) = 0" by (simp add: syscall_result_def frame_of_def)
  moreover have "xr ?s X_S5 = 55" "mcause (cpu_csr ?s) = 11" "mepc (cpu_csr ?s) = 0x80000abc"
    "11 \<noteq> kMcauseInterruptBit + (7 :: u64)"
    by (simp_all add: demo_cpu_def kMcauseInterruptBit_def)
  ultimately obtain s' k' where "trap_entry demo_symbols (\<lambda>_. None) plain_call ?s demo_kernel = Some (Return s', k')"
    "xr s' = (xr ?s)(X_A0 := 0)" "cpu_pc s' = 0x80000abc + 4"
    using trap_path_returns [OF plain_call_convention demo_kernel_ready, of "\<lambda>_. None" undefined ?s demo_symbols] by auto
  with \<open>xr ?s X_S5 = 55\<close> show ?thesis by (intro exI [of _ s'] exI [of _ k']) simp
qed

end
