(* ===== verification/Wide_Arith.thy ===== *)
theory Wide_Arith
  imports Prelude
begin

text \<open>
  The inline arithmetic of the SoftFloat headers: \<^verbatim>\<open>primitiveTypes.h\<close>, the inline bodies of
  \<^verbatim>\<open>primitives.h\<close>, and the versions of \<^verbatim>\<open>opts-GCC.h\<close> that replace some of them by compiler
  built-ins. The struct \<^verbatim>\<open>uint128\<close> is a record of two 64-bit words; \<^verbatim>\<open>unsigned __int128\<close> is the
  128-bit word. With newlib \<^verbatim>\<open>uint_fast8_t\<close>, \<^verbatim>\<open>uint_fast16_t\<close> and \<^verbatim>\<open>uint_fast32_t\<close> have 32 bits and
  \<^verbatim>\<open>uint_fast64_t\<close> has 64. \<open>wide h l\<close> is the number that two words stand for; \<open>jam n d\<close> is the
  shift to the right with the bits shifted off jammed into the last bit. A shift distance
  outside the range that a comment of the source gives it is undefined in C.
\<close>

type_synonym u16 = "16 word"
type_synonym u128 = "128 word"

section \<open>primitiveTypes.h\<close>

record uint128 =
  v64 :: u64
  v0 :: u64

record uint64_extra =
  extra64 :: u64
  v_of64 :: u64

record uint128_extra =
  extra128 :: u64
  v_of128 :: uint128

text \<open>The little-endian word order, which \<^verbatim>\<open>platform.h\<close> selects.\<close>

definition indexWord :: "nat \<Rightarrow> nat \<Rightarrow> nat" where
  "indexWord tot n = n"

definition indexWordHi :: "nat \<Rightarrow> nat" where "indexWordHi tot = tot - 1"

section \<open>primitives.h\<close>

definition shortShiftRightJam64 :: "u64 \<Rightarrow> u32 \<Rightarrow> u64" where
  "shortShiftRightJam64 a dist =
     drop_bit (unat dist) a OR of_bool (a AND (push_bit (unat dist) 1 - 1) \<noteq> 0)"

definition shiftRightJam32 :: "u32 \<Rightarrow> u32 \<Rightarrow> u32" where
  "shiftRightJam32 a dist =
     (if dist < 31 then drop_bit (unat dist) a OR of_bool (push_bit (unat (- dist AND 31)) a \<noteq> 0)
      else of_bool (a \<noteq> 0))"

definition shiftRightJam64 :: "u64 \<Rightarrow> u32 \<Rightarrow> u64" where
  "shiftRightJam64 a dist =
     (if dist < 63 then drop_bit (unat dist) a OR of_bool (push_bit (unat (- dist AND 63)) a \<noteq> 0)
      else of_bool (a \<noteq> 0))"

text \<open>The table \<^verbatim>\<open>softfloat_countLeadingZeros8\<close> is in a library: the parameter \<open>tab\<close>.\<close>

definition countLeadingZeros16 :: "u8 list \<Rightarrow> u16 \<Rightarrow> u32 option" where
  "countLeadingZeros16 tab a = do {
     let (count, a) = (if 0x100 \<le> a then (0, drop_bit 8 a) else (8, a));
     z \<leftarrow> rd tab (ucast a);
     Some (count + ucast z)
   }"

definition countLeadingZeros32 :: "u8 list \<Rightarrow> u32 \<Rightarrow> u32 option" where
  "countLeadingZeros32 tab a = do {
     let (count, a) = (if a < 0x10000 then (16, push_bit 16 a) else (0, a));
     let (count, a) = (if a < 0x1000000 then (count + 8, push_bit 8 a) else (count, a));
     z \<leftarrow> rd tab (ucast (drop_bit 24 a));
     Some (count + ucast z)
   }"

definition approxRecip32_1 :: "u32 \<Rightarrow> u32" where
  "approxRecip32_1 a = ucast ((0x7FFFFFFFFFFFFFFF :: u64) div ucast a)"

definition eq128 :: "u64 \<Rightarrow> u64 \<Rightarrow> u64 \<Rightarrow> u64 \<Rightarrow> bool" where
  "eq128 a64 a0 b64 b0 \<longleftrightarrow> a64 = b64 \<and> a0 = b0"

definition le128 :: "u64 \<Rightarrow> u64 \<Rightarrow> u64 \<Rightarrow> u64 \<Rightarrow> bool" where
  "le128 a64 a0 b64 b0 \<longleftrightarrow> a64 < b64 \<or> (a64 = b64 \<and> a0 \<le> b0)"

definition lt128 :: "u64 \<Rightarrow> u64 \<Rightarrow> u64 \<Rightarrow> u64 \<Rightarrow> bool" where
  "lt128 a64 a0 b64 b0 \<longleftrightarrow> a64 < b64 \<or> (a64 = b64 \<and> a0 < b0)"

definition shortShiftLeft128 :: "u64 \<Rightarrow> u64 \<Rightarrow> u32 \<Rightarrow> uint128" where
  "shortShiftLeft128 a64 a0 dist =
     \<lparr>v64 = push_bit (unat dist) a64 OR drop_bit (unat (- dist AND 63)) a0, v0 = push_bit (unat dist) a0\<rparr>"

definition shortShiftRight128 :: "u64 \<Rightarrow> u64 \<Rightarrow> u32 \<Rightarrow> uint128" where
  "shortShiftRight128 a64 a0 dist =
     \<lparr>v64 = drop_bit (unat dist) a64, v0 = push_bit (unat (- dist AND 63)) a64 OR drop_bit (unat dist) a0\<rparr>"

definition shortShiftRightJam64Extra :: "u64 \<Rightarrow> u64 \<Rightarrow> u32 \<Rightarrow> uint64_extra" where
  "shortShiftRightJam64Extra a extra dist =
     \<lparr>extra64 = push_bit (unat (- dist AND 63)) a OR of_bool (extra \<noteq> 0), v_of64 = drop_bit (unat dist) a\<rparr>"

definition shortShiftRightJam128 :: "u64 \<Rightarrow> u64 \<Rightarrow> u32 \<Rightarrow> uint128" where
  "shortShiftRightJam128 a64 a0 dist =
     (let negDist = - dist in
      \<lparr>v64 = drop_bit (unat dist) a64,
       v0 = push_bit (unat (negDist AND 63)) a64 OR drop_bit (unat dist) a0
              OR of_bool (push_bit (unat (negDist AND 63)) a0 \<noteq> 0)\<rparr>)"

definition shortShiftRightJam128Extra :: "u64 \<Rightarrow> u64 \<Rightarrow> u64 \<Rightarrow> u32 \<Rightarrow> uint128_extra" where
  "shortShiftRightJam128Extra a64 a0 extra dist =
     (let negDist = - dist in
      \<lparr>extra128 = push_bit (unat (negDist AND 63)) a0 OR of_bool (extra \<noteq> 0),
       v_of128 = \<lparr>v64 = drop_bit (unat dist) a64,
                  v0 = push_bit (unat (negDist AND 63)) a64 OR drop_bit (unat dist) a0\<rparr>\<rparr>)"

definition shiftRightJam64Extra :: "u64 \<Rightarrow> u64 \<Rightarrow> u32 \<Rightarrow> uint64_extra" where
  "shiftRightJam64Extra a extra dist =
     (let z = (if dist < 64
               then \<lparr>extra64 = push_bit (unat (- dist AND 63)) a, v_of64 = drop_bit (unat dist) a\<rparr>
               else \<lparr>extra64 = (if dist = 64 then a else of_bool (a \<noteq> 0)), v_of64 = 0\<rparr>)
      in z\<lparr>extra64 := extra64 z OR of_bool (extra \<noteq> 0)\<rparr>)"

definition add128 :: "u64 \<Rightarrow> u64 \<Rightarrow> u64 \<Rightarrow> u64 \<Rightarrow> uint128" where
  "add128 a64 a0 b64 b0 =
     (let z0 = a0 + b0 in \<lparr>v64 = a64 + b64 + of_bool (z0 < a0), v0 = z0\<rparr>)"

definition sub128 :: "u64 \<Rightarrow> u64 \<Rightarrow> u64 \<Rightarrow> u64 \<Rightarrow> uint128" where
  "sub128 a64 a0 b64 b0 = \<lparr>v64 = a64 - b64 - of_bool (a0 < b0), v0 = a0 - b0\<rparr>"

definition mul64ByShifted32To128 :: "u64 \<Rightarrow> u32 \<Rightarrow> uint128" where
  "mul64ByShifted32To128 a b =
     (let mid = ucast (ucast a :: u32) * ucast b :: u64 in
      \<lparr>v64 = ucast (ucast (drop_bit 32 a) :: u32) * ucast b + drop_bit 32 mid, v0 = push_bit 32 mid\<rparr>)"

definition mul128By32 :: "u64 \<Rightarrow> u64 \<Rightarrow> u32 \<Rightarrow> uint128" where
  "mul128By32 a64 a0 b =
     (let z0 = a0 * ucast b;
          mid = ucast (ucast (drop_bit 32 a0) :: u32) * ucast b :: u64;
          carry = ucast (drop_bit 32 z0) - ucast mid :: u32
      in \<lparr>v64 = a64 * ucast b + ucast (ucast (drop_bit 32 (mid + ucast carry)) :: u32), v0 = z0\<rparr>)"

text \<open>\<open>a >>= 32 - dist\<close> replaces \<open>a\<close>; the three words are stored from the lowest.\<close>

definition shortShiftLeft64To96M :: "u64 \<Rightarrow> u32 \<Rightarrow> u32 list" where
  "shortShiftLeft64To96M a dist =
     (let z = replicate 3 0;
          z = z[indexWord 3 0 := push_bit (unat dist) (ucast a)];
          a = drop_bit (unat (32 - dist)) a;
          z = z[indexWord 3 2 := ucast (drop_bit 32 a)]
      in z[indexWord 3 1 := ucast a])"

section \<open>opts-GCC.h\<close>

text \<open>
  \<^verbatim>\<open>__builtin_clz\<close> and \<^verbatim>\<open>__builtin_clzll\<close> count the leading zeros of an \<^verbatim>\<open>unsigned int\<close> and of an
  \<^verbatim>\<open>unsigned long long\<close>, and are undefined at 0.
\<close>

definition leading_zeros :: "'a :: len word \<Rightarrow> nat" where
  "leading_zeros w = length (takeWhile (\<lambda>i. \<not> bit w i) (rev [0..<LENGTH('a)]))"

definition builtin_clz :: "'a :: len word \<Rightarrow> u32 option" where
  "builtin_clz w = (if w = 0 then None else Some (of_nat (leading_zeros w)))"

definition gcc_countLeadingZeros16 :: "u16 \<Rightarrow> u32 option" where
  "gcc_countLeadingZeros16 a =
     (if a \<noteq> 0 then map_option (\<lambda>n. n - 16) (builtin_clz (ucast a :: u32)) else Some 16)"

definition gcc_countLeadingZeros32 :: "u32 \<Rightarrow> u32 option" where
  "gcc_countLeadingZeros32 a = (if a \<noteq> 0 then builtin_clz a else Some 32)"

definition gcc_countLeadingZeros64 :: "u64 \<Rightarrow> u32 option" where
  "gcc_countLeadingZeros64 a = (if a \<noteq> 0 then builtin_clz a else Some 64)"

text \<open>The union of \<^verbatim>\<open>unsigned __int128\<close> and \<^verbatim>\<open>struct uint128\<close>.\<close>

definition split128 :: "u128 \<Rightarrow> uint128" where
  "split128 ui = \<lparr>v64 = ucast (drop_bit 64 ui), v0 = ucast ui\<rparr>"

definition gcc_mul64ByShifted32To128 :: "u64 \<Rightarrow> u32 \<Rightarrow> uint128" where
  "gcc_mul64ByShifted32To128 a b = split128 (ucast a * ucast (push_bit 32 (ucast b :: u64)))"

definition gcc_mul64To128 :: "u64 \<Rightarrow> u64 \<Rightarrow> uint128" where
  "gcc_mul64To128 a b = split128 (ucast a * ucast b)"

definition gcc_mul128By32 :: "u64 \<Rightarrow> u64 \<Rightarrow> u32 \<Rightarrow> uint128" where
  "gcc_mul128By32 a64 a0 b = split128 ((push_bit 64 (ucast a64) OR ucast a0) * ucast b)"

definition gcc_mul128To256M :: "u64 \<Rightarrow> u64 \<Rightarrow> u64 \<Rightarrow> u64 \<Rightarrow> u64 list" where
  "gcc_mul128To256M a64 a0 b64 b0 =
     (let z0 = ucast a0 * ucast b0 :: u128;
          mid1 = ucast a64 * ucast b0 :: u128;
          mid = mid1 + ucast a0 * ucast b64;
          z128 = ucast a64 * ucast b64 :: u128;
          z128 = z128 + (push_bit 64 (of_bool (mid < mid1)) OR drop_bit 64 mid);
          mid = push_bit 64 mid;
          z0 = z0 + mid;
          z128 = z128 + of_bool (z0 < mid);
          zs = replicate 4 0;
          zs = zs[indexWord 4 0 := ucast z0];
          zs = zs[indexWord 4 1 := ucast (drop_bit 64 z0)];
          zs = zs[indexWord 4 2 := ucast z128]
      in zs[indexWord 4 3 := ucast (drop_bit 64 z128)])"

section \<open>What the words stand for\<close>

definition wide :: "u64 \<Rightarrow> u64 \<Rightarrow> nat" where
  "wide h l = unat h * 2 ^ 64 + unat l"

definition jam :: "nat \<Rightarrow> nat \<Rightarrow> nat" where
  "jam n d = n div 2 ^ d OR of_bool (n mod 2 ^ d \<noteq> 0)"

text \<open>Two words as one 128-bit word.\<close>

definition join :: "u64 \<Rightarrow> u64 \<Rightarrow> u128" where
  "join h l = push_bit 64 (ucast h) OR ucast l"

lemma bit_join: "bit (join h l) i \<longleftrightarrow> (if i < 64 then bit l i else bit h (i - 64))"
  by (auto simp: join_def bit_simps dest: bit_imp_le_length)

lemma unat_up: "LENGTH('a) \<le> LENGTH('b :: len) \<Longrightarrow> unat (ucast w :: 'b :: len word) = unat w" for w :: "'a :: len word"
  by (simp add: unsigned_ucast_eq take_bit_nat_eq_self_iff unsigned_less [THEN order_less_le_trans])

lemma unat_of_bool [simp]: "unat (of_bool P :: 'a :: len word) = of_bool P"
  by (cases P) simp_all

lemma unat_take_bit: "unat (take_bit n w) = unat w mod 2 ^ n" for w :: "'a :: len word"
  by (rule trans [OF unsigned_take_bit_eq take_bit_eq_mod])

lemma unat_drop_bit: "unat (drop_bit n w) = unat w div 2 ^ n" for w :: "'a :: len word"
  by (rule trans [OF unsigned_drop_bit_eq]) (simp add: drop_bit_eq_div take_bit_nat_eq_self)

lemma unat_push_bit: "unat (push_bit n w) = unat w * 2 ^ n mod 2 ^ LENGTH('a)" for w :: "'a :: len word"
  by (rule trans [OF unsigned_push_bit_eq]) (simp add: push_bit_eq_mult take_bit_eq_mod)

lemma unat_join: "unat (join h l) = wide h l"
proof -
  have "push_bit 64 (ucast h) AND ucast l = (0 :: u128)"
    by (rule bit_word_eqI) (auto simp: bit_simps dest: bit_imp_le_length)
  then have j: "join h l = push_bit 64 (ucast h) + ucast l"
    by (simp add: join_def disjunctive_add_eq_or)
  have h: "unat h < 2 ^ 64" and l: "unat l < 2 ^ 64" by simp_all
  have "unat (push_bit 64 (ucast h) :: u128) = unat h * 2 ^ 64"
    using h by (simp add: push_bit_eq_mult unat_word_ariths unat_up)
  moreover have "unat (ucast l :: u128) = unat l" by (simp add: unat_up)
  moreover have "x < 2 ^ 64 \<Longrightarrow> y < 2 ^ 64 \<Longrightarrow> x * 2 ^ 64 + y < (2 ^ 128 :: nat)" for x y by simp
  from this [OF h l] have "wide h l < 2 ^ LENGTH(128)" by (simp add: wide_def)
  ultimately show ?thesis by (simp only: j unat_word_ariths wide_def mod_less)
qed

lemma join_split: "join (v64 (split128 w)) (v0 (split128 w)) = w"
  by (rule bit_word_eqI) (auto simp: bit_join split128_def bit_simps)

lemma split_join: "split128 (join h l) = \<lparr>v64 = h, v0 = l\<rparr>"
proof -
  have "ucast (drop_bit 64 (join h l)) = h" "ucast (join h l) = l"
    by (rule bit_word_eqI; auto simp: bit_join bit_simps)+
  then show ?thesis by (simp add: split128_def)
qed

lemma unat_uminus: "x \<noteq> 0 \<Longrightarrow> unat (- x) = 2 ^ LENGTH('a) - unat x" for x :: "'a :: len word"
  using unat_sub_if_size [of 0 x] by (simp add: word_size unat_gt_0)

lemma neg_low:
  fixes x :: u32
  assumes "1 \<le> unat x" "unat x < 2 ^ k" "k \<le> 6"
  shows "unat (take_bit k (- x)) = 2 ^ k - unat x"
proof -
  have "x \<noteq> 0" using assms(1) by auto
  moreover have "(2 :: nat) ^ 32 = 2 ^ k * 2 ^ (32 - k)" using assms(3) by (simp add: power_add [symmetric])
  ultimately have "unat (- x) = 2 ^ k * 2 ^ (32 - k) - unat x" by (simp add: unat_uminus)
  also have "\<dots> = (2 ^ k - unat x) + 2 ^ k * (2 ^ (32 - k) - 1)"
    using assms(2) by (simp add: diff_mult_distrib2)
  finally show ?thesis using assms(1) by (simp add: unat_take_bit)
qed

lemma neg_dist: "1 \<le> dist \<Longrightarrow> dist \<le> 63 \<Longrightarrow> unat (- dist AND 63) = 64 - unat dist" for dist :: u32
  using neg_low [of dist 6] by (simp add: take_bit_eq_mask mask_eq_exp_minus_1 word_le_nat_alt)

lemma neg_dist32: "1 \<le> dist \<Longrightarrow> dist \<le> 31 \<Longrightarrow> unat (- dist AND 31) = 32 - unat dist" for dist :: u32
  using neg_low [of dist 5] by (simp add: take_bit_eq_mask mask_eq_exp_minus_1 word_le_nat_alt)

lemma unat_jam: "unat (drop_bit d w OR of_bool (take_bit d w \<noteq> 0)) = jam (unat w) d"
  for w :: "'a :: len word"
proof -
  have "take_bit d w \<noteq> 0 \<longleftrightarrow> unat w mod 2 ^ d \<noteq> 0"
    unfolding unat_take_bit [symmetric] by (simp add: unat_gt_0)
  then show ?thesis unfolding unsigned_or_eq unat_drop_bit unat_of_bool jam_def by simp
qed

lemma push_rest:
  fixes w :: "'a :: len word"
  assumes "d \<le> LENGTH('a)"
  shows "push_bit (LENGTH('a) - d) w = 0 \<longleftrightarrow> take_bit d w = 0"
proof
  assume z: "push_bit (LENGTH('a) - d) w = 0"
  have b: "\<not> bit (push_bit (LENGTH('a) - d) w) n" for n unfolding z by simp
  show "take_bit d w = 0"
  proof (rule bit_word_eqI)
    fix n assume "n < LENGTH('a)"
    show "bit (take_bit d w) n = bit 0 n"
      using b [of "n + (LENGTH('a) - d)"] assms by (auto simp: bit_simps)
  qed
next
  assume z: "take_bit d w = 0"
  have "\<not> bit (take_bit d w) n" for n unfolding z by simp
  then show "push_bit (LENGTH('a) - d) w = 0"
    using assms by (intro bit_word_eqI) (auto simp: bit_simps)
qed

lemma jam_large: "n < 2 ^ d \<Longrightarrow> jam n d = of_bool (n \<noteq> 0)"
  by (simp add: jam_def)

section \<open>Shifts\<close>

lemma shortShiftRightJam64_jam:
  assumes "1 \<le> dist" "dist \<le> 63"
  shows "unat (shortShiftRightJam64 a dist) = jam (unat a) (unat dist)"
proof -
  have "a AND (push_bit (unat dist) 1 - 1) = take_bit (unat dist) a"
    by (simp add: take_bit_eq_mask mask_eq_exp_minus_1 push_bit_eq_mult)
  then show ?thesis by (simp only: shortShiftRightJam64_def unat_jam)
qed

lemma jam_top:
  assumes "n < 2 ^ Suc d"
  shows "jam n d = of_bool (n \<noteq> 0)"
proof -
  have "n div 2 ^ d < 2" using assms by (simp add: less_mult_imp_div_less mult.commute)
  then have "n div 2 ^ d = 0 \<or> n div 2 ^ d = 1" by arith
  then show ?thesis by (auto simp: jam_def of_bool_def)
qed

lemma shift_jam:
  fixes a :: "'a :: len word"
  assumes "1 \<le> d"
  shows "unat (if d < LENGTH('a) - 1 then drop_bit d a OR of_bool (push_bit (LENGTH('a) - d) a \<noteq> 0)
    else of_bool (a \<noteq> 0)) = jam (unat a) d"
proof (cases "d < LENGTH('a) - 1")
  case True
  then show ?thesis by (simp add: push_rest unat_jam)
next
  case False
  have "unat a < 2 ^ LENGTH('a)" by simp
  also have "\<dots> \<le> 2 ^ Suc d" using False by (intro power_increasing) simp_all
  finally show ?thesis using False by (simp add: jam_top unat_of_bool unat_eq_zero del: power_Suc)
qed

lemma shiftRightJam32_jam:
  assumes "1 \<le> dist"
  shows "unat (shiftRightJam32 a dist) = jam (unat a) (unat dist)"
proof -
  have "1 \<le> unat dist" using assms by (simp add: word_le_nat_alt)
  moreover have "dist < 31 \<Longrightarrow> unat (- dist AND 31) = 32 - unat dist"
    using neg_dist32 [OF assms] by simp
  ultimately show ?thesis
    using shift_jam [of "unat dist" a] by (cases "dist < 31") (simp_all add: shiftRightJam32_def word_less_nat_alt)
qed

lemma shiftRightJam64_jam:
  assumes "1 \<le> dist"
  shows "unat (shiftRightJam64 a dist) = jam (unat a) (unat dist)"
proof -
  have "1 \<le> unat dist" using assms by (simp add: word_le_nat_alt)
  moreover have "dist < 63 \<Longrightarrow> unat (- dist AND 63) = 64 - unat dist"
    using neg_dist [OF assms] by simp
  ultimately show ?thesis
    using shift_jam [of "unat dist" a] by (cases "dist < 63") (simp_all add: shiftRightJam64_def word_less_nat_alt)
qed

lemma join_left:
  assumes "1 \<le> d" "d \<le> 63"
  shows "join (push_bit d h OR drop_bit (64 - d) l) (push_bit d l) = push_bit d (join h l)"
proof (rule bit_word_eqI)
  fix n
  have "64 \<le> n \<Longrightarrow> 64 - d + (n - 64) = n - d" "n - 64 - d = n - d - 64" using assms by arith+
  with assms show "bit (join (push_bit d h OR drop_bit (64 - d) l) (push_bit d l)) n = bit (push_bit d (join h l)) n"
    if "n < LENGTH(128)"
    using that by (auto simp: bit_join bit_simps not_less dest: bit_imp_le_length)
qed

lemma join_right:
  assumes "1 \<le> d" "d \<le> 63"
  shows "join (drop_bit d h) (push_bit (64 - d) h OR drop_bit d l) = drop_bit d (join h l)"
proof (rule bit_word_eqI)
  fix n
  have "64 \<le> n \<Longrightarrow> d + (n - 64) = d + n - 64" "64 - d \<le> n \<Longrightarrow> n - (64 - d) = d + n - 64" using assms by arith+
  with assms show "bit (join (drop_bit d h) (push_bit (64 - d) h OR drop_bit d l)) n = bit (drop_bit d (join h l)) n"
    if "n < LENGTH(128)"
    using that by (auto simp: bit_join bit_simps not_less dest: bit_imp_le_length)
qed

lemma join_or: "join h (l OR of_bool P) = join h l OR of_bool P"
  by (intro bit_word_eqI) (auto simp: bit_join bit_simps)

lemma take_join:
  assumes "d \<le> 64"
  shows "take_bit d (join h l) \<noteq> 0 \<longleftrightarrow> push_bit (64 - d) l \<noteq> 0"
proof -
  have "take_bit d (join h l) = ucast (take_bit d l)"
    using assms by (intro bit_word_eqI) (auto simp: bit_join bit_simps)
  moreover have "ucast x = (0 :: u128) \<longleftrightarrow> x = 0" for x :: u64
    using unat_up [where 'b = 128, of x] unat_gt_0 [of x] unat_gt_0 [of "ucast x :: u128"] by auto
  ultimately show ?thesis using push_rest [of d l] assms by simp
qed

lemma wide_shifts:
  assumes "1 \<le> dist" "dist \<le> 63"
  shows "wide (v64 (shortShiftLeft128 h l dist)) (v0 (shortShiftLeft128 h l dist)) = wide h l * 2 ^ unat dist mod 2 ^ 128"
    "wide (v64 (shortShiftRight128 h l dist)) (v0 (shortShiftRight128 h l dist)) = wide h l div 2 ^ unat dist"
    "wide (v64 (shortShiftRightJam128 h l dist)) (v0 (shortShiftRightJam128 h l dist)) = jam (wide h l) (unat dist)"
proof -
  have d: "1 \<le> unat dist" "unat dist \<le> 63" using assms by (simp_all add: word_le_nat_alt)
  then have d3: "unat dist \<le> 64" by simp
  show "wide (v64 (shortShiftLeft128 h l dist)) (v0 (shortShiftLeft128 h l dist)) = wide h l * 2 ^ unat dist mod 2 ^ 128"
    unfolding unat_join [symmetric] shortShiftLeft128_def neg_dist [OF assms] uint128.select_convs join_left [OF d] unat_push_bit
    by simp
  show "wide (v64 (shortShiftRight128 h l dist)) (v0 (shortShiftRight128 h l dist)) = wide h l div 2 ^ unat dist"
    unfolding unat_join [symmetric] shortShiftRight128_def neg_dist [OF assms] uint128.select_convs join_right [OF d] unat_drop_bit ..
  show "wide (v64 (shortShiftRightJam128 h l dist)) (v0 (shortShiftRightJam128 h l dist)) = jam (wide h l) (unat dist)"
    unfolding unat_join [symmetric] shortShiftRightJam128_def neg_dist [OF assms] uint128.select_convs Let_def
      take_join [OF d3, of h l, symmetric] or.assoc [symmetric] join_or join_right [OF d] unat_jam ..
qed

section \<open>The extra word\<close>

lemma join_0: "join h l = 0 \<longleftrightarrow> h = 0 \<and> l = 0"
proof
  assume "join h l = 0"
  then have "wide h l = 0" using unat_join [of h l] by simp
  then show "h = 0 \<and> l = 0" by (simp add: wide_def unat_eq_0)
qed (simp add: join_def)

lemma take_join_high: "1 \<le> d \<Longrightarrow> take_bit (63 + d) (join h l) = join (take_bit (d - 1) h) l"
  by (rule bit_word_eqI) (auto simp: bit_join bit_simps not_less dest: bit_imp_le_length)

lemma take_push_0:
  fixes a :: u64
  assumes "1 \<le> d" "d \<le> 63"
  shows "take_bit 63 (push_bit (64 - d) a) = 0 \<longleftrightarrow> take_bit (d - 1) a = 0"
proof -
  have "take_bit 63 (push_bit (64 - d) a) = push_bit (64 - d) (take_bit (d - 1) a)"
    using assms by (simp add: take_bit_push_bit)
  moreover have "push_bit (64 - d) (take_bit (d - 1) a) = 0 \<longleftrightarrow> take_bit d (take_bit (d - 1) a) = 0"
    using push_rest [of d "take_bit (d - 1) a"] assms by simp
  moreover have "min d (d - 1) = d - 1" by simp
  ultimately show ?thesis by simp
qed

lemma extra_of_or:
  assumes "bit x 63 = bit (join a e) (63 + d)" "take_bit 63 x = 0 \<longleftrightarrow> take_bit (d - 1) a = 0" "1 \<le> d"
  shows "bit (x OR of_bool (e \<noteq> 0)) 63 = bit (join a e) (63 + d) \<and>
    (take_bit 63 (x OR of_bool (e \<noteq> 0)) = 0 \<longleftrightarrow> take_bit (63 + d) (join a e) = 0)"
proof -
  have "take_bit 63 (of_bool P :: u64) = of_bool P" for P by (cases P) simp_all
  then show ?thesis
    using assms by (auto simp: take_join_high join_0 or_eq_0_iff bit_simps)
qed

text \<open>
  What \<^verbatim>\<open>primitives.h\<close> promises of the field \<^verbatim>\<open>extra\<close> when the 128 bits \<open>w\<close> are shifted by \<open>64 + d\<close>: its
  top bit is the last bit shifted off, and its other bits are zero iff all others were.
\<close>

definition extra_ok :: "u64 \<Rightarrow> u128 \<Rightarrow> nat \<Rightarrow> bool" where
  "extra_ok x w d \<longleftrightarrow> bit x 63 = bit w (63 + d) \<and> (take_bit 63 x = 0 \<longleftrightarrow> take_bit (63 + d) w = 0)"

lemma extra_short:
  assumes "1 \<le> d" "d \<le> 63"
  shows "extra_ok (push_bit (64 - d) a OR of_bool (e \<noteq> 0)) (join a e) d"
  unfolding extra_ok_def using assms take_push_0 [OF assms, of a]
  by (intro extra_of_or) (auto simp: bit_simps bit_join)

lemma shiftRightJam64Extra_ok:
  assumes "1 \<le> dist"
  shows "unat (v_of64 (shiftRightJam64Extra a e dist)) = unat a div 2 ^ unat dist"
    "extra_ok (extra64 (shiftRightJam64Extra a e dist)) (join a e) (unat dist)"
proof -
  have d: "1 \<le> unat dist" using assms by (simp add: word_le_nat_alt)
  consider (short) "dist < 64" | (one) "dist = 64" | (long) "64 < dist" by force
  then have "unat (v_of64 (shiftRightJam64Extra a e dist)) = unat a div 2 ^ unat dist \<and>
    extra_ok (extra64 (shiftRightJam64Extra a e dist)) (join a e) (unat dist)"
  proof cases
    case short
    then have "dist \<le> 63" "unat dist \<le> 63" by (simp_all add: word_less_nat_alt word_le_nat_alt)
    with short d show ?thesis
      by (simp add: shiftRightJam64Extra_def neg_dist [OF assms] extra_short unat_drop_bit)
  next
    case one
    have "unat a < 2 ^ 64" by simp
    then have "unat a div 2 ^ 64 = 0" by simp
    moreover have "extra_ok (a OR of_bool (e \<noteq> 0)) (join a e) 64"
      unfolding extra_ok_def by (rule extra_of_or) (auto simp: bit_join)
    ultimately show ?thesis using one by (simp add: shiftRightJam64Extra_def)
  next
    case long
    then have u: "64 < unat dist" "\<not> dist < 64" "dist \<noteq> 64" by (auto simp: word_less_nat_alt)
    have "unat a < 2 ^ 64" by simp
    also have "(2 :: nat) ^ 64 \<le> 2 ^ unat dist" using u by (intro power_increasing) simp_all
    finally have "unat a div 2 ^ unat dist = 0" by simp
    moreover have "take_bit (unat dist - 1) a = a" using u by (intro take_bit_word_eq_self) simp
    moreover have "\<not> bit (join a e) (63 + unat dist)" using u bit_imp_le_length [of "join a e" "63 + unat dist"] by auto
    moreover have "take_bit 63 (of_bool P :: u64) = of_bool P" for P by (cases P) simp_all
    ultimately have "extra_ok (of_bool (a \<noteq> 0) OR of_bool (e \<noteq> 0)) (join a e) (unat dist)"
      unfolding extra_ok_def using d by (intro extra_of_or) (auto simp: bit_simps)
    with \<open>unat a div 2 ^ unat dist = 0\<close> u show ?thesis by (simp add: shiftRightJam64Extra_def)
  qed
  then show "unat (v_of64 (shiftRightJam64Extra a e dist)) = unat a div 2 ^ unat dist"
    "extra_ok (extra64 (shiftRightJam64Extra a e dist)) (join a e) (unat dist)" by simp_all
qed

lemma shortShiftRightJam64Extra_eq:
  "dist \<le> 63 \<Longrightarrow> shortShiftRightJam64Extra a e dist = shiftRightJam64Extra a e dist"
  by (simp add: shortShiftRightJam64Extra_def shiftRightJam64Extra_def word_less_nat_alt word_le_nat_alt)

lemma shortShiftRightJam128Extra_parts:
  "v_of128 (shortShiftRightJam128Extra h l e dist) = shortShiftRight128 h l dist"
  "extra128 (shortShiftRightJam128Extra h l e dist) = extra64 (shortShiftRightJam64Extra l e dist)"
  by (simp_all add: shortShiftRightJam128Extra_def shortShiftRight128_def shortShiftRightJam64Extra_def Let_def)

section \<open>Sums and differences\<close>

lemma wide_less: "wide h l < 2 ^ 128"
proof -
  have "unat (join h l) < 2 ^ LENGTH(128)" by (rule unsigned_less)
  then show ?thesis by (simp add: unat_join)
qed

lemma wide_inject: "wide h l = wide h' l' \<longleftrightarrow> h = h' \<and> l = l'"
proof
  assume "wide h l = wide h' l'"
  then have "join h l = join h' l'" by (simp add: word_unat_eq_iff unat_join)
  then show "h = h' \<and> l = l'" using split_join by (metis uint128.ext_inject)
qed simp

lemma wide_mod:
  fixes r :: nat
  assumes "r < 2 ^ 64"
  shows "(k mod 2 ^ 64) * 2 ^ 64 + r = (k * 2 ^ 64 + r) mod 2 ^ 128"
proof -
  have e: "(2 :: nat) ^ 128 = 2 ^ 64 * 2 ^ 64" by simp
  have "(k * 2 ^ 64 + r) mod (2 ^ 64 * 2 ^ 64) = 2 ^ 64 * ((k * 2 ^ 64 + r) div 2 ^ 64 mod 2 ^ 64) + (k * 2 ^ 64 + r) mod 2 ^ 64"
    by (rule mod_mult2_eq)
  also have "\<dots> = (k mod 2 ^ 64) * 2 ^ 64 + r" using assms by (simp add: div_mult_self3)
  finally show ?thesis unfolding e by simp
qed

lemma carry_nat:
  fixes x y m :: nat
  assumes "x < m" "y < m"
  shows "x + y = of_bool ((x + y) mod m < x) * m + (x + y) mod m"
  using assms by (cases "x + y < m") (auto simp: le_mod_geq not_less)

lemma carry: "unat a + unat b = of_bool (a + b < a) * 2 ^ LENGTH('a) + unat (a + b)" for a b :: "'a :: len word"
  using carry_nat [OF unsigned_less unsigned_less, of a b] by (simp add: unat_word_ariths(1) word_less_nat_alt)

lemma add128_wide:
  "wide (v64 (add128 h l h' l')) (v0 (add128 h l h' l')) = (wide h l + wide h' l') mod 2 ^ 128"
proof -
  let ?c = "of_bool (l + l' < l) :: nat"
  have v: "unat (h + h' + of_bool (l + l' < l)) = (unat h + unat h' + ?c) mod 2 ^ 64"
    by (simp add: unat_word_ariths mod_add_left_eq)
  have "wide h l + wide h' l' = (unat h + unat h') * 2 ^ 64 + (unat l + unat l')" by (simp add: wide_def)
  also have "unat l + unat l' = ?c * 2 ^ 64 + unat (l + l')" using carry [of l l'] by simp
  also have "(unat h + unat h') * 2 ^ 64 + (?c * 2 ^ 64 + unat (l + l')) = (unat h + unat h' + ?c) * 2 ^ 64 + unat (l + l')"
    by (simp only: distrib_right add.assoc)
  finally have "(wide h l + wide h' l') mod 2 ^ 128 = (unat h + unat h' + ?c) mod 2 ^ 64 * 2 ^ 64 + unat (l + l')"
    using wide_mod [of "unat (l + l')"] by simp
  then show ?thesis by (simp only: add128_def Let_def uint128.select_convs) (simp only: wide_def v)
qed

lemma join_add: "join (v64 (add128 h l h' l')) (v0 (add128 h l h' l')) = join h l + join h' l'"
  by (rule word_unat_eq_iff [THEN iffD2]) (simp add: unat_join unat_word_ariths add128_wide)

lemma borrow: "a < a - b \<longleftrightarrow> a < (b :: u64)"
  by (auto simp: word_less_nat_alt unat_sub_if_size word_size) (use unat_less_2p64 [of b] in linarith)

lemma join_sub: "join (v64 (sub128 h l h' l')) (v0 (sub128 h l h' l')) = join h l - join h' l'"
proof -
  have "add128 (v64 (sub128 h l h' l')) (v0 (sub128 h l h' l')) h' l' = \<lparr>v64 = h, v0 = l\<rparr>"
    by (simp add: add128_def sub128_def borrow)
  then have "join h l = join (v64 (sub128 h l h' l')) (v0 (sub128 h l h' l')) + join h' l'"
    unfolding join_add [symmetric] by simp
  then show ?thesis by simp
qed

lemma compare_wide:
  "eq128 h l h' l' \<longleftrightarrow> wide h l = wide h' l'"
  "le128 h l h' l' \<longleftrightarrow> wide h l \<le> wide h' l'"
  "lt128 h l h' l' \<longleftrightarrow> wide h l < wide h' l'"
proof -
  have "x * M + y \<le> x' * M + y' \<longleftrightarrow> x < x' \<or> x = x' \<and> y \<le> y'" "x * M + y < x' * M + y' \<longleftrightarrow> x < x' \<or> x = x' \<and> y < y'"
    if "y < M" "y' < M" for x x' y y' M :: nat
  proof -
    have "x < x' \<Longrightarrow> x * M + y < x' * M + y'" "x' < x \<Longrightarrow> x' * M + y' < x * M + y" 
      using that mult_le_mono1 [of "Suc x" x' M] mult_le_mono1 [of "Suc x'" x M] by auto
    then show "x * M + y \<le> x' * M + y' \<longleftrightarrow> x < x' \<or> x = x' \<and> y \<le> y'" "x * M + y < x' * M + y' \<longleftrightarrow> x < x' \<or> x = x' \<and> y < y'"
      by (cases x x' rule: linorder_cases; auto)+
  qed
  from this [of "unat l" "2 ^ 64" "unat l'"] 
  show "le128 h l h' l' \<longleftrightarrow> wide h l \<le> wide h' l'" "lt128 h l h' l' \<longleftrightarrow> wide h l < wide h' l'"
    by (simp_all add: le128_def lt128_def wide_def word_less_nat_alt word_le_nat_alt word_unat_eq_iff)
  show "eq128 h l h' l' \<longleftrightarrow> wide h l = wide h' l'" by (auto simp: eq128_def wide_inject)
qed

text \<open>The comparisons of the code are those of a linear order on \<^verbatim>\<open>struct uint128\<close>, and reading the two
  words as one number is an order isomorphism.\<close>

instantiation uint128_ext :: (linorder) linorder
begin

definition less_eq_uint128_ext :: "'a uint128_scheme \<Rightarrow> 'a uint128_scheme \<Rightarrow> bool" where
  "less_eq_uint128_ext a b \<longleftrightarrow> lt128 (v64 a) (v0 a) (v64 b) (v0 b) \<or>
     (eq128 (v64 a) (v0 a) (v64 b) (v0 b) \<and> uint128.more a \<le> uint128.more b)"

definition less_uint128_ext :: "'a uint128_scheme \<Rightarrow> 'a uint128_scheme \<Rightarrow> bool" where
  "less_uint128_ext a b \<longleftrightarrow> lt128 (v64 a) (v0 a) (v64 b) (v0 b) \<or>
     (eq128 (v64 a) (v0 a) (v64 b) (v0 b) \<and> uint128.more a < uint128.more b)"

instance
proof
  fix a b :: "'a uint128_scheme"
  assume "a \<le> b" "b \<le> a"
  then show "a = b" by (auto simp: less_eq_uint128_ext_def eq128_def compare_wide(3))
qed (auto simp: less_eq_uint128_ext_def less_uint128_ext_def eq128_def compare_wide(3) wide_inject)

end

lemma uint128_order:
  fixes a b :: uint128
  shows "a \<le> b \<longleftrightarrow> le128 (v64 a) (v0 a) (v64 b) (v0 b)" "a < b \<longleftrightarrow> lt128 (v64 a) (v0 a) (v64 b) (v0 b)"
    "a \<le> b \<longleftrightarrow> wide (v64 a) (v0 a) \<le> wide (v64 b) (v0 b)"
  by (auto simp: less_eq_uint128_ext_def less_uint128_ext_def le128_def lt128_def eq128_def
      simp flip: compare_wide(2))

section \<open>Properties\<close>

text \<open>Shifting right with jamming. For every distance from 1 on, \<^verbatim>\<open>shiftRightJam32\<close> and
  \<^verbatim>\<open>shiftRightJam64\<close> return the quotient by the power of two with its last bit set iff a
  remainder was lost, and \<^verbatim>\<open>shiftRightJam64Extra\<close> returns the quotient together with an extra
  word whose top bit is the last bit shifted off and whose other bits tell whether anything else
  was. For the distances 1 to 63 the short versions and the 128-bit versions do the same.\<close>

lemma right_shifts_jam:
  assumes "1 \<le> dist"
  shows "unat (shiftRightJam32 b dist) = jam (unat b) (unat dist) \<and>
    unat (shiftRightJam64 a dist) = jam (unat a) (unat dist) \<and>
    unat (v_of64 (shiftRightJam64Extra a e dist)) = unat a div 2 ^ unat dist \<and>
    extra_ok (extra64 (shiftRightJam64Extra a e dist)) (join a e) (unat dist) \<and>
    (dist \<le> 63 \<longrightarrow>
      unat (shortShiftRightJam64 a dist) = jam (unat a) (unat dist) \<and>
      shortShiftRightJam64Extra a e dist = shiftRightJam64Extra a e dist \<and>
      wide (v64 (shortShiftRightJam128 h l dist)) (v0 (shortShiftRightJam128 h l dist)) = jam (wide h l) (unat dist) \<and>
      wide (v64 (v_of128 (shortShiftRightJam128Extra h l e dist))) (v0 (v_of128 (shortShiftRightJam128Extra h l e dist))) =
        wide h l div 2 ^ unat dist \<and>
      extra_ok (extra128 (shortShiftRightJam128Extra h l e dist)) (join l e) (unat dist))"
  using assms
  by (simp add: shiftRightJam32_jam shiftRightJam64_jam shiftRightJam64Extra_ok shortShiftRightJam64_jam
      shortShiftRightJam64Extra_eq wide_shifts shortShiftRightJam128Extra_parts)

lemma right_shifts_jam_witness:
  "unat (shiftRightJam32 0x80000001 31) = 1 \<and> unat (shortShiftRightJam64 20 3) = 3 \<and>
    extra_ok (extra64 (shiftRightJam64Extra 5 0 64)) (join 5 0) 64"
  using right_shifts_jam [of 31 "0x80000001"] right_shifts_jam [of 3 _ 20] right_shifts_jam [of 64 _ 5 0]
  by (simp add: jam_def)

end
