(* ===== verification/Wide_Mult.thy ===== *)
theory Wide_Mult
  imports Wide_Arith
begin

text \<open>
  Products, leading zeros and reciprocals of \<^verbatim>\<open>primitives.h\<close> and \<^verbatim>\<open>opts-GCC.h\<close>: both versions compute
  the exact number. \<open>words_nat\<close> is the number an array of 64-bit words stands for, \<open>clz_table\<close>
  what the comment in \<^verbatim>\<open>primitives.h\<close> says of the table \<^verbatim>\<open>softfloat_countLeadingZeros8\<close>.
\<close>

section \<open>Products\<close>

lemma word_halves: "unat a = unat (drop_bit 32 a) * 2 ^ 32 + unat (ucast a :: u32)" "unat (drop_bit 32 a) < 2 ^ 32" for a :: u64
proof -
  have l: "unat (ucast a :: u32) = unat a mod 2 ^ 32" by (simp add: unsigned_ucast_eq take_bit_eq_mod)
  have h: "unat (drop_bit 32 a) = unat a div 2 ^ 32" by (rule unat_drop_bit)
  show "unat a = unat (drop_bit 32 a) * 2 ^ 32 + unat (ucast a :: u32)" unfolding l h by simp
  have "unat a < 2 ^ 32 * 2 ^ 32" by simp
  then show "unat (drop_bit 32 a) < 2 ^ 32" unfolding h by (rule less_mult_imp_div_less)
qed

lemma high_half: "unat (ucast (drop_bit 32 a) :: u32) = unat (drop_bit 32 a)" for a :: u64
  using word_halves(2) [of a] by (simp add: unsigned_ucast_eq take_bit_nat_eq_self)

lemma mult32:
  assumes "x < 2 ^ 32" "y < 2 ^ 32" "z < (2 ^ 32 :: nat)"
  shows "x * y + z < 2 ^ 64"
proof -
  have "x * y \<le> (2 ^ 32 - 1) * (2 ^ 32 - 1)" using assms by (intro mult_le_mono) simp_all
  with assms(3) show ?thesis by simp
qed

lemma u32_less: "unat (x :: u32) < 2 ^ 32" and u64_less: "unat (y :: u64) < 2 ^ 64"
  using unsigned_less [of x] unsigned_less [of y] by simp_all

lemma unat_mult64: "unat x * unat y < 2 ^ 64 \<Longrightarrow> unat (x * y) = unat x * unat y" for x y :: u64
  by (simp add: unat_word_ariths)

lemma unat_add64: "unat x + unat y < 2 ^ 64 \<Longrightarrow> unat (x + y) = unat x + unat y" for x y :: u64
  by (simp add: unat_word_ariths)

lemma len_u64: "LENGTH(64) = 64" and len_u128: "LENGTH(128) = 128"
  by simp_all

lemma len_u32: "LENGTH(32) = 32"
  by simp

lemma unat_low32: "unat (ucast x :: u32) = unat x mod 2 ^ 32" for x :: u64
  by (simp only: unsigned_ucast_eq take_bit_eq_mod len_u32)

lemma mul64ByShifted32To128_wide:
  "wide (v64 (mul64ByShifted32To128 a b)) (v0 (mul64ByShifted32To128 a b)) = unat a * unat b * 2 ^ 32"
proof -
  let ?h = "unat (drop_bit 32 a)" and ?l = "unat (ucast a :: u32)" and ?b = "unat b"
  let ?mid = "ucast (ucast a :: u32) * ucast b :: u64"
  have mid: "unat ?mid = ?l * ?b"
    using mult32 [OF u32_less u32_less, of 0 "ucast a" b] by (subst unat_mult64) (simp_all add: unat_up)
  have midh: "unat (drop_bit 32 ?mid) = ?l * ?b div 2 ^ 32" by (simp only: unat_drop_bit mid)
  have hb: "unat (ucast (ucast (drop_bit 32 a) :: u32) * ucast b :: u64) = ?h * ?b"
    using mult32 [OF word_halves(2) u32_less, of 0 a b] by (subst unat_mult64) (simp_all add: unat_up high_half)
  have "?l * ?b < 2 ^ 64" using mult32 [OF u32_less u32_less, of 0 "ucast a" b] by simp
  then have "?l * ?b div 2 ^ 32 < 2 ^ 32" by (simp add: less_mult_imp_div_less)
  then have v64: "unat (v64 (mul64ByShifted32To128 a b)) = ?h * ?b + ?l * ?b div 2 ^ 32"
    using mult32 [OF word_halves(2) u32_less, of "?l * ?b div 2 ^ 32" a b]
    unfolding mul64ByShifted32To128_def Let_def uint128.select_convs
    by (subst unat_add64) (simp_all only: hb midh)
  have v0: "unat (v0 (mul64ByShifted32To128 a b)) = (?l * ?b mod 2 ^ 32) * 2 ^ 32"
  proof -
    have "(2 :: nat) ^ 64 = 2 ^ 32 * 2 ^ 32" by simp
    then show ?thesis
      by (simp only: mul64ByShifted32To128_def Let_def uint128.select_convs unat_push_bit mid len_u64 mult_mod_left)
  qed
  have "wide (v64 (mul64ByShifted32To128 a b)) (v0 (mul64ByShifted32To128 a b)) =
    (?h * ?b * 2 ^ 32 + (?l * ?b div 2 ^ 32 * 2 ^ 32 + ?l * ?b mod 2 ^ 32)) * 2 ^ 32"
  proof -
    have "(A + B) * 2 ^ 64 + C * 2 ^ 32 = (A * 2 ^ 32 + (B * 2 ^ 32 + C)) * 2 ^ 32" for A B C :: nat
      by (simp add: algebra_simps)
    then show ?thesis unfolding wide_def v64 v0 .
  qed
  also have "\<dots> = (?h * 2 ^ 32 + ?l) * ?b * 2 ^ 32"
    unfolding div_mult_mod_eq by (simp add: algebra_simps)
  finally show ?thesis unfolding word_halves(1) [of a, symmetric] .
qed


lemma div_low: "(k * 2 ^ n + x mod 2 ^ n) div 2 ^ n = k" for k x :: nat
  by (simp add: div_mult_self3)

lemma mul128By32_wide:
  "wide (v64 (mul128By32 h l b)) (v0 (mul128By32 h l b)) = wide h l * unat b mod 2 ^ 128"
proof -
  let ?H = "unat (drop_bit 32 l)" and ?L = "unat (ucast l :: u32)" and ?b = "unat b"
  let ?mid = "ucast (ucast (drop_bit 32 l) :: u32) * ucast b :: u64" and ?z0 = "l * ucast b"
  let ?carry = "ucast (drop_bit 32 ?z0) - ucast ?mid :: u32"
  define c where "c = ?L * ?b div 2 ^ 32"
  have c: "c < 2 ^ 32"
    using mult32 [OF u32_less u32_less, of 0 "ucast l" b] unfolding c_def by (simp add: less_mult_imp_div_less)
  have mid: "unat ?mid = ?H * ?b"
    using mult32 [OF word_halves(2) u32_less, of 0 l b] by (subst unat_mult64) (simp_all add: unat_up high_half)
  have b64: "unat (ucast b :: u64) = ?b" by (simp add: unat_up)
  have prod: "unat l * ?b = (?H * ?b + c) * 2 ^ 32 + ?L * ?b mod 2 ^ 32"
  proof -
    have "(?H * ?b + c) * 2 ^ 32 + ?L * ?b mod 2 ^ 32 = ?H * ?b * 2 ^ 32 + (c * 2 ^ 32 + ?L * ?b mod 2 ^ 32)"
      by (simp only: distrib_right add.assoc)
    also have "\<dots> = (?H * 2 ^ 32 + ?L) * ?b" unfolding c_def div_mult_mod_eq by (simp add: algebra_simps)
    finally show ?thesis unfolding word_halves(1) [of l, symmetric] by simp
  qed
  have z0: "unat ?z0 = unat l * ?b mod 2 ^ 64" by (simp only: unat_word_ariths b64 len_u64)
  have "unat (drop_bit 32 ?z0) = (?H * ?b + c) mod 2 ^ 32"
  proof -
    have "unat (drop_bit 32 ?z0) = (unat l * ?b) div 2 ^ 32 mod 2 ^ 32"
      using mod_mult2_eq [of "unat l * ?b" "2 ^ 32" "2 ^ 32"] unfolding unat_drop_bit z0 by simp
    then show ?thesis unfolding prod div_low .
  qed
  then have z32: "unat (ucast (drop_bit 32 ?z0) :: u32) = (?H * ?b + c) mod 2 ^ 32"
    by (simp only: unat_low32 mod_mod_trivial)
  have "unat (ucast ?mid + of_nat c :: u32) = (?H * ?b mod 2 ^ 32 + c mod 2 ^ 32) mod 2 ^ 32"
    by (simp only: unat_word_ariths(1) unat_low32 mid unsigned_of_nat take_bit_eq_mod len_u32 of_nat_id)
  then have top: "ucast (drop_bit 32 ?z0) = (ucast ?mid + of_nat c :: u32)"
    using z32 by (intro word_unat_eq_iff [THEN iffD2]) (simp only: mod_add_eq)
  then have carry: "unat ?carry = c" using c by (simp add: unsigned_of_nat take_bit_nat_eq_self)
  have sum: "?H * ?b + c < 2 ^ 64" using mult32 [OF word_halves(2) u32_less c, of l b] .
  have "unat (?mid + ucast ?carry) = ?H * ?b + c"
    using sum by (subst unat_add64) (simp_all only: mid unat_up carry len_u64, simp_all add: unat_up carry)
  then have hi: "unat (ucast (ucast (drop_bit 32 (?mid + ucast ?carry)) :: u32) :: u64) = (?H * ?b + c) div 2 ^ 32"
    by (simp only: unat_drop_bit high_half unat_up) (simp add: unat_up high_half unat_drop_bit)
  have v64: "unat (v64 (mul128By32 h l b)) = (unat h * ?b + (?H * ?b + c) div 2 ^ 32) mod 2 ^ 64"
    unfolding mul128By32_def Let_def uint128.select_convs unat_word_ariths(1,2) hi b64 len_u64 by (simp add: mod_simps)
  have "wide h l * ?b = unat h * ?b * 2 ^ 64 + unat l * ?b" by (simp add: wide_def algebra_simps)
  also have "unat l * ?b = (?H * ?b + c) div 2 ^ 32 * 2 ^ 64 + unat l * ?b mod 2 ^ 64"
  proof -
    have "unat l * ?b div 2 ^ 64 = (unat l * ?b) div 2 ^ 32 div 2 ^ 32" by (simp add: div_mult2_eq [symmetric])
    also have "\<dots> = (?H * ?b + c) div 2 ^ 32" unfolding prod div_low ..
    finally show ?thesis by (metis div_mult_mod_eq)
  qed
  finally have "wide h l * ?b mod 2 ^ 128 = ((unat h * ?b + (?H * ?b + c) div 2 ^ 32) * 2 ^ 64 + unat l * ?b mod 2 ^ 64) mod 2 ^ 128"
    by (simp only: distrib_right add.assoc)
  also have "\<dots> = wide (v64 (mul128By32 h l b)) (v0 (mul128By32 h l b))"
    unfolding wide_def v64 by (subst wide_mod [symmetric]) (simp_all add: mul128By32_def Let_def z0)
  finally show ?thesis by simp
qed

lemma split128_wide: "wide (v64 (split128 w)) (v0 (split128 w)) = unat w"
  by (simp add: unat_join [symmetric] join_split)

lemma wide_eqI: "wide (v64 x) (v0 x) = wide (v64 y) (v0 y) \<Longrightarrow> x = y" for x y :: uint128
  by (cases x, cases y) (simp add: wide_inject)

lemma unat_mult128: "unat x * unat y < 2 ^ 128 \<Longrightarrow> unat (x * y) = unat x * unat y" for x y :: u128
  by (simp add: unat_word_ariths)

lemma mult64: "unat a * unat b < 2 ^ 128" for a b :: u64
  using mult_strict_mono' [OF u64_less u64_less, of a b] by simp

lemma prod128: "unat (ucast a * ucast b :: u128) = unat a * unat b" for a b :: u64
  using mult64 [of a b] by (subst unat_mult128) (simp_all add: unat_up)

lemma gcc_mul_wide:
  "wide (v64 (gcc_mul64To128 x y)) (v0 (gcc_mul64To128 x y)) = unat x * unat y"
  "wide (v64 (gcc_mul64ByShifted32To128 x b)) (v0 (gcc_mul64ByShifted32To128 x b)) = unat x * unat b * 2 ^ 32"
  "wide (v64 (gcc_mul128By32 h l b)) (v0 (gcc_mul128By32 h l b)) = wide h l * unat b mod 2 ^ 128"
proof -
  show "wide (v64 (gcc_mul64To128 x y)) (v0 (gcc_mul64To128 x y)) = unat x * unat y"
    unfolding gcc_mul64To128_def split128_wide by (rule prod128)
  have "unat (push_bit 32 (ucast b :: u64)) = unat b * 2 ^ 32"
    using u32_less [of b] by (simp only: unat_push_bit unat_up len_u64) (simp add: unat_up)
  then show "wide (v64 (gcc_mul64ByShifted32To128 x b)) (v0 (gcc_mul64ByShifted32To128 x b)) = unat x * unat b * 2 ^ 32"
    unfolding gcc_mul64ByShifted32To128_def split128_wide prod128 by simp
  show "wide (v64 (gcc_mul128By32 h l b)) (v0 (gcc_mul128By32 h l b)) = wide h l * unat b mod 2 ^ 128"
    unfolding gcc_mul128By32_def split128_wide join_def [symmetric] unat_word_ariths(2) unat_join len_u128
    by (simp add: unat_up)
qed

lemma portable_products:
  "mul64ByShifted32To128 x b = gcc_mul64ByShifted32To128 x b"
  "mul128By32 h l b = gcc_mul128By32 h l b"
  by (rule wide_eqI; simp only: gcc_mul_wide mul64ByShifted32To128_wide mul128By32_wide)+

definition words_nat :: "u64 list \<Rightarrow> nat" where
  "words_nat ws = foldr (\<lambda>w n. unat w + 2 ^ 64 * n) ws 0"

lemma two_words: "unat (ucast w :: u64) + 2 ^ 64 * unat (ucast (drop_bit 64 w) :: u64) = unat w" for w :: u128
  using split128_wide [of w] by (simp add: split128_def wide_def)

lemma push_high: "unat (push_bit 64 (w :: u128)) = unat w mod 2 ^ 64 * 2 ^ 64"
proof -
  have "(2 :: nat) ^ 128 = 2 ^ 64 * 2 ^ 64" by simp
  then show ?thesis by (simp only: unat_push_bit len_u128 mult_mod_left)
qed

lemma high_words: "unat (push_bit 64 (of_bool P) OR drop_bit 64 w :: u128) = of_bool P * 2 ^ 64 + unat w div 2 ^ 64"
proof -
  have "push_bit 64 (of_bool P) OR drop_bit 64 w = join (of_bool P) (ucast (drop_bit 64 w))"
    by (rule bit_word_eqI) (auto simp: bit_join bit_simps not_less dest: bit_imp_le_length)
  moreover have "unat (ucast (drop_bit 64 w) :: u64) = unat w div 2 ^ 64"
  proof -
    have "unat w < 2 ^ 64 * 2 ^ 64" using unsigned_less [of w] by simp
    then have "unat w div 2 ^ 64 < 2 ^ 64" by (rule less_mult_imp_div_less)
    then show ?thesis by (simp only: unsigned_ucast_eq unat_drop_bit len_u64 take_bit_nat_eq_self)
  qed
  ultimately show ?thesis by (simp only: unat_join wide_def unat_of_bool)
qed

lemma exact_add:
  fixes x y :: u128
  assumes "unat x + unat y < 2 ^ 128"
  shows "unat (x + y) = unat x + unat y"
  using assms by (simp add: unat_word_ariths)

lemma gcc_mul128To256M_exact:
  "length (gcc_mul128To256M h l h' l') = 4 \<and> words_nat (gcc_mul128To256M h l h' l') = wide h l * wide h' l'"
proof -
  define p0 p1 x mid1 mid where "p0 = (ucast l * ucast l' :: u128)" and "p1 = (ucast h * ucast h' :: u128)"
    and "x = (ucast l * ucast h' :: u128)" and "mid1 = (ucast h * ucast l' :: u128)" and "mid = mid1 + x"
  define up where "up = (push_bit 64 (of_bool (mid < mid1)) OR drop_bit 64 mid :: u128)"
  define low where "low = push_bit 64 mid"
  define z0 where "z0 = p0 + low"
  define z128 where "z128 = p1 + up + of_bool (z0 < low)"
  have p: "unat p0 = unat l * unat l'" "unat p1 = unat h * unat h'" "unat x = unat l * unat h'" "unat mid1 = unat h * unat l'"
    unfolding p0_def p1_def x_def mid1_def by (rule prod128)+
  have c1: "unat h * unat l' + unat l * unat h' = of_bool (mid < mid1) * 2 ^ 128 + unat mid"
    using carry [of mid1 x] unfolding mid_def [symmetric] p len_u128 .
  have c2: "unat l * unat l' + unat mid mod 2 ^ 64 * 2 ^ 64 = of_bool (z0 < low) * 2 ^ 128 + unat z0"
  proof -
    have "low + p0 = z0" "unat low = unat mid mod 2 ^ 64 * 2 ^ 64"
      unfolding low_def by (simp add: z0_def low_def, rule push_high)
    with carry [of low p0] show ?thesis unfolding p len_u128 by (simp only: add.commute)
  qed
  let ?C1 = "of_bool (mid < mid1) :: nat" and ?C2 = "of_bool (z0 < low) :: nat" and ?m = "unat mid"
  let ?S = "unat h * unat h' + (?C1 * 2 ^ 64 + ?m div 2 ^ 64) + ?C2"
  have "wide h l * wide h' l' = unat h * unat h' * 2 ^ 128 + (unat h * unat l' + unat l * unat h') * 2 ^ 64 + unat l * unat l'"
    by (simp add: wide_def algebra_simps)
  also have "\<dots> = unat h * unat h' * 2 ^ 128 + (?C1 * 2 ^ 128 + (?m div 2 ^ 64 * 2 ^ 64 + ?m mod 2 ^ 64)) * 2 ^ 64 + unat l * unat l'"
    unfolding c1 div_mult_mod_eq ..
  also have "\<dots> = (unat h * unat h' + (?C1 * 2 ^ 64 + ?m div 2 ^ 64)) * 2 ^ 128 + (unat l * unat l' + ?m mod 2 ^ 64 * 2 ^ 64)"
  proof -
    have "A * 2 ^ 128 + (B * 2 ^ 128 + (C * 2 ^ 64 + D)) * 2 ^ 64 + E = (A + (B * 2 ^ 64 + C)) * 2 ^ 128 + (E + D * 2 ^ 64)"
      for A B C D E :: nat by (simp add: algebra_simps)
    then show ?thesis .
  qed
  also have "\<dots> = ?S * 2 ^ 128 + unat z0" unfolding c2 by (simp only: distrib_right add.assoc)
  finally have total: "wide h l * wide h' l' = ?S * 2 ^ 128 + unat z0" .
  have "wide h l * wide h' l' < 2 ^ 128 * 2 ^ 128" by (intro mult_strict_mono' wide_less) simp_all
  then have "?S * 2 ^ 128 < 2 ^ 128 * 2 ^ 128" unfolding total by linarith
  then have S: "?S < 2 ^ 128" by simp
  have "unat (p1 + up) = unat h * unat h' + (?C1 * 2 ^ 64 + ?m div 2 ^ 64)"
    using exact_add [of p1 up] S unfolding p up_def high_words by linarith
  then have "unat z128 = ?S"
    using exact_add [of "p1 + up" "of_bool (z0 < low)"] S unfolding z128_def unat_of_bool by simp
  with total have total: "wide h l * wide h' l' = unat z0 + 2 ^ 64 * (2 ^ 64 * unat z128)" by simp
  have z: "gcc_mul128To256M h l h' l' = [ucast z0, ucast (drop_bit 64 z0), ucast z128, ucast (drop_bit 64 z128)]"
    by (simp add: gcc_mul128To256M_def Let_def indexWord_def numeral_eq_Suc flip: p0_def p1_def x_def mid1_def)
      (simp add: z0_def z128_def low_def up_def mid_def numeral_eq_Suc)
  have "words_nat (gcc_mul128To256M h l h' l') =
    (unat (ucast z0 :: u64) + 2 ^ 64 * unat (ucast (drop_bit 64 z0) :: u64)) +
    2 ^ 64 * (2 ^ 64 * (unat (ucast z128 :: u64) + 2 ^ 64 * unat (ucast (drop_bit 64 z128) :: u64)))"
    unfolding z words_nat_def by (simp add: algebra_simps)
  then show ?thesis unfolding two_words total by (simp add: z)
qed

lemma shortShiftLeft64To96M_exact:
  assumes "1 \<le> dist" "dist \<le> 31"
  shows "foldr (\<lambda>w n. unat w + 2 ^ 32 * n) (shortShiftLeft64To96M a dist) 0 = unat a * 2 ^ unat dist"
proof -
  have d: "1 \<le> unat dist" "unat dist \<le> 31" using assms by (simp_all add: word_le_nat_alt)
  then have e: "unat (32 - dist) = 32 - unat dist" using assms by (subst unat_sub) (simp_all add: word_le_nat_alt)
  let ?a = "drop_bit (32 - unat dist) a"
  have "foldr (\<lambda>w n. unat w + 2 ^ 32 * n) (shortShiftLeft64To96M a dist) 0 =
      unat (push_bit (unat dist) (ucast a :: u32)) + 2 ^ 32 * (unat (drop_bit 32 ?a) * 2 ^ 32 + unat (ucast ?a :: u32))"
    using high_half [of ?a] by (simp add: shortShiftLeft64To96M_def indexWord_def Let_def e numeral_3_eq_3)
  also have "\<dots> = unat (push_bit (unat dist) (ucast a :: u32)) + 2 ^ 32 * (unat a div 2 ^ (32 - unat dist))"
    using word_halves(1) [of ?a] unat_drop_bit [of "32 - unat dist" a] by simp
  also have "unat (push_bit (unat dist) (ucast a :: u32)) = unat a * 2 ^ unat dist mod 2 ^ 32"
    unfolding unat_push_bit unat_low32 len_u32 by (rule mod_mult_left_eq)
  also have "unat a div 2 ^ (32 - unat dist) = unat a * 2 ^ unat dist div 2 ^ 32"
  proof -
    have e2: "(2 :: nat) ^ 32 = 2 ^ (32 - unat dist) * 2 ^ unat dist" using d by (simp add: power_add [symmetric])
    show ?thesis unfolding e2 by (rule div_mult_mult2 [symmetric]) simp
  qed
  finally show ?thesis by (simp only: mod_mult_div_eq)
qed

section \<open>Leading zeros\<close>

lemma leading_zeros_eq:
  fixes w :: "'a :: len word"
  assumes "k \<le> LENGTH('a)" "\<And>i. k \<le> i \<Longrightarrow> \<not> bit w i" "0 < k \<Longrightarrow> bit w (k - 1)"
  shows "leading_zeros w = LENGTH('a) - k"
proof -
  have "rev [0..<LENGTH('a)] = rev [k..<LENGTH('a)] @ rev [0..<k]"
    using assms(1) upt_add_eq_append [of 0 k "LENGTH('a) - k"] by simp
  moreover have "takeWhile (\<lambda>i. \<not> bit w i) (rev [0..<k]) = []"
    using assms(3) by (cases k) simp_all
  ultimately show ?thesis using assms(2) by (simp add: leading_zeros_def takeWhile_append)
qed

text \<open>The number of bits of a positive number.\<close>

definition len_is :: "nat \<Rightarrow> nat \<Rightarrow> bool" where
  "len_is n k \<longleftrightarrow> 0 < k \<and> 2 ^ (k - 1) \<le> n \<and> n < 2 ^ k"

lemma len_is_exists: "0 < n \<Longrightarrow> \<exists>k. len_is n k"
proof -
  assume "0 < n"
  then obtain m where "2 ^ m \<le> n" "n < 2 ^ (m + 1)" using ex_power_ivl1 [of 2 n] by auto
  then have "len_is n (Suc m)" by (simp add: len_is_def)
  then show ?thesis ..
qed

lemma len_is_less_iff:
  assumes "len_is n k"
  shows "n < 2 ^ m \<longleftrightarrow> k \<le> m"
proof
  show "k \<le> m" if "n < 2 ^ m"
  proof (rule ccontr)
    assume "\<not> k \<le> m"
    then have "(2 :: nat) ^ m \<le> 2 ^ (k - 1)" by (intro power_increasing) simp_all
    also have "\<dots> \<le> n" using assms by (simp add: len_is_def)
    finally show False using that by simp
  qed
  show "n < 2 ^ m" if "k \<le> m"
    using assms power_increasing [OF that, of "2 :: nat"] unfolding len_is_def by linarith
qed

lemma len_is_word: "len_is (unat w) k \<Longrightarrow> k \<le> LENGTH('a)" for w :: "'a :: len word"
  using len_is_less_iff unsigned_less by blast

lemma len_is_mult: "len_is n k \<Longrightarrow> len_is (n * 2 ^ s) (k + s)"
  by (cases k) (auto simp: len_is_def power_add)

lemma len_is_div:
  assumes "len_is n k" "s < k"
  shows "len_is (n div 2 ^ s) (k - s)"
proof -
  have "(2 :: nat) ^ k = 2 ^ (k - s) * 2 ^ s" "(2 :: nat) ^ (k - 1) = 2 ^ (k - s - 1) * 2 ^ s"
    using assms(2) by (simp_all add: power_add [symmetric])
  with assms show ?thesis
    by (auto simp: len_is_def less_mult_imp_div_less less_eq_div_iff_mult_less_eq)
qed

lemma leading_zeros_len:
  fixes w :: "'a :: len word"
  assumes "len_is (unat w) k"
  shows "leading_zeros w = LENGTH('a) - k"
proof (rule leading_zeros_eq)
  show "k \<le> LENGTH('a)" using len_is_less_iff [OF assms] unsigned_less by blast
  have b: "bit w i \<longleftrightarrow> odd (unat w div 2 ^ i)" for i by (simp add: bit_unsigned_iff flip: bit_iff_odd)
  show "\<not> bit w i" if "k \<le> i" for i
  proof -
    have "unat w < 2 ^ i" using len_is_less_iff [OF assms] that by blast
    then show ?thesis by (simp add: b)
  qed
  show "bit w (k - 1)" if "0 < k"
  proof -
    have "unat w div 2 ^ (k - 1) = 1"
      using assms that by (intro div_nat_eqI) (auto simp: len_is_def power_eq_if)
    then show ?thesis by (simp add: b)
  qed
qed

lemma leading_zeros_0: "leading_zeros (0 :: 'a :: len word) = LENGTH('a)"
  using leading_zeros_eq [of 0 "0 :: 'a word"] by simp

section \<open>Reciprocals\<close>

lemma approxRecip32_1_bound:
  assumes "0x80000000 \<le> a"
  shows "unat (approxRecip32_1 a) * unat a < 2 ^ 63 \<and> 2 ^ 63 \<le> (unat (approxRecip32_1 a) + 1) * unat a"
proof -
  let ?n = "2 ^ 63 - 1 :: nat"
  have a: "2 ^ 31 \<le> unat a" using assms by (simp add: word_le_nat_alt)
  have "?n div unat a \<le> ?n div 2 ^ 31" using a by (intro div_le_mono2) simp_all
  also have "\<dots> < 2 ^ 32" by simp
  finally have small: "?n div unat a < 2 ^ 32" .
  have "unat ((0x7FFFFFFFFFFFFFFF :: u64) div ucast a) = ?n div unat a" by (simp add: unat_div unat_up)
  then have z: "unat (approxRecip32_1 a) = ?n div unat a"
    using small by (simp only: approxRecip32_1_def unat_low32 mod_less)
  have "?n div unat a * unat a < 2 ^ 63"
    by (rule le_less_trans [OF div_times_less_eq_dividend]) simp
  moreover have "2 ^ 63 \<le> (?n div unat a + 1) * unat a" using a dividend_less_div_times [of "unat a" ?n] by simp
  ultimately show ?thesis unfolding z ..
qed


section \<open>Counting with the table\<close>

definition clz_table :: "u8 list \<Rightarrow> bool" where
  "clz_table tab \<longleftrightarrow> tab = map (\<lambda>i. of_nat (leading_zeros (of_nat i :: u8))) [0..<256]"

lemma clz_table_rd:
  assumes "clz_table tab" "unat i < 256"
  shows "rd tab i = Some (of_nat (leading_zeros (ucast i :: u8)))"
proof -
  have "(of_nat (unat i) :: u8) = ucast i" by (simp add: unsigned_ucast_eq word_unat_eq_iff unsigned_of_nat)
  with assms show ?thesis by (simp add: clz_table_def)
qed

lemma clz_table_small:
  assumes "clz_table tab" "len_is (unat i) k" "unat i < 256"
  shows "rd tab i = Some (of_nat (8 - k))"
proof -
  have "unat (ucast i :: u8) = unat i" using assms(3) by (simp add: unsigned_ucast_eq take_bit_nat_eq_self)
  with assms show ?thesis by (simp add: clz_table_rd leading_zeros_len)
qed

lemma small_up: "n \<le> 32 \<Longrightarrow> ucast (of_nat n :: u8) = (of_nat n :: u32)"
  by (simp add: word_unat_eq_iff unsigned_ucast_eq unsigned_of_nat take_bit_nat_eq_self)

lemma clz16:
  assumes "clz_table tab"
  shows "countLeadingZeros16 tab a = Some (of_nat (leading_zeros a))"
proof (cases "a = 0")
  case True
  then show ?thesis using clz_table_rd [OF assms, of 0] by (simp add: countLeadingZeros16_def leading_zeros_0)
next
  case False
  then obtain k where k: "len_is (unat a) k" using len_is_exists unat_gt_0 by blast
  have "k \<le> 16" using len_is_word [OF k] by simp
  show ?thesis
  proof (cases "0x100 \<le> a")
    case True
    then have "256 \<le> unat a" by (simp add: word_le_nat_alt)
    then have "8 < k" using len_is_less_iff [OF k, of 8] by simp
    then have "len_is (unat (drop_bit 8 a)) (k - 8)" unfolding unat_drop_bit by (rule len_is_div [OF k])
    moreover have "unat (drop_bit 8 a) < 256" 
      using len_is_less_iff [OF calculation, of 8] \<open>k \<le> 16\<close> by simp
    ultimately have "rd tab (ucast (drop_bit 8 a)) = Some (of_nat (16 - k))"
      using clz_table_small [OF assms, of "ucast (drop_bit 8 a)"] \<open>8 < k\<close> by (simp add: unat_up)
    with True k \<open>k \<le> 16\<close> show ?thesis
      using small_up [of "16 - k"] by (simp add: countLeadingZeros16_def leading_zeros_len)
  next
    case False
    then have lt: "unat a < 256" by (simp add: word_le_nat_alt)
    then have "k \<le> 8" using len_is_less_iff [OF k, of 8] by simp
    have "rd tab (ucast a) = Some (of_nat (8 - k))" using clz_table_small [OF assms, of "ucast a" k] k lt by (simp add: unat_up)
    with False k \<open>k \<le> 8\<close> show ?thesis
      using small_up [of "8 - k"] by (simp add: countLeadingZeros16_def leading_zeros_len)
  qed
qed


lemma len_is_push:
  fixes a :: "'a :: len word"
  assumes "len_is (unat a) k" "k + s \<le> LENGTH('a)"
  shows "len_is (unat (push_bit s a)) (k + s)"
proof -
  have "len_is (unat a * 2 ^ s) (k + s)" by (rule len_is_mult [OF assms(1)])
  moreover have "unat a * 2 ^ s < 2 ^ LENGTH('a)" using len_is_less_iff [OF calculation] assms(2) by blast
  ultimately show ?thesis unfolding unat_push_bit by simp
qed

lemma clz32:
  assumes "clz_table tab"
  shows "countLeadingZeros32 tab a = Some (of_nat (leading_zeros a))"
proof (cases "a = 0")
  case True
  then show ?thesis using clz_table_rd [OF assms, of 0] by (simp add: countLeadingZeros32_def leading_zeros_0)
next
  case False
  then obtain k where k: "len_is (unat a) k" using len_is_exists unat_gt_0 by blast
  have k32: "k \<le> 32" using len_is_word [OF k] by simp
  define a1 k1 where "a1 = (if a < 0x10000 then push_bit 16 a else a)" and "k1 = (if a < 0x10000 then k + 16 else k)"
  define a2 k2 where "a2 = (if a1 < 0x1000000 then push_bit 8 a1 else a1)" and "k2 = (if a1 < 0x1000000 then k1 + 8 else k1)"
  have i1: "a < 0x10000 \<longleftrightarrow> k \<le> 16" using len_is_less_iff [OF k, of 16] by (simp add: word_less_nat_alt)
  have l1: "len_is (unat a1) k1" and r1: "16 < k1" "k1 \<le> 32"
    using k k32 len_is_push [OF k, of 16] unfolding a1_def k1_def i1 by (auto simp: len_is_def)
  have i2: "a1 < 0x1000000 \<longleftrightarrow> k1 \<le> 24" using len_is_less_iff [OF l1, of 24] by (simp add: word_less_nat_alt)
  have l2: "len_is (unat a2) k2" and r2: "24 < k2" "k2 \<le> 32"
    using l1 r1 len_is_push [OF l1, of 8] unfolding a2_def k2_def i2 by auto
  have l3: "len_is (unat (drop_bit 24 a2)) (k2 - 24)" unfolding unat_drop_bit by (rule len_is_div [OF l2 r2(1)])
  have "unat (drop_bit 24 a2) < 256" using len_is_less_iff [OF l3, of 8] r2 by simp
  then have "rd tab (ucast (drop_bit 24 a2)) = Some (of_nat (32 - k2))"
    using clz_table_small [OF assms, of "ucast (drop_bit 24 a2)"] l3 r2 by (simp add: unat_up)
  moreover have "countLeadingZeros32 tab a = rd tab (ucast (drop_bit 24 a2)) \<bind>
    (\<lambda>z. Some ((if a1 < 0x1000000 then (if a < 0x10000 then 16 else 0) + 8 else (if a < 0x10000 then 16 else 0)) + ucast z))"
    unfolding countLeadingZeros32_def a1_def a2_def Let_def by (cases "a < 0x10000") simp_all
  moreover have "ucast (of_nat (32 - k2) :: u8) = (of_nat (32 - k2) :: u32)"
    by (rule small_up) simp
  ultimately have "countLeadingZeros32 tab a =
    Some ((if a1 < 0x1000000 then (if a < 0x10000 then 16 else 0) + 8 else (if a < 0x10000 then 16 else 0)) + of_nat (32 - k2))"
    by simp
  also have "\<dots> = Some (of_nat (32 - k))"
    using r1 r2 k32 unfolding i1 i2 k2_def k1_def by (auto simp: of_nat_diff)
  finally show ?thesis using leading_zeros_len [OF k] by simp
qed

lemma gcc_clz:
  "gcc_countLeadingZeros16 (x :: u16) = Some (of_nat (leading_zeros x))"
  "gcc_countLeadingZeros32 y = Some (of_nat (leading_zeros y))"
  "gcc_countLeadingZeros64 z = Some (of_nat (leading_zeros z))"
proof -
  show "gcc_countLeadingZeros16 x = Some (of_nat (leading_zeros x))"
  proof (cases "x = 0")
    case False
    then obtain k where k: "len_is (unat x) k" using len_is_exists unat_gt_0 by blast
    have "k \<le> 16" using len_is_word [OF k] by simp
    have u: "unat (ucast x :: u32) = unat x" by (simp add: unat_up)
    then have "len_is (unat (ucast x :: u32)) k" using k by simp
    from leading_zeros_len [OF this] leading_zeros_len [OF k] have "leading_zeros (ucast x :: u32) = leading_zeros x + 16"
      using \<open>k \<le> 16\<close> by simp
    moreover have "(ucast x :: u32) \<noteq> 0" using u False unat_gt_0 by (metis less_irrefl unat_0)
    ultimately show ?thesis using False by (simp add: gcc_countLeadingZeros16_def builtin_clz_def)
  qed (simp add: gcc_countLeadingZeros16_def leading_zeros_0)
  show "gcc_countLeadingZeros32 y = Some (of_nat (leading_zeros y))" "gcc_countLeadingZeros64 z = Some (of_nat (leading_zeros z))"
    by (auto simp: gcc_countLeadingZeros32_def gcc_countLeadingZeros64_def builtin_clz_def leading_zeros_0)
qed

section \<open>Properties\<close>

text \<open>Property (C38): the integer arithmetic under SoftFloat is exact. On 128-bit numbers in two words,
  sums and differences are right modulo \<open>2 ^ 128\<close> and comparisons are those of the
  numbers; the 64 by 64 and the 128 by 128 bit products are the full products. The portable
  multiplications compute the same as the versions with a 128-bit integer type, and with the
  documented table the portable counts of leading zeros are those of the compiler built-ins,
  which are never called with the argument 0.\<close>

theorem wide_arithmetic_exact:
  assumes "clz_table tab"
  shows "wide (v64 (add128 h l h' l')) (v0 (add128 h l h' l')) = (wide h l + wide h' l') mod 2 ^ 128 \<and>
    (wide (v64 (sub128 h l h' l')) (v0 (sub128 h l h' l')) + wide h' l') mod 2 ^ 128 = wide h l \<and>
    (eq128 h l h' l' \<longleftrightarrow> wide h l = wide h' l') \<and> (le128 h l h' l' \<longleftrightarrow> wide h l \<le> wide h' l') \<and>
    (lt128 h l h' l' \<longleftrightarrow> wide h l < wide h' l') \<and>
    wide (v64 (gcc_mul64To128 h l)) (v0 (gcc_mul64To128 h l)) = unat h * unat l \<and>
    words_nat (gcc_mul128To256M h l h' l') = wide h l * wide h' l' \<and>
    wide (v64 (mul64ByShifted32To128 h b)) (v0 (mul64ByShifted32To128 h b)) = unat h * unat b * 2 ^ 32 \<and>
    wide (v64 (mul128By32 h l b)) (v0 (mul128By32 h l b)) = wide h l * unat b mod 2 ^ 128 \<and>
    gcc_mul64ByShifted32To128 h b = mul64ByShifted32To128 h b \<and> gcc_mul128By32 h l b = mul128By32 h l b \<and>
    countLeadingZeros16 tab c = gcc_countLeadingZeros16 c \<and> countLeadingZeros32 tab b = gcc_countLeadingZeros32 b \<and>
    gcc_countLeadingZeros16 c \<noteq> None \<and> gcc_countLeadingZeros32 b \<noteq> None \<and> gcc_countLeadingZeros64 h \<noteq> None"
proof -
  have "unat (join (v64 (sub128 h l h' l')) (v0 (sub128 h l h' l')) + join h' l') = unat (join h l)"
    by (simp add: join_sub)
  then have "(wide (v64 (sub128 h l h' l')) (v0 (sub128 h l h' l')) + wide h' l') mod 2 ^ 128 = wide h l"
    unfolding unat_word_ariths(1) unat_join len_u128 .
  then show ?thesis
    using gcc_mul128To256M_exact
    by (simp only: add128_wide compare_wide gcc_mul_wide mul64ByShifted32To128_wide mul128By32_wide
        portable_products clz16 [OF assms] clz32 [OF assms] gcc_clz simp_thms option.distinct)
qed

lemma wide_arithmetic_exact_witness:
  "\<exists>tab. clz_table tab \<and> countLeadingZeros32 tab 0x10000 = gcc_countLeadingZeros32 0x10000 \<and>
    wide (v64 (add128 1 (- 1) 0 1)) (v0 (add128 1 (- 1) 0 1)) = (wide 1 (- 1) + wide 0 1) mod 2 ^ 128"
proof -
  define tab where "tab = map (\<lambda>i. of_nat (leading_zeros (of_nat i :: u8)) :: u8) [0..<256]"
  have "clz_table tab" by (simp add: clz_table_def tab_def)
  from wide_arithmetic_exact [OF this] show ?thesis using \<open>clz_table tab\<close> by blast
qed

end
