(* ===== verification/Word_Order.thy ===== *)
theory Word_Order
  imports Wide_Arith
begin

text \<open>
  The macros of \<^verbatim>\<open>primitiveTypes.h\<close> that hide the order of the words of a multi-word number, for
  little-endian (\<open>_le\<close>) and big-endian (\<open>_be\<close>) machines; \<open>indexWord\<close> and \<open>indexWordHi\<close> of Wide_Arith are the
  little-endian ones the other theories use. The lemmas show what the macros are for: the array of one
  machine is the reverse of the other's, each macro selects the same words of the number on both, and a
  walk from the low word in steps of \<^verbatim>\<open>wordIncr\<close> meets the words in order of significance.
\<close>

definition wordIncr_le :: int where "wordIncr_le = 1"
definition indexWordLo_le :: "nat \<Rightarrow> nat" where "indexWordLo_le tot = 0"
definition indexMultiword_le :: "nat \<Rightarrow> nat \<Rightarrow> nat \<Rightarrow> nat" where "indexMultiword_le tot m n = n"
definition indexMultiwordHi_le :: "nat \<Rightarrow> nat \<Rightarrow> nat" where "indexMultiwordHi_le tot n = tot - n"
definition indexMultiwordLo_le :: "nat \<Rightarrow> nat \<Rightarrow> nat" where "indexMultiwordLo_le tot n = 0"
definition indexMultiwordHiBut_le :: "nat \<Rightarrow> nat \<Rightarrow> nat" where "indexMultiwordHiBut_le tot n = n"
definition indexMultiwordLoBut_le :: "nat \<Rightarrow> nat \<Rightarrow> nat" where "indexMultiwordLoBut_le tot n = 0"
definition INIT_UINTM4_le :: "u32 \<Rightarrow> u32 \<Rightarrow> u32 \<Rightarrow> u32 \<Rightarrow> u32 list" where
  "INIT_UINTM4_le w3 w2 w1 w0 = [w0, w1, w2, w3]"

definition wordIncr_be :: int where "wordIncr_be = - 1"
definition indexWord_be :: "nat \<Rightarrow> nat \<Rightarrow> nat" where "indexWord_be tot n = tot - 1 - n"
definition indexWordHi_be :: "nat \<Rightarrow> nat" where "indexWordHi_be tot = 0"
definition indexWordLo_be :: "nat \<Rightarrow> nat" where "indexWordLo_be tot = tot - 1"
definition indexMultiword_be :: "nat \<Rightarrow> nat \<Rightarrow> nat \<Rightarrow> nat" where "indexMultiword_be tot m n = tot - 1 - m"
definition indexMultiwordHi_be :: "nat \<Rightarrow> nat \<Rightarrow> nat" where "indexMultiwordHi_be tot n = 0"
definition indexMultiwordLo_be :: "nat \<Rightarrow> nat \<Rightarrow> nat" where "indexMultiwordLo_be tot n = tot - n"
definition indexMultiwordHiBut_be :: "nat \<Rightarrow> nat \<Rightarrow> nat" where "indexMultiwordHiBut_be tot n = 0"
definition indexMultiwordLoBut_be :: "nat \<Rightarrow> nat \<Rightarrow> nat" where "indexMultiwordLoBut_be tot n = n"
definition INIT_UINTM4_be :: "u32 \<Rightarrow> u32 \<Rightarrow> u32 \<Rightarrow> u32 \<Rightarrow> u32 list" where
  "INIT_UINTM4_be w3 w2 w1 w0 = [w3, w2, w1, w0]"

text \<open>The words \<open>i\<close> to \<open>i + k - 1\<close> of an array.\<close>

definition part :: "nat \<Rightarrow> nat \<Rightarrow> 'a list \<Rightarrow> 'a list" where
  "part i k ws = take k (drop i ws)"

lemma part_rev: "i + k \<le> length ws \<Longrightarrow> part i k (rev ws) = rev (part (length ws - (i + k)) k ws)"
proof (rule nth_equalityI)
  fix j assume i: "i + k \<le> length ws" and "j < length (part i k (rev ws))"
  then have j: "j < k" by (simp add: part_def)
  have "length ws - Suc (i + j) = length ws - (i + k) + (k - Suc j)" using i j by simp
  then show "part i k (rev ws) ! j = rev (part (length ws - (i + k)) k ws) ! j"
    using i j by (simp add: part_def rev_nth)
qed (simp add: part_def)

lemma single_words:
  assumes "n < length ws"
  shows "rev ws ! indexWord_be (length ws) n = ws ! indexWord (length ws) n"
    "rev ws ! indexWordHi_be (length ws) = ws ! indexWordHi (length ws)"
    "rev ws ! indexWordLo_be (length ws) = ws ! indexWordLo_le (length ws)"
    "ws ! indexWordHi (length ws) = ws ! indexWord (length ws) (length ws - 1)"
    "ws ! indexWordLo_le (length ws) = ws ! indexWord (length ws) 0"
proof -
  have "0 < length ws" using assms by (rule le_less_trans [OF le0])
  then have "rev ws ! 0 = ws ! (length ws - Suc 0)" "rev ws ! (length ws - Suc 0) = ws ! 0"
    by (simp_all add: rev_nth)
  then show "rev ws ! indexWordHi_be (length ws) = ws ! indexWordHi (length ws)"
    "rev ws ! indexWordLo_be (length ws) = ws ! indexWordLo_le (length ws)"
    by (simp_all only: indexWordHi_be_def indexWordHi_def indexWordLo_be_def indexWordLo_le_def One_nat_def)
qed (use assms in \<open>simp_all add: indexWord_be_def indexWord_def indexWordHi_def indexWordLo_le_def rev_nth\<close>)

text \<open>The words \<open>n\<close> to \<open>m\<close>, the \<open>n\<close> high or low words, and all but the \<open>n\<close> low or high words.\<close>

lemma word_ranges:
  assumes "n \<le> m" "m < length ws"
  shows "part (indexMultiword_be (length ws) m n) (m + 1 - n) (rev ws) = rev (part (indexMultiword_le (length ws) m n) (m + 1 - n) ws)"
    "part (indexMultiwordHi_be (length ws) n) n (rev ws) = rev (part (indexMultiwordHi_le (length ws) n) n ws)"
    "part (indexMultiwordLo_be (length ws) n) n (rev ws) = rev (part (indexMultiwordLo_le (length ws) n) n ws)"
    "part (indexMultiwordHiBut_be (length ws) n) (length ws - n) (rev ws) =
       rev (part (indexMultiwordHiBut_le (length ws) n) (length ws - n) ws)"
    "part (indexMultiwordLoBut_be (length ws) n) (length ws - n) (rev ws) =
       rev (part (indexMultiwordLoBut_le (length ws) n) (length ws - n) ws)"
  using assms
  by (simp_all add: part_rev indexMultiword_be_def indexMultiword_le_def indexMultiwordHi_be_def
      indexMultiwordHi_le_def indexMultiwordLo_be_def indexMultiwordLo_le_def indexMultiwordHiBut_be_def
      indexMultiwordHiBut_le_def indexMultiwordLoBut_be_def indexMultiwordLoBut_le_def)

lemma init_order: "INIT_UINTM4_be w3 w2 w1 w0 = rev (INIT_UINTM4_le w3 w2 w1 w0)"
  by (simp add: INIT_UINTM4_be_def INIT_UINTM4_le_def)

lemma init_words:
  "map (\<lambda>n. INIT_UINTM4_le w3 w2 w1 w0 ! indexWord 4 n) [0, 1, 2, 3] = [w0, w1, w2, w3]"
  "map (\<lambda>n. INIT_UINTM4_be w3 w2 w1 w0 ! indexWord_be 4 n) [0, 1, 2, 3] = [w0, w1, w2, w3]"
  by (simp_all add: INIT_UINTM4_le_def INIT_UINTM4_be_def indexWord_def indexWord_be_def eval_nat_numeral)

lemma word_walk:
  assumes "n + 1 < tot"
  shows "int (indexWord tot (n + 1)) = int (indexWord tot n) + wordIncr_le"
    "int (indexWord_be tot (n + 1)) = int (indexWord_be tot n) + wordIncr_be"
    "indexWord tot 0 = indexWordLo_le tot" "indexWord_be tot 0 = indexWordLo_be tot"
  using assms by (simp_all add: indexWord_def indexWord_be_def wordIncr_le_def wordIncr_be_def
      indexWordLo_le_def indexWordLo_be_def)

end
