(* ===== verification/Float_Format.thy ===== *)
theory Float_Format
  imports Wide_Arith Riscv_Pk
begin

text \<open>
  The floating point formats of SoftFloat: the macros of \<^verbatim>\<open>internals.h\<close> that take a number apart
  and put it together, and those of \<^verbatim>\<open>specialize.h\<close> that recognise, convert and generate NaNs. A
  16-bit or 32-bit pattern is passed in a \<^verbatim>\<open>uint_fast16_t\<close> or \<^verbatim>\<open>uint_fast32_t\<close>, which have 32 bits.
  The floating point control and status of \<^verbatim>\<open>fp_emulation.h\<close> (without a hardware unit) lives in the
  register \<^verbatim>\<open>tp\<close>: exception flags in bits 0 to 4, the dynamic rounding mode in bits 5 to 7, and the
  rounding mode of the current instruction from bit 13 on; the \<^verbatim>\<open>commonNaN\<close> struct carries nothing.
\<close>

section \<open>internals.h\<close>

definition signF16UI :: "u32 \<Rightarrow> bool" where "signF16UI a \<longleftrightarrow> drop_bit 15 (ucast a :: u16) \<noteq> 0"
definition expF16UI :: "u32 \<Rightarrow> u32" where "expF16UI a = drop_bit 10 a AND 0x1F"
definition fracF16UI :: "u32 \<Rightarrow> u32" where "fracF16UI a = a AND 0x03FF"
definition packToF16UI :: "bool \<Rightarrow> u32 \<Rightarrow> u32 \<Rightarrow> u32" where
  "packToF16UI sign exp sig = push_bit 15 (of_bool sign) + push_bit 10 (ucast (ucast exp :: u16)) + sig"
definition isNaNF16UI :: "u32 \<Rightarrow> bool" where "isNaNF16UI a \<longleftrightarrow> NOT a AND 0x7C00 = 0 \<and> a AND 0x03FF \<noteq> 0"

definition signF32UI :: "u32 \<Rightarrow> bool" where "signF32UI a \<longleftrightarrow> drop_bit 31 a \<noteq> 0"
definition expF32UI :: "u32 \<Rightarrow> u32" where "expF32UI a = drop_bit 23 a AND 0xFF"
definition fracF32UI :: "u32 \<Rightarrow> u32" where "fracF32UI a = a AND 0x007FFFFF"
definition packToF32UI :: "bool \<Rightarrow> u32 \<Rightarrow> u32 \<Rightarrow> u32" where
  "packToF32UI sign exp sig = push_bit 31 (of_bool sign) + push_bit 23 exp + sig"
definition isNaNF32UI :: "u32 \<Rightarrow> bool" where
  "isNaNF32UI a \<longleftrightarrow> NOT a AND 0x7F800000 = 0 \<and> a AND 0x007FFFFF \<noteq> 0"

definition signF64UI :: "u64 \<Rightarrow> bool" where "signF64UI a \<longleftrightarrow> drop_bit 63 a \<noteq> 0"
definition expF64UI :: "u64 \<Rightarrow> u32" where "expF64UI a = ucast (drop_bit 52 a) AND 0x7FF"
definition fracF64UI :: "u64 \<Rightarrow> u64" where "fracF64UI a = a AND 0x000FFFFFFFFFFFFF"
definition packToF64UI :: "bool \<Rightarrow> u32 \<Rightarrow> u64 \<Rightarrow> u64" where
  "packToF64UI sign exp sig = push_bit 63 (of_bool sign) + push_bit 52 (ucast exp) + sig"
definition isNaNF64UI :: "u64 \<Rightarrow> bool" where
  "isNaNF64UI a \<longleftrightarrow> NOT a AND 0x7FF0000000000000 = 0 \<and> a AND 0x000FFFFFFFFFFFFF \<noteq> 0"

definition signExtF80UI64 :: "u32 \<Rightarrow> bool" where "signExtF80UI64 a64 \<longleftrightarrow> drop_bit 15 (ucast a64 :: u16) \<noteq> 0"
definition expExtF80UI64 :: "u32 \<Rightarrow> u32" where "expExtF80UI64 a64 = a64 AND 0x7FFF"
definition packToExtF80UI64 :: "bool \<Rightarrow> u32 \<Rightarrow> u32" where
  "packToExtF80UI64 sign exp = push_bit 15 (of_bool sign) OR exp"
definition isNaNExtF80UI :: "u32 \<Rightarrow> u64 \<Rightarrow> bool" where
  "isNaNExtF80UI a64 a0 \<longleftrightarrow> a64 AND 0x7FFF = 0x7FFF \<and> a0 AND 0x7FFFFFFFFFFFFFFF \<noteq> 0"

definition signF128UI64 :: "u64 \<Rightarrow> bool" where "signF128UI64 a64 \<longleftrightarrow> drop_bit 63 a64 \<noteq> 0"
definition expF128UI64 :: "u64 \<Rightarrow> u32" where "expF128UI64 a64 = ucast (drop_bit 48 a64) AND 0x7FFF"
definition fracF128UI64 :: "u64 \<Rightarrow> u64" where "fracF128UI64 a64 = a64 AND 0x0000FFFFFFFFFFFF"
definition packToF128UI64 :: "bool \<Rightarrow> u32 \<Rightarrow> u64 \<Rightarrow> u64" where
  "packToF128UI64 sign exp sig64 = push_bit 63 (of_bool sign) + push_bit 48 (ucast exp) + sig64"
definition isNaNF128UI :: "u64 \<Rightarrow> u64 \<Rightarrow> bool" where
  "isNaNF128UI a64 a0 \<longleftrightarrow> NOT a64 AND 0x7FFF000000000000 = 0 \<and> (a0 \<noteq> 0 \<or> a64 AND 0x0000FFFFFFFFFFFF \<noteq> 0)"

definition signF128UI96 :: "u32 \<Rightarrow> bool" where "signF128UI96 a96 \<longleftrightarrow> drop_bit 31 a96 \<noteq> 0"
definition expF128UI96 :: "u32 \<Rightarrow> u32" where "expF128UI96 a96 = drop_bit 16 a96 AND 0x7FFF"
definition fracF128UI96 :: "u32 \<Rightarrow> u32" where "fracF128UI96 a96 = a96 AND 0x0000FFFF"
definition packToF128UI96 :: "bool \<Rightarrow> u32 \<Rightarrow> u32 \<Rightarrow> u32" where
  "packToF128UI96 sign exp sig96 = push_bit 31 (of_bool sign) + push_bit 16 exp + sig96"

section \<open>softfloat.h and specialize.h\<close>

definition softfloat_flag_inexact :: u32 where "softfloat_flag_inexact = 1"
definition softfloat_flag_underflow :: u32 where "softfloat_flag_underflow = 2"
definition softfloat_flag_overflow :: u32 where "softfloat_flag_overflow = 4"
definition softfloat_flag_infinite :: u32 where "softfloat_flag_infinite = 8"
definition softfloat_flag_invalid :: u32 where "softfloat_flag_invalid = 16"

definition softfloat_tininess_beforeRounding :: u32 where "softfloat_tininess_beforeRounding = 0"
definition softfloat_tininess_afterRounding :: u32 where "softfloat_tininess_afterRounding = 1"
definition softfloat_detectTininess :: u32 where "softfloat_detectTininess = softfloat_tininess_afterRounding"
definition init_detectTininess :: u32 where "init_detectTininess = softfloat_tininess_afterRounding"

definition softfloat_round_near_even :: u64 where "softfloat_round_near_even = 0"
definition softfloat_round_minMag :: u64 where "softfloat_round_minMag = 1"
definition softfloat_round_min :: u64 where "softfloat_round_min = 2"
definition softfloat_round_max :: u64 where "softfloat_round_max = 3"
definition softfloat_round_near_maxMag :: u64 where "softfloat_round_near_maxMag = 4"
definition softfloat_round_odd :: u64 where "softfloat_round_odd = 6"

section \<open>fp_emulation.h\<close>

record fp_state =
  tp :: u64
  fp_mstatus :: u64

definition GET_PRECISION :: "u64 \<Rightarrow> u64" where "GET_PRECISION insn = drop_bit 25 insn AND 3"
definition GET_RM :: "u64 \<Rightarrow> u64" where "GET_RM insn = drop_bit 12 insn AND 7"
definition PRECISION_S :: u64 where "PRECISION_S = 0"
definition PRECISION_D :: u64 where "PRECISION_D = 1"

definition SET_FS_DIRTY :: "fp_state \<Rightarrow> fp_state" where
  "SET_FS_DIRTY s = s\<lparr>fp_mstatus := fp_mstatus s OR the (map_of mstatus_fields ''MSTATUS_FS'')\<rparr>"

definition GET_FCSR :: "fp_state \<Rightarrow> u64" where "GET_FCSR s = tp s AND 0xFF"
definition SET_FCSR :: "u64 \<Rightarrow> fp_state \<Rightarrow> fp_state" where
  "SET_FCSR val s = SET_FS_DIRTY (s\<lparr>tp := val AND 0xFF\<rparr>)"
definition GET_FRM :: "fp_state \<Rightarrow> u64" where "GET_FRM s = drop_bit 5 (GET_FCSR s)"
definition GET_FFLAGS :: "fp_state \<Rightarrow> u64" where "GET_FFLAGS s = GET_FCSR s AND 0x1F"
definition SET_FRM :: "u64 \<Rightarrow> fp_state \<Rightarrow> fp_state" where
  "SET_FRM val s = SET_FCSR (GET_FFLAGS s OR push_bit 5 val) s"
definition SET_FFLAGS :: "u64 \<Rightarrow> fp_state \<Rightarrow> fp_state" where
  "SET_FFLAGS val s = SET_FCSR (push_bit 5 (GET_FRM s) OR (val AND 0x1F)) s"

text \<open>\<open>None\<close> is the return through \<^verbatim>\<open>truly_illegal_insn\<close>.\<close>

definition SETUP_STATIC_ROUNDING :: "u64 \<Rightarrow> fp_state \<Rightarrow> fp_state option" where
  "SETUP_STATIC_ROUNDING insn s =
     (let s = s\<lparr>tp := tp s AND 0xFF\<rparr> in
      if insn AND MASK_FUNCT3 = MASK_FUNCT3 then Some (s\<lparr>tp := tp s OR push_bit 8 (tp s)\<rparr>)
      else if GET_RM insn > 4 then None
      else Some (s\<lparr>tp := tp s OR push_bit 13 (GET_RM insn)\<rparr>))"

definition softfloat_raiseFlags :: "u64 \<Rightarrow> fp_state \<Rightarrow> fp_state" where
  "softfloat_raiseFlags which s = s\<lparr>tp := tp s OR which\<rparr>"

definition softfloat_roundingMode :: "fp_state \<Rightarrow> u32" where
  "softfloat_roundingMode s = signed_drop_bit 13 (ucast (tp s))"

text \<open>The floating point registers stand in memory behind the 32 integer registers at \<open>regs\<close>.\<close>

definition F64_REG :: "u64 \<Rightarrow> nat \<Rightarrow> addr \<Rightarrow> addr" where
  "F64_REG insn pos regs = regs + 32 * REGBYTES + (SHIFT_RIGHT insn (int pos - 3) AND 0xf8)"
definition GET_F64_REG :: "u64 \<Rightarrow> nat \<Rightarrow> addr \<Rightarrow> (addr \<Rightarrow> u64) \<Rightarrow> u64" where
  "GET_F64_REG insn pos regs m = m (F64_REG insn pos regs)"
definition SET_F64_REG :: "u64 \<Rightarrow> nat \<Rightarrow> addr \<Rightarrow> u64 \<Rightarrow> (addr \<Rightarrow> u64) \<Rightarrow> addr \<Rightarrow> u64" where
  "SET_F64_REG insn pos regs val m = m(F64_REG insn pos regs := val)"
definition GET_F32_REG :: "u64 \<Rightarrow> nat \<Rightarrow> addr \<Rightarrow> (addr \<Rightarrow> u64) \<Rightarrow> u32" where
  "GET_F32_REG insn pos regs m = ucast (m (F64_REG insn pos regs))"
definition SET_F32_REG :: "u64 \<Rightarrow> nat \<Rightarrow> addr \<Rightarrow> u32 \<Rightarrow> (addr \<Rightarrow> u64) \<Rightarrow> addr \<Rightarrow> u64" where
  "SET_F32_REG insn pos regs val m =
     (let a = F64_REG insn pos regs in m(a := push_bit 32 (drop_bit 32 (m a)) OR ucast val))"

definition GET_F32_RS1 :: "u64 \<Rightarrow> addr \<Rightarrow> (addr \<Rightarrow> u64) \<Rightarrow> u32" where "GET_F32_RS1 insn = GET_F32_REG insn 15"
definition GET_F32_RS2 :: "u64 \<Rightarrow> addr \<Rightarrow> (addr \<Rightarrow> u64) \<Rightarrow> u32" where "GET_F32_RS2 insn = GET_F32_REG insn 20"
definition GET_F32_RS3 :: "u64 \<Rightarrow> addr \<Rightarrow> (addr \<Rightarrow> u64) \<Rightarrow> u32" where "GET_F32_RS3 insn = GET_F32_REG insn 27"
definition GET_F64_RS1 :: "u64 \<Rightarrow> addr \<Rightarrow> (addr \<Rightarrow> u64) \<Rightarrow> u64" where "GET_F64_RS1 insn = GET_F64_REG insn 15"
definition GET_F64_RS2 :: "u64 \<Rightarrow> addr \<Rightarrow> (addr \<Rightarrow> u64) \<Rightarrow> u64" where "GET_F64_RS2 insn = GET_F64_REG insn 20"
definition GET_F64_RS3 :: "u64 \<Rightarrow> addr \<Rightarrow> (addr \<Rightarrow> u64) \<Rightarrow> u64" where "GET_F64_RS3 insn = GET_F64_REG insn 27"
definition SET_F32_RD :: "u64 \<Rightarrow> addr \<Rightarrow> u32 \<Rightarrow> (addr \<Rightarrow> u64) \<times> fp_state \<Rightarrow> (addr \<Rightarrow> u64) \<times> fp_state" where
  "SET_F32_RD insn regs val = (\<lambda>(m, s). (SET_F32_REG insn 7 regs val m, SET_FS_DIRTY s))"
definition SET_F64_RD :: "u64 \<Rightarrow> addr \<Rightarrow> u64 \<Rightarrow> (addr \<Rightarrow> u64) \<times> fp_state \<Rightarrow> (addr \<Rightarrow> u64) \<times> fp_state" where
  "SET_F64_RD insn regs val = (\<lambda>(m, s). (SET_F64_REG insn 7 regs val m, SET_FS_DIRTY s))"
definition GET_F32_RS2C :: "u64 \<Rightarrow> addr \<Rightarrow> (addr \<Rightarrow> u64) \<Rightarrow> u32" where "GET_F32_RS2C insn = GET_F32_REG insn 2"
definition GET_F32_RS2S :: "u64 \<Rightarrow> addr \<Rightarrow> (addr \<Rightarrow> u64) \<Rightarrow> u32" where "GET_F32_RS2S insn = GET_F32_REG (RVC_RS2S insn) 0"
definition GET_F64_RS2C :: "u64 \<Rightarrow> addr \<Rightarrow> (addr \<Rightarrow> u64) \<Rightarrow> u64" where "GET_F64_RS2C insn = GET_F64_REG insn 2"
definition GET_F64_RS2S :: "u64 \<Rightarrow> addr \<Rightarrow> (addr \<Rightarrow> u64) \<Rightarrow> u64" where "GET_F64_RS2S insn = GET_F64_REG (RVC_RS2S insn) 0"

section \<open>specialize.h: NaNs\<close>

definition ui32_fromPosOverflow :: u32 where "ui32_fromPosOverflow = 0xFFFFFFFF"
definition ui32_fromNegOverflow :: u32 where "ui32_fromNegOverflow = 0"
definition ui32_fromNaN :: u32 where "ui32_fromNaN = 0xFFFFFFFF"
definition i32_fromPosOverflow :: u32 where "i32_fromPosOverflow = 0x7FFFFFFF"
definition i32_fromNegOverflow :: u32 where "i32_fromNegOverflow = - 0x7FFFFFFF - 1"
definition i32_fromNaN :: u32 where "i32_fromNaN = 0x7FFFFFFF"
definition ui64_fromPosOverflow :: u64 where "ui64_fromPosOverflow = 0xFFFFFFFFFFFFFFFF"
definition ui64_fromNegOverflow :: u64 where "ui64_fromNegOverflow = 0"
definition ui64_fromNaN :: u64 where "ui64_fromNaN = 0xFFFFFFFFFFFFFFFF"
definition i64_fromPosOverflow :: u64 where "i64_fromPosOverflow = 0x7FFFFFFFFFFFFFFF"
definition i64_fromNegOverflow :: u64 where "i64_fromNegOverflow = - 0x7FFFFFFFFFFFFFFF - 1"
definition i64_fromNaN :: u64 where "i64_fromNaN = 0x7FFFFFFFFFFFFFFF"

definition defaultNaNF16UI :: u32 where "defaultNaNF16UI = 0x7E00"
definition isSigNaNF16UI :: "u32 \<Rightarrow> bool" where
  "isSigNaNF16UI a \<longleftrightarrow> a AND 0x7E00 = 0x7C00 \<and> a AND 0x01FF \<noteq> 0"
definition f16UIToCommonNaN :: "u32 \<Rightarrow> fp_state \<Rightarrow> fp_state" where
  "f16UIToCommonNaN a s = (if a AND 0x0200 = 0 then softfloat_raiseFlags (ucast softfloat_flag_invalid) s else s)"
definition commonNaNToF16UI :: u32 where "commonNaNToF16UI = defaultNaNF16UI"

definition defaultNaNF32UI :: u32 where "defaultNaNF32UI = 0x7FC00000"
definition isSigNaNF32UI :: "u32 \<Rightarrow> bool" where
  "isSigNaNF32UI a \<longleftrightarrow> a AND 0x7FC00000 = 0x7F800000 \<and> a AND 0x003FFFFF \<noteq> 0"
definition f32UIToCommonNaN :: "u32 \<Rightarrow> fp_state \<Rightarrow> fp_state" where
  "f32UIToCommonNaN a s = (if a AND 0x00400000 = 0 then softfloat_raiseFlags (ucast softfloat_flag_invalid) s else s)"
definition commonNaNToF32UI :: u32 where "commonNaNToF32UI = defaultNaNF32UI"

definition defaultNaNF64UI :: u64 where "defaultNaNF64UI = 0x7FF8000000000000"
definition isSigNaNF64UI :: "u64 \<Rightarrow> bool" where
  "isSigNaNF64UI a \<longleftrightarrow> a AND 0x7FF8000000000000 = 0x7FF0000000000000 \<and> a AND 0x0007FFFFFFFFFFFF \<noteq> 0"
definition f64UIToCommonNaN :: "u64 \<Rightarrow> fp_state \<Rightarrow> fp_state" where
  "f64UIToCommonNaN a s = (if a AND 0x0008000000000000 = 0 then softfloat_raiseFlags (ucast softfloat_flag_invalid) s else s)"
definition commonNaNToF64UI :: u64 where "commonNaNToF64UI = defaultNaNF64UI"

definition defaultNaNExtF80UI64 :: u64 where "defaultNaNExtF80UI64 = 0x7FFF"
definition defaultNaNExtF80UI0 :: u64 where "defaultNaNExtF80UI0 = 0xC000000000000000"
definition isSigNaNExtF80UI :: "u32 \<Rightarrow> u64 \<Rightarrow> bool" where
  "isSigNaNExtF80UI a64 a0 \<longleftrightarrow>
     a64 AND 0x7FFF = 0x7FFF \<and> a0 AND 0x4000000000000000 = 0 \<and> a0 AND 0x3FFFFFFFFFFFFFFF \<noteq> 0"
definition extF80UIToCommonNaN :: "u32 \<Rightarrow> u64 \<Rightarrow> fp_state \<Rightarrow> fp_state" where
  "extF80UIToCommonNaN a64 a0 s =
     (if a0 AND 0x4000000000000000 = 0 then softfloat_raiseFlags (ucast softfloat_flag_invalid) s else s)"
definition commonNaNToExtF80UI :: uint128 where
  "commonNaNToExtF80UI = \<lparr>v64 = defaultNaNExtF80UI64, v0 = defaultNaNExtF80UI0\<rparr>"

definition defaultNaNF128UI64 :: u64 where "defaultNaNF128UI64 = 0x7FFF800000000000"
definition defaultNaNF128UI0 :: u64 where "defaultNaNF128UI0 = 0"
definition isSigNaNF128UI :: "u64 \<Rightarrow> u64 \<Rightarrow> bool" where
  "isSigNaNF128UI a64 a0 \<longleftrightarrow>
     a64 AND 0x7FFF800000000000 = 0x7FFF000000000000 \<and> (a0 \<noteq> 0 \<or> a64 AND 0x00007FFFFFFFFFFF \<noteq> 0)"
definition f128UIToCommonNaN :: "u64 \<Rightarrow> u64 \<Rightarrow> fp_state \<Rightarrow> fp_state" where
  "f128UIToCommonNaN a64 a0 s =
     (if a64 AND 0x0000800000000000 = 0 then softfloat_raiseFlags (ucast softfloat_flag_invalid) s else s)"
definition commonNaNToF128UI :: uint128 where
  "commonNaNToF128UI = \<lparr>v64 = defaultNaNF128UI64, v0 = defaultNaNF128UI0\<rparr>"

text \<open>
  The versions for platforms without fast 64-bit integers: an 80-bit number is a struct, a 128-bit
  number an array of four 32-bit words. The constant in the test of \<^verbatim>\<open>f128MToCommonNaN\<close> is a
  64-bit one, so the word of the array is converted to 64 bits.
\<close>

record extFloat80M =
  signif :: u64
  signExp :: u16

definition extF80MToCommonNaN :: "extFloat80M \<Rightarrow> fp_state \<Rightarrow> fp_state" where
  "extF80MToCommonNaN a s =
     (if signif a AND 0x4000000000000000 = 0 then softfloat_raiseFlags (ucast softfloat_flag_invalid) s else s)"
definition commonNaNToExtF80M :: extFloat80M where
  "commonNaNToExtF80M = \<lparr>signif = defaultNaNExtF80UI0, signExp = ucast defaultNaNExtF80UI64\<rparr>"

definition defaultNaNF128UI96 :: u32 where "defaultNaNF128UI96 = 0x7FFF8000"
definition defaultNaNF128UI64_word :: u32 where "defaultNaNF128UI64_word = 0"
definition defaultNaNF128UI32 :: u32 where "defaultNaNF128UI32 = 0"
definition defaultNaNF128UI0_word :: u32 where "defaultNaNF128UI0_word = 0"

definition f128MToCommonNaN :: "u32 list \<Rightarrow> fp_state \<Rightarrow> fp_state option" where
  "f128MToCommonNaN a s = do {
     w \<leftarrow> rd a (of_nat (indexWordHi 4));
     Some (if (ucast w :: u64) AND 0x0000800000000000 = 0
           then softfloat_raiseFlags (ucast softfloat_flag_invalid) s else s)
   }"

definition commonNaNToF128M :: "u32 list \<Rightarrow> u32 list option" where
  "commonNaNToF128M z = do {
     z \<leftarrow> wr z (of_nat (indexWord 4 3)) defaultNaNF128UI96;
     z \<leftarrow> wr z (of_nat (indexWord 4 2)) defaultNaNF128UI64_word;
     z \<leftarrow> wr z (of_nat (indexWord 4 1)) defaultNaNF128UI32;
     wr z (of_nat (indexWord 4 0)) defaultNaNF128UI0_word
   }"

section \<open>Fields\<close>

lemma high_bit:
  fixes a :: "'a :: len word"
  assumes "Suc n = LENGTH('a)"
  shows "drop_bit n a \<noteq> 0 \<longleftrightarrow> bit a n"
proof -
  have "drop_bit n a = of_bool (bit a n)"
  proof (rule bit_word_eqI)
    fix i assume "i < LENGTH('a)"
    have "0 < i \<Longrightarrow> \<not> bit a (n + i)" using assms bit_imp_le_length [of a "n + i"] by auto
    then show "bit (drop_bit n a) i = bit (of_bool (bit a n) :: 'a word) i" by (cases i) (auto simp: bit_simps)
  qed
  then show ?thesis by simp
qed

lemma sum_fields:
  fixes x y :: "'a :: len word"
  assumes "take_bit e x = x" "take_bit f y = y"
  shows "push_bit (f + e) (of_bool s) + push_bit f x + y = push_bit (f + e) (of_bool s) OR push_bit f x OR y"
proof -
  have b: "bit x i \<Longrightarrow> i < e" "bit y i \<Longrightarrow> i < f" for i using assms by (metis bit_take_bit_iff)+
  have "push_bit (f + e) (of_bool s) AND push_bit f x = (0 :: 'a word)"
    by (rule bit_word_eqI) (auto simp: bit_simps dest!: b(1))
  moreover have "(push_bit (f + e) (of_bool s) OR push_bit f x) AND y = 0"
    by (rule bit_word_eqI) (auto simp: bit_simps dest!: b(2))
  ultimately show ?thesis by (simp add: disjunctive_add_eq_or or.assoc)
qed

lemma get_fields:
  fixes x y :: "'a :: len word" and s :: bool
  assumes "take_bit e x = x" "take_bit f y = y" "f + e < LENGTH('a)"
  defines "p \<equiv> push_bit (f + e) (of_bool s) + push_bit f x + y"
  shows "bit p (f + e) = s" "take_bit e (drop_bit f p) = x" "take_bit f p = y" "take_bit (Suc (f + e)) p = p"
proof -
  have b: "bit x i \<Longrightarrow> i < e" "bit y i \<Longrightarrow> i < f" for i using assms(1,2) by (metis bit_take_bit_iff)+
  have p: "p = push_bit (f + e) (of_bool s) OR push_bit f x OR y" unfolding p_def by (rule sum_fields [OF assms(1,2)])
  show "bit p (f + e) = s" using assms(3) by (auto simp: p bit_simps dest: b)
  show "take_bit e (drop_bit f p) = x" using assms(3)
    by (intro bit_word_eqI) (auto simp: p bit_simps dest: b)
  show "take_bit f p = y" by (rule bit_word_eqI) (auto simp: p bit_simps dest: b)
  show "take_bit (Suc (f + e)) p = p"
    by (rule bit_word_eqI) (auto simp: p bit_simps dest: b)
qed

lemma put_fields:
  fixes a :: "'a :: len word"
  assumes "f + e < LENGTH('a)"
  shows "push_bit (f + e) (of_bool (bit a (f + e))) + push_bit f (take_bit e (drop_bit f a)) + take_bit f a = take_bit (Suc (f + e)) a"
  by (subst sum_fields [of e _ f]) (auto intro!: bit_word_eqI simp: bit_simps less_Suc_eq add.commute)

lemma exp_ones: "NOT a AND push_bit f (mask e) = 0 \<longleftrightarrow> take_bit e (drop_bit f a) = mask e"
  if "f + e < LENGTH('a)" for a :: "'a :: len word"
proof -
  have "bit (NOT a AND push_bit f (mask e)) i \<longleftrightarrow> f \<le> i \<and> i < f + e \<and> \<not> bit a i" for i
    using that by (auto simp: bit_simps)
  then have "NOT a AND push_bit f (mask e) = 0 \<longleftrightarrow> (\<forall>i < LENGTH('a). \<not> (f \<le> i \<and> i < f + e \<and> \<not> bit a i))"
    by (simp add: bit_eq_iff)
  also have "\<dots> \<longleftrightarrow> (\<forall>i < e. bit a (f + i))"
  proof (intro iffI allI impI)
    fix i assume "\<forall>i < LENGTH('a). \<not> (f \<le> i \<and> i < f + e \<and> \<not> bit a i)" "i < e"
    then show "bit a (f + i)" using that by (auto dest: spec [of _ "f + i"])
  next
    fix i assume all: "\<forall>i < e. bit a (f + i)"
    show "\<not> (f \<le> i \<and> i < f + e \<and> \<not> bit a i)" using all [rule_format, of "i - f"] by auto
  qed
  also have "\<dots> \<longleftrightarrow> take_bit e (drop_bit f a) = mask e"
  proof -
    have l: "i < e \<Longrightarrow> i < LENGTH('a)" for i using that by simp
    have "take_bit e (drop_bit f a) = mask e \<longleftrightarrow> (\<forall>i < LENGTH('a). (i < e \<and> bit a (f + i)) = (i < e))"
      by (simp add: bit_eq_iff bit_simps)
    with l show ?thesis by blast
  qed
  finally show ?thesis .
qed

lemma split_mask:
  fixes a :: "'a :: len word"
  assumes "m AND q = 0"
  shows "a AND (m OR q) = m \<longleftrightarrow> NOT a AND m = 0 \<and> a AND q = 0"
proof -
  have d: "\<not> (bit m n \<and> bit q n)" for n using arg_cong [OF assms, of "\<lambda>w. bit w n"] by (simp add: bit_and_iff)
  have "a AND (m OR q) = m \<longleftrightarrow> (\<forall>n < LENGTH('a). bit a n \<and> (bit m n \<or> bit q n) \<longleftrightarrow> bit m n)"
    by (simp add: bit_eq_iff bit_and_iff bit_or_iff)
  also have "\<dots> \<longleftrightarrow> (\<forall>n < LENGTH('a). (bit m n \<longrightarrow> bit a n) \<and> \<not> (bit a n \<and> bit q n))" using d by blast
  also have "\<dots> \<longleftrightarrow> NOT a AND m = 0 \<and> a AND q = 0"
    by (auto simp: bit_eq_iff bit_and_iff bit_not_iff dest: bit_imp_le_length)
  finally show ?thesis .
qed

lemma signalling:
  fixes a :: "'a :: len word"
  assumes "g = Suc f" "d = Suc e" "f + e < LENGTH('a)"
  shows "a AND push_bit f (mask d) = push_bit g (mask e) \<longleftrightarrow> NOT a AND push_bit g (mask e) = 0 \<and> \<not> bit a f"
proof -
  have "bit (push_bit f (mask d) :: 'a word) i \<longleftrightarrow> bit (push_bit g (mask e) :: 'a word) i \<or> i = f" if "i < LENGTH('a)" for i
    using assms(1,2) that by (simp only: bit_push_bit_iff bit_mask_iff) auto
  then have m: "push_bit f (mask d) = push_bit g (mask e) OR (push_bit f 1 :: 'a word)"
    using assms(3) by (intro bit_word_eqI) (auto simp: bit_or_iff bit_push_bit_iff bit_exp_iff)
  have "push_bit g (mask e) AND (push_bit f 1 :: 'a word) = 0"
  proof -
    have "\<not> g \<le> f" using assms(1) by simp
    then show ?thesis by (intro bit_word_eqI) (auto simp: bit_and_iff bit_push_bit_iff bit_exp_iff)
  qed
  moreover have "a AND push_bit f 1 = 0 \<longleftrightarrow> \<not> bit a f"
    by (simp add: and_exp_eq_0_iff_not_bit push_bit_eq_mult)
  ultimately show ?thesis unfolding m using split_mask by metis
qed


text \<open>The constants of the macros as masks.\<close>

lemma low_masks:
  "x AND 0x1F = take_bit 5 x" "x AND 0x3FF = take_bit 10 x" "x AND 0xFF = take_bit 8 x" "x AND 0x7FFFFF = take_bit 23 x"
  "x AND 0x7FF = take_bit 11 x" "y AND 0xFFFFFFFFFFFFF = take_bit 52 y" "x AND 0x7FFF = take_bit 15 x"
  "y AND 0xFFFFFFFFFFFF = take_bit 48 y" "x AND 0xFFFF = take_bit 16 x"
  "x AND 0x1FF = take_bit 9 x" "x AND 0x3FFFFF = take_bit 22 x" "y AND 0x7FFFFFFFFFFFF = take_bit 51 y"
  "y AND 0x7FFFFFFFFFFF = take_bit 47 y" for x :: u32 and y :: u64
  by (simp_all add: take_bit_eq_mask mask_eq_exp_minus_1)

lemma exp_masks:
  "(0x7C00 :: u32) = push_bit 10 (mask 5)" "(0x7F800000 :: u32) = push_bit 23 (mask 8)"
  "(0x7FF0000000000000 :: u64) = push_bit 52 (mask 11)" "(0x7FFF000000000000 :: u64) = push_bit 48 (mask 15)"
  by (simp_all add: mask_eq_exp_minus_1)

lemma quiet_masks:
  "(0x7E00 :: u32) = push_bit 9 (mask 6)" "(0x7FC00000 :: u32) = push_bit 22 (mask 9)"
  "(0x7FF8000000000000 :: u64) = push_bit 51 (mask 12)" "(0x7FFF800000000000 :: u64) = push_bit 47 (mask 16)"
  by (simp_all add: mask_eq_exp_minus_1)

lemma f32_fields:
  "packToF32UI (signF32UI a) (expF32UI a) (fracF32UI a) = a"
  "signF32UI (packToF32UI s (take_bit 8 x) (take_bit 23 y)) = s"
  "expF32UI (packToF32UI s (take_bit 8 x) (take_bit 23 y)) = take_bit 8 x"
  "fracF32UI (packToF32UI s (take_bit 8 x) (take_bit 23 y)) = take_bit 23 y"
  using put_fields [of 23 8 a] get_fields [of 8 "take_bit 8 x" 23 "take_bit 23 y" s]
  by (simp_all add: packToF32UI_def signF32UI_def expF32UI_def fracF32UI_def low_masks high_bit [where n = 31] take_bit_word_eq_self
      del: take_bit_eq_mod)

lemma ucast_take:
  "n \<le> 32 \<Longrightarrow> take_bit n (ucast x :: u64) = ucast (take_bit n x)"
  "n \<le> 32 \<Longrightarrow> take_bit n (ucast w :: u32) = ucast (take_bit n w)"
  "n \<le> 32 \<Longrightarrow> ucast (ucast (take_bit n w) :: u32) = take_bit n w"
  "n \<le> 32 \<Longrightarrow> ucast (ucast (take_bit n x) :: u64) = take_bit n x" for x :: u32 and w :: u64
  by (rule bit_word_eqI; auto simp: bit_simps)+

lemma take_take: "take_bit n (take_bit n x) = take_bit n x" for x :: "'a :: len word"
  by (simp add: take_bit_take_bit)

lemma fields64:
  fixes a y :: u64 and x :: u32 and s :: bool
  assumes "f + e = 63" "e \<le> 32"
  defines "p \<equiv> push_bit 63 (of_bool s) + push_bit f (ucast (take_bit e x)) + take_bit f y"
  shows "push_bit 63 (of_bool (drop_bit 63 a \<noteq> 0)) + push_bit f (ucast (take_bit e (ucast (drop_bit f a) :: u32))) + take_bit f a = a"
    "drop_bit 63 p \<noteq> 0 \<longleftrightarrow> s" "take_bit e (ucast (drop_bit f p) :: u32) = take_bit e x" "take_bit f p = take_bit f y"
proof -
  have h: "drop_bit 63 w \<noteq> 0 \<longleftrightarrow> bit w 63" for w :: u64 by (rule high_bit) simp
  have t: "take_bit 64 a = a" by (rule take_bit_word_eq_self) simp
  show "push_bit 63 (of_bool (drop_bit 63 a \<noteq> 0)) + push_bit f (ucast (take_bit e (ucast (drop_bit f a) :: u32))) + take_bit f a = a"
    using put_fields [of f e a] t assms(1,2) unfolding h by (simp add: ucast_take)
  let ?x = "ucast (take_bit e x) :: u64"
  have x: "take_bit e ?x = ?x" using assms(2) by (simp only: ucast_take take_take)
  note g = get_fields [OF x take_take, where f = f and s = s, unfolded assms(1), simplified, of y, folded p_def]
  show "drop_bit 63 p \<noteq> 0 \<longleftrightarrow> s" using g(1) unfolding h by simp
  show "take_bit e (ucast (drop_bit f p) :: u32) = take_bit e x" using g(2) assms(2) by (simp add: ucast_take)
  show "take_bit f p = take_bit f y" by (rule g(3))
qed

lemma f64_fields:
  "packToF64UI (signF64UI a) (expF64UI a) (fracF64UI a) = a"
  "signF64UI (packToF64UI s (take_bit 11 x) (take_bit 52 y)) = s"
  "expF64UI (packToF64UI s (take_bit 11 x) (take_bit 52 y)) = take_bit 11 x"
  "fracF64UI (packToF64UI s (take_bit 11 x) (take_bit 52 y)) = take_bit 52 y"
  using fields64(1) [of 52 11 a] fields64(2,3,4) [where f = 52 and e = 11 and s = s and x = x and y = y]
  unfolding packToF64UI_def signF64UI_def expF64UI_def fracF64UI_def low_masks by simp_all

lemma f128_fields:
  "packToF128UI64 (signF128UI64 a) (expF128UI64 a) (fracF128UI64 a) = a"
  "signF128UI64 (packToF128UI64 s (take_bit 15 x) (take_bit 48 y)) = s"
  "expF128UI64 (packToF128UI64 s (take_bit 15 x) (take_bit 48 y)) = take_bit 15 x"
  "fracF128UI64 (packToF128UI64 s (take_bit 15 x) (take_bit 48 y)) = take_bit 48 y"
  using fields64(1) [of 48 15 a] fields64(2,3,4) [where f = 48 and e = 15 and s = s and x = x and y = y]
  unfolding packToF128UI64_def signF128UI64_def expF128UI64_def fracF128UI64_def low_masks by simp_all

lemma f128_word_fields:
  "packToF128UI96 (signF128UI96 a) (expF128UI96 a) (fracF128UI96 a) = a"
  "signF128UI96 (packToF128UI96 s (take_bit 15 x) (take_bit 16 y)) = s"
  "expF128UI96 (packToF128UI96 s (take_bit 15 x) (take_bit 16 y)) = take_bit 15 x"
  "fracF128UI96 (packToF128UI96 s (take_bit 15 x) (take_bit 16 y)) = take_bit 16 y"
  using put_fields [of 16 15 a] get_fields [of 15 "take_bit 15 x" 16 "take_bit 16 y" s]
  by (simp_all add: packToF128UI96_def signF128UI96_def expF128UI96_def fracF128UI96_def low_masks high_bit [where n = 31]
      take_bit_word_eq_self)

lemma sign16: "drop_bit 15 (ucast a :: u16) \<noteq> 0 \<longleftrightarrow> bit a 15" for a :: u32
  by (subst high_bit) (simp_all add: bit_simps)

lemma f16_fields:
  "packToF16UI (signF16UI a) (expF16UI a) (fracF16UI a) = take_bit 16 a"
  "signF16UI (packToF16UI s (take_bit 5 x) (take_bit 10 y)) = s"
  "expF16UI (packToF16UI s (take_bit 5 x) (take_bit 10 y)) = take_bit 5 x"
  "fracF16UI (packToF16UI s (take_bit 5 x) (take_bit 10 y)) = take_bit 10 y"
proof -
  have u: "ucast (ucast (take_bit 5 w) :: u16) = take_bit 5 w" for w :: u32
    by (rule bit_word_eqI) (auto simp: bit_simps)
  show "packToF16UI (signF16UI a) (expF16UI a) (fracF16UI a) = take_bit 16 a"
    "signF16UI (packToF16UI s (take_bit 5 x) (take_bit 10 y)) = s"
    "expF16UI (packToF16UI s (take_bit 5 x) (take_bit 10 y)) = take_bit 5 x"
    "fracF16UI (packToF16UI s (take_bit 5 x) (take_bit 10 y)) = take_bit 10 y"
    using put_fields [of 10 5 a] get_fields [of 5 "take_bit 5 x" 10 "take_bit 10 y" s]
    by (simp_all add: packToF16UI_def signF16UI_def expF16UI_def fracF16UI_def low_masks sign16 u)
qed

lemma ext80_fields:
  "packToExtF80UI64 (signExtF80UI64 a) (expExtF80UI64 a) = take_bit 16 a"
  "signExtF80UI64 (packToExtF80UI64 s (take_bit 15 x)) = s"
  "expExtF80UI64 (packToExtF80UI64 s (take_bit 15 x)) = take_bit 15 x"
proof -
  have b: "bit (push_bit 15 (of_bool P) :: u32) n \<longleftrightarrow> P \<and> n = 15" for P n
    by (simp only: bit_push_bit_iff bit_of_bool_iff) auto
  have n16: "n < 16 \<longleftrightarrow> n < 15 \<or> n = 15" for n :: nat by arith
  show "packToExtF80UI64 (signExtF80UI64 a) (expExtF80UI64 a) = take_bit 16 a"
    unfolding packToExtF80UI64_def signExtF80UI64_def expExtF80UI64_def low_masks sign16
    by (rule bit_word_eqI) (auto simp only: bit_or_iff b bit_take_bit_iff n16)
  show "signExtF80UI64 (packToExtF80UI64 s (take_bit 15 x)) = s"
    "expExtF80UI64 (packToExtF80UI64 s (take_bit 15 x)) = take_bit 15 x"
    unfolding packToExtF80UI64_def signExtF80UI64_def expExtF80UI64_def low_masks sign16
    by (auto intro!: bit_word_eqI simp only: bit_or_iff b bit_take_bit_iff)
qed

section \<open>NaNs\<close>

lemma nan_exp:
  "isNaNF16UI a \<longleftrightarrow> expF16UI a = mask 5 \<and> fracF16UI a \<noteq> 0"
  "isNaNF32UI a \<longleftrightarrow> expF32UI a = mask 8 \<and> fracF32UI a \<noteq> 0"
  "isNaNF64UI b \<longleftrightarrow> expF64UI b = mask 11 \<and> fracF64UI b \<noteq> 0"
  "isNaNF128UI b c \<longleftrightarrow> expF128UI64 b = mask 15 \<and> (c \<noteq> 0 \<or> fracF128UI64 b \<noteq> 0)"
proof -
  have u: "n \<le> 32 \<Longrightarrow> ucast (take_bit n w) = (mask n :: u32) \<longleftrightarrow> take_bit n w = mask n" for n and w :: u64
  proof
    assume n: "n \<le> 32" and eq: "ucast (take_bit n w) = (mask n :: u32)"
    have "ucast (mask n :: u32) = (mask n :: u64)" using n by (intro bit_word_eqI) (auto simp: bit_simps)
    with arg_cong [OF eq, of "ucast :: u32 \<Rightarrow> u64"] ucast_take(3) [OF n, of w] show "take_bit n w = mask n" by simp
  next
    assume n: "n \<le> 32" and eq: "take_bit n w = mask n"
    show "ucast (take_bit n w) = (mask n :: u32)" unfolding eq using n by (intro bit_word_eqI) (auto simp: bit_simps)
  qed
  show "isNaNF16UI a \<longleftrightarrow> expF16UI a = mask 5 \<and> fracF16UI a \<noteq> 0"
    "isNaNF32UI a \<longleftrightarrow> expF32UI a = mask 8 \<and> fracF32UI a \<noteq> 0"
    using exp_ones [of 10 5 a] exp_ones [of 23 8 a]
    unfolding isNaNF16UI_def isNaNF32UI_def exp_masks expF16UI_def expF32UI_def fracF16UI_def fracF32UI_def low_masks by simp_all
  show "isNaNF64UI b \<longleftrightarrow> expF64UI b = mask 11 \<and> fracF64UI b \<noteq> 0"
    "isNaNF128UI b c \<longleftrightarrow> expF128UI64 b = mask 15 \<and> (c \<noteq> 0 \<or> fracF128UI64 b \<noteq> 0)"
    using exp_ones [of 52 11 b] exp_ones [of 48 15 b]
    unfolding isNaNF64UI_def isNaNF128UI_def exp_masks expF64UI_def expF128UI64_def fracF64UI_def fracF128UI64_def low_masks
    by (simp_all add: ucast_take u)
qed

lemma quiet_bits:
  "a AND 0x0200 = 0 \<longleftrightarrow> \<not> bit a 9" "a AND 0x00400000 = 0 \<longleftrightarrow> \<not> bit a 22"
  "b AND 0x0008000000000000 = 0 \<longleftrightarrow> \<not> bit b 51" "b AND 0x0000800000000000 = 0 \<longleftrightarrow> \<not> bit b 47"
  for a :: u32 and b :: u64
  using and_exp_eq_0_iff_not_bit [of a 9] and_exp_eq_0_iff_not_bit [of a 22]
    and_exp_eq_0_iff_not_bit [of b 51] and_exp_eq_0_iff_not_bit [of b 47] by simp_all

lemma take_Suc_0: "take_bit m w = 0 \<longleftrightarrow> take_bit n w = 0 \<and> \<not> bit w n" if "m = Suc n" for w :: "'a :: len word"
proof -
  have z: "take_bit k w = 0 \<longleftrightarrow> (\<forall>i < k. \<not> bit w i)" for k
    by (auto simp: bit_eq_iff [where 'a = "'a word"] bit_take_bit_iff dest: bit_imp_le_length)
  show ?thesis unfolding z that by (auto simp: less_Suc_eq)
qed

lemma sig_nan:
  "isSigNaNF16UI a \<longleftrightarrow> isNaNF16UI a \<and> a AND 0x0200 = 0"
  "isSigNaNF32UI a \<longleftrightarrow> isNaNF32UI a \<and> a AND 0x00400000 = 0"
  "isSigNaNF64UI b \<longleftrightarrow> isNaNF64UI b \<and> b AND 0x0008000000000000 = 0"
  "isSigNaNF128UI b c \<longleftrightarrow> isNaNF128UI b c \<and> b AND 0x0000800000000000 = 0"
proof -
  have f: "take_bit 10 a = 0 \<longleftrightarrow> take_bit 9 a = 0 \<and> \<not> bit a 9" "take_bit 23 a = 0 \<longleftrightarrow> take_bit 22 a = 0 \<and> \<not> bit a 22"
    "take_bit 52 b = 0 \<longleftrightarrow> take_bit 51 b = 0 \<and> \<not> bit b 51" "take_bit 48 b = 0 \<longleftrightarrow> take_bit 47 b = 0 \<and> \<not> bit b 47"
    by (rule take_Suc_0; simp)+
  note s = signalling [of 10 9 6 5 a] signalling [of 23 22 9 8 a] signalling [of 52 51 12 11 b] signalling [of 48 47 16 15 b]
  show "isSigNaNF16UI a \<longleftrightarrow> isNaNF16UI a \<and> a AND 0x0200 = 0"
    "isSigNaNF32UI a \<longleftrightarrow> isNaNF32UI a \<and> a AND 0x00400000 = 0"
    "isSigNaNF64UI b \<longleftrightarrow> isNaNF64UI b \<and> b AND 0x0008000000000000 = 0"
    "isSigNaNF128UI b c \<longleftrightarrow> isNaNF128UI b c \<and> b AND 0x0000800000000000 = 0"
    using s f
    unfolding isSigNaNF16UI_def isNaNF16UI_def isSigNaNF32UI_def isNaNF32UI_def isSigNaNF64UI_def isNaNF64UI_def
      isSigNaNF128UI_def isNaNF128UI_def quiet_masks exp_masks low_masks quiet_bits
    by auto
qed

lemma default_nans:
  "isNaNF16UI commonNaNToF16UI \<and> \<not> isSigNaNF16UI commonNaNToF16UI"
  "isNaNF32UI commonNaNToF32UI \<and> \<not> isSigNaNF32UI commonNaNToF32UI"
  "isNaNF64UI commonNaNToF64UI \<and> \<not> isSigNaNF64UI commonNaNToF64UI"
  "isNaNF128UI (v64 commonNaNToF128UI) (v0 commonNaNToF128UI) \<and> \<not> isSigNaNF128UI (v64 commonNaNToF128UI) (v0 commonNaNToF128UI)"
  "isNaNExtF80UI (ucast (v64 commonNaNToExtF80UI)) (v0 commonNaNToExtF80UI) \<and>
    \<not> isSigNaNExtF80UI (ucast (v64 commonNaNToExtF80UI)) (v0 commonNaNToExtF80UI)"
  "isNaNExtF80UI (ucast (signExp commonNaNToExtF80M)) (signif commonNaNToExtF80M) \<and>
    \<not> isSigNaNExtF80UI (ucast (signExp commonNaNToExtF80M)) (signif commonNaNToExtF80M)"
  by code_simp+

text \<open>The array version writes the words of the 128-bit one, the low word first.\<close>

definition words_of_128 :: "uint128 \<Rightarrow> u32 list" where
  "words_of_128 n = [ucast (v0 n), ucast (drop_bit 32 (v0 n)), ucast (v64 n), ucast (drop_bit 32 (v64 n))]"

lemma default_nan_words:
  assumes "length z = 4"
  shows "commonNaNToF128M z = Some (words_of_128 commonNaNToF128UI)"
proof -
  obtain a b c d where z: "z = [a, b, c, d]" using assms by (auto simp: length_Suc_conv eval_nat_numeral)
  have "words_of_128 commonNaNToF128UI = [0, 0, 0, 0x7FFF8000]" by code_simp
  then show ?thesis
    by (simp add: commonNaNToF128M_def wr_def z indexWord_def defaultNaNF128UI96_def defaultNaNF128UI64_word_def
        defaultNaNF128UI32_def defaultNaNF128UI0_word_def)
qed

lemma common_nan:
  "isNaNF16UI a \<Longrightarrow> f16UIToCommonNaN a s = (if isSigNaNF16UI a then softfloat_raiseFlags 16 s else s)"
  "isNaNF32UI a \<Longrightarrow> f32UIToCommonNaN a s = (if isSigNaNF32UI a then softfloat_raiseFlags 16 s else s)"
  "isNaNF64UI b \<Longrightarrow> f64UIToCommonNaN b s = (if isSigNaNF64UI b then softfloat_raiseFlags 16 s else s)"
  "isNaNF128UI b c \<Longrightarrow> f128UIToCommonNaN b c s = (if isSigNaNF128UI b c then softfloat_raiseFlags 16 s else s)"
  by (simp_all add: sig_nan f16UIToCommonNaN_def f32UIToCommonNaN_def f64UIToCommonNaN_def f128UIToCommonNaN_def
      softfloat_flag_invalid_def)

lemma ext80_common_nan:
  assumes "isNaNExtF80UI a c"
  shows "isSigNaNExtF80UI a c \<longleftrightarrow> c AND 0x4000000000000000 = 0 \<and> c AND 0x3FFFFFFFFFFFFFFF \<noteq> 0"
    "extF80UIToCommonNaN a c s = (if c AND 0x4000000000000000 = 0 then softfloat_raiseFlags 16 s else s)"
  using assms by (auto simp: isSigNaNExtF80UI_def isNaNExtF80UI_def extF80UIToCommonNaN_def softfloat_flag_invalid_def)

lemma ext80_sig_nan:
  assumes "isNaNExtF80UI a c"
  shows "extF80UIToCommonNaN a c s = (if isSigNaNExtF80UI a c then softfloat_raiseFlags 16 s else s)"
proof -
  have m: "x AND 0x7FFFFFFFFFFFFFFF = take_bit 63 x" "x AND 0x3FFFFFFFFFFFFFFF = take_bit 62 x"
    "x AND 0x4000000000000000 = 0 \<longleftrightarrow> \<not> bit x 62" for x :: u64
    using and_exp_eq_0_iff_not_bit [of x 62] by (simp_all add: take_bit_eq_mask mask_eq_exp_minus_1)
  have "take_bit 63 c = 0 \<longleftrightarrow> take_bit 62 c = 0 \<and> \<not> bit c 62" by (rule take_Suc_0) simp
  then have "isSigNaNExtF80UI a c \<longleftrightarrow> c AND 0x4000000000000000 = 0"
    using assms unfolding isSigNaNExtF80UI_def isNaNExtF80UI_def m by auto
  with ext80_common_nan(2) [OF assms] show ?thesis by simp
qed

lemma ext80M_common_nan: "extF80MToCommonNaN x s = extF80UIToCommonNaN (ucast (signExp x)) (signif x) s"
  by (simp add: extF80MToCommonNaN_def extF80UIToCommonNaN_def)

text \<open>The test of the array version looks at a bit that a 32-bit word does not have.\<close>

lemma f128M_raises:
  assumes "length a = 4"
  shows "f128MToCommonNaN a s = Some (softfloat_raiseFlags 16 s)"
proof -
  have "(ucast w :: u64) AND 0x0000800000000000 = 0" for w :: u32
    unfolding quiet_bits by (auto simp: bit_simps dest: bit_imp_le_length)
  then show ?thesis using assms by (simp add: f128MToCommonNaN_def indexWordHi_def softfloat_flag_invalid_def)
qed

section \<open>Rounding modes and flags\<close>

lemma control_masks: "x AND 0xFF = take_bit 8 x" "x AND 0x1F = take_bit 5 x" "x AND 7 = take_bit 3 x" for x :: u64
  by (simp_all add: take_bit_eq_mask mask_eq_exp_minus_1)

lemma small_mode:
  assumes "\<And>i. 16 \<le> i \<Longrightarrow> \<not> bit (tp s) i"
  shows "softfloat_roundingMode s = ucast (drop_bit 13 (tp s))"
  using assms by (intro bit_word_eqI) (auto simp: softfloat_roundingMode_def bit_simps min_def)

lemma dynamic_mode: "insn AND MASK_FUNCT3 = MASK_FUNCT3 \<longleftrightarrow> GET_RM insn = 7"
proof -
  have "MASK_FUNCT3 = push_bit 12 (mask 3)" by (simp add: MASK_FUNCT3_def mask_eq_exp_minus_1)
  then have "insn AND MASK_FUNCT3 = MASK_FUNCT3 \<longleftrightarrow> NOT insn AND push_bit 12 (mask 3) = 0"
    using split_mask [of "push_bit 12 (mask 3)" 0 insn] by simp
  also have "\<dots> \<longleftrightarrow> GET_RM insn = mask 3"
    unfolding GET_RM_def control_masks by (rule exp_ones) simp
  finally show ?thesis by (simp add: mask_eq_exp_minus_1)
qed

lemma setup_rounding:
  assumes "SETUP_STATIC_ROUNDING insn s = Some s'"
  shows "softfloat_roundingMode s' = ucast (if GET_RM insn = 7 then GET_FRM s else GET_RM insn)"
    "GET_FCSR s' = GET_FCSR s"
proof -
  let ?t = "take_bit 8 (tp s)"
  have t: "tp s' = (if GET_RM insn = 7 then ?t OR push_bit 8 ?t else ?t OR push_bit 13 (GET_RM insn))"
    using assms by (auto simp: SETUP_STATIC_ROUNDING_def Let_def dynamic_mode control_masks split: if_splits)
  have r: "bit (GET_RM insn) i \<Longrightarrow> i < 3" for i by (simp add: GET_RM_def control_masks bit_simps)
  have "\<not> bit (tp s') i" if "16 \<le> i" for i using that by (auto simp: t bit_simps dest: r split: if_splits)
  then have m: "softfloat_roundingMode s' = ucast (drop_bit 13 (tp s'))" by (rule small_mode)
  have "drop_bit 13 (tp s') = (if GET_RM insn = 7 then GET_FRM s else GET_RM insn)"
    by (rule bit_word_eqI) (auto simp: t bit_simps GET_FRM_def GET_FCSR_def control_masks dest: r)
  then show "softfloat_roundingMode s' = ucast (if GET_RM insn = 7 then GET_FRM s else GET_RM insn)" unfolding m by simp
  show "GET_FCSR s' = GET_FCSR s"
    by (rule bit_word_eqI) (auto simp: t bit_simps GET_FCSR_def control_masks)
qed

lemma setup_illegal: "SETUP_STATIC_ROUNDING insn s = None \<longleftrightarrow> GET_RM insn \<in> {5, 6}"
proof -
  have "take_bit 3 (unat (drop_bit 12 insn)) < 2 ^ 3" by (rule take_bit_nat_less_exp)
  then have "unat (GET_RM insn) < 8" unfolding GET_RM_def control_masks unsigned_take_bit_eq by simp
  then have "unat (GET_RM insn) \<in> {0, 1, 2, 3, 4, 5, 6, 7}" by auto
  moreover have "of_nat (unat (GET_RM insn)) = GET_RM insn" by simp
  ultimately have "GET_RM insn \<in> {0, 1, 2, 3, 4, 5, 6, 7}" by (elim insertE) auto
  then show ?thesis by (auto simp: SETUP_STATIC_ROUNDING_def Let_def dynamic_mode)
qed

lemma raise_keeps:
  assumes "take_bit 5 which = which"
  shows "GET_FFLAGS (softfloat_raiseFlags which s) = GET_FFLAGS s OR which" "GET_FRM (softfloat_raiseFlags which s) = GET_FRM s"
    "softfloat_roundingMode (softfloat_raiseFlags which s) = softfloat_roundingMode s"
proof -
  have w: "bit which i \<Longrightarrow> i < 5" for i using assms by (metis bit_take_bit_iff)
  show "GET_FFLAGS (softfloat_raiseFlags which s) = GET_FFLAGS s OR which" "GET_FRM (softfloat_raiseFlags which s) = GET_FRM s"
    by (rule bit_word_eqI; auto simp: GET_FFLAGS_def GET_FRM_def GET_FCSR_def softfloat_raiseFlags_def control_masks bit_simps dest: w)+
  show "softfloat_roundingMode (softfloat_raiseFlags which s) = softfloat_roundingMode s"
    by (rule bit_word_eqI) (auto simp: softfloat_roundingMode_def softfloat_raiseFlags_def bit_simps min_def dest: w)
qed

lemma set_frm:
  assumes "take_bit 3 v = v"
  shows "GET_FRM (SET_FRM v s) = v" "GET_FFLAGS (SET_FRM v s) = GET_FFLAGS s"
    "GET_FFLAGS (SET_FFLAGS x s) = take_bit 5 x" "GET_FRM (SET_FFLAGS x s) = GET_FRM s"
proof -
  have w: "bit v i \<Longrightarrow> i < 3" for i using assms by (metis bit_take_bit_iff)
  show "GET_FRM (SET_FRM v s) = v" "GET_FFLAGS (SET_FRM v s) = GET_FFLAGS s"
    "GET_FFLAGS (SET_FFLAGS x s) = take_bit 5 x" "GET_FRM (SET_FFLAGS x s) = GET_FRM s"
    by (rule bit_word_eqI; auto simp: SET_FRM_def SET_FFLAGS_def SET_FCSR_def SET_FS_DIRTY_def GET_FFLAGS_def GET_FRM_def
        GET_FCSR_def control_masks bit_simps dest: w)+
qed

section \<open>The properties\<close>

text \<open>The field macros of internals.h take a number of each format apart and put it
  together again: packing the sign, exponent and fraction read from a word gives the word, and
  reading the fields of a packed word gives back fields of the format's widths. A half precision or
  extended precision word stands in a 32-bit variable, of which the macros read the low 16 bits.\<close>

lemma float_fields_roundtrip:
  "packToF16UI (signF16UI a) (expF16UI a) (fracF16UI a) = take_bit 16 a \<and>
   packToF32UI (signF32UI a) (expF32UI a) (fracF32UI a) = a \<and>
   packToF64UI (signF64UI b) (expF64UI b) (fracF64UI b) = b \<and>
   packToExtF80UI64 (signExtF80UI64 a) (expExtF80UI64 a) = take_bit 16 a \<and>
   packToF128UI64 (signF128UI64 b) (expF128UI64 b) (fracF128UI64 b) = b \<and>
   packToF128UI96 (signF128UI96 a) (expF128UI96 a) (fracF128UI96 a) = a \<and>
   (let p = packToF16UI s (take_bit 5 e) (take_bit 10 f) in
     signF16UI p = s \<and> expF16UI p = take_bit 5 e \<and> fracF16UI p = take_bit 10 f) \<and>
   (let p = packToF32UI s (take_bit 8 e) (take_bit 23 f) in
     signF32UI p = s \<and> expF32UI p = take_bit 8 e \<and> fracF32UI p = take_bit 23 f) \<and>
   (let p = packToF64UI s (take_bit 11 e) (take_bit 52 g) in
     signF64UI p = s \<and> expF64UI p = take_bit 11 e \<and> fracF64UI p = take_bit 52 g) \<and>
   (let p = packToExtF80UI64 s (take_bit 15 e) in signExtF80UI64 p = s \<and> expExtF80UI64 p = take_bit 15 e) \<and>
   (let p = packToF128UI64 s (take_bit 15 e) (take_bit 48 g) in
     signF128UI64 p = s \<and> expF128UI64 p = take_bit 15 e \<and> fracF128UI64 p = take_bit 48 g) \<and>
   (let p = packToF128UI96 s (take_bit 15 e) (take_bit 16 f) in
     signF128UI96 p = s \<and> expF128UI96 p = take_bit 15 e \<and> fracF128UI96 p = take_bit 16 f)"
  unfolding Let_def
  by (intro conjI f16_fields f32_fields f64_fields ext80_fields f128_fields f128_word_fields)

text \<open>Property (C39): the conversions of a NaN to the common format, on every NaN of the five formats and
  of the 80-bit format as a struct, set the invalid flag for a signalling NaN and leave the state
  alone for a quiet one; the NaN that the common format converts back to is a quiet NaN in each of
  them, and the array version writes the words of the 128-bit one. The version that reads a 128-bit
  number from an array of four words tests a bit beyond the word's 32 and sets the flag for every NaN.\<close>

theorem nan_conversion_flags:
  "(isNaNF16UI a \<longrightarrow> f16UIToCommonNaN a s = (if isSigNaNF16UI a then softfloat_raiseFlags 16 s else s)) \<and>
   (isNaNF32UI a \<longrightarrow> f32UIToCommonNaN a s = (if isSigNaNF32UI a then softfloat_raiseFlags 16 s else s)) \<and>
   (isNaNF64UI b \<longrightarrow> f64UIToCommonNaN b s = (if isSigNaNF64UI b then softfloat_raiseFlags 16 s else s)) \<and>
   (isNaNExtF80UI a c \<longrightarrow> extF80UIToCommonNaN a c s = (if isSigNaNExtF80UI a c then softfloat_raiseFlags 16 s else s)) \<and>
   (isNaNExtF80UI (ucast (signExp x)) (signif x) \<longrightarrow> extF80MToCommonNaN x s =
      (if isSigNaNExtF80UI (ucast (signExp x)) (signif x) then softfloat_raiseFlags 16 s else s)) \<and>
   (isNaNF128UI b c \<longrightarrow> f128UIToCommonNaN b c s = (if isSigNaNF128UI b c then softfloat_raiseFlags 16 s else s)) \<and>
   (length ws = 4 \<longrightarrow> f128MToCommonNaN ws s = Some (softfloat_raiseFlags 16 s)) \<and>
   isNaNF16UI commonNaNToF16UI \<and> \<not> isSigNaNF16UI commonNaNToF16UI \<and>
   isNaNF32UI commonNaNToF32UI \<and> \<not> isSigNaNF32UI commonNaNToF32UI \<and>
   isNaNF64UI commonNaNToF64UI \<and> \<not> isSigNaNF64UI commonNaNToF64UI \<and>
   isNaNExtF80UI (ucast (v64 commonNaNToExtF80UI)) (v0 commonNaNToExtF80UI) \<and>
   \<not> isSigNaNExtF80UI (ucast (v64 commonNaNToExtF80UI)) (v0 commonNaNToExtF80UI) \<and>
   isNaNExtF80UI (ucast (signExp commonNaNToExtF80M)) (signif commonNaNToExtF80M) \<and>
   \<not> isSigNaNExtF80UI (ucast (signExp commonNaNToExtF80M)) (signif commonNaNToExtF80M) \<and>
   isNaNF128UI (v64 commonNaNToF128UI) (v0 commonNaNToF128UI) \<and>
   \<not> isSigNaNF128UI (v64 commonNaNToF128UI) (v0 commonNaNToF128UI) \<and>
   (length ws = 4 \<longrightarrow> commonNaNToF128M ws = Some (words_of_128 commonNaNToF128UI))"
  using default_nans by (simp add: common_nan ext80_sig_nan ext80M_common_nan f128M_raises default_nan_words)

text \<open>Witness: a signalling and a quiet single precision NaN, and a quiet 128-bit one in an array.\<close>

theorem nan_conversion_flags_witness:
  "f32UIToCommonNaN 0x7F800001 \<lparr>tp = 1, fp_mstatus = 0\<rparr> = \<lparr>tp = 17, fp_mstatus = 0\<rparr> \<and>
   f32UIToCommonNaN 0x7FC00001 \<lparr>tp = 1, fp_mstatus = 0\<rparr> = \<lparr>tp = 1, fp_mstatus = 0\<rparr> \<and>
   f128MToCommonNaN [0, 0, 0, 0x7FFF8000] \<lparr>tp = 1, fp_mstatus = 0\<rparr> = Some \<lparr>tp = 17, fp_mstatus = 0\<rparr>"
proof -
  have "isNaNF32UI 0x7F800001" "isSigNaNF32UI 0x7F800001" "isNaNF32UI 0x7FC00001" "\<not> isSigNaNF32UI 0x7FC00001"
    "softfloat_raiseFlags 16 \<lparr>tp = 1, fp_mstatus = 0\<rparr> = \<lparr>tp = 17, fp_mstatus = 0\<rparr>"
    by code_simp+
  then show ?thesis using nan_conversion_flags [where a = "0x7F800001" and s = "\<lparr>tp = 1, fp_mstatus = 0\<rparr>" and ws = "[0, 0, 0, 0x7FFF8000]"]
      nan_conversion_flags [where a = "0x7FC00001" and s = "\<lparr>tp = 1, fp_mstatus = 0\<rparr>"]
    by simp
qed

text \<open>Setting up the rounding mode of an emulated instruction refuses exactly the
  reserved modes 5 and 6, otherwise makes the library round in the mode the instruction names, or in
  the one of the control register when it names the dynamic mode 7, and leaves the control register
  alone; raising exception flags afterwards accumulates them and changes neither the rounding mode of
  the register nor the one in force.\<close>

lemma static_rounding:
  "case SETUP_STATIC_ROUNDING insn s of
     None \<Rightarrow> GET_RM insn \<in> {5, 6}
   | Some s' \<Rightarrow>
       GET_RM insn \<notin> {5, 6} \<and>
       softfloat_roundingMode s' = ucast (if GET_RM insn = 7 then GET_FRM s else GET_RM insn) \<and>
       GET_FCSR s' = GET_FCSR s \<and>
       (let r = softfloat_raiseFlags (take_bit 5 w) s' in
         GET_FFLAGS r = GET_FFLAGS s OR take_bit 5 w \<and> GET_FRM r = GET_FRM s \<and>
         softfloat_roundingMode r = softfloat_roundingMode s')"
proof (cases "SETUP_STATIC_ROUNDING insn s")
  case None
  then show ?thesis using setup_illegal [of insn s] by simp
next
  case (Some s')
  have "GET_RM insn \<notin> {5, 6}" using Some setup_illegal [of insn s] by auto
  moreover have "GET_FFLAGS s' = GET_FFLAGS s" "GET_FRM s' = GET_FRM s"
    using setup_rounding(2) [OF Some] by (simp_all add: GET_FFLAGS_def GET_FRM_def)
  ultimately show ?thesis
    using Some setup_rounding [OF Some] raise_keeps [of "take_bit 5 w" s', OF take_take] by (simp add: Let_def)
qed

end
