(* ===== verification/Fp_Control.thy ===== *)
theory Fp_Control
  imports Float_Format
begin

text \<open>
  The two ways \<^verbatim>\<open>fp_emulation.h\<close> keeps the floating point control register: in the register itself,
  with the rounding mode in force in \<^verbatim>\<open>tp\<close>, on a machine with floating point registers
  (\<^verbatim>\<open>__riscv_flen\<close>, suffix \<open>_flen\<close> here), and in \<^verbatim>\<open>tp\<close> altogether on a machine without them
  (Float_Format). The locale \<open>fp_control\<close> is what SoftFloat and the emulation rely on; both are
  instances, so any sequence of operations shows the same flags, modes and refusals with both.
\<close>

section \<open>The control register of the machine\<close>

text \<open>\<^verbatim>\<open>fcsr\<close> has the flags in bits 0 to 4 and the rounding mode in bits 5 to 7; other bits read as zero.\<close>

record fp_csrs =
  fcsr :: u64
  rounding_tp :: u64

definition GET_FCSR_flen :: "fp_csrs \<Rightarrow> u64" where "GET_FCSR_flen h = fcsr h AND 0xFF"
definition SET_FCSR_flen :: "u64 \<Rightarrow> fp_csrs \<Rightarrow> fp_csrs" where
  "SET_FCSR_flen val h = h\<lparr>fcsr := val AND 0xFF\<rparr>"
definition GET_FRM_flen :: "fp_csrs \<Rightarrow> u64" where "GET_FRM_flen h = drop_bit 5 (fcsr h) AND 7"
definition SET_FRM_flen :: "u64 \<Rightarrow> fp_csrs \<Rightarrow> fp_csrs" where
  "SET_FRM_flen val h = h\<lparr>fcsr := (fcsr h AND 0x1F) OR push_bit 5 (val AND 7)\<rparr>"
definition GET_FFLAGS_flen :: "fp_csrs \<Rightarrow> u64" where "GET_FFLAGS_flen h = fcsr h AND 0x1F"
definition SET_FFLAGS_flen :: "u64 \<Rightarrow> fp_csrs \<Rightarrow> fp_csrs" where
  "SET_FFLAGS_flen val h = h\<lparr>fcsr := (fcsr h AND 0xE0) OR (val AND 0x1F)\<rparr>"

definition SETUP_STATIC_ROUNDING_flen :: "u64 \<Rightarrow> fp_csrs \<Rightarrow> fp_csrs option" where
  "SETUP_STATIC_ROUNDING_flen insn h =
     (let h = h\<lparr>rounding_tp := GET_FRM_flen h\<rparr> in
      if insn AND MASK_FUNCT3 = MASK_FUNCT3 then Some h
      else if GET_RM insn > 4 then None
      else Some (h\<lparr>rounding_tp := GET_RM insn\<rparr>))"

definition softfloat_raiseFlags_flen :: "u64 \<Rightarrow> fp_csrs \<Rightarrow> fp_csrs" where
  "softfloat_raiseFlags_flen which h = h\<lparr>fcsr := fcsr h OR (which AND 0x1F)\<rparr>"

definition softfloat_roundingMode_flen :: "fp_csrs \<Rightarrow> u32" where
  "softfloat_roundingMode_flen h = ucast (rounding_tp h)"

section \<open>The contract\<close>

text \<open>
  The specification: the mode of the register, the flags, and the mode in force, which is known from
  the set-up of an instruction to the next write of the register.
\<close>

datatype fp_op = SetFrm u64 | SetFlags u64 | SetFcsr u64 | Raise u64 | Setup u64

record fp_spec =
  spec_frm :: u64
  spec_flags :: u64
  spec_mode :: "u32 option"

fun spec_op :: "fp_op \<Rightarrow> fp_spec \<Rightarrow> fp_spec option" where
  "spec_op (SetFrm v) a = Some (a\<lparr>spec_frm := take_bit 3 v, spec_mode := None\<rparr>)"
| "spec_op (SetFlags v) a = Some (a\<lparr>spec_flags := take_bit 5 v, spec_mode := None\<rparr>)"
| "spec_op (SetFcsr v) a = Some (a\<lparr>spec_frm := take_bit 3 (drop_bit 5 v), spec_flags := take_bit 5 v, spec_mode := None\<rparr>)"
| "spec_op (Raise w) a = Some (a\<lparr>spec_flags := spec_flags a OR w\<rparr>)"
| "spec_op (Setup insn) a =
     (if GET_RM insn \<in> {5, 6} then None
      else Some (a\<lparr>spec_mode := Some (ucast (if GET_RM insn = 7 then spec_frm a else GET_RM insn))\<rparr>))"

text \<open>The flags an operation raises are among the five.\<close>

fun legal_op :: "fp_op \<Rightarrow> bool" where
  "legal_op (Raise w) \<longleftrightarrow> take_bit 5 w = w"
| "legal_op _ \<longleftrightarrow> True"

locale fp_control =
  fixes op :: "fp_op \<Rightarrow> 's \<Rightarrow> 's option"
    and frm :: "'s \<Rightarrow> u64"
    and flags :: "'s \<Rightarrow> u64"
    and mode :: "'s \<Rightarrow> u32"
  assumes refused_law: "op e s = None \<longleftrightarrow> (\<exists>insn. e = Setup insn \<and> GET_RM insn \<in> {5, 6})"
    and frm_law: "legal_op e \<Longrightarrow> op e s = Some s' \<Longrightarrow> frm s' =
      (case e of SetFrm v \<Rightarrow> take_bit 3 v | SetFcsr v \<Rightarrow> take_bit 3 (drop_bit 5 v) | _ \<Rightarrow> frm s)"
    and flags_law: "legal_op e \<Longrightarrow> op e s = Some s' \<Longrightarrow> flags s' =
      (case e of SetFlags v \<Rightarrow> take_bit 5 v | SetFcsr v \<Rightarrow> take_bit 5 v | Raise w \<Rightarrow> flags s OR w | _ \<Rightarrow> flags s)"
    and setup_law: "op (Setup insn) s = Some s' \<Longrightarrow> mode s' = ucast (if GET_RM insn = 7 then frm s else GET_RM insn)"
    and raise_law: "take_bit 5 w = w \<Longrightarrow> op (Raise w) s = Some s' \<Longrightarrow> mode s' = mode s"
begin

definition shows_spec :: "fp_spec \<Rightarrow> 's \<Rightarrow> bool" where
  "shows_spec a s \<longleftrightarrow> spec_frm a = frm s \<and> spec_flags a = flags s \<and> (\<forall>k. spec_mode a = Some k \<longrightarrow> mode s = k)"

lemma op_simulates:
  assumes "shows_spec a s" "legal_op e"
  shows "case spec_op e a of None \<Rightarrow> op e s = None | Some a' \<Rightarrow> \<exists>s'. op e s = Some s' \<and> shows_spec a' s'"
proof (cases "op e s")
  case None
  then show ?thesis using refused_law [of e s] by auto
next
  case (Some s')
  note laws = frm_law [OF assms(2) Some] flags_law [OF assms(2) Some]
  have "\<not> (\<exists>insn. e = Setup insn \<and> GET_RM insn \<in> {5, 6})" using refused_law [of e s] Some by simp
  then show ?thesis
    using assms Some laws setup_law [of _ s s'] raise_law [of _ s s']
    by (cases e) (auto simp: shows_spec_def)
qed

end

fun run_fp :: "(fp_op \<Rightarrow> 's \<Rightarrow> 's option) \<Rightarrow> fp_op list \<Rightarrow> 's \<Rightarrow> 's option" where
  "run_fp f [] s = Some s"
| "run_fp f (e # es) s = Option.bind (f e s) (run_fp f es)"

context fp_control
begin

lemma run_simulates:
  "shows_spec a s \<Longrightarrow> \<forall>e \<in> set es. legal_op e \<Longrightarrow>
   case run_fp spec_op es a of None \<Rightarrow> run_fp op es s = None | Some a' \<Rightarrow> \<exists>s'. run_fp op es s = Some s' \<and> shows_spec a' s'"
proof (induction es arbitrary: a s)
  case Nil
  then show ?case by simp
next
  case (Cons e es)
  have e: "legal_op e" "\<forall>e \<in> set es. legal_op e" using Cons.prems(2) by simp_all
  note step = op_simulates [OF Cons.prems(1) e(1)]
  show ?case
  proof (cases "spec_op e a")
    case None
    then show ?thesis using step by simp
  next
    case (Some a1)
    then obtain s1 where s1: "op e s = Some s1" "shows_spec a1 s1" using step by auto
    have eq: "run_fp op (e # es) s = run_fp op es s1" "run_fp spec_op (e # es) a = run_fp spec_op es a1"
      using s1(1) Some by simp_all
    show ?thesis unfolding eq by (rule Cons.IH [OF s1(2) e(2)])
  qed
qed

end

section \<open>Both machines keep it\<close>

fun emulated_op :: "fp_op \<Rightarrow> fp_state \<Rightarrow> fp_state option" where
  "emulated_op (SetFrm v) s = Some (SET_FRM v s)"
| "emulated_op (SetFlags v) s = Some (SET_FFLAGS v s)"
| "emulated_op (SetFcsr v) s = Some (SET_FCSR v s)"
| "emulated_op (Raise w) s = Some (softfloat_raiseFlags w s)"
| "emulated_op (Setup insn) s = SETUP_STATIC_ROUNDING insn s"

fun flen_op :: "fp_op \<Rightarrow> fp_csrs \<Rightarrow> fp_csrs option" where
  "flen_op (SetFrm v) s = Some (SET_FRM_flen v s)"
| "flen_op (SetFlags v) s = Some (SET_FFLAGS_flen v s)"
| "flen_op (SetFcsr v) s = Some (SET_FCSR_flen v s)"
| "flen_op (Raise w) s = Some (softfloat_raiseFlags_flen w s)"
| "flen_op (Setup insn) s = SETUP_STATIC_ROUNDING_flen insn s"

lemma dynamic_or: "GET_RM insn = 7 \<Longrightarrow> 4 < GET_RM insn" "\<not> 4 < GET_RM insn \<Longrightarrow> GET_RM insn \<notin> {5, 6, 7}"
  by auto

lemma setup_flen:
  "SETUP_STATIC_ROUNDING_flen insn h =
     (if GET_RM insn \<in> {5, 6} then None
      else Some (h\<lparr>rounding_tp := if GET_RM insn = 7 then GET_FRM_flen h else GET_RM insn\<rparr>))"
proof -
  have "GET_RM insn \<in> {5, 6} \<longleftrightarrow> GET_RM insn \<noteq> 7 \<and> 4 < GET_RM insn"
    using setup_illegal [of insn s0] unfolding SETUP_STATIC_ROUNDING_def Let_def dynamic_mode by (auto split: if_splits)
  then show ?thesis by (auto simp: SETUP_STATIC_ROUNDING_flen_def dynamic_mode Let_def)
qed

interpretation emulated: fp_control emulated_op GET_FRM GET_FFLAGS softfloat_roundingMode
proof unfold_locales
  fix e s
  show "emulated_op e s = None \<longleftrightarrow> (\<exists>insn. e = Setup insn \<and> GET_RM insn \<in> {5, 6})"
    by (cases e) (auto simp: setup_illegal)
next
  fix e s s'
  assume l: "legal_op e" and s': "emulated_op e s = Some s'"
  have w: "SET_FRM v s = SET_FRM (take_bit 3 v) s" for v
  proof -
    have "(GET_FFLAGS s OR push_bit 5 v) AND 0xFF = (GET_FFLAGS s OR push_bit 5 (take_bit 3 v)) AND 0xFF"
      by (rule bit_word_eqI) (auto simp: control_masks bit_simps)
    then show ?thesis by (simp add: SET_FRM_def SET_FCSR_def)
  qed
  have frm: "GET_FRM (SET_FRM (take_bit 3 v) s) = take_bit 3 v" "GET_FFLAGS (SET_FRM (take_bit 3 v) s) = GET_FFLAGS s"
    "GET_FFLAGS (SET_FFLAGS x s) = take_bit 5 x" "GET_FRM (SET_FFLAGS x s) = GET_FRM s" for v x
    using set_frm(1,2) [where v = "take_bit 3 v" and s = s] set_frm(3,4) [where v = "take_bit 3 v" and x = x and s = s]
    by simp_all
  have c: "GET_FRM (SET_FCSR v s) = take_bit 3 (drop_bit 5 v)" "GET_FFLAGS (SET_FCSR v s) = take_bit 5 v" for v
    by (rule bit_word_eqI; auto simp: GET_FRM_def GET_FFLAGS_def GET_FCSR_def SET_FCSR_def SET_FS_DIRTY_def control_masks bit_simps)+
  have st: "GET_FRM s' = GET_FRM s" "GET_FFLAGS s' = GET_FFLAGS s" if "SETUP_STATIC_ROUNDING insn s = Some s'" for insn
    using setup_rounding(2) [OF that] by (simp_all add: GET_FRM_def GET_FFLAGS_def)
  show "GET_FRM s' = (case e of SetFrm v \<Rightarrow> take_bit 3 v | SetFcsr v \<Rightarrow> take_bit 3 (drop_bit 5 v) | _ \<Rightarrow> GET_FRM s)"
    using l s' frm(1,4) c(1) st(1) raise_keeps(2) w by (cases e) auto
  show "GET_FFLAGS s' = (case e of SetFlags v \<Rightarrow> take_bit 5 v | SetFcsr v \<Rightarrow> take_bit 5 v
      | Raise w \<Rightarrow> GET_FFLAGS s OR w | _ \<Rightarrow> GET_FFLAGS s)"
    using l s' frm(2,3) c(2) st(2) raise_keeps(1) w by (cases e) auto
next
  fix insn s s'
  assume "emulated_op (Setup insn) s = Some s'"
  then show "softfloat_roundingMode s' = ucast (if GET_RM insn = 7 then GET_FRM s else GET_RM insn)"
    using setup_rounding(1) by simp
next
  fix w s s'
  assume "take_bit 5 w = w" "emulated_op (Raise w) s = Some s'"
  then show "softfloat_roundingMode s' = softfloat_roundingMode s" using raise_keeps(3) by auto
qed

lemmas flen_defs = SET_FRM_flen_def SET_FFLAGS_flen_def SET_FCSR_flen_def softfloat_raiseFlags_flen_def
  GET_FRM_flen_def GET_FFLAGS_flen_def softfloat_roundingMode_flen_def

lemma flag_mask: "x AND 0xE0 = push_bit 5 (take_bit 3 (drop_bit 5 x))" for x :: u64
proof -
  have e: "(0xE0 :: u64) = push_bit 5 (mask 3)" by (simp add: mask_eq_exp_minus_1)
  show ?thesis unfolding e by (rule bit_word_eqI) (auto simp: bit_simps)
qed

interpretation flen: fp_control flen_op GET_FRM_flen GET_FFLAGS_flen softfloat_roundingMode_flen
proof unfold_locales
  fix e s
  show "flen_op e s = None \<longleftrightarrow> (\<exists>insn. e = Setup insn \<and> GET_RM insn \<in> {5, 6})"
    by (cases e) (auto simp: setup_flen)
next
  fix e s s'
  assume l: "legal_op e" and s': "flen_op e s = Some s'"
  have bits: "take_bit 5 w = w \<Longrightarrow> bit w i \<Longrightarrow> i < 5" for w :: u64 and i by (metis bit_take_bit_iff)
  show "GET_FRM_flen s' = (case e of SetFrm v \<Rightarrow> take_bit 3 v | SetFcsr v \<Rightarrow> take_bit 3 (drop_bit 5 v) | _ \<Rightarrow> GET_FRM_flen s)"
    using l s' by (cases e)
      (auto simp: flen_defs setup_flen control_masks flag_mask bit_simps split: if_splits intro!: bit_word_eqI dest: bits)
  show "GET_FFLAGS_flen s' = (case e of SetFlags v \<Rightarrow> take_bit 5 v | SetFcsr v \<Rightarrow> take_bit 5 v
      | Raise w \<Rightarrow> GET_FFLAGS_flen s OR w | _ \<Rightarrow> GET_FFLAGS_flen s)"
    using l s' by (cases e)
      (auto simp: flen_defs setup_flen control_masks flag_mask bit_simps split: if_splits intro!: bit_word_eqI dest: bits)
next
  fix insn s s'
  assume "flen_op (Setup insn) s = Some s'"
  then show "softfloat_roundingMode_flen s' = ucast (if GET_RM insn = 7 then GET_FRM_flen s else GET_RM insn)"
    by (auto simp: setup_flen softfloat_roundingMode_flen_def split: if_splits)
next
  fix w s s'
  assume "flen_op (Raise w) s = Some s'"
  then show "softfloat_roundingMode_flen s' = softfloat_roundingMode_flen s" by (auto simp: flen_defs)
qed

section \<open>They cannot be told apart\<close>

text \<open>
  Two machines whose registers show the same mode and flags run any sequence of legal operations with
  the same outcome: both refuse an instruction at the same point, or both end with the same mode and
  flags, and in the same rounding mode when the last write of the register came before the last set-up.
\<close>

definition spec_of :: "u64 \<Rightarrow> u64 \<Rightarrow> fp_spec" where
  "spec_of m f = \<lparr>spec_frm = m, spec_flags = f, spec_mode = None\<rparr>"

lemma fp_machines_agree:
  assumes "GET_FRM_flen h = GET_FRM s" "GET_FFLAGS_flen h = GET_FFLAGS s" "\<forall>e \<in> set es. legal_op e"
  shows "case run_fp spec_op es (spec_of (GET_FRM s) (GET_FFLAGS s)) of
      None \<Rightarrow> run_fp emulated_op es s = None \<and> run_fp flen_op es h = None
    | Some a \<Rightarrow> \<exists>s' h'. run_fp emulated_op es s = Some s' \<and> run_fp flen_op es h = Some h' \<and>
        GET_FRM_flen h' = GET_FRM s' \<and> GET_FFLAGS_flen h' = GET_FFLAGS s' \<and>
        (spec_mode a \<noteq> None \<longrightarrow> softfloat_roundingMode_flen h' = softfloat_roundingMode s')"
proof -
  let ?a = "spec_of (GET_FRM s) (GET_FFLAGS s)"
  have "emulated.shows_spec ?a s" "flen.shows_spec ?a h"
    using assms(1,2) by (simp_all add: emulated.shows_spec_def flen.shows_spec_def spec_of_def)
  from emulated.run_simulates [OF this(1) assms(3)] flen.run_simulates [OF this(2) assms(3)] show ?thesis
    by (cases "run_fp spec_op es ?a") (auto simp: emulated.shows_spec_def flen.shows_spec_def)
qed

lemma fp_machines_agree_witness:
  "\<exists>s' h'. run_fp emulated_op [SetFrm 3, Setup 0x7000, Raise 1] \<lparr>tp = 0, fp_mstatus = 0\<rparr> = Some s' \<and>
    run_fp flen_op [SetFrm 3, Setup 0x7000, Raise 1] \<lparr>fcsr = 0, rounding_tp = 9\<rparr> = Some h' \<and>
    softfloat_roundingMode_flen h' = softfloat_roundingMode s'"
proof -
  have z: "GET_FRM \<lparr>tp = 0, fp_mstatus = 0\<rparr> = 0" "GET_FFLAGS \<lparr>tp = 0, fp_mstatus = 0\<rparr> = 0"
    "GET_FRM_flen \<lparr>fcsr = 0, rounding_tp = 9\<rparr> = 0" "GET_FFLAGS_flen \<lparr>fcsr = 0, rounding_tp = 9\<rparr> = 0"
    by (simp_all add: GET_FRM_def GET_FFLAGS_def GET_FCSR_def GET_FRM_flen_def GET_FFLAGS_flen_def)
  have l: "\<forall>e \<in> set [SetFrm 3, Setup 0x7000, Raise 1]. legal_op e" by simp
  have m: "\<exists>a. run_fp spec_op [SetFrm 3, Setup 0x7000, Raise 1] (spec_of 0 0) = Some a \<and> spec_mode a \<noteq> None"
    by (simp add: spec_of_def GET_RM_def)
  from fp_machines_agree [of "\<lparr>fcsr = 0, rounding_tp = 9\<rparr>" "\<lparr>tp = 0, fp_mstatus = 0\<rparr>", OF _ _ l] m show ?thesis
    unfolding z by auto
qed

end
