(* ===== verification/Fp_Registers.thy ===== *)
theory Fp_Registers
  imports Float_Format
begin

text \<open>
  The floating point registers an emulated instruction names, on both kinds of machine
  \<^verbatim>\<open>fp_emulation.h\<close> supports. With hardware registers (suffix \<open>_flen\<close>) the macros compute an offset
  and enter the routines \<^verbatim>\<open>get_f32_reg\<close>, \<^verbatim>\<open>put_f32_reg\<close>, \<^verbatim>\<open>get_f64_reg\<close> and \<^verbatim>\<open>put_f64_reg\<close> of a
  prebuilt library at that distance; the routines are parameters here. Without them the registers
  are words of memory behind the integer registers (Float_Format). The locale \<open>fp_file\<close> is what the
  emulation needs of the accesses by offset, the words of memory are an instance.
\<close>

section \<open>The macros\<close>

definition fp_offset :: "u64 \<Rightarrow> nat \<Rightarrow> u64" where
  "fp_offset insn pos = SHIFT_RIGHT insn (int pos - 3) AND 0xf8"

definition GET_F32_REG_flen :: "(u64 \<Rightarrow> 's \<Rightarrow> u32) \<Rightarrow> u64 \<Rightarrow> nat \<Rightarrow> 's \<Rightarrow> u32" where
  "GET_F32_REG_flen get_f32_reg insn pos = get_f32_reg (fp_offset insn pos)"
definition SET_F32_REG_flen :: "(u64 \<Rightarrow> u32 \<Rightarrow> 's \<Rightarrow> 's) \<Rightarrow> u64 \<Rightarrow> nat \<Rightarrow> u32 \<Rightarrow> 's \<Rightarrow> 's" where
  "SET_F32_REG_flen put_f32_reg insn pos val = put_f32_reg (fp_offset insn pos) val"
definition init_fp_reg :: "(u64 \<Rightarrow> u32 \<Rightarrow> 's \<Rightarrow> 's) \<Rightarrow> u64 \<Rightarrow> 's \<Rightarrow> 's" where
  "init_fp_reg put_f32_reg i = SET_F32_REG_flen put_f32_reg (push_bit 3 i) 3 0"
definition GET_F64_REG_flen :: "(u64 \<Rightarrow> 's \<Rightarrow> u64) \<Rightarrow> u64 \<Rightarrow> nat \<Rightarrow> 's \<Rightarrow> u64" where
  "GET_F64_REG_flen get_f64_reg insn pos = get_f64_reg (fp_offset insn pos)"
definition SET_F64_REG_flen :: "(u64 \<Rightarrow> u64 \<Rightarrow> 's \<Rightarrow> 's) \<Rightarrow> u64 \<Rightarrow> nat \<Rightarrow> u64 \<Rightarrow> 's \<Rightarrow> 's" where
  "SET_F64_REG_flen put_f64_reg insn pos val = put_f64_reg (fp_offset insn pos) val"

section \<open>The register an instruction names\<close>

text \<open>The number in the five bits from \<open>pos\<close> on; the offset is eight times that.\<close>

definition fp_reg :: "u64 \<Rightarrow> nat \<Rightarrow> u64" where
  "fp_reg insn pos = take_bit 5 (drop_bit pos insn)"

lemma fp_offset_reg: "fp_offset insn pos = 8 * fp_reg insn pos"
  using GET_REG_eq [of insn pos 0] by (simp add: GET_REG_def fp_offset_def fp_reg_def LOG_REGBYTES_def Let_def)

lemma fp_reg_bound: "unat (fp_reg insn pos) < 32"
  using take_bit_nat_less_exp [of 5 "unat (drop_bit pos insn)"] by (simp add: fp_reg_def unsigned_take_bit_eq)

lemma F64_REG_offset: "F64_REG insn pos regs = regs + 32 * REGBYTES + 8 * fp_reg insn pos"
  unfolding F64_REG_def fp_offset_reg [symmetric] fp_offset_def ..

lemma init_reg: "unat i < 32 \<Longrightarrow> fp_reg (push_bit 3 i) 3 = i"
proof -
  assume "unat i < 32"
  then have "take_bit 5 i = i" "take_bit 61 i = i"
    by (simp_all add: word_unat_eq_iff unsigned_take_bit_eq take_bit_nat_eq_self_iff)
  moreover have "drop_bit 3 (push_bit 3 i) = take_bit 61 i"
    by (rule bit_word_eqI) (auto simp: bit_simps)
  ultimately show ?thesis by (simp add: fp_reg_def)
qed

section \<open>The contract\<close>

locale fp_file =
  fixes get32 :: "u64 \<Rightarrow> 's \<Rightarrow> u32"
    and put32 :: "u64 \<Rightarrow> u32 \<Rightarrow> 's \<Rightarrow> 's"
    and get64 :: "u64 \<Rightarrow> 's \<Rightarrow> u64"
    and put64 :: "u64 \<Rightarrow> u64 \<Rightarrow> 's \<Rightarrow> 's"
  assumes get64_put64: "unat i < 32 \<Longrightarrow> unat j < 32 \<Longrightarrow> get64 (8 * i) (put64 (8 * j) v s) = (if i = j then v else get64 (8 * i) s)"
    and get32_put32: "unat i < 32 \<Longrightarrow> unat j < 32 \<Longrightarrow> get32 (8 * i) (put32 (8 * j) w s) = (if i = j then w else get32 (8 * i) s)"
    and get32_put64: "unat i < 32 \<Longrightarrow> unat j < 32 \<Longrightarrow> get32 (8 * i) (put64 (8 * j) v s) = (if i = j then ucast v else get32 (8 * i) s)"
    and get64_put32: "unat i < 32 \<Longrightarrow> unat j < 32 \<Longrightarrow> i \<noteq> j \<Longrightarrow> get64 (8 * i) (put32 (8 * j) w s) = get64 (8 * i) s"
begin

text \<open>Operands and results of instructions follow the numbers of the registers.\<close>

lemma operand_after_result:
  "GET_F64_REG_flen get64 insn pos (SET_F64_REG_flen put64 insn' pos' v s) =
     (if fp_reg insn pos = fp_reg insn' pos' then v else GET_F64_REG_flen get64 insn pos s)"
  "GET_F32_REG_flen get32 insn pos (SET_F32_REG_flen put32 insn' pos' w s) =
     (if fp_reg insn pos = fp_reg insn' pos' then w else GET_F32_REG_flen get32 insn pos s)"
  "GET_F32_REG_flen get32 insn pos (SET_F64_REG_flen put64 insn' pos' v s) =
     (if fp_reg insn pos = fp_reg insn' pos' then ucast v else GET_F32_REG_flen get32 insn pos s)"
  "fp_reg insn pos \<noteq> fp_reg insn' pos' \<Longrightarrow>
     GET_F64_REG_flen get64 insn pos (SET_F32_REG_flen put32 insn' pos' w s) = GET_F64_REG_flen get64 insn pos s"
  by (simp_all add: GET_F64_REG_flen_def SET_F64_REG_flen_def GET_F32_REG_flen_def SET_F32_REG_flen_def
      fp_offset_reg fp_reg_bound get64_put64 get32_put32 get32_put64 get64_put32)

text \<open>Initialising registers in any order leaves zero in each of them, and in no other.\<close>

lemma init_file:
  assumes "\<forall>i \<in> set is. unat i < 32" "unat r < 32"
  shows "get32 (8 * r) (fold (init_fp_reg put32) is s) = (if r \<in> set is then 0 else get32 (8 * r) s)"
  using assms
proof (induction "is" arbitrary: s)
  case Nil
  then show ?case by simp
next
  case (Cons i js)
  have i: "unat i < 32" "\<forall>i \<in> set js. unat i < 32" using Cons.prems(1) by simp_all
  have "init_fp_reg put32 i s = put32 (8 * i) 0 s"
    by (simp add: init_fp_reg_def SET_F32_REG_flen_def fp_offset_reg init_reg [OF i(1)])
  then show ?case
    using Cons.IH [OF i(2) Cons.prems(2)] get32_put32 [OF Cons.prems(2) i(1), of 0 s] by auto
qed

end

section \<open>The registers in memory\<close>

definition saved_get64 :: "addr \<Rightarrow> u64 \<Rightarrow> (addr \<Rightarrow> u64) \<Rightarrow> u64" where
  "saved_get64 regs off m = m (regs + 32 * REGBYTES + off)"
definition saved_put64 :: "addr \<Rightarrow> u64 \<Rightarrow> u64 \<Rightarrow> (addr \<Rightarrow> u64) \<Rightarrow> addr \<Rightarrow> u64" where
  "saved_put64 regs off v m = m(regs + 32 * REGBYTES + off := v)"
definition saved_get32 :: "addr \<Rightarrow> u64 \<Rightarrow> (addr \<Rightarrow> u64) \<Rightarrow> u32" where
  "saved_get32 regs off m = ucast (saved_get64 regs off m)"
definition saved_put32 :: "addr \<Rightarrow> u64 \<Rightarrow> u32 \<Rightarrow> (addr \<Rightarrow> u64) \<Rightarrow> addr \<Rightarrow> u64" where
  "saved_put32 regs off w m = saved_put64 regs off (push_bit 32 (drop_bit 32 (saved_get64 regs off m)) OR ucast w) m"

lemma offset_inj:
  fixes i j :: u64
  assumes "unat i < 32" "unat j < 32"
  shows "8 * i = 8 * j \<longleftrightarrow> i = j"
proof
  assume "8 * i = 8 * j"
  moreover have "unat (8 * x) = 8 * unat x" if "unat x < 32" for x :: u64
    using that by (simp add: unat_word_ariths)
  ultimately show "i = j" using assms by (metis mult_cancel1 numeral_eq_iff word_unat_eq_iff zero_neq_numeral)
qed simp

lemma low_half: "ucast (push_bit 32 (drop_bit 32 x) OR ucast w) = w" for x :: u64 and w :: u32
  by (rule bit_word_eqI) (auto simp: bit_simps)

interpretation saved: fp_file "saved_get32 regs" "saved_put32 regs" "saved_get64 regs" "saved_put64 regs" for regs
  by unfold_locales
    (auto simp: saved_get32_def saved_put32_def saved_get64_def saved_put64_def offset_inj low_half)

text \<open>The macros without hardware registers are the same accesses.\<close>

lemma saved_macros:
  "GET_F64_REG_flen (saved_get64 regs) insn pos m = GET_F64_REG insn pos regs m"
  "SET_F64_REG_flen (saved_put64 regs) insn pos v m = SET_F64_REG insn pos regs v m"
  "GET_F32_REG_flen (saved_get32 regs) insn pos m = GET_F32_REG insn pos regs m"
  "SET_F32_REG_flen (saved_put32 regs) insn pos w m = SET_F32_REG insn pos regs w m"
  by (simp_all add: GET_F64_REG_flen_def SET_F64_REG_flen_def GET_F32_REG_flen_def SET_F32_REG_flen_def
      GET_F64_REG_def SET_F64_REG_def GET_F32_REG_def SET_F32_REG_def saved_get32_def saved_put32_def
      saved_get64_def saved_put64_def fp_offset_reg F64_REG_offset Let_def)

lemma saved_operands:
  "GET_F64_REG insn pos regs (SET_F64_REG insn' pos' regs v m) =
     (if fp_reg insn pos = fp_reg insn' pos' then v else GET_F64_REG insn pos regs m)"
  "GET_F32_REG insn pos regs (SET_F32_REG insn' pos' regs w m) =
     (if fp_reg insn pos = fp_reg insn' pos' then w else GET_F32_REG insn pos regs m)"
  "GET_F32_REG insn pos regs (SET_F64_REG insn' pos' regs v m) =
     (if fp_reg insn pos = fp_reg insn' pos' then ucast v else GET_F32_REG insn pos regs m)"
  using saved.operand_after_result(1-3) [where regs = regs] unfolding saved_macros by simp_all

end
