(* ===== verification/Counter64.thy ===== *)
theory Counter64
  imports Prelude
begin

text \<open>
  Reading a 64-bit counter on a machine with 32-bit registers (\<^verbatim>\<open>rdtime64\<close>, \<^verbatim>\<open>rdcycle64\<close> and
  \<^verbatim>\<open>rdinstret64\<close> of \<^verbatim>\<open>pk.h\<close>): the counter runs while its halves are read one after the other, so
  the code reads the upper half twice and starts again when it has changed. A counter is a
  function from instants to values; each read of a register takes one instant. The loop is a
  partial function: a counter that changes its upper half during every turn keeps it running.
\<close>

record counters =
  time_at :: "nat \<Rightarrow> u64"
  cycle_at :: "nat \<Rightarrow> u64"
  instret_at :: "nat \<Rightarrow> u64"

text \<open>The two registers that show a counter.\<close>

definition upper_half :: "(nat \<Rightarrow> u64) \<Rightarrow> nat \<Rightarrow> u32" where
  "upper_half c t = ucast (drop_bit 32 (c t))"

definition lower_half :: "(nat \<Rightarrow> u64) \<Rightarrow> nat \<Rightarrow> u32" where
  "lower_half c t = ucast (c t)"

text \<open>The value and the instant at which the function returns.\<close>

partial_function (option) read_halves :: "(nat \<Rightarrow> u64) \<Rightarrow> nat \<Rightarrow> (u64 \<times> nat) option" where
  "read_halves c t =
     (let h1 = upper_half c t; lo = lower_half c (t + 1); h2 = upper_half c (t + 2) in
      if h1 \<noteq> h2 then read_halves c (t + 3)
      else Some (push_bit 32 (ucast h1) OR ucast lo, t + 3))"

definition rdtime64 :: "counters \<Rightarrow> nat \<Rightarrow> (u64 \<times> nat) option" where
  "rdtime64 s t = read_halves (time_at s) t"

definition rdcycle64 :: "counters \<Rightarrow> nat \<Rightarrow> (u64 \<times> nat) option" where
  "rdcycle64 s t = read_halves (cycle_at s) t"

definition rdinstret64 :: "counters \<Rightarrow> nat \<Rightarrow> (u64 \<times> nat) option" where
  "rdinstret64 s t = read_halves (instret_at s) t"

text \<open>With 64-bit registers each is one read.\<close>

definition rdtime :: "counters \<Rightarrow> nat \<Rightarrow> u64 \<times> nat" where "rdtime s t = (time_at s t, t + 1)"
definition rdcycle :: "counters \<Rightarrow> nat \<Rightarrow> u64 \<times> nat" where "rdcycle s t = (cycle_at s t, t + 1)"
definition rdinstret :: "counters \<Rightarrow> nat \<Rightarrow> u64 \<times> nat" where "rdinstret s t = (instret_at s t, t + 1)"

section \<open>The value read\<close>

lemma join_halves: "push_bit 32 (ucast (upper_half c t)) OR ucast (lower_half c t) = c t"
  by (rule bit_word_eqI) (auto simp: upper_half_def lower_half_def bit_simps)

text \<open>A counter that does not run backwards and needs more than five reads for \<open>2 ^ 32\<close> steps.\<close>

definition runs :: "(nat \<Rightarrow> u64) \<Rightarrow> bool" where
  "runs c \<longleftrightarrow> (\<forall>i j. i \<le> j \<longrightarrow> c i \<le> c j) \<and> (\<forall>i. unat (c (i + 5)) < unat (c i) + 2 ^ 32)"

lemma upper_eq: "upper_half c t = upper_half c t' \<longleftrightarrow> unat (c t) div 2 ^ 32 = unat (c t') div 2 ^ 32"
proof -
  have u: "unat (upper_half c t) = unat (c t) div 2 ^ 32" for t
  proof -
    have "unat (c t) div 2 ^ 32 < 2 ^ 32"
      using unat_less_2p64 [of "c t"] by (intro less_mult_imp_div_less) (simp del: unat_less_2p64)
    then show ?thesis
      unfolding upper_half_def unsigned_ucast_eq unat_drop_bit_eq by (simp add: drop_bit_eq_div take_bit_eq_mod)
  qed
  have "upper_half c t = upper_half c t' \<longleftrightarrow> unat (upper_half c t) = unat (upper_half c t')"
    by (simp only: word_unat_eq_iff)
  then show ?thesis by (simp only: u)
qed

lemma upper_between:
  assumes "runs c" "upper_half c t = upper_half c (t + 2)"
  shows "upper_half c (t + 1) = upper_half c t"
proof -
  have "c t \<le> c (t + 1)" "c (t + 1) \<le> c (t + 2)" using assms(1) by (auto simp: runs_def)
  then have "unat (c t) div 2 ^ 32 \<le> unat (c (t + 1)) div 2 ^ 32" "unat (c (t + 1)) div 2 ^ 32 \<le> unat (c (t + 2)) div 2 ^ 32"
    by (auto simp: word_le_nat_alt intro: div_le_mono)
  then show ?thesis using assms(2) unfolding upper_eq by linarith
qed

text \<open>When the first turn fails the second succeeds: the upper half changes once in six reads.\<close>

lemma second_turn:
  assumes "runs c" "upper_half c t \<noteq> upper_half c (t + 2)"
  shows "upper_half c (t + 3) = upper_half c (t + 5)"
proof -
  let ?q = "\<lambda>i. unat (c i) div 2 ^ 32"
  have le: "c t \<le> c (t + 2)" "c (t + 2) \<le> c (t + 3)" "c (t + 3) \<le> c (t + 5)" using assms(1) by (auto simp: runs_def)
  then have q: "?q t \<le> ?q (t + 2)" "?q (t + 2) \<le> ?q (t + 3)" "?q (t + 3) \<le> ?q (t + 5)"
    by (auto simp: word_le_nat_alt intro: div_le_mono)
  have "unat (c (t + 5)) \<le> unat (c t) + 2 ^ 32" using assms(1) by (simp add: runs_def less_imp_le)
  then have "?q (t + 5) \<le> (unat (c t) + 2 ^ 32) div 2 ^ 32" by (rule div_le_mono)
  also have "\<dots> = ?q t + 1" by simp
  finally have "?q (t + 5) \<le> ?q t + 1" .
  then show ?thesis using q assms(2) unfolding upper_eq by linarith
qed

text \<open>The loop returns after at most two turns with the value the counter had in the middle of the last.\<close>

lemma read_halves_exact:
  assumes "runs c"
  shows "\<exists>i t'. read_halves c t = Some (c i, t') \<and> t \<le> i \<and> i < t' \<and> t' \<le> t + 6"
proof (cases "upper_half c t = upper_half c (t + 2)")
  case True
  have "push_bit 32 (ucast (upper_half c t)) OR ucast (lower_half c (t + 1)) = c (t + 1)"
    using join_halves [of c "t + 1"] upper_between [OF assms True] by simp
  then have "read_halves c t = Some (c (t + 1), t + 3)"
    using True by (subst read_halves.simps) (simp only: Let_def simp_thms if_False)
  then show ?thesis by (intro exI [of _ "t + 1"] exI [of _ "t + 3"]) simp
next
  case False
  note e = second_turn [OF assms False]
  have i: "t + 3 + 1 = t + 4" "t + 3 + 2 = t + 5" "t + 3 + 3 = t + 6" by simp_all
  have "upper_half c (t + 4) = upper_half c (t + 3)"
    using upper_between [OF assms, of "t + 3"] e unfolding i by simp
  then have "push_bit 32 (ucast (upper_half c (t + 3))) OR ucast (lower_half c (t + 4)) = c (t + 4)"
    using join_halves [of c "t + 4"] by simp
  then have "read_halves c (t + 3) = Some (c (t + 4), t + 6)"
    using e by (subst read_halves.simps) (simp only: i Let_def simp_thms if_False)
  moreover have "read_halves c t = read_halves c (t + 3)"
    using False by (subst read_halves.simps) (simp only: Let_def simp_thms if_True)
  ultimately show ?thesis by (intro exI [of _ "t + 4"] exI [of _ "t + 6"]) simp
qed

text \<open>What \<^verbatim>\<open>rdtime64\<close>, \<^verbatim>\<open>rdcycle64\<close> and \<^verbatim>\<open>rdinstret64\<close> return is what one read of the whole counter
  gives at an instant of the call.\<close>

lemma counters_linearize:
  assumes "runs (time_at s)" "runs (cycle_at s)" "runs (instret_at s)"
  shows "\<exists>i t'. rdtime64 s t = Some (fst (rdtime s i), t') \<and> t \<le> i \<and> i < t' \<and> t' \<le> t + 6"
    "\<exists>i t'. rdcycle64 s t = Some (fst (rdcycle s i), t') \<and> t \<le> i \<and> i < t' \<and> t' \<le> t + 6"
    "\<exists>i t'. rdinstret64 s t = Some (fst (rdinstret s i), t') \<and> t \<le> i \<and> i < t' \<and> t' \<le> t + 6"
proof -
  have "\<exists>i t'. read_halves c t = Some (c i, t') \<and> t \<le> i \<and> i < t' \<and> t' \<le> t + 6" if "runs c" for c
    using read_halves_exact [OF that] .
  then show "\<exists>i t'. rdtime64 s t = Some (fst (rdtime s i), t') \<and> t \<le> i \<and> i < t' \<and> t' \<le> t + 6"
    "\<exists>i t'. rdcycle64 s t = Some (fst (rdcycle s i), t') \<and> t \<le> i \<and> i < t' \<and> t' \<le> t + 6"
    "\<exists>i t'. rdinstret64 s t = Some (fst (rdinstret s i), t') \<and> t \<le> i \<and> i < t' \<and> t' \<le> t + 6"
    using assms by (simp_all add: rdtime64_def rdcycle64_def rdinstret64_def rdtime_def rdcycle_def rdinstret_def)
qed

text \<open>Without the second read of the upper half the result would be wrong when the lower half overflows.\<close>

lemma one_pass_is_wrong:
  "\<exists>c. runs c \<and> push_bit 32 (ucast (upper_half c 0)) OR ucast (lower_half c 1) \<notin> range c"
proof -
  let ?c = "\<lambda>t. if t = 0 then 0xFFFFFFFF else 0x100000000 :: u64"
  have "runs ?c" by (auto simp: runs_def)
  moreover have "push_bit 32 (ucast (upper_half ?c 0)) OR ucast (lower_half ?c 1) = (0 :: u64)"
    by (simp add: upper_half_def lower_half_def)
  moreover have "(0 :: u64) \<notin> range ?c" by auto
  ultimately show ?thesis by (intro exI [of _ ?c]) (simp only: simp_thms)
qed

end
