(* ===== verification/Machine_Mode.thy ===== *)
theory Machine_Mode
  imports Riscv_Pk
begin

text \<open>
  The machine mode part of the proxy kernel headers: the stack of a hart with the hart's local
  storage at its top (\<^verbatim>\<open>mtrap.h\<close>), the questions to the \<^verbatim>\<open>misa\<close> register, and the file format
  structs of \<^verbatim>\<open>elf.h\<close>. A struct is the list of its fields, each with the size and the number of
  its elements; \<open>c_layout\<close> places them as the RISC-V C ABI does, every field at the next multiple of
  its element size. The flag \<open>flen\<close> stands for \<^verbatim>\<open>__riscv_flen\<close>, \<open>atomic\<close> for \<^verbatim>\<open>__riscv_atomic\<close>.
\<close>

section \<open>Structs\<close>

type_synonym field = "string \<times> nat \<times> nat"

definition c_aligned :: "nat \<Rightarrow> nat \<Rightarrow> nat" where
  "c_aligned w off = (off + w - 1) div w * w"

fun c_place :: "nat \<Rightarrow> field list \<Rightarrow> (string \<times> nat) list" where
  "c_place off [] = []"
| "c_place off ((name, w, n) # fs) = (name, c_aligned w off) # c_place (c_aligned w off + w * n) fs"

fun c_end :: "nat \<Rightarrow> field list \<Rightarrow> nat" where
  "c_end off [] = off"
| "c_end off ((_, w, n) # fs) = c_end (c_aligned w off + w * n) fs"

definition c_layout :: "field list \<Rightarrow> (string \<times> nat) list" where
  "c_layout = c_place 0"

definition c_align :: "field list \<Rightarrow> nat" where
  "c_align fs = foldr (\<lambda>(_, w, _) m. max w m) fs 1"

definition c_sizeof :: "field list \<Rightarrow> nat" where
  "c_sizeof fs = c_aligned (c_align fs) (c_end 0 fs)"

definition packed :: "field list \<Rightarrow> bool" where
  "packed fs \<longleftrightarrow> c_sizeof fs = sum_list (map (\<lambda>(_, w, n). w * n) fs)"

section \<open>mtrap.h\<close>

definition MAX_HARTS :: "bool \<Rightarrow> nat" where
  "MAX_HARTS atomic = (if atomic then 8 else 1)"

text \<open>
  \<^verbatim>\<open>1 << (ext - 'A')\<close> is an \<^verbatim>\<open>int\<close>, the result of the function too. A negative shift distance and a
  distance from 31 on are undefined. \<^verbatim>\<open>read_const_csr\<close> returns an \<^verbatim>\<open>unsigned long\<close>.
\<close>

definition supports_extension :: "char \<Rightarrow> u64 \<Rightarrow> u32 option" where
  "supports_extension ext misa =
     (let d = of_char ext - of_char (CHR ''A'') :: int in
      if d < 0 \<or> 31 \<le> d then None else Some (ucast (misa AND push_bit (nat d) 1)))"

definition xlen :: "u64 \<Rightarrow> nat" where
  "xlen misa = (if misa < 0 then 64 else 32)"

definition hls_t :: "field list" where
  "hls_t = [(''ipi'', 8, 1), (''mipi_pending'', 4, 1), (''timecmp'', 8, 1), (''plic_m_thresh'', 8, 1),
     (''plic_m_ie'', 8, 1), (''plic_s_thresh'', 8, 1), (''plic_s_ie'', 8, 1)]"

definition IPI_SOFT :: u32 where "IPI_SOFT = 0x1"
definition IPI_FENCE_I :: u32 where "IPI_FENCE_I = 0x2"
definition IPI_SFENCE_VMA :: u32 where "IPI_SFENCE_VMA = 0x4"
definition IPI_HALT :: u32 where "IPI_HALT = 0x8"

definition MACHINE_STACK_SIZE :: u64 where "MACHINE_STACK_SIZE = RISCV_PGSIZE"
definition SOFT_FLOAT_CONTEXT_SIZE :: "bool \<Rightarrow> u64" where
  "SOFT_FLOAT_CONTEXT_SIZE flen = (if flen then 0 else 8 * 32)"
definition HLS_SIZE :: u64 where "HLS_SIZE = 64"
definition INTEGER_CONTEXT_SIZE :: u64 where "INTEGER_CONTEXT_SIZE = 32 * REGBYTES"
definition MENTRY_HLS_OFFSET :: "bool \<Rightarrow> u64" where
  "MENTRY_HLS_OFFSET flen = INTEGER_CONTEXT_SIZE + SOFT_FLOAT_CONTEXT_SIZE flen"
definition MENTRY_FRAME_SIZE :: "bool \<Rightarrow> u64" where
  "MENTRY_FRAME_SIZE flen = MENTRY_HLS_OFFSET flen + HLS_SIZE"
definition MENTRY_IPI_OFFSET :: "bool \<Rightarrow> u64" where
  "MENTRY_IPI_OFFSET flen = MENTRY_HLS_OFFSET flen"
definition MENTRY_IPI_PENDING_OFFSET :: "bool \<Rightarrow> u64" where
  "MENTRY_IPI_PENDING_OFFSET flen = MENTRY_HLS_OFFSET flen + REGBYTES"

text \<open>\<open>sp\<close> is the address of the current stack frame.\<close>

definition MACHINE_STACK_TOP :: "addr \<Rightarrow> addr" where
  "MACHINE_STACK_TOP sp = (sp + RISCV_PGSIZE) AND - RISCV_PGSIZE"
definition HLS :: "addr \<Rightarrow> addr" where "HLS sp = MACHINE_STACK_TOP sp - HLS_SIZE"
definition OTHER_HLS :: "addr \<Rightarrow> u64 \<Rightarrow> u64 \<Rightarrow> addr" where
  "OTHER_HLS sp mhartid hart = HLS sp + RISCV_PGSIZE * (hart - mhartid)"

section \<open>elf.h\<close>

definition IS_ELF :: "u8 list \<Rightarrow> bool" where
  "IS_ELF e_ident \<longleftrightarrow> e_ident ! 0 = 0x7f \<and> e_ident ! 1 = of_char (CHR ''E'') \<and>
     e_ident ! 2 = of_char (CHR ''L'') \<and> e_ident ! 3 = of_char (CHR ''F'')"
definition IS_ELF32 :: "u8 list \<Rightarrow> bool" where "IS_ELF32 e_ident \<longleftrightarrow> IS_ELF e_ident \<and> e_ident ! 4 = 1"
definition IS_ELF64 :: "u8 list \<Rightarrow> bool" where "IS_ELF64 e_ident \<longleftrightarrow> IS_ELF e_ident \<and> e_ident ! 4 = 2"

definition Elf32_Ehdr :: "field list" where
  "Elf32_Ehdr = [(''e_ident'', 1, 16), (''e_type'', 2, 1), (''e_machine'', 2, 1), (''e_version'', 4, 1),
     (''e_entry'', 4, 1), (''e_phoff'', 4, 1), (''e_shoff'', 4, 1), (''e_flags'', 4, 1), (''e_ehsize'', 2, 1),
     (''e_phentsize'', 2, 1), (''e_phnum'', 2, 1), (''e_shentsize'', 2, 1), (''e_shnum'', 2, 1),
     (''e_shstrndx'', 2, 1)]"
definition Elf32_Shdr :: "field list" where
  "Elf32_Shdr = [(''sh_name'', 4, 1), (''sh_type'', 4, 1), (''sh_flags'', 4, 1), (''sh_addr'', 4, 1),
     (''sh_offset'', 4, 1), (''sh_size'', 4, 1), (''sh_link'', 4, 1), (''sh_info'', 4, 1),
     (''sh_addralign'', 4, 1), (''sh_entsize'', 4, 1)]"
definition Elf32_Phdr :: "field list" where
  "Elf32_Phdr = [(''p_type'', 4, 1), (''p_offset'', 4, 1), (''p_vaddr'', 4, 1), (''p_paddr'', 4, 1),
     (''p_filesz'', 4, 1), (''p_memsz'', 4, 1), (''p_flags'', 4, 1), (''p_align'', 4, 1)]"
definition Elf32_Sym :: "field list" where
  "Elf32_Sym = [(''st_name'', 4, 1), (''st_value'', 4, 1), (''st_size'', 4, 1), (''st_info'', 1, 1),
     (''st_other'', 1, 1), (''st_shndx'', 2, 1)]"
definition Elf64_Ehdr :: "field list" where
  "Elf64_Ehdr = [(''e_ident'', 1, 16), (''e_type'', 2, 1), (''e_machine'', 2, 1), (''e_version'', 4, 1),
     (''e_entry'', 8, 1), (''e_phoff'', 8, 1), (''e_shoff'', 8, 1), (''e_flags'', 4, 1), (''e_ehsize'', 2, 1),
     (''e_phentsize'', 2, 1), (''e_phnum'', 2, 1), (''e_shentsize'', 2, 1), (''e_shnum'', 2, 1),
     (''e_shstrndx'', 2, 1)]"
definition Elf64_Shdr :: "field list" where
  "Elf64_Shdr = [(''sh_name'', 4, 1), (''sh_type'', 4, 1), (''sh_flags'', 8, 1), (''sh_addr'', 8, 1),
     (''sh_offset'', 8, 1), (''sh_size'', 8, 1), (''sh_link'', 4, 1), (''sh_info'', 4, 1),
     (''sh_addralign'', 8, 1), (''sh_entsize'', 8, 1)]"
definition Elf64_Phdr :: "field list" where
  "Elf64_Phdr = [(''p_type'', 4, 1), (''p_flags'', 4, 1), (''p_offset'', 8, 1), (''p_vaddr'', 8, 1),
     (''p_paddr'', 8, 1), (''p_filesz'', 8, 1), (''p_memsz'', 8, 1), (''p_align'', 8, 1)]"
definition Elf64_Sym :: "field list" where
  "Elf64_Sym = [(''st_name'', 4, 1), (''st_info'', 1, 1), (''st_other'', 1, 1), (''st_shndx'', 2, 1),
     (''st_value'', 8, 1), (''st_size'', 8, 1)]"

lemmas elf_structs = Elf32_Ehdr_def Elf32_Shdr_def Elf32_Phdr_def Elf32_Sym_def
  Elf64_Ehdr_def Elf64_Shdr_def Elf64_Phdr_def Elf64_Sym_def

text \<open>The headers of a file are read into these structs: they have no padding and the format's sizes.\<close>

lemma elf_packed:
  "map c_sizeof [Elf32_Ehdr, Elf32_Shdr, Elf32_Phdr, Elf32_Sym] = [52, 40, 32, 16]"
  "map c_sizeof [Elf64_Ehdr, Elf64_Shdr, Elf64_Phdr, Elf64_Sym] = [64, 64, 56, 24]"
  "list_all packed [Elf32_Ehdr, Elf32_Shdr, Elf32_Phdr, Elf32_Sym, Elf64_Ehdr, Elf64_Shdr, Elf64_Phdr, Elf64_Sym]"
  by (simp_all add: elf_structs c_sizeof_def c_align_def c_aligned_def packed_def)

lemma elf_class: "\<not> (IS_ELF32 e \<and> IS_ELF64 e)"
  by (auto simp: IS_ELF32_def IS_ELF64_def)

section \<open>The questions to misa\<close>

lemma supports_extension_letter:
  assumes "k < 26"
  shows "\<exists>r. supports_extension (char_of (65 + k :: nat)) misa = Some r \<and> (r \<noteq> 0 \<longleftrightarrow> bit misa k)"
proof -
  have d: "of_char (char_of (65 + k) :: char) - of_char (CHR ''A'') = int k"
  proof -
    have "(of_char (char_of (65 + k)) :: int) = int (of_char (char_of (65 + k) :: char))" by (simp only: of_nat_of_char)
    then show ?thesis using assms by (simp only: of_char_of) simp
  qed
  have "ucast (misa AND push_bit k 1) = (if bit misa k then push_bit k 1 else 0 :: u32)"
    using assms by (intro bit_word_eqI) (auto simp: bit_simps)
  moreover have "push_bit k 1 \<noteq> (0 :: u32)"
    using assms arg_cong [of "push_bit k 1" "0 :: u32" "\<lambda>w. bit w k"] by (auto simp: bit_simps)
  ultimately show ?thesis using assms unfolding supports_extension_def d Let_def by simp
qed

lemma xlen_is_32: "xlen misa = 32"
  by (simp add: xlen_def)

section \<open>The stack of a hart\<close>

definition on_stack :: "addr \<Rightarrow> nat \<Rightarrow> addr \<Rightarrow> bool" where
  "on_stack stack i sp \<longleftrightarrow> unat stack + 4096 * i \<le> unat sp \<and> unat sp < unat stack + 4096 * (i + 1)"

lemma round_down_page: "unat (push_bit 12 (drop_bit 12 (y :: u64))) = unat y div 4096 * 4096 mod 2 ^ 64"
proof -
  have "unat y div 4096 < 2 ^ 64" using unat_less_2p64 [of y] by (simp add: div_less_iff_less_mult del: unat_less_2p64)
  then show ?thesis by (simp add: push_bit_eq_mult drop_bit_eq_div unat_word_ariths unat_div)
qed

lemma stack_top:
  assumes "unat stack mod 4096 = 0" "unat stack + 4096 * (i + 1) < 2 ^ 64" "on_stack stack i sp"
  shows "MACHINE_STACK_TOP sp = stack + 4096 * (of_nat i + 1)"
proof -
  obtain q where q: "unat stack = 4096 * q" using assms(1) by (auto simp: mod_eq_0_iff_dvd elim!: dvdE)
  have neg: "- RISCV_PGSIZE = NOT (mask 12)"
    by (simp add: RISCV_PGSIZE_def RISCV_PGSHIFT_def mask_eq_exp_minus_1)
  have plus: "unat (sp + 4096) = unat sp + 4096"
  proof -
    have "q + i + 1 < 2 ^ 52" using assms(2) q by simp
    then have "unat sp + 4096 < 2 ^ 64" using assms(3) q unfolding on_stack_def by simp
    then show ?thesis by (simp add: unat_word_ariths)
  qed
  have d: "(unat sp + 4096) div 4096 = q + i + 1"
    using assms(3) q unfolding on_stack_def by (intro div_nat_eqI) simp_all
  have "MACHINE_STACK_TOP sp = push_bit 12 (drop_bit 12 (sp + 4096))"
    unfolding MACHINE_STACK_TOP_def neg and_not_mask by (simp add: RISCV_PGSIZE_def RISCV_PGSHIFT_def)
  then have "unat (MACHINE_STACK_TOP sp) = (q + i + 1) * 4096"
    using assms(2) q by (simp only: round_down_page plus d) simp
  moreover have "unat (stack + 4096 * (of_nat i + 1) :: addr) = (q + i + 1) * 4096"
  proof -
    have "stack + 4096 * (of_nat i + 1) = of_nat (unat stack + 4096 * (i + 1))" by simp
    also have "unat (of_nat (unat stack + 4096 * (i + 1)) :: addr) = unat stack + 4096 * (i + 1)"
      using assms(2) by (intro unat_of_nat64) simp
    finally show ?thesis using q by simp
  qed
  ultimately show ?thesis by (simp add: word_unat_eq_iff)
qed

lemma mentry_offsets:
  "c_layout hls_t = [(''ipi'', 0), (''mipi_pending'', 8), (''timecmp'', 16), (''plic_m_thresh'', 24),
     (''plic_m_ie'', 32), (''plic_s_thresh'', 40), (''plic_s_ie'', 48)]"
  "c_sizeof hls_t = 56" "MENTRY_FRAME_SIZE flen = MENTRY_HLS_OFFSET flen + 64"
  "MENTRY_IPI_OFFSET flen = MENTRY_HLS_OFFSET flen" "MENTRY_IPI_PENDING_OFFSET flen = MENTRY_HLS_OFFSET flen + 8"
  "MENTRY_FRAME_SIZE flen < MACHINE_STACK_SIZE"
  by (simp_all add: hls_t_def c_layout_def c_sizeof_def c_align_def c_aligned_def MENTRY_FRAME_SIZE_def HLS_SIZE_def
      MENTRY_IPI_OFFSET_def MENTRY_IPI_PENDING_OFFSET_def REGBYTES_def LOG_REGBYTES_def MENTRY_HLS_OFFSET_def
      INTEGER_CONTEXT_SIZE_def SOFT_FLOAT_CONTEXT_SIZE_def MACHINE_STACK_SIZE_def RISCV_PGSIZE_def RISCV_PGSHIFT_def)

text \<open>Property (C37): the storage local to a hart has the place and the layout that the headers give it.
  When the stacks of the harts lie one page each behind each other, a hart finds its own storage in
  the last 64 bytes of its stack from any stack pointer inside it, and the storage of every other hart
  where that hart finds it; the frame the machine mode entry builds at the top of the stack ends with
  this storage; and the struct has the fields the assembler reads at the offsets it uses, and fits.\<close>

theorem hart_local_layout:
  assumes "unat stack mod 4096 = 0" "unat stack + 4096 * MAX_HARTS atomic < 2 ^ 64"
    and "i < MAX_HARTS atomic" "j < MAX_HARTS atomic" "on_stack stack i sp" "on_stack stack j sp'"
  shows "HLS sp = stack + 4096 * (of_nat i + 1) - 64 \<and>
    OTHER_HLS sp (of_nat i) (of_nat j) = HLS sp' \<and>
    MACHINE_STACK_TOP sp - MENTRY_FRAME_SIZE flen + MENTRY_HLS_OFFSET flen = HLS sp \<and>
    MENTRY_FRAME_SIZE flen < MACHINE_STACK_SIZE \<and> c_sizeof hls_t \<le> unat HLS_SIZE \<and>
    map_of (c_layout hls_t) ''ipi'' = Some (unat (MENTRY_IPI_OFFSET flen - MENTRY_HLS_OFFSET flen)) \<and>
    map_of (c_layout hls_t) ''mipi_pending'' = Some (unat (MENTRY_IPI_PENDING_OFFSET flen - MENTRY_HLS_OFFSET flen))"
proof -
  have "unat stack + 4096 * (i + 1) < 2 ^ 64" "unat stack + 4096 * (j + 1) < 2 ^ 64"
    using assms(2,3,4) by auto
  then have "MACHINE_STACK_TOP sp = stack + 4096 * (of_nat i + 1)" "MACHINE_STACK_TOP sp' = stack + 4096 * (of_nat j + 1)"
    using stack_top [OF assms(1) _ assms(5)] stack_top [OF assms(1) _ assms(6)] by auto
  then have "HLS sp = stack + 4096 * (of_nat i + 1) - 64" "OTHER_HLS sp (of_nat i) (of_nat j) = HLS sp'"
    by (simp_all add: HLS_def OTHER_HLS_def HLS_SIZE_def RISCV_PGSIZE_def RISCV_PGSHIFT_def algebra_simps)
  moreover have "MACHINE_STACK_TOP sp - MENTRY_FRAME_SIZE flen + MENTRY_HLS_OFFSET flen = HLS sp"
    by (simp add: MENTRY_FRAME_SIZE_def HLS_def)
  moreover have "c_sizeof hls_t \<le> unat HLS_SIZE" by (simp add: mentry_offsets(2) HLS_SIZE_def)
  ultimately show ?thesis using mentry_offsets(6) by (simp add: mentry_offsets(1,4,5))
qed

text \<open>Witness: hart 2 reads the storage of hart 5.\<close>

theorem hart_local_layout_witness:
  "HLS 0x80002F00 = 0x80002FC0 \<and> OTHER_HLS 0x80002F00 2 5 = HLS 0x80005FFF"
  using hart_local_layout [where stack = "0x80000000" and atomic = True and i = 2 and j = 5
      and sp = "0x80002F00" and sp' = "0x80005FFF"]
  by (simp add: on_stack_def MAX_HARTS_def)

end
