(* ===== verification/Spinlock.thy ===== *)
theory Spinlock
  imports Machine_Mode
begin

text \<open>
  The read-modify-write operations and the spin lock of \<^verbatim>\<open>atomic.h\<close>. With \<^verbatim>\<open>__riscv_atomic\<close> (the flag
  \<open>atomic\<close>) an operation is one instruction; without it, it is a load and a store, and the header
  \<^verbatim>\<open>mtrap.h\<close> allows one hart only. Harts run the code of the lock concurrently: a state holds
  the lock word and where each hart stands, and \<open>spin_step\<close> is one access of one hart, in a
  sequentially consistent memory, so that the fence \<^verbatim>\<open>mb\<close> has no effect of its own.
\<close>

section \<open>Read-modify-write operations\<close>

text \<open>Each operation maps the old contents of the word to the result and the new contents.\<close>

definition atomic_read :: "u32 \<Rightarrow> u32" where "atomic_read m = m"
definition atomic_set :: "u32 \<Rightarrow> u32 \<Rightarrow> u32" where "atomic_set val m = val"

definition atomic_binop :: "(u32 \<Rightarrow> u32) \<Rightarrow> u32 \<Rightarrow> u32 \<times> u32" where
  "atomic_binop f m = (let res = atomic_read m in (res, atomic_set (f res) m))"

definition atomic_add :: "u32 \<Rightarrow> u32 \<Rightarrow> u32 \<times> u32" where "atomic_add inc = atomic_binop (\<lambda>res. res + inc)"
definition atomic_or :: "u32 \<Rightarrow> u32 \<Rightarrow> u32 \<times> u32" where "atomic_or inc = atomic_binop (\<lambda>res. res OR inc)"
definition atomic_swap :: "u32 \<Rightarrow> u32 \<Rightarrow> u32 \<times> u32" where "atomic_swap swp = atomic_binop (\<lambda>_. swp)"
definition atomic_cas :: "u32 \<Rightarrow> u32 \<Rightarrow> u32 \<Rightarrow> u32 \<times> u32" where
  "atomic_cas cmp swp m = (let res = atomic_read m in (res, if res = cmp then swp else m))"

definition SPINLOCK_INIT :: u32 where "SPINLOCK_INIT = 0"

definition spinlock_trylock :: "u32 \<Rightarrow> u32 \<times> u32" where "spinlock_trylock m = atomic_swap (- 1) m"
definition spinlock_unlock :: "u32 \<Rightarrow> u32" where "spinlock_unlock m = atomic_set 0 m"

section \<open>The harts\<close>

text \<open>
  A hart is outside, reads the lock in the inner loop of \<^verbatim>\<open>spinlock_lock\<close>, is about to exchange,
  has loaded the old value but not stored yet, tests the result of the exchange, or holds the lock.
  The flag tells whether \<^verbatim>\<open>spinlock_trylock\<close> was called from \<^verbatim>\<open>spinlock_lock\<close>.
\<close>

datatype pc = Out | Testing | Swapping bool | Loaded bool u32 | Checking bool u32 | Holding

record spin =
  lock :: u32
  pcs :: "nat \<Rightarrow> pc"

definition goto :: "nat \<Rightarrow> pc \<Rightarrow> spin \<Rightarrow> spin" where
  "goto h p s = s\<lparr>pcs := (pcs s)(h := p)\<rparr>"

inductive spin_step :: "bool \<Rightarrow> nat \<Rightarrow> spin \<Rightarrow> spin \<Rightarrow> bool" for atomic :: bool and h :: nat where
  call_lock: "pcs s h = Out \<Longrightarrow> spin_step atomic h s (goto h Testing s)"
| call_trylock: "pcs s h = Out \<Longrightarrow> spin_step atomic h s (goto h (Swapping False) s)"
| busy: "pcs s h = Testing \<Longrightarrow> atomic_read (lock s) \<noteq> 0 \<Longrightarrow> spin_step atomic h s s"
| free: "pcs s h = Testing \<Longrightarrow> atomic_read (lock s) = 0 \<Longrightarrow> spin_step atomic h s (goto h (Swapping True) s)"
| swap: "pcs s h = Swapping b \<Longrightarrow> atomic \<Longrightarrow> spinlock_trylock (lock s) = (r, m) \<Longrightarrow>
    spin_step atomic h s (goto h (Checking b r) (s\<lparr>lock := m\<rparr>))"
| load: "pcs s h = Swapping b \<Longrightarrow> \<not> atomic \<Longrightarrow>
    spin_step atomic h s (goto h (Loaded b (atomic_read (lock s))) s)"
| store: "pcs s h = Loaded b r \<Longrightarrow> \<not> atomic \<Longrightarrow>
    spin_step atomic h s (goto h (Checking b r) (s\<lparr>lock := atomic_set (- 1) (lock s)\<rparr>))"
| again: "pcs s h = Checking True r \<Longrightarrow> r \<noteq> 0 \<Longrightarrow> spin_step atomic h s (goto h Testing s)"
| refused: "pcs s h = Checking False r \<Longrightarrow> r \<noteq> 0 \<Longrightarrow> spin_step atomic h s (goto h Out s)"
| taken: "pcs s h = Checking b 0 \<Longrightarrow> spin_step atomic h s (goto h Holding s)"
| unlock: "pcs s h = Holding \<Longrightarrow> spin_step atomic h s (goto h Out (s\<lparr>lock := spinlock_unlock (lock s)\<rparr>))"

inductive spin_reach :: "bool \<Rightarrow> nat \<Rightarrow> spin \<Rightarrow> bool" for atomic :: bool and n :: nat where
  start: "spin_reach atomic n \<lparr>lock = SPINLOCK_INIT, pcs = \<lambda>_. Out\<rparr>"
| step: "spin_reach atomic n s \<Longrightarrow> h < n \<Longrightarrow> spin_step atomic h s s' \<Longrightarrow> spin_reach atomic n s'"

inductive_cases spin_stepE: "spin_step atomic h s s'"

section \<open>Lemmas\<close>

lemmas word_ops = atomic_read_def atomic_set_def atomic_binop_def atomic_swap_def spinlock_trylock_def
  spinlock_unlock_def SPINLOCK_INIT_def Let_def

lemma rmw_results:
  "atomic_add inc m = (m, m + inc)" "atomic_or inc m = (m, m OR inc)" "atomic_swap swp m = (m, swp)"
  "atomic_cas cmp swp m = (m, if m = cmp then swp else m)"
  by (simp_all add: word_ops atomic_add_def atomic_or_def atomic_cas_def)

lemma goto_sel [simp]: "lock (goto h p s) = lock s" "pcs (goto h p s) i = (if i = h then p else pcs s i)"
  by (simp_all add: goto_def)

definition owns :: "pc \<Rightarrow> bool" where
  "owns p \<longleftrightarrow> p = Holding \<or> (\<exists>b. p = Checking b 0)"

lemma owns_simps [simp]:
  "owns Holding" "\<not> owns Out" "\<not> owns Testing" "\<not> owns (Swapping b)" "\<not> owns (Loaded b r)" "owns (Checking b r) \<longleftrightarrow> r = 0"
  by (auto simp: owns_def)

text \<open>
  The invariant for \<open>n\<close> harts: at most one hart owns the lock, the lock word is nonzero exactly when
  one does, and a hart stands between load and store only when it is alone.
\<close>

definition spin_inv :: "nat \<Rightarrow> spin \<Rightarrow> bool" where
  "spin_inv n s \<longleftrightarrow> (\<forall>i. n \<le> i \<longrightarrow> pcs s i = Out) \<and>
     (\<forall>i j. owns (pcs s i) \<longrightarrow> owns (pcs s j) \<longrightarrow> i = j) \<and>
     (lock s \<noteq> 0 \<longleftrightarrow> (\<exists>i. owns (pcs s i))) \<and>
     (\<forall>i b r. pcs s i = Loaded b r \<longrightarrow> n = 1 \<and> r = lock s)"

lemma spin_invI:
  assumes "\<And>i. n \<le> i \<Longrightarrow> pcs s i = Out" "\<And>i j. owns (pcs s i) \<Longrightarrow> owns (pcs s j) \<Longrightarrow> i = j"
    "lock s \<noteq> 0 \<longleftrightarrow> (\<exists>i. owns (pcs s i))" "\<And>i b r. pcs s i = Loaded b r \<Longrightarrow> n = 1 \<and> r = lock s"
  shows "spin_inv n s"
  using assms unfolding spin_inv_def by blast

lemma spin_invD:
  assumes "spin_inv n s"
  shows "n \<le> i \<Longrightarrow> pcs s i = Out" "owns (pcs s i) \<Longrightarrow> owns (pcs s j) \<Longrightarrow> i = j"
    "owns (pcs s i) \<Longrightarrow> lock s \<noteq> 0" "lock s \<noteq> 0 \<Longrightarrow> \<exists>i. owns (pcs s i)"
    "pcs s i = Loaded b r \<Longrightarrow> n = 1 \<and> r = lock s"
  using assms unfolding spin_inv_def by blast+

text \<open>A hart that keeps or lacks the lock, exchanges, or releases.\<close>

lemma inv_goto:
  assumes "spin_inv n s" "h < n" "owns p \<longleftrightarrow> owns (pcs s h)" "\<And>b r. p = Loaded b r \<Longrightarrow> n = 1 \<and> r = lock s"
  shows "spin_inv n (goto h p s)"
proof -
  note d = spin_invD [OF assms(1)]
  have o: "owns (pcs (goto h p s) i) \<longleftrightarrow> owns (pcs s i)" for i using assms(3) by simp
  show ?thesis
    by (rule spin_invI; (unfold o)?; use assms(2,4) d in \<open>auto split: if_splits\<close>)
qed

lemma inv_exchange:
  assumes "spin_inv n s" "h < n" "\<not> owns (pcs s h)"
  shows "spin_inv n (goto h (Checking b (lock s)) (s\<lparr>lock := - 1\<rparr>))"
proof -
  note d = spin_invD [OF assms(1)]
  have others: "lock s = 0 \<Longrightarrow> \<not> owns (pcs s i)" for i using d(3) by blast
  have alone: "i = h" if "pcs s i = Loaded b' r" for i b' r
  proof -
    have "n = 1" "i < n" using d(5) [OF that] d(1) [of i] that by (auto simp: not_le [symmetric])
    with assms(2) show ?thesis by simp
  qed
  show ?thesis
  proof (rule spin_invI)
    show "i = j" if "owns (pcs (goto h (Checking b (lock s)) (s\<lparr>lock := - 1\<rparr>)) i)"
      "owns (pcs (goto h (Checking b (lock s)) (s\<lparr>lock := - 1\<rparr>)) j)" for i j
      using that d(2) others by (auto split: if_splits)
    show "lock (goto h (Checking b (lock s)) (s\<lparr>lock := - 1\<rparr>)) \<noteq> 0 \<longleftrightarrow>
      (\<exists>i. owns (pcs (goto h (Checking b (lock s)) (s\<lparr>lock := - 1\<rparr>)) i))"
    proof (cases "lock s = 0")
      case False
      then obtain i where "owns (pcs s i)" using d(4) by blast
      moreover from this have "i \<noteq> h" using assms(3) by blast
      ultimately show ?thesis by (auto intro!: exI [of _ i])
    qed (auto intro: exI [of _ h])
  qed (use d(1) assms(2) alone in \<open>auto split: if_splits\<close>)
qed

lemma inv_release:
  assumes "spin_inv n s" "h < n" "owns (pcs s h)"
  shows "spin_inv n (goto h Out (s\<lparr>lock := 0\<rparr>))"
proof -
  note d = spin_invD [OF assms(1)]
  have free: "\<not> owns (pcs s i)" if "i \<noteq> h" for i using d(2) assms(3) that by blast
  have "lock s \<noteq> 0" using d(3) assms(3) by blast
  have none: "pcs s i \<noteq> Loaded b r" if "i \<noteq> h" for i b r
  proof
    assume l: "pcs s i = Loaded b r"
    then have "n = 1" "i < n" using d(5) [OF l] d(1) [of i] by (auto simp: not_le [symmetric])
    with assms(2) that show False by simp
  qed
  show ?thesis
    by (intro spin_invI) (use d(1) assms(2) free none in \<open>simp_all split: if_splits\<close>)
qed

lemma spin_inv_step:
  assumes "spin_inv n s" "h < n" "spin_step atomic h s s'" "atomic \<or> n \<le> 1"
  shows "spin_inv n s'"
  using assms(3)
proof cases
  case (swap b r m)
  then show ?thesis using inv_exchange [OF assms(1,2)] by (simp add: word_ops)
next
  case (load b)
  then show ?thesis using assms by (auto intro!: inv_goto simp: word_ops)
next
  case (store b r)
  then show ?thesis using inv_exchange [OF assms(1,2), of b] spin_invD(5) [OF assms(1)] by (simp add: word_ops)
next
  case unlock
  then show ?thesis using inv_release [OF assms(1,2)] by (simp add: word_ops)
qed (use assms in \<open>auto intro: inv_goto\<close>)

lemma spin_inv_reach:
  assumes "spin_reach atomic n s" "atomic \<or> n \<le> 1"
  shows "spin_inv n s"
  using assms(1)
proof induction
  case start
  then show ?case by (simp add: spin_inv_def word_ops)
next
  case (step s h s')
  then show ?case using spin_inv_step assms(2) by blast
qed

text \<open>Once a hart has seen the lock free and nobody interferes, it takes it.\<close>

lemma takes_free_lock:
  assumes "pcs s h = Testing" "lock s = 0"
  shows "\<exists>s'. (spin_step atomic h)\<^sup>*\<^sup>* s s' \<and> pcs s' h = Holding"
proof -
  let ?s1 = "goto h (Swapping True) s"
  have 1: "spin_step atomic h s ?s1" using assms by (intro free) (simp_all add: word_ops)
  let ?s2 = "goto h (Checking True 0) (?s1\<lparr>lock := - 1\<rparr>)"
  have 2: "(spin_step atomic h)\<^sup>*\<^sup>* ?s1 ?s2"
  proof (cases atomic)
    case True
    then have "spin_step atomic h ?s1 ?s2" using assms by (intro swap) (simp_all add: word_ops)
    then show ?thesis by simp
  next
    case False
    let ?l = "goto h (Loaded True 0) ?s1"
    have "spin_step atomic h ?s1 ?l" using False assms load [of ?s1 h True atomic] by (simp add: word_ops)
    moreover have "spin_step atomic h ?l (goto h (Checking True 0) (?l\<lparr>lock := - 1\<rparr>))"
      using False store [of ?l h True 0 atomic] by (simp add: word_ops)
    moreover have "goto h (Checking True 0) (?l\<lparr>lock := - 1\<rparr>) = ?s2" by (simp add: goto_def)
    ultimately show ?thesis by simp
  qed
  have 3: "spin_step atomic h ?s2 (goto h Holding ?s2)" by (rule taken) simp
  from 1 2 3 have "(spin_step atomic h)\<^sup>*\<^sup>* s (goto h Holding ?s2)"
    by (meson converse_rtranclp_into_rtranclp rtranclp.rtrancl_into_rtrancl)
  then show ?thesis by (intro exI [of _ "goto h Holding ?s2"]) simp
qed

lemma spin_reach_steps:
  assumes "(spin_step atomic h)\<^sup>*\<^sup>* s s'" "spin_reach atomic n s" "h < n"
  shows "spin_reach atomic n s'"
  using assms by induction (auto intro: spin_reach.step)

text \<open>The load and the store of two harts may interleave; then both take the lock.\<close>

lemma fallback_not_exclusive: "\<exists>t. spin_reach False 2 t \<and> pcs t 0 = Holding \<and> pcs t 1 = Holding"
proof -
  define s0 where "s0 = \<lparr>lock = 0, pcs = \<lambda>_. Out\<rparr>"
  define a1 where "a1 = goto 0 (Swapping False) s0"
  define a2 where "a2 = goto 1 (Swapping False) a1"
  define a3 where "a3 = goto 0 (Loaded False 0) a2"
  define a4 where "a4 = goto 1 (Loaded False 0) a3"
  define a5 where "a5 = goto 0 (Checking False 0) (a4\<lparr>lock := - 1\<rparr>)"
  define a6 where "a6 = goto 1 (Checking False 0) (a5\<lparr>lock := - 1\<rparr>)"
  define a7 where "a7 = goto 0 Holding a6"
  define a8 where "a8 = goto 1 Holding a7"
  note d = s0_def a1_def a2_def a3_def a4_def a5_def a6_def a7_def a8_def
  have r: "spin_reach False 2 s0" using start by (simp add: s0_def word_ops)
  have st: "spin_step False 0 s0 a1" "spin_step False 1 a1 a2"
    using call_trylock [of s0 0 False] call_trylock [of a1 1 False] by (simp_all add: d)
  have ld: "spin_step False 0 a2 a3" "spin_step False 1 a3 a4"
    using load [of a2 0 False False] load [of a3 1 False False] by (simp_all add: d word_ops)
  have sr: "spin_step False 0 a4 a5" "spin_step False 1 a5 a6"
    using store [of a4 0 False 0 False] store [of a5 1 False 0 False] by (simp_all add: d word_ops)
  have tk: "spin_step False 0 a6 a7" "spin_step False 1 a7 a8"
    using taken [of a6 0 False False] taken [of a7 1 False False] by (simp_all add: d)
  have "spin_reach False 2 a8"
  proof -
    have z: "spin_reach False 2 u \<Longrightarrow> spin_step False 0 u v \<Longrightarrow> spin_reach False 2 v" for u v
      by (rule spin_reach.step [of _ _ _ 0]) simp_all
    have o: "spin_reach False 2 u \<Longrightarrow> spin_step False 1 u v \<Longrightarrow> spin_reach False 2 v" for u v
      by (rule spin_reach.step [of _ _ _ 1]) simp_all
    show ?thesis by (rule o [OF z [OF o [OF z [OF o [OF z [OF o [OF z [OF r st(1)] st(2)] ld(1)] ld(2)] sr(1)] sr(2)] tk(1)] tk(2)])
  qed
  then show ?thesis by (intro exI [of _ a8]) (simp add: a7_def a8_def)
qed

section \<open>A call without interference\<close>

text \<open>
  The functions as a hart executes them when no other hart runs: from the lock word to the lock word,
  \<open>None\<close> when the call never returns. Interrupts are always disabled, so the flags the
  \<open>irqsave\<close> versions save and restore are the constant 0.
\<close>

partial_function (option) wait_free :: "u32 \<Rightarrow> u32 option" where
  "wait_free m = (if atomic_read m \<noteq> 0 then wait_free m else Some m)"

partial_function (option) spinlock_lock :: "u32 \<Rightarrow> u32 option" where
  "spinlock_lock m = Option.bind (wait_free m) (\<lambda>m.
     case spinlock_trylock m of (res, m) \<Rightarrow> if res \<noteq> 0 then spinlock_lock m else Some m)"

definition disable_irqsave :: u64 where "disable_irqsave = 0"
definition enable_irqrestore :: "u64 \<Rightarrow> unit" where "enable_irqrestore flags = ()"

definition spinlock_lock_irqsave :: "u32 \<Rightarrow> (u64 \<times> u32) option" where
  "spinlock_lock_irqsave m = (let flags = disable_irqsave in map_option (\<lambda>m. (flags, m)) (spinlock_lock m))"

definition spinlock_unlock_irqrestore :: "u64 \<Rightarrow> u32 \<Rightarrow> u32" where
  "spinlock_unlock_irqrestore flags m = (let m = spinlock_unlock m; _ = enable_irqrestore flags in m)"

lemma wait_free_value: "wait_free m = (if m = 0 then Some 0 else None)"
proof (cases "m = 0")
  case True
  then show ?thesis by (subst wait_free.simps) (simp add: word_ops)
next
  case False
  have "m = 0" if "wait_free m = Some m'" for m'
    using that
    by (rule wait_free.raw_induct [where P = "\<lambda>m _. m = 0", rotated]) (auto simp: word_ops split: if_splits)
  then show ?thesis using False by (cases "wait_free m") simp_all
qed

text \<open>The call takes a free lock, and hangs on a held one, also when the caller itself holds it.\<close>

lemma lock_alone: "spinlock_lock m = (if m = 0 then Some (- 1) else None)"
  by (subst spinlock_lock.simps) (simp add: wait_free_value word_ops)

lemma irqsave_roundtrip:
  "spinlock_lock_irqsave SPINLOCK_INIT = Some (disable_irqsave, - 1)"
  "spinlock_unlock_irqrestore flags m = SPINLOCK_INIT"
  "spinlock_lock_irqsave m = Some (flags, m') \<Longrightarrow> spinlock_lock_irqsave m' = None"
  by (auto simp: spinlock_lock_irqsave_def spinlock_unlock_irqrestore_def lock_alone word_ops split: if_splits)

text \<open>What the call does the steps of the hart do.\<close>

lemma lock_call_steps:
  assumes "spinlock_lock (lock s) = Some m" "pcs s h = Out"
  shows "\<exists>s'. (spin_step atomic h)\<^sup>*\<^sup>* s s' \<and> pcs s' h = Holding"
proof -
  have "lock (goto h Testing s) = 0" using assms(1) by (simp add: lock_alone split: if_splits)
  then obtain s' where "(spin_step atomic h)\<^sup>*\<^sup>* (goto h Testing s) s'" "pcs s' h = Holding"
    using takes_free_lock [of "goto h Testing s" h] by auto
  moreover have "spin_step atomic h s (goto h Testing s)" using assms(2) by (rule call_lock)
  ultimately show ?thesis by (meson converse_rtranclp_into_rtranclp)
qed

section \<open>The property\<close>

text \<open>Property (C35): the spin lock excludes. In every state that the harts allowed by the configuration
  can reach, by any interleaving of their calls of lock, trylock and unlock, at most one of them holds
  the lock, and the lock word tells whether one does or is about to; a hart that waits while the word
  is zero has a way to hold the lock by its own steps. Without atomic instructions this rests on the
  limit of one hart: with two, both can come to hold it.\<close>

theorem spinlock_excludes:
  assumes "spin_reach atomic (MAX_HARTS atomic) s"
  shows "(pcs s i = Holding \<longrightarrow> pcs s j = Holding \<longrightarrow> i = j) \<and>
    (lock s \<noteq> 0 \<longleftrightarrow> (\<exists>k < MAX_HARTS atomic. pcs s k = Holding \<or> (\<exists>b. pcs s k = Checking b 0))) \<and>
    (lock s = 0 \<longrightarrow> pcs s i = Testing \<longrightarrow>
      (\<exists>s'. (spin_step atomic i)\<^sup>*\<^sup>* s s' \<and> spin_reach atomic (MAX_HARTS atomic) s' \<and> pcs s' i = Holding)) \<and>
    (\<exists>t. spin_reach False 2 t \<and> pcs t 0 = Holding \<and> pcs t 1 = Holding)"
proof -
  have inv: "spin_inv (MAX_HARTS atomic) s" using assms by (rule spin_inv_reach) (simp add: MAX_HARTS_def)
  have out: "i < MAX_HARTS atomic" if "pcs s i \<noteq> Out" for i
    using inv that by (auto simp: spin_inv_def not_le [symmetric])
  have "lock s \<noteq> 0 \<longleftrightarrow> (\<exists>k. owns (pcs s k))" using inv by (simp add: spin_inv_def)
  also have "\<dots> \<longleftrightarrow> (\<exists>k < MAX_HARTS atomic. owns (pcs s k))" using out owns_simps(2) by metis
  finally have "lock s \<noteq> 0 \<longleftrightarrow> (\<exists>k < MAX_HARTS atomic. owns (pcs s k))" .
  moreover have "pcs s i = Holding \<longrightarrow> pcs s j = Holding \<longrightarrow> i = j"
    using inv unfolding spin_inv_def by (metis owns_simps(1))
  moreover have "\<exists>s'. (spin_step atomic i)\<^sup>*\<^sup>* s s' \<and> spin_reach atomic (MAX_HARTS atomic) s' \<and> pcs s' i = Holding"
    if "lock s = 0" "pcs s i = Testing"
    using takes_free_lock [OF that(2,1), of atomic] spin_reach_steps [OF _ assms out] that by force
  ultimately show ?thesis using fallback_not_exclusive unfolding owns_def by blast
qed

text \<open>Witness: hart 1 waits before the free lock; it can take it.\<close>

theorem spinlock_excludes_witness:
  "\<exists>s s'. spin_reach True (MAX_HARTS True) s \<and> pcs s 1 = Testing \<and> (spin_step True 1)\<^sup>*\<^sup>* s s' \<and> pcs s' 1 = Holding"
proof -
  let ?s0 = "\<lparr>lock = SPINLOCK_INIT, pcs = \<lambda>_. Out\<rparr>" and ?s = "goto 1 Testing \<lparr>lock = SPINLOCK_INIT, pcs = \<lambda>_. Out\<rparr>"
  have "spin_reach True (MAX_HARTS True) ?s"
    by (rule spin_reach.step [OF start, of 1]) (simp_all add: MAX_HARTS_def call_lock)
  moreover have "lock ?s = 0" "pcs ?s 1 = Testing" by (simp_all add: SPINLOCK_INIT_def)
  ultimately show ?thesis using spinlock_excludes [of True ?s 1 1] by blast
qed

end
