(* ===== verification/Unpriv_Memory.thy ===== *)
theory Unpriv_Memory
  imports Insn_Table Riscv_Pk Byte_Memory
begin

text \<open>
  The accesses to the memory of the interrupted program (\<^verbatim>\<open>unprivileged_memory.h\<close>): each sets
  \<^verbatim>\<open>MSTATUS_MPRV\<close>, so that the processor translates the access with the program's privilege, accesses
  and restores \<^verbatim>\<open>mstatus\<close>. The translation is the processor's and a parameter: \<open>tr ms n a\<close> is the
  physical address of an access of \<open>n\<close> bytes at \<open>a\<close> while \<^verbatim>\<open>mstatus\<close> is \<open>ms\<close>, or \<open>None\<close> when the access traps,
  which ends the function. The memory is little-endian.
\<close>

section \<open>Memory\<close>

type_synonym translation = "u64 \<Rightarrow> nat \<Rightarrow> addr \<Rightarrow> addr option"

record hart =
  hart_mstatus :: u64
  bytes :: "addr \<Rightarrow> u8"

definition read_mem :: "translation \<Rightarrow> nat \<Rightarrow> addr \<Rightarrow> hart \<Rightarrow> u64 option" where
  "read_mem tr n a s = map_option (\<lambda>p. get_bytes n p (bytes s)) (tr (hart_mstatus s) n a)"

definition write_mem :: "translation \<Rightarrow> nat \<Rightarrow> addr \<Rightarrow> u64 \<Rightarrow> hart \<Rightarrow> hart option" where
  "write_mem tr n a val s =
     map_option (\<lambda>p. s\<lparr>bytes := put_bytes n p val (bytes s)\<rparr>) (tr (hart_mstatus s) n a)"

definition csrrs_mstatus :: "u64 \<Rightarrow> hart \<Rightarrow> u64 \<times> hart" where
  "csrrs_mstatus bits s = (hart_mstatus s, s\<lparr>hart_mstatus := hart_mstatus s OR bits\<rparr>)"

definition csrw_mstatus :: "u64 \<Rightarrow> hart \<Rightarrow> hart" where
  "csrw_mstatus val s = s\<lparr>hart_mstatus := val\<rparr>"

definition MSTATUS_MPRV :: u64 where "MSTATUS_MPRV = the (map_of mstatus_fields ''MSTATUS_MPRV'')"
definition MSTATUS_MXR :: u64 where "MSTATUS_MXR = the (map_of mstatus_fields ''MSTATUS_MXR'')"

section \<open>Loads and stores\<close>

text \<open>The result of a load is the register the instruction writes.\<close>

definition unprivileged_load :: "nat \<Rightarrow> bool \<Rightarrow> translation \<Rightarrow> addr \<Rightarrow> hart \<Rightarrow> (u64 \<times> hart) option" where
  "unprivileged_load n sx tr a s = do {
     let (ms, s) = csrrs_mstatus MSTATUS_MPRV s;
     val \<leftarrow> read_mem tr n a s;
     Some (if sx then signed_take_bit (8 * n - 1) val else val, csrw_mstatus ms s)
   }"

definition unprivileged_store :: "nat \<Rightarrow> translation \<Rightarrow> addr \<Rightarrow> u64 \<Rightarrow> hart \<Rightarrow> hart option" where
  "unprivileged_store n tr a val s = do {
     let (ms, s) = csrrs_mstatus MSTATUS_MPRV s;
     s \<leftarrow> write_mem tr n a val s;
     Some (csrw_mstatus ms s)
   }"

definition load_uint8_t :: "translation \<Rightarrow> addr \<Rightarrow> hart \<Rightarrow> (u64 \<times> hart) option" where
  "load_uint8_t = unprivileged_load 1 False"
definition load_uint16_t :: "translation \<Rightarrow> addr \<Rightarrow> hart \<Rightarrow> (u64 \<times> hart) option" where
  "load_uint16_t = unprivileged_load 2 False"
definition load_int8_t :: "translation \<Rightarrow> addr \<Rightarrow> hart \<Rightarrow> (u64 \<times> hart) option" where
  "load_int8_t = unprivileged_load 1 True"
definition load_int16_t :: "translation \<Rightarrow> addr \<Rightarrow> hart \<Rightarrow> (u64 \<times> hart) option" where
  "load_int16_t = unprivileged_load 2 True"
definition load_int32_t :: "translation \<Rightarrow> addr \<Rightarrow> hart \<Rightarrow> (u64 \<times> hart) option" where
  "load_int32_t = unprivileged_load 4 True"
definition store_uint8_t :: "translation \<Rightarrow> addr \<Rightarrow> u8 \<Rightarrow> hart \<Rightarrow> hart option" where
  "store_uint8_t tr a val = unprivileged_store 1 tr a (ucast val)"
definition store_uint16_t :: "translation \<Rightarrow> addr \<Rightarrow> 16 word \<Rightarrow> hart \<Rightarrow> hart option" where
  "store_uint16_t tr a val = unprivileged_store 2 tr a (ucast val)"
definition store_uint32_t :: "translation \<Rightarrow> addr \<Rightarrow> u32 \<Rightarrow> hart \<Rightarrow> hart option" where
  "store_uint32_t tr a val = unprivileged_store 4 tr a (ucast val)"
definition load_uint32_t :: "translation \<Rightarrow> addr \<Rightarrow> hart \<Rightarrow> (u64 \<times> hart) option" where
  "load_uint32_t = unprivileged_load 4 False"
definition load_uint64_t :: "translation \<Rightarrow> addr \<Rightarrow> hart \<Rightarrow> (u64 \<times> hart) option" where
  "load_uint64_t = unprivileged_load 8 False"
definition store_uint64_t :: "translation \<Rightarrow> addr \<Rightarrow> u64 \<Rightarrow> hart \<Rightarrow> hart option" where
  "store_uint64_t = unprivileged_store 8"
definition load_uintptr_t :: "translation \<Rightarrow> addr \<Rightarrow> hart \<Rightarrow> (u64 \<times> hart) option" where
  "load_uintptr_t = unprivileged_load 8 False"

section \<open>The instruction that trapped\<close>

text \<open>
  The instruction at \<open>mepc\<close> and, for the caller, the old \<^verbatim>\<open>mstatus\<close>. The flag tells whether
  \<^verbatim>\<open>__riscv_compressed\<close> is defined.
\<close>

definition get_insn :: "bool \<Rightarrow> translation \<Rightarrow> addr \<Rightarrow> hart \<Rightarrow> (u64 \<times> u64 \<times> hart) option" where
  "get_insn compressed tr mepc s = do {
     let (ms, s) = csrrs_mstatus (MSTATUS_MPRV OR MSTATUS_MXR) s;
     insn \<leftarrow>
       (if \<not> compressed then read_mem tr 4 mepc s
        else if mepc AND 2 = 0 then do {
          insn \<leftarrow> read_mem tr 4 mepc s;
          Some (if insn AND 3 = 3 then insn else drop_bit 48 (push_bit 48 insn))
        }
        else do {
          insn \<leftarrow> read_mem tr 2 mepc s;
          if insn AND 3 \<noteq> 3 then Some insn
          else do {
            tmp \<leftarrow> read_mem tr 2 (mepc + 2) s;
            Some (insn + push_bit 16 tmp)
          }
        });
     Some (insn, ms, csrw_mstatus ms s)
   }"

section \<open>Bytes\<close>

lemma get_parcel: "get_bytes 2 p m = ucast (m p) OR push_bit 8 (ucast (m (p + 1)))"
  by (simp add: numeral_2_eq_2)

lemma get_word:
  "get_bytes 4 p m = get_bytes 2 p m OR push_bit 16 (get_bytes 2 (p + 2) m)"
  by (simp add: numeral_eq_Suc add.assoc push_bit_or or.assoc)

lemma word_parcels:
  fixes lo hi :: u64
  assumes "\<And>i. bit lo i \<Longrightarrow> i < 16"
  shows "(lo OR push_bit 16 hi) AND 3 = lo AND 3" "drop_bit 48 (push_bit 48 lo) = lo"
    "lo + push_bit 16 hi = lo OR push_bit 16 hi"
proof -
  have three: "(3 :: u64) = mask 2" by (simp add: mask_eq_exp_minus_1)
  show "(lo OR push_bit 16 hi) AND 3 = lo AND 3" unfolding three
    by (rule bit_word_eqI) (auto simp: bit_simps)
  show "drop_bit 48 (push_bit 48 lo) = lo"
    by (rule bit_word_eqI) (auto simp: bit_simps dest: assms)
  have "lo AND push_bit 16 hi = 0" by (rule bit_word_eqI) (auto simp: bit_simps dest: assms)
  then show "lo + push_bit 16 hi = lo OR push_bit 16 hi" by (rule disjunctive_add_eq_or)
qed

section \<open>Loads and stores are transparent\<close>

text \<open>What a store writes, a load of the same width reads; both leave \<^verbatim>\<open>mstatus\<close> as it was.\<close>

lemma store_then_load:
  assumes "unprivileged_store n tr a val s = Some s'" "n \<le> 8"
  shows "unprivileged_load n False tr a s' = Some (take_bit (8 * n) val, s') \<and> hart_mstatus s' = hart_mstatus s"
  using assms
  by (auto simp: unprivileged_store_def unprivileged_load_def write_mem_def read_mem_def csrrs_mstatus_def
      csrw_mstatus_def get_put_bytes bind_eq_Some_conv)

lemma load_transparent:
  "unprivileged_load n sx tr a s = Some (v, s') \<Longrightarrow> s' = s"
  by (auto simp: unprivileged_load_def read_mem_def csrrs_mstatus_def csrw_mstatus_def bind_eq_Some_conv)

section \<open>The property\<close>

text \<open>
  The instruction stream as the architecture defines it: parcels of two bytes; a first parcel that
  ends in two ones is followed by a second one.
\<close>

definition fetch :: "translation \<Rightarrow> addr \<Rightarrow> hart \<Rightarrow> u64 option" where
  "fetch tr pc s = do {
     first \<leftarrow> read_mem tr 2 pc s;
     if first AND 3 = 3 then do { second \<leftarrow> read_mem tr 2 (pc + 2) s; Some (first OR push_bit 16 second) }
     else Some first
   }"

text \<open>An aligned word lies in one page: it is translated as its halves are.\<close>

definition word_translation :: "translation \<Rightarrow> bool" where
  "word_translation tr \<longleftrightarrow> (\<forall>ms a. a AND 2 = 0 \<longrightarrow> tr ms 4 a = tr ms 2 a \<and> tr ms 2 (a + 2) = map_option (\<lambda>p. p + 2) (tr ms 2 a))"

lemma word_fetch:
  assumes "word_translation tr" "a AND 2 = 0"
  shows "read_mem tr 4 a s \<bind> (\<lambda>insn. Some (if insn AND 3 = 3 then insn else drop_bit 48 (push_bit 48 insn))) = fetch tr a s"
proof -
  have "tr ms 4 a = tr ms 2 a" "tr ms 2 (a + 2) = map_option (\<lambda>p. p + 2) (tr ms 2 a)" for ms
    using assms unfolding word_translation_def by blast+
  then show ?thesis
    using get_bytes_small [of 2]
    by (cases "tr (hart_mstatus s) 2 a")
      (auto simp: fetch_def read_mem_def get_word word_parcels)
qed

text \<open>Property (C36): with compressed instructions, \<^verbatim>\<open>get_insn\<close> is the fetch of the program. Wherever the
  instruction lies, also across a page boundary, it reads the parcels that make up the instruction with
  the privilege of the program and with execute permission counting as read permission, returns the
  instruction of the length its low bits give, and returns and restores the old \<^verbatim>\<open>mstatus\<close>; it traps
  exactly when a parcel of the instruction cannot be read.\<close>

theorem get_insn_fetches:
  assumes "word_translation tr"
  shows "get_insn True tr mepc s =
    map_option (\<lambda>insn. (insn, hart_mstatus s, s))
      (fetch tr mepc (s\<lparr>hart_mstatus := hart_mstatus s OR (MSTATUS_MPRV OR MSTATUS_MXR)\<rparr>))"
proof (cases "mepc AND 2 = 0")
  case True
  then show ?thesis
    by (simp add: get_insn_def csrrs_mstatus_def csrw_mstatus_def flip: word_fetch [OF assms])
      (auto simp: bind_eq_Some_conv split: bind_splits)
next
  case False
  have "insn + push_bit 16 t = insn OR push_bit 16 t" if "read_mem tr 2 a s' = Some insn" for insn t a s'
    using that get_bytes_small [of 2] by (auto simp: read_mem_def intro!: word_parcels(3))
  with False show ?thesis
    by (auto simp: get_insn_def fetch_def csrrs_mstatus_def csrw_mstatus_def split: bind_splits)
qed

text \<open>Witness: an \<^verbatim>\<open>ecall\<close> across a page boundary, whose halves lie in different frames.\<close>

definition two_frames :: translation where
  "two_frames ms n a = Some (if drop_bit 12 a = 0 then a + 0x8000 else a + 0x4000)"

theorem get_insn_fetches_witness:
  "\<exists>m. get_insn True two_frames 0xFFE \<lparr>hart_mstatus = 0x1800, bytes = m\<rparr> =
    Some (0x73, 0x1800, \<lparr>hart_mstatus = 0x1800, bytes = m\<rparr>)"
proof -
  define m where "m = (\<lambda>a :: addr. if a = 0x8FFE then 0x73 else 0 :: u8)"
  have "word_translation two_frames"
  proof -
    have "drop_bit 12 (a + 2) = drop_bit 12 a" if "a AND 2 = 0" for a :: u64
      using disjunctive_add_eq_or [OF that] by simp
    then show ?thesis by (auto simp: word_translation_def two_frames_def)
  qed
  moreover have "fetch two_frames 0xFFE \<lparr>hart_mstatus = ms, bytes = m\<rparr> = Some 0x73" for ms
    by (simp add: fetch_def read_mem_def two_frames_def get_parcel m_def)
  ultimately have "get_insn True two_frames 0xFFE \<lparr>hart_mstatus = 0x1800, bytes = m\<rparr> =
    Some (0x73, 0x1800, \<lparr>hart_mstatus = 0x1800, bytes = m\<rparr>)"
    using get_insn_fetches [of two_frames "0xFFE" "\<lparr>hart_mstatus = 0x1800, bytes = m\<rparr>"] by simp
  then show ?thesis by (rule exI [of _ m])
qed

end
