(* ===== verification/Declarations.thy ===== *)
theory Declarations
  imports Insn_Table Encoding
begin

text \<open>
  The declaration lists at the end of \<^verbatim>\<open>encoding.h\<close>. A client that defines \<^verbatim>\<open>DECLARE_INSN\<close> or
  \<^verbatim>\<open>DECLARE_CSR\<close> gets one declaration per instruction, with the macros \<^verbatim>\<open>MATCH_X\<close> and \<^verbatim>\<open>MASK_X\<close>,
  and one per register, with \<^verbatim>\<open>CSR_X\<close>: an entry here is the declared name and this \<open>X\<close>. The parts are
  those of the tables.
\<close>

section \<open>DECLARE_INSN\<close>

definition insn_decls_1 :: "(string \<times> string) list" where
  "insn_decls_1 = [(''add'', ''ADD''), (''add_uw'', ''ADD_UW''), (''addi'', ''ADDI''),
     (''addiw'', ''ADDIW''), (''addw'', ''ADDW''), (''aes32dsi'', ''AES32DSI''),
     (''aes32dsmi'', ''AES32DSMI''), (''aes32esi'', ''AES32ESI''), (''aes32esmi'', ''AES32ESMI''),
     (''aes64ds'', ''AES64DS''), (''aes64dsm'', ''AES64DSM''), (''aes64es'', ''AES64ES''),
     (''aes64esm'', ''AES64ESM''), (''aes64im'', ''AES64IM''), (''aes64ks1i'', ''AES64KS1I''),
     (''aes64ks2'', ''AES64KS2''), (''amoadd_b'', ''AMOADD_B''), (''amoadd_d'', ''AMOADD_D''),
     (''amoadd_h'', ''AMOADD_H''), (''amoadd_w'', ''AMOADD_W''), (''amoand_b'', ''AMOAND_B''),
     (''amoand_d'', ''AMOAND_D''), (''amoand_h'', ''AMOAND_H''), (''amoand_w'', ''AMOAND_W''),
     (''amocas_b'', ''AMOCAS_B''), (''amocas_d'', ''AMOCAS_D''), (''amocas_h'', ''AMOCAS_H''),
     (''amocas_q'', ''AMOCAS_Q''), (''amocas_w'', ''AMOCAS_W''), (''amomax_b'', ''AMOMAX_B''),
     (''amomax_d'', ''AMOMAX_D''), (''amomax_h'', ''AMOMAX_H''), (''amomax_w'', ''AMOMAX_W''),
     (''amomaxu_b'', ''AMOMAXU_B''), (''amomaxu_d'', ''AMOMAXU_D''), (''amomaxu_h'', ''AMOMAXU_H''),
     (''amomaxu_w'', ''AMOMAXU_W''), (''amomin_b'', ''AMOMIN_B''), (''amomin_d'', ''AMOMIN_D''),
     (''amomin_h'', ''AMOMIN_H''), (''amomin_w'', ''AMOMIN_W''), (''amominu_b'', ''AMOMINU_B''),
     (''amominu_d'', ''AMOMINU_D''), (''amominu_h'', ''AMOMINU_H''), (''amominu_w'', ''AMOMINU_W''),
     (''amoor_b'', ''AMOOR_B''), (''amoor_d'', ''AMOOR_D''), (''amoor_h'', ''AMOOR_H''),
     (''amoor_w'', ''AMOOR_W''), (''amoswap_b'', ''AMOSWAP_B''), (''amoswap_d'', ''AMOSWAP_D''),
     (''amoswap_h'', ''AMOSWAP_H''), (''amoswap_w'', ''AMOSWAP_W''), (''amoxor_b'', ''AMOXOR_B''),
     (''amoxor_d'', ''AMOXOR_D''), (''amoxor_h'', ''AMOXOR_H''), (''amoxor_w'', ''AMOXOR_W''),
     (''and'', ''AND''), (''andi'', ''ANDI''), (''andn'', ''ANDN''), (''auipc'', ''AUIPC''),
     (''bclr'', ''BCLR''), (''bclri'', ''BCLRI''), (''beq'', ''BEQ''), (''bext'', ''BEXT''),
     (''bexti'', ''BEXTI''), (''bge'', ''BGE''), (''bgeu'', ''BGEU''), (''binv'', ''BINV''),
     (''binvi'', ''BINVI''), (''blt'', ''BLT''), (''bltu'', ''BLTU''), (''bne'', ''BNE''),
     (''bset'', ''BSET''), (''bseti'', ''BSETI'')]"

definition insn_decls_2 :: "(string \<times> string) list" where
  "insn_decls_2 = [(''c_add'', ''C_ADD''), (''c_addi'', ''C_ADDI''), (''c_addi16sp'', ''C_ADDI16SP''),
     (''c_addi4spn'', ''C_ADDI4SPN''), (''c_addiw'', ''C_ADDIW''), (''c_addw'', ''C_ADDW''),
     (''c_and'', ''C_AND''), (''c_andi'', ''C_ANDI''), (''c_beqz'', ''C_BEQZ''), (''c_bnez'', ''C_BNEZ''),
     (''c_ebreak'', ''C_EBREAK''), (''c_fld'', ''C_FLD''), (''c_fldsp'', ''C_FLDSP''),
     (''c_flw'', ''C_FLW''), (''c_flwsp'', ''C_FLWSP''), (''c_fsd'', ''C_FSD''), (''c_fsdsp'', ''C_FSDSP''),
     (''c_fsw'', ''C_FSW''), (''c_fswsp'', ''C_FSWSP''), (''c_j'', ''C_J''), (''c_jal'', ''C_JAL''),
     (''c_jalr'', ''C_JALR''), (''c_jr'', ''C_JR''), (''c_lbu'', ''C_LBU''), (''c_ld'', ''C_LD''),
     (''c_ldsp'', ''C_LDSP''), (''c_lh'', ''C_LH''), (''c_lhu'', ''C_LHU''), (''c_li'', ''C_LI''),
     (''c_lui'', ''C_LUI''), (''c_lw'', ''C_LW''), (''c_lwsp'', ''C_LWSP''), (''c_mop_1'', ''C_MOP_1''),
     (''c_mop_11'', ''C_MOP_11''), (''c_mop_13'', ''C_MOP_13''), (''c_mop_15'', ''C_MOP_15''),
     (''c_mop_3'', ''C_MOP_3''), (''c_mop_5'', ''C_MOP_5''), (''c_mop_7'', ''C_MOP_7''),
     (''c_mop_9'', ''C_MOP_9''), (''c_mop_N'', ''C_MOP_N''), (''c_mul'', ''C_MUL''), (''c_mv'', ''C_MV''),
     (''c_nop'', ''C_NOP''), (''c_not'', ''C_NOT''), (''c_or'', ''C_OR''), (''c_sb'', ''C_SB''),
     (''c_sd'', ''C_SD''), (''c_sdsp'', ''C_SDSP''), (''c_sext_b'', ''C_SEXT_B''),
     (''c_sext_h'', ''C_SEXT_H''), (''c_sh'', ''C_SH''), (''c_slli'', ''C_SLLI''), (''c_srai'', ''C_SRAI''),
     (''c_srli'', ''C_SRLI''), (''c_sspopchk_x5'', ''C_SSPOPCHK_X5''), (''c_sspush_x1'', ''C_SSPUSH_X1''),
     (''c_sub'', ''C_SUB''), (''c_subw'', ''C_SUBW''), (''c_sw'', ''C_SW''), (''c_swsp'', ''C_SWSP''),
     (''c_xor'', ''C_XOR''), (''c_zext_b'', ''C_ZEXT_B''), (''c_zext_h'', ''C_ZEXT_H''),
     (''c_zext_w'', ''C_ZEXT_W''), (''cbo_clean'', ''CBO_CLEAN''), (''cbo_flush'', ''CBO_FLUSH''),
     (''cbo_inval'', ''CBO_INVAL''), (''cbo_zero'', ''CBO_ZERO''), (''clmul'', ''CLMUL''),
     (''clmulh'', ''CLMULH''), (''clmulr'', ''CLMULR''), (''clz'', ''CLZ''), (''clzw'', ''CLZW''),
     (''cm_jalt'', ''CM_JALT'')]"

definition insn_decls_3 :: "(string \<times> string) list" where
  "insn_decls_3 = [(''cm_mva01s'', ''CM_MVA01S''), (''cm_mvsa01'', ''CM_MVSA01''), (''cm_pop'', ''CM_POP''),
     (''cm_popret'', ''CM_POPRET''), (''cm_popretz'', ''CM_POPRETZ''), (''cm_push'', ''CM_PUSH''),
     (''cpop'', ''CPOP''), (''cpopw'', ''CPOPW''), (''csrrc'', ''CSRRC''), (''csrrci'', ''CSRRCI''),
     (''csrrs'', ''CSRRS''), (''csrrsi'', ''CSRRSI''), (''csrrw'', ''CSRRW''), (''csrrwi'', ''CSRRWI''),
     (''ctz'', ''CTZ''), (''ctzw'', ''CTZW''), (''czero_eqz'', ''CZERO_EQZ''),
     (''czero_nez'', ''CZERO_NEZ''), (''div'', ''DIV''), (''divu'', ''DIVU''), (''divuw'', ''DIVUW''),
     (''divw'', ''DIVW''), (''dret'', ''DRET''), (''ebreak'', ''EBREAK''), (''ecall'', ''ECALL''),
     (''fadd_d'', ''FADD_D''), (''fadd_h'', ''FADD_H''), (''fadd_q'', ''FADD_Q''), (''fadd_s'', ''FADD_S''),
     (''fclass_d'', ''FCLASS_D''), (''fclass_h'', ''FCLASS_H''), (''fclass_q'', ''FCLASS_Q''),
     (''fclass_s'', ''FCLASS_S''), (''fcvt_bf16_s'', ''FCVT_BF16_S''), (''fcvt_d_h'', ''FCVT_D_H''),
     (''fcvt_d_l'', ''FCVT_D_L''), (''fcvt_d_lu'', ''FCVT_D_LU''), (''fcvt_d_q'', ''FCVT_D_Q''),
     (''fcvt_d_s'', ''FCVT_D_S''), (''fcvt_d_w'', ''FCVT_D_W''), (''fcvt_d_wu'', ''FCVT_D_WU''),
     (''fcvt_h_d'', ''FCVT_H_D''), (''fcvt_h_l'', ''FCVT_H_L''), (''fcvt_h_lu'', ''FCVT_H_LU''),
     (''fcvt_h_q'', ''FCVT_H_Q''), (''fcvt_h_s'', ''FCVT_H_S''), (''fcvt_h_w'', ''FCVT_H_W''),
     (''fcvt_h_wu'', ''FCVT_H_WU''), (''fcvt_l_d'', ''FCVT_L_D''), (''fcvt_l_h'', ''FCVT_L_H''),
     (''fcvt_l_q'', ''FCVT_L_Q''), (''fcvt_l_s'', ''FCVT_L_S''), (''fcvt_lu_d'', ''FCVT_LU_D''),
     (''fcvt_lu_h'', ''FCVT_LU_H''), (''fcvt_lu_q'', ''FCVT_LU_Q''), (''fcvt_lu_s'', ''FCVT_LU_S''),
     (''fcvt_q_d'', ''FCVT_Q_D''), (''fcvt_q_h'', ''FCVT_Q_H''), (''fcvt_q_l'', ''FCVT_Q_L''),
     (''fcvt_q_lu'', ''FCVT_Q_LU''), (''fcvt_q_s'', ''FCVT_Q_S''), (''fcvt_q_w'', ''FCVT_Q_W''),
     (''fcvt_q_wu'', ''FCVT_Q_WU''), (''fcvt_s_bf16'', ''FCVT_S_BF16''), (''fcvt_s_d'', ''FCVT_S_D''),
     (''fcvt_s_h'', ''FCVT_S_H''), (''fcvt_s_l'', ''FCVT_S_L''), (''fcvt_s_lu'', ''FCVT_S_LU''),
     (''fcvt_s_q'', ''FCVT_S_Q''), (''fcvt_s_w'', ''FCVT_S_W''), (''fcvt_s_wu'', ''FCVT_S_WU''),
     (''fcvt_w_d'', ''FCVT_W_D''), (''fcvt_w_h'', ''FCVT_W_H''), (''fcvt_w_q'', ''FCVT_W_Q''),
     (''fcvt_w_s'', ''FCVT_W_S'')]"

definition insn_decls_4 :: "(string \<times> string) list" where
  "insn_decls_4 = [(''fcvt_wu_d'', ''FCVT_WU_D''), (''fcvt_wu_h'', ''FCVT_WU_H''),
     (''fcvt_wu_q'', ''FCVT_WU_Q''), (''fcvt_wu_s'', ''FCVT_WU_S''), (''fcvtmod_w_d'', ''FCVTMOD_W_D''),
     (''fdiv_d'', ''FDIV_D''), (''fdiv_h'', ''FDIV_H''), (''fdiv_q'', ''FDIV_Q''), (''fdiv_s'', ''FDIV_S''),
     (''fence'', ''FENCE''), (''fence_i'', ''FENCE_I''), (''feq_d'', ''FEQ_D''), (''feq_h'', ''FEQ_H''),
     (''feq_q'', ''FEQ_Q''), (''feq_s'', ''FEQ_S''), (''fld'', ''FLD''), (''fle_d'', ''FLE_D''),
     (''fle_h'', ''FLE_H''), (''fle_q'', ''FLE_Q''), (''fle_s'', ''FLE_S''), (''fleq_d'', ''FLEQ_D''),
     (''fleq_h'', ''FLEQ_H''), (''fleq_q'', ''FLEQ_Q''), (''fleq_s'', ''FLEQ_S''), (''flh'', ''FLH''),
     (''fli_d'', ''FLI_D''), (''fli_h'', ''FLI_H''), (''fli_q'', ''FLI_Q''), (''fli_s'', ''FLI_S''),
     (''flq'', ''FLQ''), (''flt_d'', ''FLT_D''), (''flt_h'', ''FLT_H''), (''flt_q'', ''FLT_Q''),
     (''flt_s'', ''FLT_S''), (''fltq_d'', ''FLTQ_D''), (''fltq_h'', ''FLTQ_H''), (''fltq_q'', ''FLTQ_Q''),
     (''fltq_s'', ''FLTQ_S''), (''flw'', ''FLW''), (''fmadd_d'', ''FMADD_D''), (''fmadd_h'', ''FMADD_H''),
     (''fmadd_q'', ''FMADD_Q''), (''fmadd_s'', ''FMADD_S''), (''fmax_d'', ''FMAX_D''),
     (''fmax_h'', ''FMAX_H''), (''fmax_q'', ''FMAX_Q''), (''fmax_s'', ''FMAX_S''),
     (''fmaxm_d'', ''FMAXM_D''), (''fmaxm_h'', ''FMAXM_H''), (''fmaxm_q'', ''FMAXM_Q''),
     (''fmaxm_s'', ''FMAXM_S''), (''fmin_d'', ''FMIN_D''), (''fmin_h'', ''FMIN_H''),
     (''fmin_q'', ''FMIN_Q''), (''fmin_s'', ''FMIN_S''), (''fminm_d'', ''FMINM_D''),
     (''fminm_h'', ''FMINM_H''), (''fminm_q'', ''FMINM_Q''), (''fminm_s'', ''FMINM_S''),
     (''fmsub_d'', ''FMSUB_D''), (''fmsub_h'', ''FMSUB_H''), (''fmsub_q'', ''FMSUB_Q''),
     (''fmsub_s'', ''FMSUB_S''), (''fmul_d'', ''FMUL_D''), (''fmul_h'', ''FMUL_H''),
     (''fmul_q'', ''FMUL_Q''), (''fmul_s'', ''FMUL_S''), (''fmv_d_x'', ''FMV_D_X''),
     (''fmv_h_x'', ''FMV_H_X''), (''fmv_w_x'', ''FMV_W_X''), (''fmv_x_d'', ''FMV_X_D''),
     (''fmv_x_h'', ''FMV_X_H''), (''fmv_x_w'', ''FMV_X_W''), (''fmvh_x_d'', ''FMVH_X_D''),
     (''fmvh_x_q'', ''FMVH_X_Q'')]"

definition insn_decls_5 :: "(string \<times> string) list" where
  "insn_decls_5 = [(''fmvp_d_x'', ''FMVP_D_X''), (''fmvp_q_x'', ''FMVP_Q_X''), (''fnmadd_d'', ''FNMADD_D''),
     (''fnmadd_h'', ''FNMADD_H''), (''fnmadd_q'', ''FNMADD_Q''), (''fnmadd_s'', ''FNMADD_S''),
     (''fnmsub_d'', ''FNMSUB_D''), (''fnmsub_h'', ''FNMSUB_H''), (''fnmsub_q'', ''FNMSUB_Q''),
     (''fnmsub_s'', ''FNMSUB_S''), (''fround_d'', ''FROUND_D''), (''fround_h'', ''FROUND_H''),
     (''fround_q'', ''FROUND_Q''), (''fround_s'', ''FROUND_S''), (''froundnx_d'', ''FROUNDNX_D''),
     (''froundnx_h'', ''FROUNDNX_H''), (''froundnx_q'', ''FROUNDNX_Q''), (''froundnx_s'', ''FROUNDNX_S''),
     (''fsd'', ''FSD''), (''fsgnj_d'', ''FSGNJ_D''), (''fsgnj_h'', ''FSGNJ_H''), (''fsgnj_q'', ''FSGNJ_Q''),
     (''fsgnj_s'', ''FSGNJ_S''), (''fsgnjn_d'', ''FSGNJN_D''), (''fsgnjn_h'', ''FSGNJN_H''),
     (''fsgnjn_q'', ''FSGNJN_Q''), (''fsgnjn_s'', ''FSGNJN_S''), (''fsgnjx_d'', ''FSGNJX_D''),
     (''fsgnjx_h'', ''FSGNJX_H''), (''fsgnjx_q'', ''FSGNJX_Q''), (''fsgnjx_s'', ''FSGNJX_S''),
     (''fsh'', ''FSH''), (''fsq'', ''FSQ''), (''fsqrt_d'', ''FSQRT_D''), (''fsqrt_h'', ''FSQRT_H''),
     (''fsqrt_q'', ''FSQRT_Q''), (''fsqrt_s'', ''FSQRT_S''), (''fsub_d'', ''FSUB_D''),
     (''fsub_h'', ''FSUB_H''), (''fsub_q'', ''FSUB_Q''), (''fsub_s'', ''FSUB_S''), (''fsw'', ''FSW''),
     (''gorci'', ''GORCI''), (''grevi'', ''GREVI''), (''hfence_gvma'', ''HFENCE_GVMA''),
     (''hfence_vvma'', ''HFENCE_VVMA''), (''hinval_gvma'', ''HINVAL_GVMA''),
     (''hinval_vvma'', ''HINVAL_VVMA''), (''hlv_b'', ''HLV_B''), (''hlv_bu'', ''HLV_BU''),
     (''hlv_d'', ''HLV_D''), (''hlv_h'', ''HLV_H''), (''hlv_hu'', ''HLV_HU''), (''hlv_w'', ''HLV_W''),
     (''hlv_wu'', ''HLV_WU''), (''hlvx_hu'', ''HLVX_HU''), (''hlvx_wu'', ''HLVX_WU''),
     (''hsv_b'', ''HSV_B''), (''hsv_d'', ''HSV_D''), (''hsv_h'', ''HSV_H''), (''hsv_w'', ''HSV_W''),
     (''jal'', ''JAL''), (''jalr'', ''JALR''), (''lb'', ''LB''), (''lb_aq'', ''LB_AQ''), (''lbu'', ''LBU''),
     (''ld'', ''LD''), (''ld_aq'', ''LD_AQ''), (''lh'', ''LH''), (''lh_aq'', ''LH_AQ''), (''lhu'', ''LHU''),
     (''lpad'', ''LPAD''), (''lr_d'', ''LR_D''), (''lr_w'', ''LR_W''), (''lui'', ''LUI'')]"

definition insn_decls_6 :: "(string \<times> string) list" where
  "insn_decls_6 = [(''lw'', ''LW''), (''lw_aq'', ''LW_AQ''), (''lwu'', ''LWU''), (''max'', ''MAX''),
     (''maxu'', ''MAXU''), (''min'', ''MIN''), (''minu'', ''MINU''), (''mnret'', ''MNRET''),
     (''mop_r_0'', ''MOP_R_0''), (''mop_r_1'', ''MOP_R_1''), (''mop_r_10'', ''MOP_R_10''),
     (''mop_r_11'', ''MOP_R_11''), (''mop_r_12'', ''MOP_R_12''), (''mop_r_13'', ''MOP_R_13''),
     (''mop_r_14'', ''MOP_R_14''), (''mop_r_15'', ''MOP_R_15''), (''mop_r_16'', ''MOP_R_16''),
     (''mop_r_17'', ''MOP_R_17''), (''mop_r_18'', ''MOP_R_18''), (''mop_r_19'', ''MOP_R_19''),
     (''mop_r_2'', ''MOP_R_2''), (''mop_r_20'', ''MOP_R_20''), (''mop_r_21'', ''MOP_R_21''),
     (''mop_r_22'', ''MOP_R_22''), (''mop_r_23'', ''MOP_R_23''), (''mop_r_24'', ''MOP_R_24''),
     (''mop_r_25'', ''MOP_R_25''), (''mop_r_26'', ''MOP_R_26''), (''mop_r_27'', ''MOP_R_27''),
     (''mop_r_28'', ''MOP_R_28''), (''mop_r_29'', ''MOP_R_29''), (''mop_r_3'', ''MOP_R_3''),
     (''mop_r_30'', ''MOP_R_30''), (''mop_r_31'', ''MOP_R_31''), (''mop_r_4'', ''MOP_R_4''),
     (''mop_r_5'', ''MOP_R_5''), (''mop_r_6'', ''MOP_R_6''), (''mop_r_7'', ''MOP_R_7''),
     (''mop_r_8'', ''MOP_R_8''), (''mop_r_9'', ''MOP_R_9''), (''mop_r_N'', ''MOP_R_N''),
     (''mop_rr_0'', ''MOP_RR_0''), (''mop_rr_1'', ''MOP_RR_1''), (''mop_rr_2'', ''MOP_RR_2''),
     (''mop_rr_3'', ''MOP_RR_3''), (''mop_rr_4'', ''MOP_RR_4''), (''mop_rr_5'', ''MOP_RR_5''),
     (''mop_rr_6'', ''MOP_RR_6''), (''mop_rr_7'', ''MOP_RR_7''), (''mop_rr_N'', ''MOP_RR_N''),
     (''mret'', ''MRET''), (''mul'', ''MUL''), (''mulh'', ''MULH''), (''mulhsu'', ''MULHSU''),
     (''mulhu'', ''MULHU''), (''mulw'', ''MULW''), (''or'', ''OR''), (''ori'', ''ORI''), (''orn'', ''ORN''),
     (''pack'', ''PACK''), (''packh'', ''PACKH''), (''packw'', ''PACKW''), (''pause'', ''PAUSE''),
     (''prefetch_i'', ''PREFETCH_I''), (''prefetch_r'', ''PREFETCH_R''), (''prefetch_w'', ''PREFETCH_W''),
     (''rem'', ''REM''), (''remu'', ''REMU''), (''remuw'', ''REMUW''), (''remw'', ''REMW''),
     (''rol'', ''ROL''), (''rolw'', ''ROLW''), (''ror'', ''ROR''), (''rori'', ''RORI''),
     (''roriw'', ''RORIW'')]"

definition insn_decls_7 :: "(string \<times> string) list" where
  "insn_decls_7 = [(''rorw'', ''RORW''), (''sb'', ''SB''), (''sb_rl'', ''SB_RL''), (''sc_d'', ''SC_D''),
     (''sc_w'', ''SC_W''), (''sd'', ''SD''), (''sd_rl'', ''SD_RL''), (''sext_b'', ''SEXT_B''),
     (''sext_h'', ''SEXT_H''), (''sfence_inval_ir'', ''SFENCE_INVAL_IR''), (''sfence_vma'', ''SFENCE_VMA''),
     (''sfence_w_inval'', ''SFENCE_W_INVAL''), (''sh'', ''SH''), (''sh1add'', ''SH1ADD''),
     (''sh1add_uw'', ''SH1ADD_UW''), (''sh2add'', ''SH2ADD''), (''sh2add_uw'', ''SH2ADD_UW''),
     (''sh3add'', ''SH3ADD''), (''sh3add_uw'', ''SH3ADD_UW''), (''sh_rl'', ''SH_RL''),
     (''sha256sig0'', ''SHA256SIG0''), (''sha256sig1'', ''SHA256SIG1''), (''sha256sum0'', ''SHA256SUM0''),
     (''sha256sum1'', ''SHA256SUM1''), (''sha512sig0'', ''SHA512SIG0''), (''sha512sig0h'', ''SHA512SIG0H''),
     (''sha512sig0l'', ''SHA512SIG0L''), (''sha512sig1'', ''SHA512SIG1''),
     (''sha512sig1h'', ''SHA512SIG1H''), (''sha512sig1l'', ''SHA512SIG1L''),
     (''sha512sum0'', ''SHA512SUM0''), (''sha512sum0r'', ''SHA512SUM0R''), (''sha512sum1'', ''SHA512SUM1''),
     (''sha512sum1r'', ''SHA512SUM1R''), (''shfli'', ''SHFLI''), (''sinval_vma'', ''SINVAL_VMA''),
     (''sll'', ''SLL''), (''slli'', ''SLLI''), (''slli_rv32'', ''SLLI_RV32''), (''slli_uw'', ''SLLI_UW''),
     (''slliw'', ''SLLIW''), (''sllw'', ''SLLW''), (''slt'', ''SLT''), (''slti'', ''SLTI''),
     (''sltiu'', ''SLTIU''), (''sltu'', ''SLTU''), (''sm3p0'', ''SM3P0''), (''sm3p1'', ''SM3P1''),
     (''sm4ed'', ''SM4ED''), (''sm4ks'', ''SM4KS''), (''sra'', ''SRA''), (''srai'', ''SRAI''),
     (''srai_rv32'', ''SRAI_RV32''), (''sraiw'', ''SRAIW''), (''sraw'', ''SRAW''), (''sret'', ''SRET''),
     (''srl'', ''SRL''), (''srli'', ''SRLI''), (''srli_rv32'', ''SRLI_RV32''), (''srliw'', ''SRLIW''),
     (''srlw'', ''SRLW''), (''ssamoswap_d'', ''SSAMOSWAP_D''), (''ssamoswap_w'', ''SSAMOSWAP_W''),
     (''sspopchk_x1'', ''SSPOPCHK_X1''), (''sspopchk_x5'', ''SSPOPCHK_X5''), (''sspush_x1'', ''SSPUSH_X1''),
     (''sspush_x5'', ''SSPUSH_X5''), (''ssrdp'', ''SSRDP''), (''sub'', ''SUB''), (''subw'', ''SUBW''),
     (''sw'', ''SW''), (''sw_rl'', ''SW_RL''), (''unshfli'', ''UNSHFLI''), (''vaadd_vv'', ''VAADD_VV''),
     (''vaadd_vx'', ''VAADD_VX'')]"

definition insn_decls_8 :: "(string \<times> string) list" where
  "insn_decls_8 = [(''vaaddu_vv'', ''VAADDU_VV''), (''vaaddu_vx'', ''VAADDU_VX''),
     (''vadc_vim'', ''VADC_VIM''), (''vadc_vvm'', ''VADC_VVM''), (''vadc_vxm'', ''VADC_VXM''),
     (''vadd_vi'', ''VADD_VI''), (''vadd_vv'', ''VADD_VV''), (''vadd_vx'', ''VADD_VX''),
     (''vaesdf_vs'', ''VAESDF_VS''), (''vaesdf_vv'', ''VAESDF_VV''), (''vaesdm_vs'', ''VAESDM_VS''),
     (''vaesdm_vv'', ''VAESDM_VV''), (''vaesef_vs'', ''VAESEF_VS''), (''vaesef_vv'', ''VAESEF_VV''),
     (''vaesem_vs'', ''VAESEM_VS''), (''vaesem_vv'', ''VAESEM_VV''), (''vaeskf1_vi'', ''VAESKF1_VI''),
     (''vaeskf2_vi'', ''VAESKF2_VI''), (''vaesz_vs'', ''VAESZ_VS''), (''vand_vi'', ''VAND_VI''),
     (''vand_vv'', ''VAND_VV''), (''vand_vx'', ''VAND_VX''), (''vandn_vv'', ''VANDN_VV''),
     (''vandn_vx'', ''VANDN_VX''), (''vasub_vv'', ''VASUB_VV''), (''vasub_vx'', ''VASUB_VX''),
     (''vasubu_vv'', ''VASUBU_VV''), (''vasubu_vx'', ''VASUBU_VX''), (''vbrev8_v'', ''VBREV8_V''),
     (''vbrev_v'', ''VBREV_V''), (''vclmul_vv'', ''VCLMUL_VV''), (''vclmul_vx'', ''VCLMUL_VX''),
     (''vclmulh_vv'', ''VCLMULH_VV''), (''vclmulh_vx'', ''VCLMULH_VX''), (''vclz_v'', ''VCLZ_V''),
     (''vcompress_vm'', ''VCOMPRESS_VM''), (''vcpop_m'', ''VCPOP_M''), (''vcpop_v'', ''VCPOP_V''),
     (''vctz_v'', ''VCTZ_V''), (''vdiv_vv'', ''VDIV_VV''), (''vdiv_vx'', ''VDIV_VX''),
     (''vdivu_vv'', ''VDIVU_VV''), (''vdivu_vx'', ''VDIVU_VX''), (''vfadd_vf'', ''VFADD_VF''),
     (''vfadd_vv'', ''VFADD_VV''), (''vfclass_v'', ''VFCLASS_V''), (''vfcvt_f_x_v'', ''VFCVT_F_X_V''),
     (''vfcvt_f_xu_v'', ''VFCVT_F_XU_V''), (''vfcvt_rtz_x_f_v'', ''VFCVT_RTZ_X_F_V''),
     (''vfcvt_rtz_xu_f_v'', ''VFCVT_RTZ_XU_F_V''), (''vfcvt_x_f_v'', ''VFCVT_X_F_V''),
     (''vfcvt_xu_f_v'', ''VFCVT_XU_F_V''), (''vfdiv_vf'', ''VFDIV_VF''), (''vfdiv_vv'', ''VFDIV_VV''),
     (''vfirst_m'', ''VFIRST_M''), (''vfmacc_vf'', ''VFMACC_VF''), (''vfmacc_vv'', ''VFMACC_VV''),
     (''vfmadd_vf'', ''VFMADD_VF''), (''vfmadd_vv'', ''VFMADD_VV''), (''vfmax_vf'', ''VFMAX_VF''),
     (''vfmax_vv'', ''VFMAX_VV''), (''vfmerge_vfm'', ''VFMERGE_VFM''), (''vfmin_vf'', ''VFMIN_VF''),
     (''vfmin_vv'', ''VFMIN_VV''), (''vfmsac_vf'', ''VFMSAC_VF''), (''vfmsac_vv'', ''VFMSAC_VV''),
     (''vfmsub_vf'', ''VFMSUB_VF''), (''vfmsub_vv'', ''VFMSUB_VV''), (''vfmul_vf'', ''VFMUL_VF''),
     (''vfmul_vv'', ''VFMUL_VV''), (''vfmv_f_s'', ''VFMV_F_S''), (''vfmv_s_f'', ''VFMV_S_F''),
     (''vfmv_v_f'', ''VFMV_V_F''), (''vfncvt_f_f_w'', ''VFNCVT_F_F_W''),
     (''vfncvt_f_x_w'', ''VFNCVT_F_X_W'')]"

definition insn_decls_9 :: "(string \<times> string) list" where
  "insn_decls_9 = [(''vfncvt_f_xu_w'', ''VFNCVT_F_XU_W''), (''vfncvt_rod_f_f_w'', ''VFNCVT_ROD_F_F_W''),
     (''vfncvt_rtz_x_f_w'', ''VFNCVT_RTZ_X_F_W''), (''vfncvt_rtz_xu_f_w'', ''VFNCVT_RTZ_XU_F_W''),
     (''vfncvt_x_f_w'', ''VFNCVT_X_F_W''), (''vfncvt_xu_f_w'', ''VFNCVT_XU_F_W''),
     (''vfncvtbf16_f_f_w'', ''VFNCVTBF16_F_F_W''), (''vfnmacc_vf'', ''VFNMACC_VF''),
     (''vfnmacc_vv'', ''VFNMACC_VV''), (''vfnmadd_vf'', ''VFNMADD_VF''), (''vfnmadd_vv'', ''VFNMADD_VV''),
     (''vfnmsac_vf'', ''VFNMSAC_VF''), (''vfnmsac_vv'', ''VFNMSAC_VV''), (''vfnmsub_vf'', ''VFNMSUB_VF''),
     (''vfnmsub_vv'', ''VFNMSUB_VV''), (''vfrdiv_vf'', ''VFRDIV_VF''), (''vfrec7_v'', ''VFREC7_V''),
     (''vfredmax_vs'', ''VFREDMAX_VS''), (''vfredmin_vs'', ''VFREDMIN_VS''),
     (''vfredosum_vs'', ''VFREDOSUM_VS''), (''vfredusum_vs'', ''VFREDUSUM_VS''),
     (''vfrsqrt7_v'', ''VFRSQRT7_V''), (''vfrsub_vf'', ''VFRSUB_VF''), (''vfsgnj_vf'', ''VFSGNJ_VF''),
     (''vfsgnj_vv'', ''VFSGNJ_VV''), (''vfsgnjn_vf'', ''VFSGNJN_VF''), (''vfsgnjn_vv'', ''VFSGNJN_VV''),
     (''vfsgnjx_vf'', ''VFSGNJX_VF''), (''vfsgnjx_vv'', ''VFSGNJX_VV''),
     (''vfslide1down_vf'', ''VFSLIDE1DOWN_VF''), (''vfslide1up_vf'', ''VFSLIDE1UP_VF''),
     (''vfsqrt_v'', ''VFSQRT_V''), (''vfsub_vf'', ''VFSUB_VF''), (''vfsub_vv'', ''VFSUB_VV''),
     (''vfwadd_vf'', ''VFWADD_VF''), (''vfwadd_vv'', ''VFWADD_VV''), (''vfwadd_wf'', ''VFWADD_WF''),
     (''vfwadd_wv'', ''VFWADD_WV''), (''vfwcvt_f_f_v'', ''VFWCVT_F_F_V''),
     (''vfwcvt_f_x_v'', ''VFWCVT_F_X_V''), (''vfwcvt_f_xu_v'', ''VFWCVT_F_XU_V''),
     (''vfwcvt_rtz_x_f_v'', ''VFWCVT_RTZ_X_F_V''), (''vfwcvt_rtz_xu_f_v'', ''VFWCVT_RTZ_XU_F_V''),
     (''vfwcvt_x_f_v'', ''VFWCVT_X_F_V''), (''vfwcvt_xu_f_v'', ''VFWCVT_XU_F_V''),
     (''vfwcvtbf16_f_f_v'', ''VFWCVTBF16_F_F_V''), (''vfwmacc_vf'', ''VFWMACC_VF''),
     (''vfwmacc_vv'', ''VFWMACC_VV''), (''vfwmaccbf16_vf'', ''VFWMACCBF16_VF''),
     (''vfwmaccbf16_vv'', ''VFWMACCBF16_VV''), (''vfwmsac_vf'', ''VFWMSAC_VF''),
     (''vfwmsac_vv'', ''VFWMSAC_VV''), (''vfwmul_vf'', ''VFWMUL_VF''), (''vfwmul_vv'', ''VFWMUL_VV''),
     (''vfwnmacc_vf'', ''VFWNMACC_VF''), (''vfwnmacc_vv'', ''VFWNMACC_VV''),
     (''vfwnmsac_vf'', ''VFWNMSAC_VF''), (''vfwnmsac_vv'', ''VFWNMSAC_VV''),
     (''vfwredosum_vs'', ''VFWREDOSUM_VS''), (''vfwredusum_vs'', ''VFWREDUSUM_VS''),
     (''vfwsub_vf'', ''VFWSUB_VF''), (''vfwsub_vv'', ''VFWSUB_VV''), (''vfwsub_wf'', ''VFWSUB_WF''),
     (''vfwsub_wv'', ''VFWSUB_WV''), (''vghsh_vv'', ''VGHSH_VV''), (''vgmul_vv'', ''VGMUL_VV''),
     (''vid_v'', ''VID_V''), (''viota_m'', ''VIOTA_M''), (''vl1re16_v'', ''VL1RE16_V''),
     (''vl1re32_v'', ''VL1RE32_V''), (''vl1re64_v'', ''VL1RE64_V''), (''vl1re8_v'', ''VL1RE8_V''),
     (''vl2re16_v'', ''VL2RE16_V''), (''vl2re32_v'', ''VL2RE32_V''), (''vl2re64_v'', ''VL2RE64_V'')]"

definition insn_decls_10 :: "(string \<times> string) list" where
  "insn_decls_10 = [(''vl2re8_v'', ''VL2RE8_V''), (''vl4re16_v'', ''VL4RE16_V''),
     (''vl4re32_v'', ''VL4RE32_V''), (''vl4re64_v'', ''VL4RE64_V''), (''vl4re8_v'', ''VL4RE8_V''),
     (''vl8re16_v'', ''VL8RE16_V''), (''vl8re32_v'', ''VL8RE32_V''), (''vl8re64_v'', ''VL8RE64_V''),
     (''vl8re8_v'', ''VL8RE8_V''), (''vle16_v'', ''VLE16_V''), (''vle16ff_v'', ''VLE16FF_V''),
     (''vle32_v'', ''VLE32_V''), (''vle32ff_v'', ''VLE32FF_V''), (''vle64_v'', ''VLE64_V''),
     (''vle64ff_v'', ''VLE64FF_V''), (''vle8_v'', ''VLE8_V''), (''vle8ff_v'', ''VLE8FF_V''),
     (''vlm_v'', ''VLM_V''), (''vloxei16_v'', ''VLOXEI16_V''), (''vloxei32_v'', ''VLOXEI32_V''),
     (''vloxei64_v'', ''VLOXEI64_V''), (''vloxei8_v'', ''VLOXEI8_V''), (''vlse16_v'', ''VLSE16_V''),
     (''vlse32_v'', ''VLSE32_V''), (''vlse64_v'', ''VLSE64_V''), (''vlse8_v'', ''VLSE8_V''),
     (''vluxei16_v'', ''VLUXEI16_V''), (''vluxei32_v'', ''VLUXEI32_V''), (''vluxei64_v'', ''VLUXEI64_V''),
     (''vluxei8_v'', ''VLUXEI8_V''), (''vmacc_vv'', ''VMACC_VV''), (''vmacc_vx'', ''VMACC_VX''),
     (''vmadc_vi'', ''VMADC_VI''), (''vmadc_vim'', ''VMADC_VIM''), (''vmadc_vv'', ''VMADC_VV''),
     (''vmadc_vvm'', ''VMADC_VVM''), (''vmadc_vx'', ''VMADC_VX''), (''vmadc_vxm'', ''VMADC_VXM''),
     (''vmadd_vv'', ''VMADD_VV''), (''vmadd_vx'', ''VMADD_VX''), (''vmand_mm'', ''VMAND_MM''),
     (''vmandn_mm'', ''VMANDN_MM''), (''vmax_vv'', ''VMAX_VV''), (''vmax_vx'', ''VMAX_VX''),
     (''vmaxu_vv'', ''VMAXU_VV''), (''vmaxu_vx'', ''VMAXU_VX''), (''vmerge_vim'', ''VMERGE_VIM''),
     (''vmerge_vvm'', ''VMERGE_VVM''), (''vmerge_vxm'', ''VMERGE_VXM''), (''vmfeq_vf'', ''VMFEQ_VF''),
     (''vmfeq_vv'', ''VMFEQ_VV''), (''vmfge_vf'', ''VMFGE_VF''), (''vmfgt_vf'', ''VMFGT_VF''),
     (''vmfle_vf'', ''VMFLE_VF''), (''vmfle_vv'', ''VMFLE_VV''), (''vmflt_vf'', ''VMFLT_VF''),
     (''vmflt_vv'', ''VMFLT_VV''), (''vmfne_vf'', ''VMFNE_VF''), (''vmfne_vv'', ''VMFNE_VV''),
     (''vmin_vv'', ''VMIN_VV''), (''vmin_vx'', ''VMIN_VX''), (''vminu_vv'', ''VMINU_VV''),
     (''vminu_vx'', ''VMINU_VX''), (''vmnand_mm'', ''VMNAND_MM''), (''vmnor_mm'', ''VMNOR_MM''),
     (''vmor_mm'', ''VMOR_MM''), (''vmorn_mm'', ''VMORN_MM''), (''vmsbc_vv'', ''VMSBC_VV''),
     (''vmsbc_vvm'', ''VMSBC_VVM''), (''vmsbc_vx'', ''VMSBC_VX''), (''vmsbc_vxm'', ''VMSBC_VXM''),
     (''vmsbf_m'', ''VMSBF_M''), (''vmseq_vi'', ''VMSEQ_VI''), (''vmseq_vv'', ''VMSEQ_VV''),
     (''vmseq_vx'', ''VMSEQ_VX'')]"

definition insn_decls_11 :: "(string \<times> string) list" where
  "insn_decls_11 = [(''vmsgt_vi'', ''VMSGT_VI''), (''vmsgt_vx'', ''VMSGT_VX''),
     (''vmsgtu_vi'', ''VMSGTU_VI''), (''vmsgtu_vx'', ''VMSGTU_VX''), (''vmsif_m'', ''VMSIF_M''),
     (''vmsle_vi'', ''VMSLE_VI''), (''vmsle_vv'', ''VMSLE_VV''), (''vmsle_vx'', ''VMSLE_VX''),
     (''vmsleu_vi'', ''VMSLEU_VI''), (''vmsleu_vv'', ''VMSLEU_VV''), (''vmsleu_vx'', ''VMSLEU_VX''),
     (''vmslt_vv'', ''VMSLT_VV''), (''vmslt_vx'', ''VMSLT_VX''), (''vmsltu_vv'', ''VMSLTU_VV''),
     (''vmsltu_vx'', ''VMSLTU_VX''), (''vmsne_vi'', ''VMSNE_VI''), (''vmsne_vv'', ''VMSNE_VV''),
     (''vmsne_vx'', ''VMSNE_VX''), (''vmsof_m'', ''VMSOF_M''), (''vmul_vv'', ''VMUL_VV''),
     (''vmul_vx'', ''VMUL_VX''), (''vmulh_vv'', ''VMULH_VV''), (''vmulh_vx'', ''VMULH_VX''),
     (''vmulhsu_vv'', ''VMULHSU_VV''), (''vmulhsu_vx'', ''VMULHSU_VX''), (''vmulhu_vv'', ''VMULHU_VV''),
     (''vmulhu_vx'', ''VMULHU_VX''), (''vmv1r_v'', ''VMV1R_V''), (''vmv2r_v'', ''VMV2R_V''),
     (''vmv4r_v'', ''VMV4R_V''), (''vmv8r_v'', ''VMV8R_V''), (''vmv_s_x'', ''VMV_S_X''),
     (''vmv_v_i'', ''VMV_V_I''), (''vmv_v_v'', ''VMV_V_V''), (''vmv_v_x'', ''VMV_V_X''),
     (''vmv_x_s'', ''VMV_X_S''), (''vmxnor_mm'', ''VMXNOR_MM''), (''vmxor_mm'', ''VMXOR_MM''),
     (''vnclip_wi'', ''VNCLIP_WI''), (''vnclip_wv'', ''VNCLIP_WV''), (''vnclip_wx'', ''VNCLIP_WX''),
     (''vnclipu_wi'', ''VNCLIPU_WI''), (''vnclipu_wv'', ''VNCLIPU_WV''), (''vnclipu_wx'', ''VNCLIPU_WX''),
     (''vnmsac_vv'', ''VNMSAC_VV''), (''vnmsac_vx'', ''VNMSAC_VX''), (''vnmsub_vv'', ''VNMSUB_VV''),
     (''vnmsub_vx'', ''VNMSUB_VX''), (''vnsra_wi'', ''VNSRA_WI''), (''vnsra_wv'', ''VNSRA_WV''),
     (''vnsra_wx'', ''VNSRA_WX''), (''vnsrl_wi'', ''VNSRL_WI''), (''vnsrl_wv'', ''VNSRL_WV''),
     (''vnsrl_wx'', ''VNSRL_WX''), (''vor_vi'', ''VOR_VI''), (''vor_vv'', ''VOR_VV''),
     (''vor_vx'', ''VOR_VX''), (''vredand_vs'', ''VREDAND_VS''), (''vredmax_vs'', ''VREDMAX_VS''),
     (''vredmaxu_vs'', ''VREDMAXU_VS''), (''vredmin_vs'', ''VREDMIN_VS''),
     (''vredminu_vs'', ''VREDMINU_VS''), (''vredor_vs'', ''VREDOR_VS''), (''vredsum_vs'', ''VREDSUM_VS''),
     (''vredxor_vs'', ''VREDXOR_VS''), (''vrem_vv'', ''VREM_VV''), (''vrem_vx'', ''VREM_VX''),
     (''vremu_vv'', ''VREMU_VV''), (''vremu_vx'', ''VREMU_VX''), (''vrev8_v'', ''VREV8_V''),
     (''vrgather_vi'', ''VRGATHER_VI''), (''vrgather_vv'', ''VRGATHER_VV''),
     (''vrgather_vx'', ''VRGATHER_VX''), (''vrgatherei16_vv'', ''VRGATHEREI16_VV''),
     (''vrol_vv'', ''VROL_VV'')]"

definition insn_decls_12 :: "(string \<times> string) list" where
  "insn_decls_12 = [(''vrol_vx'', ''VROL_VX''), (''vror_vi'', ''VROR_VI''), (''vror_vv'', ''VROR_VV''),
     (''vror_vx'', ''VROR_VX''), (''vrsub_vi'', ''VRSUB_VI''), (''vrsub_vx'', ''VRSUB_VX''),
     (''vs1r_v'', ''VS1R_V''), (''vs2r_v'', ''VS2R_V''), (''vs4r_v'', ''VS4R_V''), (''vs8r_v'', ''VS8R_V''),
     (''vsadd_vi'', ''VSADD_VI''), (''vsadd_vv'', ''VSADD_VV''), (''vsadd_vx'', ''VSADD_VX''),
     (''vsaddu_vi'', ''VSADDU_VI''), (''vsaddu_vv'', ''VSADDU_VV''), (''vsaddu_vx'', ''VSADDU_VX''),
     (''vsbc_vvm'', ''VSBC_VVM''), (''vsbc_vxm'', ''VSBC_VXM''), (''vse16_v'', ''VSE16_V''),
     (''vse32_v'', ''VSE32_V''), (''vse64_v'', ''VSE64_V''), (''vse8_v'', ''VSE8_V''),
     (''vsetivli'', ''VSETIVLI''), (''vsetvl'', ''VSETVL''), (''vsetvli'', ''VSETVLI''),
     (''vsext_vf2'', ''VSEXT_VF2''), (''vsext_vf4'', ''VSEXT_VF4''), (''vsext_vf8'', ''VSEXT_VF8''),
     (''vsha2ch_vv'', ''VSHA2CH_VV''), (''vsha2cl_vv'', ''VSHA2CL_VV''), (''vsha2ms_vv'', ''VSHA2MS_VV''),
     (''vslide1down_vx'', ''VSLIDE1DOWN_VX''), (''vslide1up_vx'', ''VSLIDE1UP_VX''),
     (''vslidedown_vi'', ''VSLIDEDOWN_VI''), (''vslidedown_vx'', ''VSLIDEDOWN_VX''),
     (''vslideup_vi'', ''VSLIDEUP_VI''), (''vslideup_vx'', ''VSLIDEUP_VX''), (''vsll_vi'', ''VSLL_VI''),
     (''vsll_vv'', ''VSLL_VV''), (''vsll_vx'', ''VSLL_VX''), (''vsm3c_vi'', ''VSM3C_VI''),
     (''vsm3me_vv'', ''VSM3ME_VV''), (''vsm4k_vi'', ''VSM4K_VI''), (''vsm4r_vs'', ''VSM4R_VS''),
     (''vsm4r_vv'', ''VSM4R_VV''), (''vsm_v'', ''VSM_V''), (''vsmul_vv'', ''VSMUL_VV''),
     (''vsmul_vx'', ''VSMUL_VX''), (''vsoxei16_v'', ''VSOXEI16_V''), (''vsoxei32_v'', ''VSOXEI32_V''),
     (''vsoxei64_v'', ''VSOXEI64_V''), (''vsoxei8_v'', ''VSOXEI8_V''), (''vsra_vi'', ''VSRA_VI''),
     (''vsra_vv'', ''VSRA_VV''), (''vsra_vx'', ''VSRA_VX''), (''vsrl_vi'', ''VSRL_VI''),
     (''vsrl_vv'', ''VSRL_VV''), (''vsrl_vx'', ''VSRL_VX''), (''vsse16_v'', ''VSSE16_V''),
     (''vsse32_v'', ''VSSE32_V''), (''vsse64_v'', ''VSSE64_V''), (''vsse8_v'', ''VSSE8_V''),
     (''vssra_vi'', ''VSSRA_VI''), (''vssra_vv'', ''VSSRA_VV''), (''vssra_vx'', ''VSSRA_VX''),
     (''vssrl_vi'', ''VSSRL_VI''), (''vssrl_vv'', ''VSSRL_VV''), (''vssrl_vx'', ''VSSRL_VX''),
     (''vssub_vv'', ''VSSUB_VV''), (''vssub_vx'', ''VSSUB_VX''), (''vssubu_vv'', ''VSSUBU_VV''),
     (''vssubu_vx'', ''VSSUBU_VX''), (''vsub_vv'', ''VSUB_VV''), (''vsub_vx'', ''VSUB_VX''),
     (''vsuxei16_v'', ''VSUXEI16_V'')]"

definition insn_decls_13 :: "(string \<times> string) list" where
  "insn_decls_13 = [(''vsuxei32_v'', ''VSUXEI32_V''), (''vsuxei64_v'', ''VSUXEI64_V''),
     (''vsuxei8_v'', ''VSUXEI8_V''), (''vwadd_vv'', ''VWADD_VV''), (''vwadd_vx'', ''VWADD_VX''),
     (''vwadd_wv'', ''VWADD_WV''), (''vwadd_wx'', ''VWADD_WX''), (''vwaddu_vv'', ''VWADDU_VV''),
     (''vwaddu_vx'', ''VWADDU_VX''), (''vwaddu_wv'', ''VWADDU_WV''), (''vwaddu_wx'', ''VWADDU_WX''),
     (''vwmacc_vv'', ''VWMACC_VV''), (''vwmacc_vx'', ''VWMACC_VX''), (''vwmaccsu_vv'', ''VWMACCSU_VV''),
     (''vwmaccsu_vx'', ''VWMACCSU_VX''), (''vwmaccu_vv'', ''VWMACCU_VV''), (''vwmaccu_vx'', ''VWMACCU_VX''),
     (''vwmaccus_vx'', ''VWMACCUS_VX''), (''vwmul_vv'', ''VWMUL_VV''), (''vwmul_vx'', ''VWMUL_VX''),
     (''vwmulsu_vv'', ''VWMULSU_VV''), (''vwmulsu_vx'', ''VWMULSU_VX''), (''vwmulu_vv'', ''VWMULU_VV''),
     (''vwmulu_vx'', ''VWMULU_VX''), (''vwredsum_vs'', ''VWREDSUM_VS''),
     (''vwredsumu_vs'', ''VWREDSUMU_VS''), (''vwsll_vi'', ''VWSLL_VI''), (''vwsll_vv'', ''VWSLL_VV''),
     (''vwsll_vx'', ''VWSLL_VX''), (''vwsub_vv'', ''VWSUB_VV''), (''vwsub_vx'', ''VWSUB_VX''),
     (''vwsub_wv'', ''VWSUB_WV''), (''vwsub_wx'', ''VWSUB_WX''), (''vwsubu_vv'', ''VWSUBU_VV''),
     (''vwsubu_vx'', ''VWSUBU_VX''), (''vwsubu_wv'', ''VWSUBU_WV''), (''vwsubu_wx'', ''VWSUBU_WX''),
     (''vxor_vi'', ''VXOR_VI''), (''vxor_vv'', ''VXOR_VV''), (''vxor_vx'', ''VXOR_VX''),
     (''vzext_vf2'', ''VZEXT_VF2''), (''vzext_vf4'', ''VZEXT_VF4''), (''vzext_vf8'', ''VZEXT_VF8''),
     (''wfi'', ''WFI''), (''wrs_nto'', ''WRS_NTO''), (''wrs_sto'', ''WRS_STO''), (''xnor'', ''XNOR''),
     (''xor'', ''XOR''), (''xori'', ''XORI''), (''xperm16'', ''XPERM16''), (''xperm32'', ''XPERM32''),
     (''xperm4'', ''XPERM4''), (''xperm8'', ''XPERM8'')]"

definition insn_decls :: "(string \<times> string) list" where
  "insn_decls = concat [insn_decls_1, insn_decls_2, insn_decls_3, insn_decls_4, insn_decls_5, insn_decls_6, insn_decls_7,
     insn_decls_8, insn_decls_9, insn_decls_10, insn_decls_11, insn_decls_12, insn_decls_13]"

section \<open>DECLARE_CSR\<close>

definition csr_decls_1 :: "(string \<times> string) list" where
  "csr_decls_1 = [(''fflags'', ''FFLAGS''), (''frm'', ''FRM''), (''fcsr'', ''FCSR''),
     (''vstart'', ''VSTART''), (''vxsat'', ''VXSAT''), (''vxrm'', ''VXRM''), (''vcsr'', ''VCSR''),
     (''ssp'', ''SSP''), (''seed'', ''SEED''), (''jvt'', ''JVT''), (''cycle'', ''CYCLE''),
     (''time'', ''TIME''), (''instret'', ''INSTRET''), (''hpmcounter3'', ''HPMCOUNTER3''),
     (''hpmcounter4'', ''HPMCOUNTER4''), (''hpmcounter5'', ''HPMCOUNTER5''),
     (''hpmcounter6'', ''HPMCOUNTER6''), (''hpmcounter7'', ''HPMCOUNTER7''),
     (''hpmcounter8'', ''HPMCOUNTER8''), (''hpmcounter9'', ''HPMCOUNTER9''),
     (''hpmcounter10'', ''HPMCOUNTER10''), (''hpmcounter11'', ''HPMCOUNTER11''),
     (''hpmcounter12'', ''HPMCOUNTER12''), (''hpmcounter13'', ''HPMCOUNTER13''),
     (''hpmcounter14'', ''HPMCOUNTER14''), (''hpmcounter15'', ''HPMCOUNTER15''),
     (''hpmcounter16'', ''HPMCOUNTER16''), (''hpmcounter17'', ''HPMCOUNTER17''),
     (''hpmcounter18'', ''HPMCOUNTER18''), (''hpmcounter19'', ''HPMCOUNTER19''),
     (''hpmcounter20'', ''HPMCOUNTER20''), (''hpmcounter21'', ''HPMCOUNTER21''),
     (''hpmcounter22'', ''HPMCOUNTER22''), (''hpmcounter23'', ''HPMCOUNTER23''),
     (''hpmcounter24'', ''HPMCOUNTER24''), (''hpmcounter25'', ''HPMCOUNTER25''),
     (''hpmcounter26'', ''HPMCOUNTER26''), (''hpmcounter27'', ''HPMCOUNTER27''),
     (''hpmcounter28'', ''HPMCOUNTER28''), (''hpmcounter29'', ''HPMCOUNTER29''),
     (''hpmcounter30'', ''HPMCOUNTER30''), (''hpmcounter31'', ''HPMCOUNTER31''), (''vl'', ''VL''),
     (''vtype'', ''VTYPE''), (''vlenb'', ''VLENB''), (''sstatus'', ''SSTATUS''), (''sedeleg'', ''SEDELEG''),
     (''sideleg'', ''SIDELEG''), (''sie'', ''SIE''), (''stvec'', ''STVEC''),
     (''scounteren'', ''SCOUNTEREN''), (''senvcfg'', ''SENVCFG''), (''sstateen0'', ''SSTATEEN0''),
     (''sstateen1'', ''SSTATEEN1''), (''sstateen2'', ''SSTATEEN2''), (''sstateen3'', ''SSTATEEN3''),
     (''scountinhibit'', ''SCOUNTINHIBIT''), (''sscratch'', ''SSCRATCH''), (''sepc'', ''SEPC''),
     (''scause'', ''SCAUSE''), (''stval'', ''STVAL''), (''sip'', ''SIP''), (''stimecmp'', ''STIMECMP''),
     (''siselect'', ''SISELECT''), (''sireg'', ''SIREG''), (''sireg2'', ''SIREG2''),
     (''sireg3'', ''SIREG3''), (''sireg4'', ''SIREG4''), (''sireg5'', ''SIREG5''), (''sireg6'', ''SIREG6''),
     (''stopei'', ''STOPEI''), (''satp'', ''SATP''), (''srmcfg'', ''SRMCFG''), (''scontext'', ''SCONTEXT''),
     (''vsstatus'', ''VSSTATUS''), (''vsie'', ''VSIE''), (''vstvec'', ''VSTVEC''),
     (''vsscratch'', ''VSSCRATCH''), (''vsepc'', ''VSEPC''), (''vscause'', ''VSCAUSE''),
     (''vstval'', ''VSTVAL''), (''vsip'', ''VSIP''), (''vstimecmp'', ''VSTIMECMP''),
     (''vsiselect'', ''VSISELECT''), (''vsireg'', ''VSIREG''), (''vsireg2'', ''VSIREG2''),
     (''vsireg3'', ''VSIREG3''), (''vsireg4'', ''VSIREG4''), (''vsireg5'', ''VSIREG5''),
     (''vsireg6'', ''VSIREG6''), (''vstopei'', ''VSTOPEI''), (''vsatp'', ''VSATP''),
     (''hstatus'', ''HSTATUS''), (''hedeleg'', ''HEDELEG''), (''hideleg'', ''HIDELEG''), (''hie'', ''HIE''),
     (''htimedelta'', ''HTIMEDELTA''), (''hcounteren'', ''HCOUNTEREN''), (''hgeie'', ''HGEIE''),
     (''hvien'', ''HVIEN''), (''hvictl'', ''HVICTL''), (''henvcfg'', ''HENVCFG''),
     (''hstateen0'', ''HSTATEEN0''), (''hstateen1'', ''HSTATEEN1''), (''hstateen2'', ''HSTATEEN2''),
     (''hstateen3'', ''HSTATEEN3''), (''htval'', ''HTVAL''), (''hip'', ''HIP''), (''hvip'', ''HVIP''),
     (''hviprio1'', ''HVIPRIO1''), (''hviprio2'', ''HVIPRIO2''), (''htinst'', ''HTINST''),
     (''hgatp'', ''HGATP'')]"

definition csr_decls_2 :: "(string \<times> string) list" where
  "csr_decls_2 = [(''hcontext'', ''HCONTEXT''), (''hgeip'', ''HGEIP''), (''vstopi'', ''VSTOPI''),
     (''scountovf'', ''SCOUNTOVF''), (''stopi'', ''STOPI''), (''utvt'', ''UTVT''), (''unxti'', ''UNXTI''),
     (''uintstatus'', ''UINTSTATUS''), (''uscratchcsw'', ''USCRATCHCSW''),
     (''uscratchcswl'', ''USCRATCHCSWL''), (''stvt'', ''STVT''), (''snxti'', ''SNXTI''),
     (''sintstatus'', ''SINTSTATUS''), (''sscratchcsw'', ''SSCRATCHCSW''),
     (''sscratchcswl'', ''SSCRATCHCSWL''), (''mtvt'', ''MTVT''), (''mnxti'', ''MNXTI''),
     (''mintstatus'', ''MINTSTATUS''), (''mscratchcsw'', ''MSCRATCHCSW''),
     (''mscratchcswl'', ''MSCRATCHCSWL''), (''mstatus'', ''MSTATUS''), (''misa'', ''MISA''),
     (''medeleg'', ''MEDELEG''), (''mideleg'', ''MIDELEG''), (''mie'', ''MIE''), (''mtvec'', ''MTVEC''),
     (''mcounteren'', ''MCOUNTEREN''), (''mvien'', ''MVIEN''), (''mvip'', ''MVIP''),
     (''menvcfg'', ''MENVCFG''), (''mstateen0'', ''MSTATEEN0''), (''mstateen1'', ''MSTATEEN1''),
     (''mstateen2'', ''MSTATEEN2''), (''mstateen3'', ''MSTATEEN3''), (''mcountinhibit'', ''MCOUNTINHIBIT''),
     (''mscratch'', ''MSCRATCH''), (''mepc'', ''MEPC''), (''mcause'', ''MCAUSE''), (''mtval'', ''MTVAL''),
     (''mip'', ''MIP''), (''mtinst'', ''MTINST''), (''mtval2'', ''MTVAL2''), (''miselect'', ''MISELECT''),
     (''mireg'', ''MIREG''), (''mireg2'', ''MIREG2''), (''mireg3'', ''MIREG3''), (''mireg4'', ''MIREG4''),
     (''mireg5'', ''MIREG5''), (''mireg6'', ''MIREG6''), (''mtopei'', ''MTOPEI''),
     (''pmpcfg0'', ''PMPCFG0''), (''pmpcfg1'', ''PMPCFG1''), (''pmpcfg2'', ''PMPCFG2''),
     (''pmpcfg3'', ''PMPCFG3''), (''pmpcfg4'', ''PMPCFG4''), (''pmpcfg5'', ''PMPCFG5''),
     (''pmpcfg6'', ''PMPCFG6''), (''pmpcfg7'', ''PMPCFG7''), (''pmpcfg8'', ''PMPCFG8''),
     (''pmpcfg9'', ''PMPCFG9''), (''pmpcfg10'', ''PMPCFG10''), (''pmpcfg11'', ''PMPCFG11''),
     (''pmpcfg12'', ''PMPCFG12''), (''pmpcfg13'', ''PMPCFG13''), (''pmpcfg14'', ''PMPCFG14''),
     (''pmpcfg15'', ''PMPCFG15''), (''pmpaddr0'', ''PMPADDR0''), (''pmpaddr1'', ''PMPADDR1''),
     (''pmpaddr2'', ''PMPADDR2''), (''pmpaddr3'', ''PMPADDR3''), (''pmpaddr4'', ''PMPADDR4''),
     (''pmpaddr5'', ''PMPADDR5''), (''pmpaddr6'', ''PMPADDR6''), (''pmpaddr7'', ''PMPADDR7''),
     (''pmpaddr8'', ''PMPADDR8''), (''pmpaddr9'', ''PMPADDR9''), (''pmpaddr10'', ''PMPADDR10''),
     (''pmpaddr11'', ''PMPADDR11''), (''pmpaddr12'', ''PMPADDR12''), (''pmpaddr13'', ''PMPADDR13''),
     (''pmpaddr14'', ''PMPADDR14''), (''pmpaddr15'', ''PMPADDR15''), (''pmpaddr16'', ''PMPADDR16''),
     (''pmpaddr17'', ''PMPADDR17''), (''pmpaddr18'', ''PMPADDR18''), (''pmpaddr19'', ''PMPADDR19''),
     (''pmpaddr20'', ''PMPADDR20''), (''pmpaddr21'', ''PMPADDR21''), (''pmpaddr22'', ''PMPADDR22''),
     (''pmpaddr23'', ''PMPADDR23''), (''pmpaddr24'', ''PMPADDR24''), (''pmpaddr25'', ''PMPADDR25''),
     (''pmpaddr26'', ''PMPADDR26''), (''pmpaddr27'', ''PMPADDR27''), (''pmpaddr28'', ''PMPADDR28''),
     (''pmpaddr29'', ''PMPADDR29''), (''pmpaddr30'', ''PMPADDR30''), (''pmpaddr31'', ''PMPADDR31''),
     (''pmpaddr32'', ''PMPADDR32''), (''pmpaddr33'', ''PMPADDR33''), (''pmpaddr34'', ''PMPADDR34''),
     (''pmpaddr35'', ''PMPADDR35''), (''pmpaddr36'', ''PMPADDR36''), (''pmpaddr37'', ''PMPADDR37''),
     (''pmpaddr38'', ''PMPADDR38''), (''pmpaddr39'', ''PMPADDR39''), (''pmpaddr40'', ''PMPADDR40''),
     (''pmpaddr41'', ''PMPADDR41''), (''pmpaddr42'', ''PMPADDR42''), (''pmpaddr43'', ''PMPADDR43''),
     (''pmpaddr44'', ''PMPADDR44''), (''pmpaddr45'', ''PMPADDR45''), (''pmpaddr46'', ''PMPADDR46'')]"

definition csr_decls_3 :: "(string \<times> string) list" where
  "csr_decls_3 = [(''pmpaddr47'', ''PMPADDR47''), (''pmpaddr48'', ''PMPADDR48''),
     (''pmpaddr49'', ''PMPADDR49''), (''pmpaddr50'', ''PMPADDR50''), (''pmpaddr51'', ''PMPADDR51''),
     (''pmpaddr52'', ''PMPADDR52''), (''pmpaddr53'', ''PMPADDR53''), (''pmpaddr54'', ''PMPADDR54''),
     (''pmpaddr55'', ''PMPADDR55''), (''pmpaddr56'', ''PMPADDR56''), (''pmpaddr57'', ''PMPADDR57''),
     (''pmpaddr58'', ''PMPADDR58''), (''pmpaddr59'', ''PMPADDR59''), (''pmpaddr60'', ''PMPADDR60''),
     (''pmpaddr61'', ''PMPADDR61''), (''pmpaddr62'', ''PMPADDR62''), (''pmpaddr63'', ''PMPADDR63''),
     (''mseccfg'', ''MSECCFG''), (''tselect'', ''TSELECT''), (''tdata1'', ''TDATA1''),
     (''tdata2'', ''TDATA2''), (''tdata3'', ''TDATA3''), (''tinfo'', ''TINFO''),
     (''tcontrol'', ''TCONTROL''), (''mcontext'', ''MCONTEXT''), (''mscontext'', ''MSCONTEXT''),
     (''dcsr'', ''DCSR''), (''dpc'', ''DPC''), (''dscratch0'', ''DSCRATCH0''),
     (''dscratch1'', ''DSCRATCH1''), (''mcycle'', ''MCYCLE''), (''minstret'', ''MINSTRET''),
     (''mhpmcounter3'', ''MHPMCOUNTER3''), (''mhpmcounter4'', ''MHPMCOUNTER4''),
     (''mhpmcounter5'', ''MHPMCOUNTER5''), (''mhpmcounter6'', ''MHPMCOUNTER6''),
     (''mhpmcounter7'', ''MHPMCOUNTER7''), (''mhpmcounter8'', ''MHPMCOUNTER8''),
     (''mhpmcounter9'', ''MHPMCOUNTER9''), (''mhpmcounter10'', ''MHPMCOUNTER10''),
     (''mhpmcounter11'', ''MHPMCOUNTER11''), (''mhpmcounter12'', ''MHPMCOUNTER12''),
     (''mhpmcounter13'', ''MHPMCOUNTER13''), (''mhpmcounter14'', ''MHPMCOUNTER14''),
     (''mhpmcounter15'', ''MHPMCOUNTER15''), (''mhpmcounter16'', ''MHPMCOUNTER16''),
     (''mhpmcounter17'', ''MHPMCOUNTER17''), (''mhpmcounter18'', ''MHPMCOUNTER18''),
     (''mhpmcounter19'', ''MHPMCOUNTER19''), (''mhpmcounter20'', ''MHPMCOUNTER20''),
     (''mhpmcounter21'', ''MHPMCOUNTER21''), (''mhpmcounter22'', ''MHPMCOUNTER22''),
     (''mhpmcounter23'', ''MHPMCOUNTER23''), (''mhpmcounter24'', ''MHPMCOUNTER24''),
     (''mhpmcounter25'', ''MHPMCOUNTER25''), (''mhpmcounter26'', ''MHPMCOUNTER26''),
     (''mhpmcounter27'', ''MHPMCOUNTER27''), (''mhpmcounter28'', ''MHPMCOUNTER28''),
     (''mhpmcounter29'', ''MHPMCOUNTER29''), (''mhpmcounter30'', ''MHPMCOUNTER30''),
     (''mhpmcounter31'', ''MHPMCOUNTER31''), (''mcyclecfg'', ''MCYCLECFG''),
     (''minstretcfg'', ''MINSTRETCFG''), (''mhpmevent3'', ''MHPMEVENT3''), (''mhpmevent4'', ''MHPMEVENT4''),
     (''mhpmevent5'', ''MHPMEVENT5''), (''mhpmevent6'', ''MHPMEVENT6''), (''mhpmevent7'', ''MHPMEVENT7''),
     (''mhpmevent8'', ''MHPMEVENT8''), (''mhpmevent9'', ''MHPMEVENT9''), (''mhpmevent10'', ''MHPMEVENT10''),
     (''mhpmevent11'', ''MHPMEVENT11''), (''mhpmevent12'', ''MHPMEVENT12''),
     (''mhpmevent13'', ''MHPMEVENT13''), (''mhpmevent14'', ''MHPMEVENT14''),
     (''mhpmevent15'', ''MHPMEVENT15''), (''mhpmevent16'', ''MHPMEVENT16''),
     (''mhpmevent17'', ''MHPMEVENT17''), (''mhpmevent18'', ''MHPMEVENT18''),
     (''mhpmevent19'', ''MHPMEVENT19''), (''mhpmevent20'', ''MHPMEVENT20''),
     (''mhpmevent21'', ''MHPMEVENT21''), (''mhpmevent22'', ''MHPMEVENT22''),
     (''mhpmevent23'', ''MHPMEVENT23''), (''mhpmevent24'', ''MHPMEVENT24''),
     (''mhpmevent25'', ''MHPMEVENT25''), (''mhpmevent26'', ''MHPMEVENT26''),
     (''mhpmevent27'', ''MHPMEVENT27''), (''mhpmevent28'', ''MHPMEVENT28''),
     (''mhpmevent29'', ''MHPMEVENT29''), (''mhpmevent30'', ''MHPMEVENT30''),
     (''mhpmevent31'', ''MHPMEVENT31''), (''mvendorid'', ''MVENDORID''), (''marchid'', ''MARCHID''),
     (''mimpid'', ''MIMPID''), (''mhartid'', ''MHARTID''), (''mconfigptr'', ''MCONFIGPTR''),
     (''mtopi'', ''MTOPI''), (''sieh'', ''SIEH''), (''siph'', ''SIPH''), (''stimecmph'', ''STIMECMPH''),
     (''vsieh'', ''VSIEH''), (''vsiph'', ''VSIPH''), (''vstimecmph'', ''VSTIMECMPH''),
     (''htimedeltah'', ''HTIMEDELTAH''), (''hidelegh'', ''HIDELEGH''), (''hvienh'', ''HVIENH''),
     (''henvcfgh'', ''HENVCFGH''), (''hviph'', ''HVIPH''), (''hviprio1h'', ''HVIPRIO1H''),
     (''hviprio2h'', ''HVIPRIO2H''), (''hstateen0h'', ''HSTATEEN0H''), (''hstateen1h'', ''HSTATEEN1H'')]"

definition csr_decls_4 :: "(string \<times> string) list" where
  "csr_decls_4 = [(''hstateen2h'', ''HSTATEEN2H''), (''hstateen3h'', ''HSTATEEN3H''),
     (''cycleh'', ''CYCLEH''), (''timeh'', ''TIMEH''), (''instreth'', ''INSTRETH''),
     (''hpmcounter3h'', ''HPMCOUNTER3H''), (''hpmcounter4h'', ''HPMCOUNTER4H''),
     (''hpmcounter5h'', ''HPMCOUNTER5H''), (''hpmcounter6h'', ''HPMCOUNTER6H''),
     (''hpmcounter7h'', ''HPMCOUNTER7H''), (''hpmcounter8h'', ''HPMCOUNTER8H''),
     (''hpmcounter9h'', ''HPMCOUNTER9H''), (''hpmcounter10h'', ''HPMCOUNTER10H''),
     (''hpmcounter11h'', ''HPMCOUNTER11H''), (''hpmcounter12h'', ''HPMCOUNTER12H''),
     (''hpmcounter13h'', ''HPMCOUNTER13H''), (''hpmcounter14h'', ''HPMCOUNTER14H''),
     (''hpmcounter15h'', ''HPMCOUNTER15H''), (''hpmcounter16h'', ''HPMCOUNTER16H''),
     (''hpmcounter17h'', ''HPMCOUNTER17H''), (''hpmcounter18h'', ''HPMCOUNTER18H''),
     (''hpmcounter19h'', ''HPMCOUNTER19H''), (''hpmcounter20h'', ''HPMCOUNTER20H''),
     (''hpmcounter21h'', ''HPMCOUNTER21H''), (''hpmcounter22h'', ''HPMCOUNTER22H''),
     (''hpmcounter23h'', ''HPMCOUNTER23H''), (''hpmcounter24h'', ''HPMCOUNTER24H''),
     (''hpmcounter25h'', ''HPMCOUNTER25H''), (''hpmcounter26h'', ''HPMCOUNTER26H''),
     (''hpmcounter27h'', ''HPMCOUNTER27H''), (''hpmcounter28h'', ''HPMCOUNTER28H''),
     (''hpmcounter29h'', ''HPMCOUNTER29H''), (''hpmcounter30h'', ''HPMCOUNTER30H''),
     (''hpmcounter31h'', ''HPMCOUNTER31H''), (''mstatush'', ''MSTATUSH''), (''midelegh'', ''MIDELEGH''),
     (''mieh'', ''MIEH''), (''mvienh'', ''MVIENH''), (''mviph'', ''MVIPH''), (''menvcfgh'', ''MENVCFGH''),
     (''mstateen0h'', ''MSTATEEN0H''), (''mstateen1h'', ''MSTATEEN1H''), (''mstateen2h'', ''MSTATEEN2H''),
     (''mstateen3h'', ''MSTATEEN3H''), (''miph'', ''MIPH''), (''mcyclecfgh'', ''MCYCLECFGH''),
     (''minstretcfgh'', ''MINSTRETCFGH''), (''mhpmevent3h'', ''MHPMEVENT3H''),
     (''mhpmevent4h'', ''MHPMEVENT4H''), (''mhpmevent5h'', ''MHPMEVENT5H''),
     (''mhpmevent6h'', ''MHPMEVENT6H''), (''mhpmevent7h'', ''MHPMEVENT7H''),
     (''mhpmevent8h'', ''MHPMEVENT8H''), (''mhpmevent9h'', ''MHPMEVENT9H''),
     (''mhpmevent10h'', ''MHPMEVENT10H''), (''mhpmevent11h'', ''MHPMEVENT11H''),
     (''mhpmevent12h'', ''MHPMEVENT12H''), (''mhpmevent13h'', ''MHPMEVENT13H''),
     (''mhpmevent14h'', ''MHPMEVENT14H''), (''mhpmevent15h'', ''MHPMEVENT15H''),
     (''mhpmevent16h'', ''MHPMEVENT16H''), (''mhpmevent17h'', ''MHPMEVENT17H''),
     (''mhpmevent18h'', ''MHPMEVENT18H''), (''mhpmevent19h'', ''MHPMEVENT19H''),
     (''mhpmevent20h'', ''MHPMEVENT20H''), (''mhpmevent21h'', ''MHPMEVENT21H''),
     (''mhpmevent22h'', ''MHPMEVENT22H''), (''mhpmevent23h'', ''MHPMEVENT23H''),
     (''mhpmevent24h'', ''MHPMEVENT24H''), (''mhpmevent25h'', ''MHPMEVENT25H''),
     (''mhpmevent26h'', ''MHPMEVENT26H''), (''mhpmevent27h'', ''MHPMEVENT27H''),
     (''mhpmevent28h'', ''MHPMEVENT28H''), (''mhpmevent29h'', ''MHPMEVENT29H''),
     (''mhpmevent30h'', ''MHPMEVENT30H''), (''mhpmevent31h'', ''MHPMEVENT31H''),
     (''mnscratch'', ''MNSCRATCH''), (''mnepc'', ''MNEPC''), (''mncause'', ''MNCAUSE''),
     (''mnstatus'', ''MNSTATUS''), (''mseccfgh'', ''MSECCFGH''), (''mcycleh'', ''MCYCLEH''),
     (''minstreth'', ''MINSTRETH''), (''mhpmcounter3h'', ''MHPMCOUNTER3H''),
     (''mhpmcounter4h'', ''MHPMCOUNTER4H''), (''mhpmcounter5h'', ''MHPMCOUNTER5H''),
     (''mhpmcounter6h'', ''MHPMCOUNTER6H''), (''mhpmcounter7h'', ''MHPMCOUNTER7H''),
     (''mhpmcounter8h'', ''MHPMCOUNTER8H''), (''mhpmcounter9h'', ''MHPMCOUNTER9H''),
     (''mhpmcounter10h'', ''MHPMCOUNTER10H''), (''mhpmcounter11h'', ''MHPMCOUNTER11H''),
     (''mhpmcounter12h'', ''MHPMCOUNTER12H''), (''mhpmcounter13h'', ''MHPMCOUNTER13H''),
     (''mhpmcounter14h'', ''MHPMCOUNTER14H''), (''mhpmcounter15h'', ''MHPMCOUNTER15H''),
     (''mhpmcounter16h'', ''MHPMCOUNTER16H''), (''mhpmcounter17h'', ''MHPMCOUNTER17H''),
     (''mhpmcounter18h'', ''MHPMCOUNTER18H''), (''mhpmcounter19h'', ''MHPMCOUNTER19H''),
     (''mhpmcounter20h'', ''MHPMCOUNTER20H''), (''mhpmcounter21h'', ''MHPMCOUNTER21H''),
     (''mhpmcounter22h'', ''MHPMCOUNTER22H''), (''mhpmcounter23h'', ''MHPMCOUNTER23H''),
     (''mhpmcounter24h'', ''MHPMCOUNTER24H''), (''mhpmcounter25h'', ''MHPMCOUNTER25H''),
     (''mhpmcounter26h'', ''MHPMCOUNTER26H''), (''mhpmcounter27h'', ''MHPMCOUNTER27H''),
     (''mhpmcounter28h'', ''MHPMCOUNTER28H''), (''mhpmcounter29h'', ''MHPMCOUNTER29H''),
     (''mhpmcounter30h'', ''MHPMCOUNTER30H''), (''mhpmcounter31h'', ''MHPMCOUNTER31H'')]"

definition csr_decls :: "(string \<times> string) list" where
  "csr_decls = concat [csr_decls_1, csr_decls_2, csr_decls_3, csr_decls_4]"

section \<open>The lists and the tables\<close>

text \<open>Upper case of letters; digits and the underscore stay.\<close>

fun upper :: "char \<Rightarrow> char" where
  "upper (Char b0 b1 b2 b3 b4 b5 b6 b7) = Char b0 b1 b2 b3 b4 (b5 \<and> \<not> b6) b6 b7"

definition in_upper_case :: "(string \<times> string) list \<Rightarrow> bool" where
  "in_upper_case = list_all (\<lambda>(n, u). map upper n = u)"

lemma insn_decls_table_1: "map snd insn_decls_1 = map fst insns_1"
  by (simp add: insn_decls_1_def insns_1_def)

lemma insn_decls_upper_1: "in_upper_case insn_decls_1"
  by (simp add: in_upper_case_def insn_decls_1_def)

lemma insn_decls_table_2: "map snd insn_decls_2 = map fst insns_2"
  by (simp add: insn_decls_2_def insns_2_def)

lemma insn_decls_upper_2: "in_upper_case insn_decls_2"
  by (simp add: in_upper_case_def insn_decls_2_def)

lemma insn_decls_table_3: "map snd insn_decls_3 = map fst insns_3"
  by (simp add: insn_decls_3_def insns_3_def)

lemma insn_decls_upper_3: "in_upper_case insn_decls_3"
  by (simp add: in_upper_case_def insn_decls_3_def)

lemma insn_decls_table_4: "map snd insn_decls_4 = map fst insns_4"
  by (simp add: insn_decls_4_def insns_4_def)

lemma insn_decls_upper_4: "in_upper_case insn_decls_4"
  by (simp add: in_upper_case_def insn_decls_4_def)

lemma insn_decls_table_5: "map snd insn_decls_5 = map fst insns_5"
  by (simp add: insn_decls_5_def insns_5_def)

lemma insn_decls_upper_5: "in_upper_case insn_decls_5"
  by (simp add: in_upper_case_def insn_decls_5_def)

lemma insn_decls_table_6: "map snd insn_decls_6 = map fst insns_6"
  by (simp add: insn_decls_6_def insns_6_def)

lemma insn_decls_upper_6: "in_upper_case insn_decls_6"
  by (simp add: in_upper_case_def insn_decls_6_def)

lemma insn_decls_table_7: "map snd insn_decls_7 = map fst insns_7"
  by (simp add: insn_decls_7_def insns_7_def)

lemma insn_decls_upper_7: "in_upper_case insn_decls_7"
  by (simp add: in_upper_case_def insn_decls_7_def)

lemma insn_decls_table_8: "map snd insn_decls_8 = map fst insns_8"
  by (simp add: insn_decls_8_def insns_8_def)

lemma insn_decls_upper_8: "in_upper_case insn_decls_8"
  by (simp add: in_upper_case_def insn_decls_8_def)

lemma insn_decls_table_9: "map snd insn_decls_9 = map fst insns_9"
  by (simp add: insn_decls_9_def insns_9_def)

lemma insn_decls_upper_9: "in_upper_case insn_decls_9"
  by (simp add: in_upper_case_def insn_decls_9_def)

lemma insn_decls_table_10: "map snd insn_decls_10 = map fst insns_10"
  by (simp add: insn_decls_10_def insns_10_def)

lemma insn_decls_upper_10: "in_upper_case insn_decls_10"
  by (simp add: in_upper_case_def insn_decls_10_def)

lemma insn_decls_table_11: "map snd insn_decls_11 = map fst insns_11"
  by (simp add: insn_decls_11_def insns_11_def)

lemma insn_decls_upper_11: "in_upper_case insn_decls_11"
  by (simp add: in_upper_case_def insn_decls_11_def)

lemma insn_decls_table_12: "map snd insn_decls_12 = map fst insns_12"
  by (simp add: insn_decls_12_def insns_12_def)

lemma insn_decls_upper_12: "in_upper_case insn_decls_12"
  by (simp add: in_upper_case_def insn_decls_12_def)

lemma insn_decls_table_13: "map snd insn_decls_13 = map fst insns_13"
  by (simp add: insn_decls_13_def insns_13_def)

lemma insn_decls_upper_13: "in_upper_case insn_decls_13"
  by (simp add: in_upper_case_def insn_decls_13_def)

lemma csr_decls_table_1: "map snd csr_decls_1 = map fst csrs_1"
  by (simp add: csr_decls_1_def csrs_1_def)

lemma csr_decls_upper_1: "in_upper_case csr_decls_1"
  by (simp add: in_upper_case_def csr_decls_1_def)

lemma csr_decls_table_2: "map snd csr_decls_2 = map fst csrs_2"
  by (simp add: csr_decls_2_def csrs_2_def)

lemma csr_decls_upper_2: "in_upper_case csr_decls_2"
  by (simp add: in_upper_case_def csr_decls_2_def)

lemma csr_decls_table_3: "map snd csr_decls_3 = map fst csrs_3"
  by (simp add: csr_decls_3_def csrs_3_def)

lemma csr_decls_upper_3: "in_upper_case csr_decls_3"
  by (simp add: in_upper_case_def csr_decls_3_def)

lemma csr_decls_table_4: "map snd csr_decls_4 = map fst csrs_4"
  by (simp add: csr_decls_4_def csrs_4_def)

lemma csr_decls_upper_4: "in_upper_case csr_decls_4"
  by (simp add: in_upper_case_def csr_decls_4_def)

lemmas decls_table = insn_decls_table_1 insn_decls_table_2 insn_decls_table_3 insn_decls_table_4 insn_decls_table_5 insn_decls_table_6 insn_decls_table_7 insn_decls_table_8 insn_decls_table_9 insn_decls_table_10 insn_decls_table_11 insn_decls_table_12 insn_decls_table_13
  csr_decls_table_1 csr_decls_table_2 csr_decls_table_3 csr_decls_table_4

lemmas decls_upper = insn_decls_upper_1 insn_decls_upper_2 insn_decls_upper_3 insn_decls_upper_4 insn_decls_upper_5 insn_decls_upper_6 insn_decls_upper_7 insn_decls_upper_8 insn_decls_upper_9 insn_decls_upper_10 insn_decls_upper_11 insn_decls_upper_12 insn_decls_upper_13
  csr_decls_upper_1 csr_decls_upper_2 csr_decls_upper_3 csr_decls_upper_4

lemma declarations_complete:
  "map snd insn_decls = map fst riscv_insns" "map snd csr_decls = map fst csr_table"
  "in_upper_case insn_decls" "in_upper_case csr_decls"
proof -
  show "map snd insn_decls = map fst riscv_insns" "map snd csr_decls = map fst csr_table"
    by (simp_all add: insn_decls_def riscv_insns_def csr_decls_def csr_table_def decls_table)
  show "in_upper_case insn_decls" "in_upper_case csr_decls"
    using decls_upper by (simp_all add: insn_decls_def csr_decls_def in_upper_case_def)
qed

text \<open>So every entry of the tables is declared, under its own name.\<close>

lemma insn_declared:
  assumes "(u, m, k) \<in> set riscv_insns"
  shows "\<exists>n. (n, u) \<in> set insn_decls \<and> map upper n = u"
proof -
  have "u \<in> set (map snd insn_decls)" using assms unfolding declarations_complete(1) by force
  then obtain n where "(n, u) \<in> set insn_decls" by auto
  with declarations_complete(3) show ?thesis by (auto simp: in_upper_case_def list_all_iff)
qed

end
