(* ===== verification/Pk_Interface.thy ===== *)
theory Pk_Interface
  imports Machine_Mode Syscall
begin

text \<open>
  What the proxy kernel headers say of the interfaces to programs and to the host: the numbers and the
  error convention of \<^verbatim>\<open>syscall.h\<close>, and the structs of \<^verbatim>\<open>pk.h\<close>, \<^verbatim>\<open>boot.h\<close>, \<^verbatim>\<open>frontend.h\<close> and \<^verbatim>\<open>fdt.h\<close>
  that cross them.
\<close>

section \<open>syscall.h\<close>

definition pk_syscalls :: "(string \<times> nat) list" where
  "pk_syscalls = [(''SYS_exit'', 93), (''SYS_exit_group'', 94), (''SYS_getpid'', 172), (''SYS_kill'', 129),
     (''SYS_tgkill'', 131), (''SYS_read'', 63), (''SYS_write'', 64), (''SYS_openat'', 56),
     (''SYS_close'', 57), (''SYS_lseek'', 62), (''SYS_brk'', 214), (''SYS_linkat'', 37),
     (''SYS_unlinkat'', 35), (''SYS_mkdirat'', 34), (''SYS_renameat'', 38), (''SYS_chdir'', 49),
     (''SYS_getcwd'', 17), (''SYS_fstat'', 80), (''SYS_fstatat'', 79), (''SYS_faccessat'', 48),
     (''SYS_pread'', 67), (''SYS_pwrite'', 68), (''SYS_uname'', 160), (''SYS_getuid'', 174),
     (''SYS_geteuid'', 175), (''SYS_getgid'', 176), (''SYS_getegid'', 177), (''SYS_gettid'', 178),
     (''SYS_sysinfo'', 179), (''SYS_mmap'', 222), (''SYS_munmap'', 215), (''SYS_mremap'', 216),
     (''SYS_mprotect'', 226), (''SYS_prlimit64'', 261), (''SYS_getmainvars'', 2011),
     (''SYS_rt_sigaction'', 134), (''SYS_writev'', 66), (''SYS_gettimeofday'', 169), (''SYS_times'', 153),
     (''SYS_fcntl'', 25), (''SYS_ftruncate'', 46), (''SYS_getdents'', 61), (''SYS_dup'', 23),
     (''SYS_dup3'', 24), (''SYS_readlinkat'', 78), (''SYS_rt_sigprocmask'', 135), (''SYS_ioctl'', 29),
     (''SYS_getrlimit'', 163), (''SYS_setrlimit'', 164), (''SYS_getrusage'', 165),
     (''SYS_clock_gettime'', 113), (''SYS_set_tid_address'', 96), (''SYS_set_robust_list'', 99),
     (''SYS_madvise'', 233), (''SYS_statx'', 291), (''SYS_readv'', 65), (''SYS_riscv_hwprobe'', 258),
     (''SYS_futex'', 98), (''SYS_getrandom'', 278)]"

definition OLD_SYSCALL_THRESHOLD :: nat where "OLD_SYSCALL_THRESHOLD = 1024"

definition old_syscalls :: "(string \<times> nat) list" where
  "old_syscalls = [(''SYS_open'', 1024), (''SYS_link'', 1025), (''SYS_unlink'', 1026),
     (''SYS_mkdir'', 1030), (''SYS_access'', 1033), (''SYS_stat'', 1038), (''SYS_lstat'', 1039),
     (''SYS_time'', 1062)]"

definition IS_ERR_VALUE :: "u64 \<Rightarrow> bool" where "IS_ERR_VALUE x \<longleftrightarrow> x \<ge> - 4096"
definition ERR_PTR :: "u64 \<Rightarrow> addr" where "ERR_PTR x = x"
definition PTR_ERR :: "addr \<Rightarrow> u64" where "PTR_ERR x = x"

section \<open>Structs\<close>

definition trapframe_t :: "field list" where
  "trapframe_t = [(''gpr'', 8, 32), (''status'', 8, 1), (''epc'', 8, 1), (''badvaddr'', 8, 1),
     (''cause'', 8, 1)]"

definition elf_info :: "field list" where
  "elf_info = [(''phent'', 4, 1), (''phnum'', 4, 1), (''is_supervisor'', 4, 1), (''phdr'', 8, 1),
     (''phdr_size'', 8, 1), (''bias'', 8, 1), (''entry'', 8, 1), (''brk_min'', 8, 1), (''brk'', 8, 1),
     (''brk_max'', 8, 1), (''mmap_max'', 8, 1), (''stack_top'', 8, 1), (''vm_alloc_guess'', 8, 1),
     (''time0'', 8, 1), (''cycle0'', 8, 1), (''instret0'', 8, 1)]"

definition frontend_stat :: "field list" where
  "frontend_stat = [(''dev'', 8, 1), (''ino'', 8, 1), (''mode'', 4, 1), (''nlink'', 4, 1), (''uid'', 4, 1),
     (''gid'', 4, 1), (''rdev'', 8, 1), (''__pad1'', 8, 1), (''size'', 8, 1), (''blksize'', 4, 1),
     (''__pad2'', 4, 1), (''blocks'', 8, 1), (''atime'', 8, 1), (''__pad3'', 8, 1), (''mtime'', 8, 1),
     (''__pad4'', 8, 1), (''ctime'', 8, 1), (''__pad5'', 8, 1), (''__unused4'', 4, 1),
     (''__unused5'', 4, 1)]"

definition fdt_header :: "field list" where
  "fdt_header = [(''magic'', 4, 1), (''totalsize'', 4, 1), (''off_dt_struct'', 4, 1),
     (''off_dt_strings'', 4, 1), (''off_mem_rsvmap'', 4, 1), (''version'', 4, 1),
     (''last_comp_version'', 4, 1), (''boot_cpuid_phys'', 4, 1), (''size_dt_strings'', 4, 1),
     (''size_dt_struct'', 4, 1)]"

definition fdt_scan_node :: "field list" where
  "fdt_scan_node = [(''parent'', 8, 1), (''name'', 8, 1), (''address_cells'', 4, 1),
     (''size_cells'', 4, 1)]"

definition fdt_scan_prop :: "field list" where
  "fdt_scan_prop = [(''node'', 8, 1), (''name'', 8, 1), (''value'', 8, 1), (''len'', 4, 1)]"

section \<open>Facts\<close>

text \<open>
  Every number once; the old numbers are those from the threshold on, but for one of the
  new ones.
\<close>

lemma pk_syscall_numbers:
  "distinct (map snd (pk_syscalls @ old_syscalls))"
  "list_all (\<lambda>(_, n). OLD_SYSCALL_THRESHOLD \<le> n) old_syscalls"
  "filter (\<lambda>(_, n). OLD_SYSCALL_THRESHOLD \<le> n) pk_syscalls = [(''SYS_getmainvars'', 2011)]"
  by (simp_all add: pk_syscalls_def old_syscalls_def OLD_SYSCALL_THRESHOLD_def)

text \<open>An error value is the negation of a number from 1 to 4096; the kernel's results follow this.\<close>

lemma err_value: "IS_ERR_VALUE x \<longleftrightarrow> (\<exists>e. 1 \<le> e \<and> e \<le> 4096 \<and> x = - of_nat e)"
proof
  assume "IS_ERR_VALUE x"
  then have le: "18446744073709547520 \<le> unat x" by (simp add: IS_ERR_VALUE_def word_le_nat_alt)
  let ?e = "2 ^ 64 - unat x"
  have "(of_nat ?e :: u64) = of_nat (2 ^ 64) - of_nat (unat x)"
    using unat_less_2p64 [of x] by (intro of_nat_diff) (simp del: unat_less_2p64)
  then have "x = - of_nat ?e" by simp
  moreover have "1 \<le> ?e" "?e \<le> 4096" using le unat_less_2p64 [of x] by (simp_all del: unat_less_2p64)
  ultimately show "\<exists>e. 1 \<le> e \<and> e \<le> 4096 \<and> x = - of_nat e" by blast
next
  assume "\<exists>e. 1 \<le> e \<and> e \<le> 4096 \<and> x = - of_nat e"
  then obtain e where e: "1 \<le> e" "e \<le> 4096" "x = - of_nat e" by blast
  then have "(of_nat (2 ^ 64 - e) :: u64) = of_nat (2 ^ 64) - of_nat e" by (intro of_nat_diff) simp
  moreover have "(of_nat (2 ^ 64) :: u64) = 0" by simp
  ultimately have "x = of_nat (2 ^ 64 - e)" unfolding e(3) by (metis diff_0)
  then have "unat x = unat (of_nat (2 ^ 64 - e) :: u64)" by (rule arg_cong)
  also have "\<dots> = 2 ^ 64 - e" using e by (intro unat_of_nat64) simp
  finally have "unat x = 2 ^ 64 - e" .
  then show "IS_ERR_VALUE x" using e by (simp add: IS_ERR_VALUE_def word_le_nat_alt)
qed

lemma pointer_roundtrip: "PTR_ERR (ERR_PTR x) = x"
  by (simp add: PTR_ERR_def ERR_PTR_def)

lemma kernel_errors: "IS_ERR_VALUE kErrBadFd" "IS_ERR_VALUE kErrBadPtr" "IS_ERR_VALUE kErrUnknownSyscall"
  by (simp_all add: IS_ERR_VALUE_def kErrBadFd_def kErrBadPtr_def kErrUnknownSyscall_def)

text \<open>The structs shared with the host and the boot loader have no hidden padding; \<^verbatim>\<open>elf_info\<close> has.\<close>

lemma struct_sizes:
  "c_sizeof trapframe_t = 288" "c_sizeof elf_info = 120" "c_sizeof frontend_stat = 128"
  "c_sizeof fdt_header = 40" "c_sizeof fdt_scan_node = 24" "c_sizeof fdt_scan_prop = 32"
  by (simp_all add: trapframe_t_def elf_info_def frontend_stat_def fdt_header_def fdt_scan_node_def fdt_scan_prop_def
      c_sizeof_def c_align_def c_aligned_def)

lemma interface_structs: "packed trapframe_t" "packed frontend_stat" "packed fdt_header" "packed fdt_scan_node" "\<not> packed elf_info"
  unfolding packed_def struct_sizes
  by (simp_all add: trapframe_t_def elf_info_def frontend_stat_def fdt_header_def fdt_scan_node_def)

end
