(* ===== verification/Spec2Isabelle.thy ===== *)
theory Spec2Isabelle
  imports Intrusive_Queue Bitmap Sv39_Mmu Reset Agreement Trap_Path Wide_Mult Word_Order Fp_Control
    Fp_Registers Counter64 Spinlock Unpriv_Memory Declarations Pk_Interface
begin

text \<open>
  A model of a small RISC-V (RV64, machine mode) kernel for the QEMU virt machine and of the
  headers of the proxy kernel it is shipped with, as HOL functions, with the theorems that make
  them correct. Paths are relative to the root of the repository.

  \<^bold>\<open>The program.\<close> \<^verbatim>\<open>boot/entry.S\<close> clears the bss section and calls \<^verbatim>\<open>kmain\<close>
  (\<^verbatim>\<open>kernel/kernel.cpp\<close>), which initialises the physical page allocator (\<^verbatim>\<open>kernel/mm/pmm\<close>), builds
  the identity map of the kernel in Sv39 page tables (\<^verbatim>\<open>kernel/mm/kernel_address_space\<close>,
  \<^verbatim>\<open>kernel/arch/riscv/mm\<close>), starts the timer (\<^verbatim>\<open>kernel/time\<close>), creates two tasks
  (\<^verbatim>\<open>kernel/core/task\<close>) and enters the scheduler (\<^verbatim>\<open>kernel/core/sched\<close>). Tasks yield and exit
  cooperatively through the functions behind the system calls (\<^verbatim>\<open>kernel/arch/riscv/syscall\<close>); the
  ready queue is an intrusive list (\<^verbatim>\<open>kernel/lib/ds\<close>) whose nodes are fields of the tasks. Traps
  enter at \<^verbatim>\<open>trap_entry.S\<close>, which calls \<^verbatim>\<open>trap_handle\<close> with the registers in a frame on the stack.
  Everything prints through the polled UART (\<^verbatim>\<open>drivers/uart\<close>).

  \<^bold>\<open>Conventions.\<close> A function of the code is a function over an explicit state, of which the
  components' records are parts. \<open>None\<close> is undefined behaviour (an access out of bounds, a null or
  dead pointer) or a loop that never ends; a theorem that a call gives \<open>Some\<close> is therefore also one that it
  stays in bounds and returns. Machine integers are words: \<^verbatim>\<open>size_t\<close> and \<^verbatim>\<open>uintptr_t\<close> have 64
  bits, the \<^verbatim>\<open>uint_fast\<close> types of 8 to 32 bits have 32 (newlib's choice). Loops are
  \<open>partial_function (option)\<close> (\<open>for_loop\<close> of Prelude and the polling loops of the UART), so no fuel
  bounds them; their rules prove total correctness. The one bound is that of Demo: \<open>run\<close> takes a list of
  moments, one for every turn of a task, and theorems hold for every list; 25 turns reach the state in which
  only the idle task is left. Devices,
  linker symbols, the memory of programs, the address translation of the processor and the compiled
  code around the assembler are parameters, with their documented behaviour as hypotheses
  (\<open>responsive\<close>, \<open>symbols_ok\<close>, \<open>statics_linked\<close>, \<open>link_layout\<close>, \<open>word_translation\<close>, \<open>calling_convention\<close>).

  \<^bold>\<open>The theories.\<close>
  \<^item> Prelude: words, arrays, the for loop. Bit_Array: arrays of words as arrays of bits.
  \<^item> Intrusive_List, Intrusive_Queue, Bitmap (\<^verbatim>\<open>kernel/lib/ds\<close>): \<open>node_store\<close> is the memory of the
    links. Any legal sequence of calls refines the abstract sequence; the queue is an instance of the
    locale \<open>fifo\<close>; searching gives the lowest clear bit.
  \<^item> Page, Memmap (\<^verbatim>\<open>kernel/mm/page.h\<close>, \<^verbatim>\<open>platform/\<close>, \<^verbatim>\<open>scripts/linker.ld\<close>): page arithmetic with its
    wrap-around; the symbols a link produces.
  \<^item> Pmm, Page_Allocator (\<^verbatim>\<open>kernel/mm/pmm.cpp\<close>, \<^verbatim>\<open>pmm_platform.cpp\<close>): the record \<open>pmm\<close> holds the bitmap
    and the counters. The set of free pages after initialisation, every branch of allocating and
    freeing, exclusiveness (locale \<open>page_allocator\<close>), and the page that is freed in place of another.
  \<^item> Sv39, PageTable, Address_Space (\<^verbatim>\<open>sv39.h\<close>, \<^verbatim>\<open>page_table.cpp\<close>, \<^verbatim>\<open>mmu.cpp\<close>, \<^verbatim>\<open>kernel_address_space.cpp\<close>):
    memory as a map from addresses to entries. Table walks stay in the tree of allocated tables and
    write nothing else, mapping changes exactly one page (locale \<open>address_space\<close>), the map after boot is the identity on
    DRAM and the devices and undefined elsewhere. Sv39_Mmu: the documented translation of the
    processor as a reference, its agreement with \<^verbatim>\<open>virt_to_phys\<close> on every tree these operations build,
    and what each privilege mode sees after boot.
  \<^item> Csr, Uart, Timer (\<^verbatim>\<open>platform/riscv.h\<close>, \<^verbatim>\<open>drivers/uart\<close>, \<^verbatim>\<open>clint_timer.h\<close>, \<^verbatim>\<open>kernel/time\<close>): the log of
    device writes is the specification; printing is an instance of the locale \<open>char_device\<close>, once
    for the raw transmitter, once for the console with line ends, once lifted to the kernel state.
  \<^item> Task, Scheduler, Syscall, Programs, Multitasking (\<^verbatim>\<open>kernel/core\<close>, \<^verbatim>\<open>switch.S\<close>, \<^verbatim>\<open>kernel/arch/riscv/syscall\<close>,
    the task bodies of \<^verbatim>\<open>kernel/kernel.cpp\<close>): the
    record \<open>kernel\<close> holds the task table, the links and the live registers; \<open>sched_rep\<close> relates it to a
    running slot and a list of ready slots. Rescheduling refines one step of round robin; in every
    reachable state one task runs, the idle task taking the steps of its own code and the others any;
    yields are fair; a yielding task gets its registers back.
  \<^item> Trap_Entry, Trap, Trap_Path (\<^verbatim>\<open>kernel/arch/riscv/trap\<close>): the assembler as a list of instructions over
    registers and memory; the handler; and both composed: what the interrupted program sees.
  \<^item> Entry, Boot, Demo, Reset (\<^verbatim>\<open>boot/entry.S\<close>, \<^verbatim>\<open>kernel/kernel.cpp\<close>, \<^verbatim>\<open>kernel/core/init\<close>): from the first
    instruction to the complete output of the system, up to the first timer interrupt, which \<^verbatim>\<open>kmain\<close> arms
    and which leaves the kernel, since mtvec is never written: Demo lets the interrupt come at any time
    after the deadline and within any turn. Reset reads the static objects of the kernel from
    the bytes the entry code leaves (Byte_Memory) and composes the three others.
  \<^item> Insn_Table, Encoding, Declarations (\<^verbatim>\<open>encoding.h\<close> of \<^verbatim>\<open>tools/riscv64-pk/include/riscv-pk\<close>): all
    instructions, registers, fields and declarations, and their consistency. Agreement: the
    kernel's own constants are those of this header.
  \<^item> Riscv_Pk, Machine_Mode, Pk_Interface, Spinlock, Unpriv_Memory (\<^verbatim>\<open>bits.h\<close>, \<^verbatim>\<open>emulation.h\<close>, \<^verbatim>\<open>vm.h\<close>, \<^verbatim>\<open>mmap.h\<close>,
    \<^verbatim>\<open>pk.h\<close>, \<^verbatim>\<open>htif.h\<close>, \<^verbatim>\<open>mtrap.h\<close>, \<^verbatim>\<open>elf.h\<close>, \<^verbatim>\<open>syscall.h\<close>, \<^verbatim>\<open>atomic.h\<close>, \<^verbatim>\<open>unprivileged_memory.h\<close>): the inline functions and
    macros; the layout of structs by the rules of the C ABI; the place of the hart-local storage; mutual exclusion of the spin lock in every
    interleaving of the harts (a step relation, sequentially consistent memory); the fetch of the
    trapped instruction.
  \<^item> Wide_Arith, Wide_Mult, Float_Format (\<^verbatim>\<open>primitives.h\<close>, \<^verbatim>\<open>primitiveTypes.h\<close>, \<^verbatim>\<open>opts-GCC.h\<close>,
    \<^verbatim>\<open>internals.h\<close>, \<^verbatim>\<open>specialize.h\<close>, \<^verbatim>\<open>softfloat.h\<close>, \<^verbatim>\<open>fp_emulation.h\<close>): the inline part of SoftFloat. Wide
    arithmetic is exact, shifts jam, fields round-trip, NaN conversions raise the right flags. Word_Order:
    the index macros for both word orders select the same words.
  \<^item> Fp_Control, Fp_Registers (\<^verbatim>\<open>fp_emulation.h\<close>): the machine with floating point registers beside the one
    without. Both control registers are instances of the locale \<open>fp_control\<close>, so no sequence of operations
    tells them apart; operands and results follow the register numbers (locale \<open>fp_file\<close>).
  \<^item> Counter64 (\<^verbatim>\<open>pk.h\<close>): the loops that read a 64-bit counter by halves return a value the
    counter had during the call, within two turns.

  \<^bold>\<open>What does not hold of the code\<close> is proved as well: the wrong page freed by \<open>free_page\<close>
  (Page_Allocator), the range that wraps and is reported as mapped (Address_Space), the task lost by a
  rescheduling without a current task (Scheduler), the idle task that never gives way (Multitasking),
  the idle stack that is smaller than a trap frame (Trap_Entry), the trap vector that is never
  installed (Boot), the breakpoint handler that skips four bytes of a two-byte instruction
  (Agreement), paging that is enabled without effect on the machine mode the kernel stays in
  (Sv39_Mmu), the flag raised for every NaN (Float_Format), \<^verbatim>\<open>xlen\<close> that is always 32 (Machine_Mode).

  \<^bold>\<open>Not modelled.\<close> The tests and their stubs; the device tree and the build files; functions that the
  proxy kernel headers only declare, since their code is in prebuilt libraries (SoftFloat's arithmetic
  and multi-word functions, the routines behind the floating point registers, which are parameters, the
  boot loader, file and memory system calls); the branches of those headers for 32-bit registers and for
  big-endian machines, except the counters and the index macros;
  caches, instruction timing and relaxed memory ordering; the kernel state left by an interrupt in the
  middle of a kernel operation (a step of Multitasking is a whole operation of a task or a whole
  interrupt; in Demo such an interrupt ends the run, with the output up to it); what is at the reset
  value of mtvec; interrupts other than the timer's, which the kernel enables in no device.
\<close>

end
